(* ===== verification/Prelude.thy ===== *)
theory Prelude
  imports Main "HOL-Library.Word"
begin

text \<open>
  Shared vocabulary of the development: the machine integers of the Rust
  sources with their saturating and checked arithmetic, byte strings, results
  as sums, and the collections of simplification rules the component theories
  fill.  Nothing here is specific to one component.
\<close>

section \<open>Rule collections\<close>

named_theorems graph_defs \<open>definitions of the job-state graphs\<close>
named_theorems decide_defs \<open>definitions of the reducer's handlers\<close>
named_theorems codec_simps \<open>definitions of the database codecs\<close>
named_theorems store_defs \<open>definitions of the durable store's operations\<close>
named_theorems u64_simps \<open>rewriting 64-bit arithmetic to natural numbers\<close>

section \<open>Machine integers\<close>

type_synonym u8 = "8 word"
type_synonym u16 = "16 word"
type_synonym u32 = "32 word"
type_synonym u64 = "64 word"

definition u64_max :: nat where
  "u64_max = 2 ^ 64 - 1"

definition i64_max :: nat where
  "i64_max = 2 ^ 63 - 1"

text \<open>Rust's \<open>saturating_add\<close>, \<open>checked_add\<close> and \<open>saturating_sub\<close> on \<open>u64\<close>.\<close>

definition saturating_add :: "u64 \<Rightarrow> u64 \<Rightarrow> u64" where
  "saturating_add a b = (if unat a + unat b \<le> u64_max then a + b else of_nat u64_max)"

definition checked_add :: "u64 \<Rightarrow> u64 \<Rightarrow> u64 option" where
  "checked_add a b = (if unat a + unat b \<le> u64_max then Some (a + b) else None)"

definition saturating_sub :: "u64 \<Rightarrow> u64 \<Rightarrow> u64" where
  "saturating_sub a b = (if b \<le> a then a - b else 0)"

text \<open>
  The natural-number bounds are for proofs; evaluation compares integers.
\<close>

lemma uint_le_nat: "uint (a :: u64) \<le> int n \<longleftrightarrow> unat a \<le> n"
  unfolding uint_nat by linarith

lemma int_i64_max [code_unfold]: "int i64_max = 9223372036854775807"
  by (simp add: i64_max_def)

lemma int_u64_max: "int u64_max = 18446744073709551615"
  by (simp add: u64_max_def)

lemma unat_add_le_int: "unat (a :: u64) + unat b \<le> n \<longleftrightarrow> uint a + uint b \<le> int n"
  unfolding uint_nat by linarith

lemma checked_add_code [code]:
  "checked_add a b = (if uint a + uint b \<le> 18446744073709551615 then Some (a + b) else None)"
  unfolding checked_add_def unat_add_le_int int_u64_max ..

lemma saturating_add_code [code]:
  "saturating_add a b = (if uint a + uint b \<le> 18446744073709551615 then a + b else - 1)"
proof -
  have "(of_nat u64_max :: u64) = - 1" by (simp add: u64_max_def)
  then show ?thesis unfolding saturating_add_def unat_add_le_int int_u64_max by simp
qed

lemma unat_u64_bound: "unat (a :: u64) \<le> u64_max"
  using unsigned_less [of a, where ?'a = nat] by (simp add: u64_max_def)

lemma unat_add_u64: "unat a + unat b \<le> u64_max \<Longrightarrow> unat (a + b :: u64) = unat a + unat b"
  by (subst unat_add_lem [THEN iffD1]) (simp_all add: u64_max_def)

lemma unat_u64_max [simp]: "unat (of_nat u64_max :: u64) = u64_max"
  by (simp add: u64_max_def unat_of_nat)

lemma unat_saturating_add [u64_simps]:
  "unat (saturating_add a b) = min (unat a + unat b) u64_max"
  by (simp add: saturating_add_def unat_add_u64)

lemma unat_saturating_sub [u64_simps]: "unat (saturating_sub a b) = unat a - unat b"
  by (simp add: saturating_sub_def unat_sub word_le_nat_alt)

lemma checked_add_Some [u64_simps]:
  "checked_add a b = Some c \<Longrightarrow> unat c = unat a + unat b"
  by (auto simp: checked_add_def unat_add_u64 split: if_splits)

lemma checked_add_None_iff: "checked_add a b = None \<longleftrightarrow> u64_max < unat a + unat b"
  by (simp add: checked_add_def not_le)

lemma saturating_add_mono: "a \<le> a' \<Longrightarrow> b \<le> b' \<Longrightarrow> saturating_add a b \<le> saturating_add a' b'"
  by (simp add: word_le_nat_alt u64_simps min_le_iff_disj)

lemma saturating_add_0 [simp]: "saturating_add a 0 = a" "saturating_add 0 a = a"
  using unat_u64_bound [of a] by (simp_all add: saturating_add_def)

text \<open>
  The next version of a row or an aggregate: \<open>v + 1\<close> is a strict increase
  exactly below the top of the range.
\<close>

lemma u64_succ_greater: "unat v < u64_max \<Longrightarrow> v < (v + 1 :: u64)"
  by (simp add: word_less_nat_alt unat_add_u64)

lemma unat_succ_u64: "unat (v :: u64) < u64_max \<Longrightarrow> unat (v + 1) = Suc (unat v)"
  by (simp add: unat_add_u64)

section \<open>Results\<close>

text \<open>
  A fallible operation returns \<open>'e + 'a\<close> with \<^const>\<open>Inl\<close> for the error.
  \<open>result_bind\<close> is the \<open>?\<close> operator of the sources.
\<close>

fun result_bind :: "'e + 'a \<Rightarrow> ('a \<Rightarrow> 'e + 'b) \<Rightarrow> 'e + 'b" where
  "result_bind (Inl e) f = Inl e"
| "result_bind (Inr x) f = f x"

lemma result_bind_Inr_iff:
  "result_bind r f = Inr y \<longleftrightarrow> (\<exists>x. r = Inr x \<and> f x = Inr y)"
  by (cases r) auto

lemma case_option_Inr_iff:
  "(case m of None \<Rightarrow> a | Some x \<Rightarrow> f x) = Inr y \<longleftrightarrow>
   m = None \<and> a = Inr y \<or> (\<exists>x. m = Some x \<and> f x = Inr y)"
  by (cases m) auto

lemma if_Inr_iff: "(if b then Inl e else r) = Inr y \<longleftrightarrow> \<not> b \<and> r = Inr y"
  by auto

lemmas result_Inr_iffs = result_bind_Inr_iff case_option_Inr_iff if_Inr_iff

text \<open>\<open>collect::<Result<Vec<_>, _>>()\<close>: the first error wins.\<close>

fun result_collect :: "('a \<Rightarrow> 'e + 'b) \<Rightarrow> 'a list \<Rightarrow> 'e + 'b list" where
  "result_collect f [] = Inr []"
| "result_collect f (x # xs) =
     (case f x of
        Inl e \<Rightarrow> Inl e
      | Inr y \<Rightarrow> (case result_collect f xs of Inl e \<Rightarrow> Inl e | Inr ys \<Rightarrow> Inr (y # ys)))"

lemma result_collect_Inr_iff:
  "result_collect f xs = Inr ys \<longleftrightarrow> list_all2 (\<lambda>x y. f x = Inr y) xs ys"
proof (induction xs arbitrary: ys)
  case Nil
  then show ?case by auto
next
  case (Cons x xs)
  show ?case
  proof (cases ys)
    case Nil
    then show ?thesis by (auto split: sum.splits)
  next
    case (Cons y ys')
    then show ?thesis
      using Cons.IH [of ys'] by (auto split: sum.splits)
  qed
qed

lemma result_collect_ok:
  "(\<And>x. x \<in> set xs \<Longrightarrow> f x = Inr (g x)) \<Longrightarrow> result_collect f xs = Inr (map g xs)"
  by (induction xs) auto

section \<open>Byte strings\<close>

text \<open>\<open>str::strip_prefix\<close>.\<close>

fun strip_prefix :: "string \<Rightarrow> string \<Rightarrow> string option" where
  "strip_prefix [] s = Some s"
| "strip_prefix (p # ps) [] = None"
| "strip_prefix (p # ps) (c # cs) = (if p = c then strip_prefix ps cs else None)"

lemma strip_prefix_append [simp]: "strip_prefix p (p @ s) = Some s"
  by (induction p) auto

lemma strip_prefix_Some_iff: "strip_prefix p s = Some r \<longleftrightarrow> s = p @ r"
  by (induction p s rule: strip_prefix.induct) auto

section \<open>Lists\<close>

lemma map_of_filter_fst:
  "map_of (filter (\<lambda>p. fst p \<noteq> k) xs) = (map_of xs)(k := None)"
  by (induction xs) (auto simp: fun_eq_iff)

lemma nth_eq_of_distinct_map:
  assumes "distinct (map f xs)" "i < length xs" "j < length xs" "f (xs ! i) = f (xs ! j)"
  shows "i = j"
  using assms nth_eq_iff_index_eq [of "map f xs" i j] by simp

end
