(* ===== verification/Text.thy ===== *)
theory Text
  imports Prelude
begin

text \<open>
  The string operations of the Rust standard library that the sources use, on
  byte strings: ASCII case mapping, splitting, decimal and hexadecimal
  rendering and parsing, and the blankness test \<open>trim().is_empty()\<close>.
\<close>

section \<open>ASCII case\<close>

definition to_ascii_upper :: "char \<Rightarrow> char" where
  "to_ascii_upper c =
    (let n = (of_char c :: nat) in if 97 \<le> n \<and> n \<le> 122 then char_of (n - 32) else c)"

definition to_ascii_lower :: "char \<Rightarrow> char" where
  "to_ascii_lower c =
    (let n = (of_char c :: nat) in if 65 \<le> n \<and> n \<le> 90 then char_of (n + 32) else c)"

definition ascii_uppercase :: "string \<Rightarrow> string" where
  "ascii_uppercase s = map to_ascii_upper s"

definition ascii_lowercase :: "string \<Rightarrow> string" where
  "ascii_lowercase s = map to_ascii_lower s"

definition eq_ignore_ascii_case :: "string \<Rightarrow> string \<Rightarrow> bool" where
  "eq_ignore_ascii_case a b \<longleftrightarrow> ascii_lowercase a = ascii_lowercase b"

lemma of_char_less: "(of_char c :: nat) < 256"
  using nat_of_char_less_256 [of c] by simp

lemma to_ascii_lower_idem [simp]: "to_ascii_lower (to_ascii_lower c) = to_ascii_lower c"
  by (simp add: to_ascii_lower_def Let_def)

lemma ascii_lowercase_idem [simp]: "ascii_lowercase (ascii_lowercase s) = ascii_lowercase s"
  by (simp add: ascii_lowercase_def)

lemma length_ascii_case [simp]:
  "length (ascii_lowercase s) = length s" "length (ascii_uppercase s) = length s"
  by (simp_all add: ascii_lowercase_def ascii_uppercase_def)

section \<open>Splitting\<close>

text \<open>\<open>str::split\<close> on one character: always at least one segment.\<close>

fun split_char :: "char \<Rightarrow> string \<Rightarrow> string list" where
  "split_char d [] = [[]]"
| "split_char d (c # cs) =
     (if c = d then [] # split_char d cs
      else (case split_char d cs of
              [] \<Rightarrow> [[c]]
            | seg # segs \<Rightarrow> (c # seg) # segs))"

text \<open>\<open>str::split_once\<close>.\<close>

fun split_once :: "char \<Rightarrow> string \<Rightarrow> (string \<times> string) option" where
  "split_once d [] = None"
| "split_once d (c # cs) =
     (if c = d then Some ([], cs)
      else (case split_once d cs of None \<Rightarrow> None | Some (a, b) \<Rightarrow> Some (c # a, b)))"

lemma split_char_nonempty [simp]: "split_char d s \<noteq> []"
  by (cases s) (auto split: list.splits)

lemma split_once_append [simp]:
  "d \<notin> set a \<Longrightarrow> split_once d (a @ d # b) = Some (a, b)"
  by (induction a) auto

lemma split_once_Some: "split_once d s = Some (a, b) \<Longrightarrow> s = a @ d # b \<and> d \<notin> set a"
  by (induction d s arbitrary: a b rule: split_once.induct) (auto split: if_splits option.splits)

lemma split_char_no_sep: "seg \<in> set (split_char d s) \<Longrightarrow> d \<notin> set seg"
  by (induction d s arbitrary: seg rule: split_char.induct) (auto split: if_splits list.splits)

fun join_char :: "char \<Rightarrow> string list \<Rightarrow> string" where
  "join_char d [] = []"
| "join_char d [s] = s"
| "join_char d (s # ss) = s @ d # join_char d ss"

lemma join_char_Cons: "ss \<noteq> [] \<Longrightarrow> join_char d (s # ss) = s @ d # join_char d ss"
  by (cases ss) auto

lemma join_split_char [simp]: "join_char d (split_char d s) = s"
proof (induction d s rule: split_char.induct)
  case (1 d)
  then show ?case by simp
next
  case (2 d c cs)
  obtain seg segs where sp: "split_char d cs = seg # segs"
    by (cases "split_char d cs") auto
  show ?case
  proof (cases "c = d")
    case True
    with 2 sp show ?thesis by (simp add: join_char_Cons)
  next
    case False
    with 2 sp have ih: "join_char d (seg # segs) = cs" by simp
    have "join_char d ((c # seg) # segs) = c # join_char d (seg # segs)"
      by (cases segs) auto
    with ih False sp show ?thesis by simp
  qed
qed

lemma join_char_notin: "\<forall>s\<in>set ss. c \<notin> set s \<Longrightarrow> c \<noteq> d \<Longrightarrow> c \<notin> set (join_char d ss)"
  by (induction d ss rule: join_char.induct) auto

lemma split_char_inj: "split_char d s = split_char d t \<Longrightarrow> s = t"
  by (metis join_split_char)

lemma split_char_atom: "d \<notin> set s \<Longrightarrow> split_char d s = [s]"
  by (induction s) auto

lemma split_char_append:
  "d \<notin> set s \<Longrightarrow> split_char d (s @ d # t) = s # split_char d t"
  by (induction s) auto

lemma split_join_char:
  "\<forall>s\<in>set ss. d \<notin> set s \<Longrightarrow> ss \<noteq> [] \<Longrightarrow> split_char d (join_char d ss) = ss"
  by (induction d ss rule: join_char.induct) (auto simp: split_char_append split_char_atom)

section \<open>Decimal numbers\<close>

definition digit_char :: "nat \<Rightarrow> char" where
  "digit_char n = char_of (n + 48)"

definition digit_value :: "char \<Rightarrow> nat option" where
  "digit_value c =
    (let n = (of_char c :: nat) in if 48 \<le> n \<and> n \<le> 57 then Some (n - 48) else None)"

lemma of_char_digit_char: "n < 10 \<Longrightarrow> (of_char (digit_char n) :: nat) = n + 48"
  by (simp add: digit_char_def)

lemma digit_value_digit_char [simp]: "n < 10 \<Longrightarrow> digit_value (digit_char n) = Some n"
  by (simp add: digit_value_def of_char_digit_char Let_def)

text \<open>Rendering with \<open>to_string\<close>; the most significant digit comes first.\<close>

fun decimal :: "nat \<Rightarrow> string" where
  "decimal n = (if n < 10 then [digit_char n] else decimal (n div 10) @ [digit_char (n mod 10)])"

declare decimal.simps [simp del]

fun digits_value :: "nat \<Rightarrow> string \<Rightarrow> nat option" where
  "digits_value acc [] = Some acc"
| "digits_value acc (c # cs) =
     (case digit_value c of None \<Rightarrow> None | Some d \<Rightarrow> digits_value (10 * acc + d) cs)"

text \<open>
  \<open>str::parse::<u64>()\<close>: an optional plus sign, at least one digit, no overflow.
\<close>

definition parse_u64 :: "string \<Rightarrow> u64 option" where
  "parse_u64 s =
    (let ds = (case s of c # cs \<Rightarrow> (if c = CHR ''+'' then cs else s) | [] \<Rightarrow> []) in
     if ds = [] then None
     else (case digits_value 0 ds of
             None \<Rightarrow> None
           | Some n \<Rightarrow> if int n \<le> 18446744073709551615 then Some (of_nat n) else None))"

lemma digits_value_append:
  "digits_value acc (xs @ ys) = Option.bind (digits_value acc xs) (\<lambda>a. digits_value a ys)"
  by (induction acc xs rule: digits_value.induct) (auto split: option.splits)

lemma digits_value_decimal: "digits_value 0 (decimal n) = Some n"
proof (induction n rule: decimal.induct)
  case (1 n)
  show ?case
  proof (cases "n < 10")
    case True
    then show ?thesis by (subst decimal.simps) simp
  next
    case False
    with 1 show ?thesis by (subst decimal.simps) (simp add: digits_value_append)
  qed
qed

lemma decimal_digits: "c \<in> set (decimal n) \<Longrightarrow> \<exists>d<10. c = digit_char d"
proof (induction n rule: decimal.induct)
  case (1 n)
  show ?case
  proof (cases "n < 10")
    case True
    with 1(2) have "c = digit_char n" by (subst (asm) decimal.simps) simp
    with True show ?thesis by blast
  next
    case False
    with 1(2) have "c \<in> set (decimal (n div 10)) \<or> c = digit_char (n mod 10)"
      by (subst (asm) decimal.simps) auto
    moreover have "n mod 10 < 10" by simp
    ultimately show ?thesis using 1(1) [OF False] by blast
  qed
qed

lemma decimal_nonempty [simp]: "decimal n \<noteq> []"
  by (subst decimal.simps) simp

lemma decimal_no_char: "(of_char c :: nat) < 48 \<or> 57 < (of_char c :: nat) \<Longrightarrow> c \<notin> set (decimal n)"
  by (auto dest!: decimal_digits simp: of_char_digit_char)

lemma decimal_inj: "decimal m = decimal n \<Longrightarrow> m = n"
  by (metis digits_value_decimal option.inject)

lemma of_char_plus: "(of_char (CHR ''+'') :: nat) < 48 \<or> 57 < (of_char (CHR ''+'') :: nat)"
  by simp

lemma decimal_Cons_not_plus: "decimal n = c # cs \<Longrightarrow> c \<noteq> CHR ''+''"
  using decimal_no_char [of "CHR ''+''" n] by (metis list.set_intros(1) of_char_plus)

lemma parse_u64_decimal: "n \<le> u64_max \<Longrightarrow> parse_u64 (decimal n) = Some (of_nat n)"
proof -
  assume n: "n \<le> u64_max"
  obtain c cs where d: "decimal n = c # cs" by (cases "decimal n") auto
  then have "c \<noteq> CHR ''+''" by (rule decimal_Cons_not_plus)
  with n d digits_value_decimal [of n] show ?thesis
    by (simp add: parse_u64_def u64_max_def)
qed

section \<open>Hexadecimal digests\<close>

definition is_lower_hex :: "char \<Rightarrow> bool" where
  "is_lower_hex c =
    (let n = (of_char c :: nat) in 48 \<le> n \<and> n \<le> 57 \<or> 97 \<le> n \<and> n \<le> 102)"

definition is_ascii_hexdigit :: "char \<Rightarrow> bool" where
  "is_ascii_hexdigit c =
    (let n = (of_char c :: nat) in
     48 \<le> n \<and> n \<le> 57 \<or> 97 \<le> n \<and> n \<le> 102 \<or> 65 \<le> n \<and> n \<le> 70)"

definition nibble_char :: "nat \<Rightarrow> char" where
  "nibble_char n = (if n < 10 then char_of (n + 48) else char_of (n + 87))"

definition nibble_value :: "char \<Rightarrow> nat option" where
  "nibble_value c =
    (let n = (of_char c :: nat) in
     if 48 \<le> n \<and> n \<le> 57 then Some (n - 48)
     else if 97 \<le> n \<and> n \<le> 102 then Some (n - 87)
     else if 65 \<le> n \<and> n \<le> 70 then Some (n - 55)
     else None)"

text \<open>\<open>format!("{byte:02x}")\<close> and \<open>u8::from_str_radix(_, 16)\<close> on two hex digits.\<close>

definition byte_to_hex :: "u8 \<Rightarrow> string" where
  "byte_to_hex b = [nibble_char (unat b div 16), nibble_char (unat b mod 16)]"

definition byte_from_hex :: "char \<Rightarrow> char \<Rightarrow> u8 option" where
  "byte_from_hex hi lo =
    (case (nibble_value hi, nibble_value lo) of
       (Some h, Some l) \<Rightarrow> Some (of_nat (16 * h + l))
     | _ \<Rightarrow> None)"

lemma nibble_value_char [simp]: "n < 16 \<Longrightarrow> nibble_value (nibble_char n) = Some n"
  by (auto simp: nibble_value_def nibble_char_def Let_def)

lemma is_lower_hex_nibble [simp]: "n < 16 \<Longrightarrow> is_lower_hex (nibble_char n)"
  by (auto simp: is_lower_hex_def nibble_char_def Let_def)

lemma byte_hex_roundtrip [simp]:
  "byte_from_hex (nibble_char (unat b div 16)) (nibble_char (unat b mod 16)) = Some b"
proof -
  have "unat b < 256" using unsigned_less [of b, where ?'a = nat] by simp
  then have "unat b div 16 < 16" by simp
  then show ?thesis by (simp add: byte_from_hex_def)
qed

section \<open>Blank strings\<close>

text \<open>
  \<open>trim().is_empty()\<close>: every character is Unicode white space.  On UTF-8 bytes
  these are the ASCII ones and the encodings of U+0085, U+00A0, U+1680,
  U+2000 to U+200A, U+2028, U+2029, U+202F, U+205F and U+3000.
\<close>

definition ascii_ws :: "nat \<Rightarrow> bool" where
  "ascii_ws n \<longleftrightarrow> 9 \<le> n \<and> n \<le> 13 \<or> n = 32"

definition ws2 :: "nat \<Rightarrow> nat \<Rightarrow> bool" where
  "ws2 a b \<longleftrightarrow> a = 194 \<and> (b = 133 \<or> b = 160)"

definition ws3 :: "nat \<Rightarrow> nat \<Rightarrow> nat \<Rightarrow> bool" where
  "ws3 a b c \<longleftrightarrow>
    a = 225 \<and> b = 154 \<and> c = 128 \<or>
    a = 226 \<and> b = 128 \<and> (128 \<le> c \<and> c \<le> 138 \<or> c = 168 \<or> c = 169 \<or> c = 175) \<or>
    a = 226 \<and> b = 129 \<and> c = 159 \<or>
    a = 227 \<and> b = 128 \<and> c = 128"

fun blank_bytes :: "nat list \<Rightarrow> bool" where
  "blank_bytes [] = True"
| "blank_bytes (a # b # c # rest) =
     (if ascii_ws a then blank_bytes (b # c # rest)
      else if ws2 a b then blank_bytes (c # rest)
      else if ws3 a b c then blank_bytes rest
      else False)"
| "blank_bytes [a, b] = (if ascii_ws a then blank_bytes [b] else ws2 a b)"
| "blank_bytes [a] = ascii_ws a"

definition is_blank :: "string \<Rightarrow> bool" where
  "is_blank s = blank_bytes (map of_char s)"

lemma is_blank_Nil [simp]: "is_blank []"
  by (simp add: is_blank_def)

end
