(* ===== verification/Job_Spec.thy ===== *)
theory Job_Spec
  imports Text
begin

text \<open>
  The durable description of one logical transfer (\<open>domain/mod.rs\<close>) and the
  execution request derived from it (\<open>transfer/queue.rs\<close>): validated
  construction, the natural key, the request digest and the projections
  between specification and request.  Strings are UTF-8 byte strings; SHA-256
  is a parameter.
\<close>

section \<open>Bytes\<close>

type_synonym bytes = "u8 list"

definition as_bytes :: "string \<Rightarrow> bytes" where
  "as_bytes s = map (\<lambda>c. of_nat (of_char c)) s"

text \<open>Big-endian rendering of a number in a fixed number of bytes.\<close>

fun be_bytes :: "nat \<Rightarrow> nat \<Rightarrow> bytes" where
  "be_bytes 0 n = []"
| "be_bytes (Suc k) n = be_bytes k (n div 256) @ [of_nat (n mod 256)]"

definition to_be_bytes :: "u64 \<Rightarrow> bytes" where
  "to_be_bytes w = be_bytes 8 (unat w)"

lemma as_bytes_inj: "as_bytes a = as_bytes b \<Longrightarrow> a = b"
proof -
  have byte: "unat (of_nat (of_char c) :: u8) = of_char c" for c
    using of_char_less [of c] by (simp add: unat_of_nat)
  have "inj (\<lambda>c. of_nat (of_char c) :: u8)"
    by (rule injI) (metis byte char_of_char)
  then show "as_bytes a = as_bytes b \<Longrightarrow> a = b"
    by (simp add: as_bytes_def map_injective)
qed

lemma length_as_bytes [simp]: "length (as_bytes s) = length s"
  by (simp add: as_bytes_def)

lemma length_be_bytes [simp]: "length (be_bytes k n) = k"
  by (induction k arbitrary: n) auto

lemma be_bytes_inj: "be_bytes k m = be_bytes k n \<Longrightarrow> m < 256 ^ k \<Longrightarrow> n < 256 ^ k \<Longrightarrow> m = n"
proof (induction k arbitrary: m n)
  case 0
  then show ?case by simp
next
  case (Suc k)
  have byte: "unat (of_nat (x mod 256) :: u8) = x mod 256" for x
    by (simp add: unat_of_nat)
  from Suc.prems(1) have "be_bytes k (m div 256) = be_bytes k (n div 256)"
    and last: "(of_nat (m mod 256) :: u8) = of_nat (n mod 256)" by simp_all
  moreover have "m div 256 < 256 ^ k" "n div 256 < 256 ^ k"
    using Suc.prems(2,3) by (simp_all add: less_mult_imp_div_less mult.commute)
  ultimately have "m div 256 = n div 256" using Suc.IH by blast
  moreover have "m mod 256 = n mod 256" using last byte by metis
  ultimately show ?case by (metis div_mult_mod_eq)
qed

lemma length_to_be_bytes [simp]: "length (to_be_bytes w) = 8"
  by (simp add: to_be_bytes_def)

lemma to_be_bytes_inj: "to_be_bytes a = to_be_bytes b \<Longrightarrow> a = b"
proof -
  assume "to_be_bytes a = to_be_bytes b"
  moreover have "unat a < 256 ^ 8" "unat b < 256 ^ 8"
    using unsigned_less [of a, where ?'a = nat] unsigned_less [of b, where ?'a = nat] by simp_all
  ultimately have "unat a = unat b"
    unfolding to_be_bytes_def by (rule be_bytes_inj)
  then show "a = b" by (rule unsigned_word_eqI)
qed

section \<open>Specification errors and field checks\<close>

datatype JobSpecError =
    Empty string
  | NotSha256Hex string string
  | BadLength string nat nat
  | DuplicateInventoryFile string
  | DuplicateRequestedFile string
  | RequestedFileNotInInventory string
  | RevisionMismatch string string
  | IncompleteFullSession nat nat

definition require_non_empty :: "string \<Rightarrow> string \<Rightarrow> JobSpecError + unit" where
  "require_non_empty field v = (if is_blank v then Inl (Empty field) else Inr ())"

definition sha256_hex_ok :: "string \<Rightarrow> bool" where
  "sha256_hex_ok v \<longleftrightarrow> length v = 64 \<and> list_all is_lower_hex v"

definition require_sha256_hex :: "string \<Rightarrow> string \<Rightarrow> JobSpecError + unit" where
  "require_sha256_hex field v = (if sha256_hex_ok v then Inr () else Inl (NotSha256Hex field v))"

definition require_len :: "string \<Rightarrow> nat \<Rightarrow> nat \<Rightarrow> JobSpecError + unit" where
  "require_len field expected actual =
    (if expected = actual then Inr () else Inl (BadLength field expected actual))"

lemma require_ok [simp]:
  "require_non_empty f v = Inr u \<longleftrightarrow> \<not> is_blank v"
  "require_sha256_hex f v = Inr u \<longleftrightarrow> sha256_hex_ok v"
  "require_len f e a = Inr u \<longleftrightarrow> e = a"
  by (simp_all add: require_non_empty_def require_sha256_hex_def require_len_def)

section \<open>Identity\<close>

record JobIdentity =
  ji_device_id :: string
  ji_session_id :: string
  ji_revision :: string

definition JobIdentity_new :: "string \<Rightarrow> string \<Rightarrow> string \<Rightarrow> JobSpecError + JobIdentity" where
  "JobIdentity_new device_id session_id revision =
    result_bind (require_non_empty ''device_id'' device_id) (\<lambda>_.
    result_bind (require_non_empty ''session_id'' session_id) (\<lambda>_.
    result_bind (require_non_empty ''revision'' revision) (\<lambda>_.
      Inr \<lparr>ji_device_id = device_id, ji_session_id = session_id, ji_revision = revision\<rparr>)))"

definition key_part :: "string \<Rightarrow> string" where
  "key_part part = decimal (length part) @ CHR '':'' # part"

definition natural_key :: "JobIdentity \<Rightarrow> string" where
  "natural_key i = concat (map key_part [ji_device_id i, ji_session_id i, ji_revision i])"

section \<open>Files and publication material\<close>

record JobFileSpec =
  jf_file_id :: string
  jf_display_path :: string
  jf_size_bytes :: u64
  jf_sha256 :: string

definition JobFileSpec_new :: "string \<Rightarrow> string \<Rightarrow> u64 \<Rightarrow> string \<Rightarrow> JobSpecError + JobFileSpec" where
  "JobFileSpec_new file_id display_path size_bytes sha =
    result_bind (require_non_empty ''file_id'' file_id) (\<lambda>_.
    result_bind (require_non_empty ''display_path'' display_path) (\<lambda>_.
    result_bind (require_sha256_hex ''sha256'' sha) (\<lambda>_.
      Inr \<lparr>jf_file_id = file_id, jf_display_path = display_path,
           jf_size_bytes = size_bytes, jf_sha256 = sha\<rparr>)))"

record PublicationMaterial =
  pm_revision :: string
  pm_payload :: bytes
  pm_signature :: bytes
  pm_public_key :: bytes

definition PUBLICATION_SIGNATURE_LEN :: nat where
  "PUBLICATION_SIGNATURE_LEN = 64"

definition PUBLICATION_PUBLIC_KEY_LEN :: nat where
  "PUBLICATION_PUBLIC_KEY_LEN = 32"

definition PublicationMaterial_new ::
    "string \<Rightarrow> bytes \<Rightarrow> bytes \<Rightarrow> bytes \<Rightarrow> JobSpecError + PublicationMaterial" where
  "PublicationMaterial_new revision payload sig public_key =
    result_bind (require_non_empty ''publication.revision'' revision) (\<lambda>_.
    if payload = [] then Inl (Empty ''publication.payload'')
    else
      result_bind (require_len ''publication.signature'' PUBLICATION_SIGNATURE_LEN (length sig)) (\<lambda>_.
      result_bind (require_len ''publication.public_key'' PUBLICATION_PUBLIC_KEY_LEN
                    (length public_key)) (\<lambda>_.
        Inr \<lparr>pm_revision = revision, pm_payload = payload,
             pm_signature = sig, pm_public_key = public_key\<rparr>)))"

section \<open>The specification\<close>

datatype PublicationScope = FullSession | SelectedFiles

definition is_full_session :: "PublicationScope \<Rightarrow> bool" where
  "is_full_session s \<longleftrightarrow> s = FullSession"

definition scope_from_bool :: "bool \<Rightarrow> PublicationScope" where
  "scope_from_bool full_session = (if full_session then FullSession else SelectedFiles)"

record JobSpec =
  js_identity :: JobIdentity
  js_publication :: PublicationMaterial
  js_session_files :: "JobFileSpec list"
  js_requested :: "nat list"
  js_full_session :: bool
  js_date_label :: string

text \<open>The first loop of \<open>JobSpec::new\<close>: the identifier index of the inventory.\<close>

fun index_inventory ::
    "nat \<Rightarrow> (string \<times> nat) list \<Rightarrow> JobFileSpec list \<Rightarrow> JobSpecError + (string \<times> nat) list" where
  "index_inventory position index_of [] = Inr index_of"
| "index_inventory position index_of (file # files) =
     (let fid = jf_file_id file in
      if list_ex (\<lambda>p. fst p = fid) index_of then Inl (DuplicateInventoryFile fid)
      else index_inventory (Suc position) (index_of @ [(fid, position)]) files)"

text \<open>The second loop: resolving the requested identifiers, in request order.\<close>

fun resolve_requested ::
    "(string \<times> nat) list \<Rightarrow> nat list \<Rightarrow> string list \<Rightarrow> JobSpecError + nat list" where
  "resolve_requested index_of requested [] = Inr requested"
| "resolve_requested index_of requested (fid # ids) =
     (case find (\<lambda>p. fst p = fid) index_of of
        None \<Rightarrow> Inl (RequestedFileNotInInventory fid)
      | Some (_, position) \<Rightarrow>
          if position \<in> set requested then Inl (DuplicateRequestedFile fid)
          else resolve_requested index_of (requested @ [position]) ids)"

definition JobSpec_new ::
    "JobIdentity \<Rightarrow> PublicationMaterial \<Rightarrow> JobFileSpec list \<Rightarrow> string list \<Rightarrow> bool \<Rightarrow> string
     \<Rightarrow> JobSpecError + JobSpec" where
  "JobSpec_new identity publication session_files requested_file_ids full_session date_label =
    (if pm_revision publication \<noteq> ji_revision identity then
       Inl (RevisionMismatch (ji_revision identity) (pm_revision publication))
     else if session_files = [] then Inl (Empty ''session_files'')
     else if requested_file_ids = [] then Inl (Empty ''requested_file_ids'')
     else
       result_bind (index_inventory 0 [] session_files) (\<lambda>index_of.
       result_bind (resolve_requested index_of [] requested_file_ids) (\<lambda>requested.
         if full_session \<and> length requested \<noteq> length session_files then
           Inl (IncompleteFullSession (length session_files) (length requested))
         else
           Inr \<lparr>js_identity = identity, js_publication = publication,
                js_session_files = session_files, js_requested = requested,
                js_full_session = full_session, js_date_label = date_label\<rparr>)))"

definition requested_files :: "JobSpec \<Rightarrow> JobFileSpec list" where
  "requested_files s = map (\<lambda>i. js_session_files s ! i) (js_requested s)"

fun position_of :: "('a \<Rightarrow> bool) \<Rightarrow> 'a list \<Rightarrow> nat option" where
  "position_of P [] = None"
| "position_of P (x # xs) = (if P x then Some 0 else map_option Suc (position_of P xs))"

definition request_position :: "JobSpec \<Rightarrow> string \<Rightarrow> nat option" where
  "request_position s file_id =
    position_of (\<lambda>i. jf_file_id (js_session_files s ! i) = file_id) (js_requested s)"

definition publication_scope :: "JobSpec \<Rightarrow> PublicationScope" where
  "publication_scope s = scope_from_bool (js_full_session s)"

section \<open>The request digest\<close>

text \<open>Length-prefixed framing of one field.\<close>

definition absorb :: "bytes \<Rightarrow> bytes" where
  "absorb b = to_be_bytes (of_nat (length b)) @ b"

definition file_frame :: "JobFileSpec \<Rightarrow> bytes" where
  "file_frame f =
    absorb (as_bytes (jf_file_id f)) @ absorb (as_bytes (jf_display_path f)) @
    to_be_bytes (jf_size_bytes f) @ absorb (as_bytes (jf_sha256 f))"

definition request_preimage :: "JobSpec \<Rightarrow> bytes" where
  "request_preimage s =
    as_bytes ''ylx.job-spec.v1'' @ [0] @
    absorb (as_bytes (ji_device_id (js_identity s))) @
    absorb (as_bytes (ji_session_id (js_identity s))) @
    absorb (as_bytes (ji_revision (js_identity s))) @
    absorb (as_bytes (pm_revision (js_publication s))) @
    absorb (pm_payload (js_publication s)) @
    absorb (pm_signature (js_publication s)) @
    absorb (pm_public_key (js_publication s)) @
    [if js_full_session s then 1 else 0] @
    to_be_bytes (of_nat (length (js_session_files s))) @
    concat (map file_frame (js_session_files s)) @
    to_be_bytes (of_nat (length (js_requested s))) @
    concat (map (\<lambda>i. absorb (as_bytes (jf_file_id (js_session_files s ! i)))) (js_requested s))"

definition request_digest :: "(bytes \<Rightarrow> bytes) \<Rightarrow> JobSpec \<Rightarrow> bytes" where
  "request_digest sha256 s = sha256 (request_preimage s)"

definition RequestDigest_to_hex :: "bytes \<Rightarrow> string" where
  "RequestDigest_to_hex d = concat (map byte_to_hex d)"

fun hex_pairs :: "string \<Rightarrow> bytes option" where
  "hex_pairs (hi # lo # rest) =
     (case byte_from_hex hi lo of
        None \<Rightarrow> None
      | Some b \<Rightarrow> map_option ((#) b) (hex_pairs rest))"
| "hex_pairs [] = Some []"
| "hex_pairs [c] = None"

definition RequestDigest_from_hex :: "string \<Rightarrow> JobSpecError + bytes" where
  "RequestDigest_from_hex v =
    result_bind (require_sha256_hex ''request_digest'' v) (\<lambda>_.
      case hex_pairs v of
        None \<Rightarrow> Inl (NotSha256Hex ''request_digest'' v)
      | Some b \<Rightarrow> Inr b)"

section \<open>Execution requests\<close>

record JobFile =
  file_id :: string
  target_relative_path :: "string option"
  expected_size :: u64
  expected_sha256_hex :: string

record TransferRequest =
  tr_device_id :: string
  tr_session_id :: string
  tr_revision :: string
  tr_idempotency_key :: string
  tr_files :: "JobFile list"
  tr_manifest_bytes :: bytes
  tr_signature :: bytes
  tr_publication_public_key :: bytes

text \<open>The local path of a file: rows written before the field existed use the identifier.\<close>

definition target_path_or_id :: "JobFile \<Rightarrow> string" where
  "target_path_or_id f =
    (case target_relative_path f of None \<Rightarrow> file_id f | Some p \<Rightarrow> p)"

definition job_file_spec :: "JobFile \<Rightarrow> JobSpecError + JobFileSpec" where
  "job_file_spec f =
    JobFileSpec_new (file_id f) (target_path_or_id f) (expected_size f) (expected_sha256_hex f)"

definition to_job_spec :: "TransferRequest \<Rightarrow> bool \<Rightarrow> string \<Rightarrow> JobSpecError + JobSpec" where
  "to_job_spec r full_session date_label =
    result_bind (JobIdentity_new (tr_device_id r) (tr_session_id r) (tr_revision r)) (\<lambda>identity.
    result_bind (PublicationMaterial_new (tr_revision r) (tr_manifest_bytes r)
                  (tr_signature r) (tr_publication_public_key r)) (\<lambda>publication.
    result_bind (result_collect job_file_spec (tr_files r)) (\<lambda>session_files.
      JobSpec_new identity publication session_files (map file_id (tr_files r))
        full_session date_label)))"

definition request_from_spec :: "JobSpec \<Rightarrow> TransferRequest" where
  "request_from_spec s =
    \<lparr>tr_device_id = ji_device_id (js_identity s),
     tr_session_id = ji_session_id (js_identity s),
     tr_revision = ji_revision (js_identity s),
     tr_idempotency_key = natural_key (js_identity s),
     tr_files = map (\<lambda>f. \<lparr>file_id = jf_file_id f,
                         target_relative_path = Some (jf_display_path f),
                         expected_size = jf_size_bytes f,
                         expected_sha256_hex = jf_sha256 f\<rparr>) (requested_files s),
     tr_manifest_bytes = pm_payload (js_publication s),
     tr_signature = pm_signature (js_publication s),
     tr_publication_public_key = pm_public_key (js_publication s)\<rparr>"

section \<open>The natural key\<close>

lemma key_part_cancel: "key_part a @ x = key_part b @ y \<Longrightarrow> a = b \<and> x = y"
proof -
  assume eq: "key_part a @ x = key_part b @ y"
  have colon: "CHR '':'' \<notin> set (decimal n)" for n
    by (rule decimal_no_char) simp
  have split: "split_once CHR '':'' (key_part p @ z) = Some (decimal (length p), p @ z)" for p z
    using colon [of "length p"] by (simp add: key_part_def)
  from eq split [of a x] split [of b y]
  have "decimal (length a) = decimal (length b)" "a @ x = b @ y" by simp_all
  with decimal_inj show ?thesis by (metis append_eq_append_conv)
qed

lemma natural_key_cancel: "natural_key i @ x = natural_key j @ y \<Longrightarrow> i = j \<and> x = y"
proof -
  assume eq: "natural_key i @ x = natural_key j @ y"
  then have "ji_device_id i = ji_device_id j \<and> ji_session_id i = ji_session_id j \<and>
      ji_revision i = ji_revision j \<and> x = y"
    unfolding natural_key_def by (auto dest!: key_part_cancel)
  then show ?thesis by simp
qed

text \<open>
  The natural key is collision free: two identities with the same encoded
  key are the same device, session and revision, whatever separators or digits
  the components contain.
\<close>

theorem natural_key_collision_free: "natural_key i = natural_key j \<longleftrightarrow> i = j"
  using natural_key_cancel [of i "[]" j "[]"] by auto

section \<open>Construction of a specification\<close>

lemma upt_length_Cons: "[n..<Suc (n + length ks)] = n # [Suc n..<Suc n + length ks]"
  by (simp add: upt_conv_Cons del: upt_Suc)

lemma index_inventory_ok:
  "index_inventory n idx files = Inr out \<longleftrightarrow>
     out = idx @ zip (map jf_file_id files) [n..<n + length files] \<and>
     distinct (map jf_file_id files) \<and>
     set (map fst idx) \<inter> set (map jf_file_id files) = {}"
proof (induction n idx files rule: index_inventory.induct)
  case (1 n idx)
  then show ?case by auto
next
  case (2 n idx f fs)
  show ?case
  proof (cases "list_ex (\<lambda>p. fst p = jf_file_id f) idx")
    case True
    then have "jf_file_id f \<in> fst ` set idx" by (force simp: list_ex_iff)
    with True show ?thesis by auto
  next
    case False
    then have "jf_file_id f \<notin> set (map fst idx)" by (auto simp: list_ex_iff)
    with 2 [OF refl False] False show ?thesis
      by (auto simp: upt_length_Cons simp del: upt_Suc)
  qed
qed

lemma find_zip_upt:
  "distinct ks \<Longrightarrow> i < length ks \<Longrightarrow>
   find (\<lambda>p. fst p = ks ! i) (zip ks [n..<n + length ks]) = Some (ks ! i, n + i)"
proof (induction ks arbitrary: i n)
  case Nil
  then show ?case by simp
next
  case (Cons k ks)
  show ?case
  proof (cases i)
    case 0
    then show ?thesis by (simp add: upt_length_Cons del: upt_Suc)
  next
    case (Suc i')
    with Cons.prems have i': "i' < length ks" and "k \<noteq> ks ! i'" by auto
    with Suc Cons.IH [of i' "Suc n"] Cons.prems show ?thesis
      by (simp add: upt_length_Cons del: upt_Suc)
  qed
qed

definition inventory_index :: "JobFileSpec list \<Rightarrow> (string \<times> nat) list" where
  "inventory_index files = zip (map jf_file_id files) [0..<length files]"

lemma find_inventory_index:
  assumes "distinct (map jf_file_id files)"
  shows "find (\<lambda>p. fst p = k) (inventory_index files) = Some q \<longleftrightarrow>
     (\<exists>i<length files. jf_file_id (files ! i) = k \<and> q = (k, i))"
proof (cases "k \<in> set (map jf_file_id files)")
  case True
  then obtain i where i: "i < length files" "k = map jf_file_id files ! i"
    by (metis in_set_conv_nth length_map)
  have "find (\<lambda>p. fst p = k) (inventory_index files) = Some (k, i)"
    using find_zip_upt [OF assms, of i 0] i by (simp add: inventory_index_def)
  moreover have "j = i" if "j < length files" "jf_file_id (files ! j) = k" for j
    by (rule nth_eq_of_distinct_map [OF assms that(1) i(1)]) (simp add: that i)
  moreover have "jf_file_id (files ! i) = k" using i by simp
  ultimately show ?thesis using i(1) by (metis option.inject)
next
  case False
  then have "find (\<lambda>p. fst p = k) (inventory_index files) = None"
    by (auto simp: find_None_iff inventory_index_def dest: set_zip_leftD)
  with False show ?thesis by auto
qed

text \<open>The positions \<open>new\<close> name the inventory entries with the identifiers \<open>ids\<close>.\<close>

definition resolves :: "JobFileSpec list \<Rightarrow> nat list \<Rightarrow> string list \<Rightarrow> bool" where
  "resolves files new ids \<longleftrightarrow>
    set new \<subseteq> {..<length files} \<and> map (\<lambda>i. jf_file_id (files ! i)) new = ids"

lemma resolves_Nil [simp]: "resolves files new [] \<longleftrightarrow> new = []"
  by (auto simp: resolves_def)

lemma resolves_Cons:
  assumes "distinct (map jf_file_id files)" "i < length files" "jf_file_id (files ! i) = fid"
  shows "resolves files new (fid # ids) \<longleftrightarrow> (\<exists>rest. new = i # rest \<and> resolves files rest ids)"
proof
  assume "resolves files new (fid # ids)"
  then obtain j rest where r: "new = j # rest" "j < length files" "jf_file_id (files ! j) = fid"
    "resolves files rest ids" by (auto simp: resolves_def map_eq_Cons_conv)
  have "j = i"
    by (rule nth_eq_of_distinct_map [OF assms(1) r(2) assms(2)]) (simp add: r assms)
  with r show "\<exists>rest. new = i # rest \<and> resolves files rest ids" by blast
next
  assume "\<exists>rest. new = i # rest \<and> resolves files rest ids"
  with assms show "resolves files new (fid # ids)" by (auto simp: resolves_def)
qed

lemma resolve_requested_ok:
  assumes "distinct (map jf_file_id files)"
  shows "distinct req \<Longrightarrow> resolve_requested (inventory_index files) req ids = Inr out \<longleftrightarrow>
     (\<exists>new. out = req @ new \<and> distinct out \<and> resolves files new ids)"
proof (induction "inventory_index files" req ids rule: resolve_requested.induct)
  case (1 req)
  then show ?case by auto
next
  case (2 req fid ids)
  show ?case
  proof (cases "find (\<lambda>p. fst p = fid) (inventory_index files)")
    case None
    then have "\<nexists>i. i < length files \<and> jf_file_id (files ! i) = fid"
      using find_inventory_index [OF assms, of fid] by (metis option.distinct(1))
    with None show ?thesis by (auto simp: resolves_def map_eq_Cons_conv)
  next
    case (Some q)
    then obtain i where i: "i < length files" "jf_file_id (files ! i) = fid" "q = (fid, i)"
      using find_inventory_index [OF assms] by blast
    note cons = resolves_Cons [OF assms i(1,2)]
    show ?thesis
    proof (cases "i \<in> set req")
      case True
      with Some i show ?thesis by (auto simp: cons)
    next
      case False
      then have "distinct (req @ [i])" using 2(2) by simp
      from 2(1) [OF Some i(3) [symmetric] False this] Some i False
      show ?thesis by (auto simp: cons)
    qed
  qed
qed

text \<open>
  What a constructed specification guarantees: identities agree, the inventory
  has no duplicate, every requested position is in range, none occurs twice,
  and a full-session job requests as many files as the inventory has.
\<close>

definition spec_wf :: "JobSpec \<Rightarrow> bool" where
  "spec_wf s \<longleftrightarrow>
    pm_revision (js_publication s) = ji_revision (js_identity s) \<and>
    js_session_files s \<noteq> [] \<and> js_requested s \<noteq> [] \<and>
    distinct (map jf_file_id (js_session_files s)) \<and>
    distinct (js_requested s) \<and>
    (\<forall>i\<in>set (js_requested s). i < length (js_session_files s)) \<and>
    (js_full_session s \<longrightarrow> length (js_requested s) = length (js_session_files s))"

lemma JobSpec_new_ok:
  "JobSpec_new identity publication files ids full label = Inr s \<longleftrightarrow>
     pm_revision publication = ji_revision identity \<and> files \<noteq> [] \<and> ids \<noteq> [] \<and>
     distinct (map jf_file_id files) \<and>
     (\<exists>req. distinct req \<and> resolves files req ids \<and>
       (full \<longrightarrow> length req = length files) \<and>
       s = \<lparr>js_identity = identity, js_publication = publication, js_session_files = files,
            js_requested = req, js_full_session = full, js_date_label = label\<rparr>)"
proof (cases "distinct (map jf_file_id files)")
  case True
  then have idx: "index_inventory 0 [] files = Inr (inventory_index files)"
    by (simp add: index_inventory_ok inventory_index_def)
  show ?thesis
    using resolve_requested_ok [OF True, of "[]" ids] True
    by (auto simp: JobSpec_new_def idx result_bind_Inr_iff)
next
  case False
  then have "index_inventory 0 [] files \<noteq> Inr x" for x
    by (simp add: index_inventory_ok)
  with False show ?thesis by (auto simp: JobSpec_new_def result_bind_Inr_iff)
qed

lemma JobSpec_new_wf:
  assumes "JobSpec_new identity publication files ids full label = Inr s"
  shows "spec_wf s" "map jf_file_id (requested_files s) = ids" "js_session_files s = files"
  using assms
  by (auto simp: JobSpec_new_ok spec_wf_def requested_files_def resolves_def subset_iff)

lemma requested_files_subset:
  "spec_wf s \<Longrightarrow> set (requested_files s) \<subseteq> set (js_session_files s)"
  by (auto simp: spec_wf_def requested_files_def)

lemma full_session_requests_all:
  assumes "spec_wf s" "js_full_session s"
  shows "set (requested_files s) = set (js_session_files s)"
proof -
  have "set (js_requested s) \<subseteq> {..<length (js_session_files s)}"
    using assms by (auto simp: spec_wf_def)
  moreover have "card (set (js_requested s)) = card {..<length (js_session_files s)}"
    using assms by (simp add: spec_wf_def distinct_card)
  ultimately have "set (js_requested s) = {..<length (js_session_files s)}"
    by (simp add: card_subset_eq)
  then have "set (requested_files s) = (!) (js_session_files s) ` {0..<length (js_session_files s)}"
    by (simp add: requested_files_def lessThan_atLeast0)
  then show ?thesis by (simp add: nth_image)
qed

lemma resolves_distinct:
  assumes "distinct (map jf_file_id files)" "distinct req" "resolves files req ids"
  shows "distinct ids \<and> set ids \<subseteq> set (map jf_file_id files) \<and> length req = length ids"
proof -
  have "inj_on (\<lambda>i. jf_file_id (files ! i)) (set req)"
    using assms(3) nth_eq_of_distinct_map [OF assms(1)]
    by (auto simp: inj_on_def resolves_def subset_iff)
  with assms show ?thesis
    by (auto simp: resolves_def distinct_map subset_iff intro!: imageI nth_mem)
qed

lemma resolves_exists:
  assumes "distinct (map jf_file_id files)"
  shows "set ids \<subseteq> set (map jf_file_id files) \<Longrightarrow> distinct ids \<Longrightarrow>
    \<exists>req. distinct req \<and> resolves files req ids \<and> length req = length ids"
proof (induction ids)
  case Nil
  then show ?case by simp
next
  case (Cons k ks)
  then obtain i where i: "i < length files" "jf_file_id (files ! i) = k"
    by (auto simp: in_set_conv_nth)
  from Cons obtain req where req: "distinct req" "resolves files req ks" "length req = length ks"
    by auto
  have "i \<notin> set req" using req(2) i Cons.prems(2) by (auto simp: resolves_def)
  with req i show ?case
    by (intro exI [of _ "i # req"]) (simp add: resolves_Cons [OF assms])
qed

lemma JobSpec_new_accepts_ids:
  "JobSpec_new identity publication files ids full label = Inr s \<Longrightarrow> distinct ids"
  using resolves_distinct by (auto simp: JobSpec_new_ok)

text \<open>
  C33.  \<open>JobSpec::new\<close> accepts a request exactly when the publication carries the
  identity's revision, inventory and request are not empty, the inventory lists
  no file twice, every requested identifier is in the inventory and is requested
  once, and a full-session job asks for as many files as the inventory has.
\<close>

theorem JobSpec_new_accepts_iff:
  "(\<exists>s. JobSpec_new identity publication files ids full label = Inr s) \<longleftrightarrow>
     pm_revision publication = ji_revision identity \<and> files \<noteq> [] \<and> ids \<noteq> [] \<and>
     distinct (map jf_file_id files) \<and> set ids \<subseteq> set (map jf_file_id files) \<and> distinct ids \<and>
     \<not> (full \<and> length ids \<noteq> length files)"
  (is "?L \<longleftrightarrow> ?R")
proof
  assume ?L
  then show ?R
    using resolves_distinct [of files _ ids] by (auto simp: JobSpec_new_ok)
next
  assume r: ?R
  then obtain req where "distinct req" "resolves files req ids" "length req = length ids"
    using resolves_exists [of files ids] by auto
  with r show ?L by (auto simp: JobSpec_new_ok)
qed

text \<open>
  Every constructed specification has the requested files in request order,
  each one an entry of the signed inventory (so its size and hash are the signed
  ones), none twice; and a full-session specification requests all of them.
\<close>

theorem JobSpec_new_requested_files:
  assumes "JobSpec_new identity publication files ids full label = Inr s"
  shows "map jf_file_id (requested_files s) = ids \<and> distinct (requested_files s) \<and>
    set (requested_files s) \<subseteq> set files \<and>
    (publication_scope s = FullSession \<longrightarrow> set (requested_files s) = set files)"
proof -
  note wf = JobSpec_new_wf [OF assms]
  have "distinct ids" using assms JobSpec_new_accepts_ids [OF assms] by simp
  with wf(2) have "distinct (requested_files s)" by (metis distinct_map)
  then show ?thesis
    using wf requested_files_subset [OF wf(1)] full_session_requests_all [OF wf(1)]
    by (auto simp: publication_scope_def scope_from_bool_def split: if_splits)
qed

definition sample_identity :: JobIdentity where
  "sample_identity = \<lparr>ji_device_id = ''dev'', ji_session_id = ''s'', ji_revision = ''r1''\<rparr>"

definition sample_publication :: PublicationMaterial where
  "sample_publication = \<lparr>pm_revision = ''r1'', pm_payload = [1],
     pm_signature = replicate 64 7, pm_public_key = replicate 32 9\<rparr>"

definition sample_file :: "string \<Rightarrow> u64 \<Rightarrow> JobFileSpec" where
  "sample_file k n = \<lparr>jf_file_id = k, jf_display_path = k, jf_size_bytes = n,
     jf_sha256 = replicate 64 CHR ''0''\<rparr>"

lemmas sample_defs = sample_identity_def sample_publication_def sample_file_def

theorem JobSpec_new_requested_files_witness:
  "\<exists>s. JobSpec_new sample_identity sample_publication
          [sample_file ''a'' 1, sample_file ''b'' 2] [''b''] False ''today'' = Inr s \<and>
       requested_files s = [sample_file ''b'' 2] \<and> distinct (requested_files s)"
proof -
  obtain s where s: "JobSpec_new sample_identity sample_publication
      [sample_file ''a'' 1, sample_file ''b'' 2] [''b''] False ''today'' = Inr s"
    by (simp add: JobSpec_new_def sample_defs)
  then have "requested_files s = [sample_file ''b'' 2]"
    by (auto simp: JobSpec_new_def sample_defs requested_files_def)
  with s JobSpec_new_requested_files [OF s] show ?thesis by blast
qed

section \<open>Framing of the request digest\<close>

definition framed :: "'a list \<Rightarrow> bool" where
  "framed b \<longleftrightarrow> length b < 2 ^ 64"

lemma frame_length_inj:
  assumes "to_be_bytes (of_nat m) = to_be_bytes (of_nat n)" "m < 2 ^ 64" "n < 2 ^ 64"
  shows "m = n"
proof -
  have "(of_nat m :: u64) = of_nat n" using assms(1) by (rule to_be_bytes_inj)
  then have "unat (of_nat m :: u64) = unat (of_nat n :: u64)" by simp
  with assms(2,3) show ?thesis by (simp add: unat_of_nat)
qed

lemma be_bytes_cancel: "to_be_bytes a @ x = to_be_bytes b @ y \<Longrightarrow> a = b \<and> x = y"
  by (metis append_eq_append_conv length_to_be_bytes to_be_bytes_inj)

lemma absorb_cancel:
  assumes "absorb a @ x = absorb b @ y" "framed a" "framed b"
  shows "a = b \<and> x = y"
proof -
  have "to_be_bytes (of_nat (length a)) @ a @ x = to_be_bytes (of_nat (length b)) @ b @ y"
    using assms(1) by (simp add: absorb_def)
  then have "to_be_bytes (of_nat (length a)) = to_be_bytes (of_nat (length b))"
    and rest: "a @ x = b @ y"
    by (metis append_eq_append_conv length_to_be_bytes)+
  then have "length a = length b"
    using frame_length_inj assms(2,3) by (simp add: framed_def)
  with rest show ?thesis by simp
qed

lemma absorb_text_cancel:
  "absorb (as_bytes a) @ x = absorb (as_bytes b) @ y \<Longrightarrow> framed a \<Longrightarrow> framed b \<Longrightarrow> a = b \<and> x = y"
  using absorb_cancel [of "as_bytes a" x "as_bytes b" y] as_bytes_inj by (auto simp: framed_def)

definition file_framed :: "JobFileSpec \<Rightarrow> bool" where
  "file_framed f \<longleftrightarrow> framed (jf_file_id f) \<and> framed (jf_display_path f) \<and> framed (jf_sha256 f)"

lemma file_frame_cancel:
  assumes "file_frame f @ x = file_frame g @ y" "file_framed f" "file_framed g"
  shows "f = g \<and> x = y"
proof -
  from assms have *: "jf_file_id f = jf_file_id g" "jf_display_path f = jf_display_path g"
    "to_be_bytes (jf_size_bytes f) @ absorb (as_bytes (jf_sha256 f)) @ x =
     to_be_bytes (jf_size_bytes g) @ absorb (as_bytes (jf_sha256 g)) @ y"
    by (auto simp: file_frame_def file_framed_def dest!: absorb_text_cancel)
  then have **: "jf_size_bytes f = jf_size_bytes g" "jf_sha256 f = jf_sha256 g \<and> x = y"
    using assms(2,3) be_bytes_cancel absorb_text_cancel unfolding file_framed_def by blast+
  with * show ?thesis by simp
qed

lemma concat_frames_cancel:
  assumes cancel: "\<And>a b x y. P a \<Longrightarrow> P b \<Longrightarrow> frame a @ x = frame b @ y \<Longrightarrow> a = b \<and> x = y"
  shows "length as = length bs \<Longrightarrow> list_all P as \<Longrightarrow> list_all P bs \<Longrightarrow>
    concat (map frame as) @ x = concat (map frame bs) @ y \<Longrightarrow> as = bs \<and> x = y"
proof (induction as bs rule: list_induct2)
  case Nil
  then show ?case by simp
next
  case (Cons a as b bs)
  then have "frame a @ (concat (map frame as) @ x) = frame b @ (concat (map frame bs) @ y)"
    "P a" "P b" by simp_all
  then have "a = b" "concat (map frame as) @ x = concat (map frame bs) @ y"
    using cancel by blast+
  with Cons show ?case by simp
qed

text \<open>Every length fits in 64 bits, as it does in memory.\<close>

definition spec_framed :: "JobSpec \<Rightarrow> bool" where
  "spec_framed s \<longleftrightarrow>
    framed (ji_device_id (js_identity s)) \<and> framed (ji_session_id (js_identity s)) \<and>
    framed (ji_revision (js_identity s)) \<and> framed (pm_revision (js_publication s)) \<and>
    framed (pm_payload (js_publication s)) \<and> framed (pm_signature (js_publication s)) \<and>
    framed (pm_public_key (js_publication s)) \<and>
    framed (js_session_files s) \<and> list_all file_framed (js_session_files s) \<and>
    framed (js_requested s)"

text \<open>The part of a specification its digest is about: all but the display label.\<close>

definition same_request :: "JobSpec \<Rightarrow> JobSpec \<Rightarrow> bool" where
  "same_request s t \<longleftrightarrow> js_date_label_update (\<lambda>_. []) s = js_date_label_update (\<lambda>_. []) t"

lemma same_requestI:
  "js_identity s = js_identity t \<Longrightarrow> js_publication s = js_publication t \<Longrightarrow>
   js_session_files s = js_session_files t \<Longrightarrow> js_requested s = js_requested t \<Longrightarrow>
   js_full_session s = js_full_session t \<Longrightarrow> same_request s t"
  by (simp add: same_request_def)

lemma same_request_preimage: "same_request s t \<Longrightarrow> request_preimage s = request_preimage t"
  by (cases s; cases t) (simp add: same_request_def request_preimage_def)

lemma requested_ids_inj:
  assumes "distinct (map jf_file_id files)" "set a \<subseteq> {..<length files}" "set b \<subseteq> {..<length files}"
    "map (\<lambda>i. jf_file_id (files ! i)) a = map (\<lambda>i. jf_file_id (files ! i)) b"
  shows "a = b"
proof (rule map_inj_on [OF assms(4)])
  show "inj_on (\<lambda>i. jf_file_id (files ! i)) (set a \<union> set b)"
    using assms(2,3) nth_eq_of_distinct_map [OF assms(1)] by (auto simp: inj_on_def subset_iff)
qed

text \<open>The preimage as the tag, seven framed fields, the scope flag and the two file lists.\<close>

definition head_fields :: "JobSpec \<Rightarrow> bytes list" where
  "head_fields s =
    [as_bytes (ji_device_id (js_identity s)), as_bytes (ji_session_id (js_identity s)),
     as_bytes (ji_revision (js_identity s)), as_bytes (pm_revision (js_publication s)),
     pm_payload (js_publication s), pm_signature (js_publication s),
     pm_public_key (js_publication s)]"

definition requested_ids :: "JobSpec \<Rightarrow> string list" where
  "requested_ids s = map (\<lambda>i. jf_file_id (js_session_files s ! i)) (js_requested s)"

definition preimage_tail :: "JobSpec \<Rightarrow> bytes" where
  "preimage_tail s =
    to_be_bytes (of_nat (length (js_session_files s))) @
    concat (map file_frame (js_session_files s)) @
    to_be_bytes (of_nat (length (requested_ids s))) @
    concat (map (\<lambda>k. absorb (as_bytes k)) (requested_ids s))"

lemma request_preimage_parts:
  "request_preimage s = (as_bytes ''ylx.job-spec.v1'' @ [0]) @
     concat (map absorb (head_fields s)) @ (if js_full_session s then 1 else 0) # preimage_tail s"
  by (simp add: request_preimage_def head_fields_def preimage_tail_def requested_ids_def comp_def)

lemma head_fields_inj:
  "head_fields s = head_fields t \<Longrightarrow> js_identity s = js_identity t \<and> js_publication s = js_publication t"
  by (auto simp: head_fields_def dest!: as_bytes_inj)

lemma preimage_head_cancel:
  assumes "request_preimage s = request_preimage t" "spec_framed s" "spec_framed t"
  shows "head_fields s = head_fields t \<and>
    (if js_full_session s then 1 else 0 :: u8) # preimage_tail s =
    (if js_full_session t then 1 else 0) # preimage_tail t"
proof (rule concat_frames_cancel [where P = framed and frame = absorb])
  show "list_all framed (head_fields s)" "list_all framed (head_fields t)"
    using assms(2,3) by (simp_all add: head_fields_def spec_framed_def framed_def)
  show "length (head_fields s) = length (head_fields t)" by (simp add: head_fields_def)
  show "concat (map absorb (head_fields s)) @ (if js_full_session s then 1 else 0) # preimage_tail s =
      concat (map absorb (head_fields t)) @ (if js_full_session t then 1 else 0) # preimage_tail t"
    using assms(1) unfolding request_preimage_parts by (simp only: same_append_eq)
qed (rule absorb_cancel)

lemma preimage_files_cancel:
  assumes "to_be_bytes (of_nat (length as)) @ concat (map file_frame as) @ x =
      to_be_bytes (of_nat (length bs)) @ concat (map file_frame bs) @ y"
    and "framed as" "framed bs" "list_all file_framed as" "list_all file_framed bs"
  shows "as = bs \<and> x = y"
proof -
  from assms(1) have len: "to_be_bytes (of_nat (length as)) = to_be_bytes (of_nat (length bs))"
    and rest: "concat (map file_frame as) @ x = concat (map file_frame bs) @ y"
    by (metis append_eq_append_conv length_to_be_bytes)+
  from len have "length as = length bs"
    using frame_length_inj assms(2,3) by (simp add: framed_def)
  with rest assms(4,5) show ?thesis
    by (intro concat_frames_cancel [where P = file_framed and frame = file_frame])
      (use file_frame_cancel in blast)+
qed

lemma preimage_ids_cancel:
  assumes "to_be_bytes (of_nat (length as)) @ concat (map (\<lambda>k. absorb (as_bytes k)) as) =
      to_be_bytes (of_nat (length bs)) @ concat (map (\<lambda>k. absorb (as_bytes k)) bs)"
    and "framed as" "framed bs" "list_all framed as" "list_all framed bs"
  shows "as = bs"
proof -
  from assms(1) have len: "to_be_bytes (of_nat (length as)) = to_be_bytes (of_nat (length bs))"
    and rest: "concat (map (\<lambda>k. absorb (as_bytes k)) as) @ [] =
               concat (map (\<lambda>k. absorb (as_bytes k)) bs) @ []"
    by (metis append_eq_append_conv length_to_be_bytes, simp add: append_eq_append_conv)
  from len have "length as = length bs"
    using frame_length_inj assms(2,3) by (simp add: framed_def)
  with rest assms(4,5) have "as = bs \<and> ([] :: bytes) = []"
    by (intro concat_frames_cancel [where P = framed and frame = "\<lambda>k. absorb (as_bytes k)"])
      (use absorb_text_cancel in blast)+
  then show ?thesis by simp
qed

lemma requested_ids_framed:
  "spec_wf s \<Longrightarrow> spec_framed s \<Longrightarrow> framed (requested_ids s) \<and> list_all framed (requested_ids s)"
  by (auto simp: requested_ids_def framed_def spec_framed_def spec_wf_def list_all_iff file_framed_def)

text \<open>
  C32.  The framing of \<open>request_digest\<close> is injective: two constructed
  specifications feed the same bytes to the hash exactly when they are the same
  request, that is, agree on everything but the display label.
\<close>

theorem request_preimage_injective:
  assumes "spec_wf s" "spec_wf t" "spec_framed s" "spec_framed t"
  shows "request_preimage s = request_preimage t \<longleftrightarrow> same_request s t"
proof
  assume "request_preimage s = request_preimage t"
  note head = preimage_head_cancel [OF this assms(3,4)]
  then have flag: "js_full_session s = js_full_session t" and tail: "preimage_tail s = preimage_tail t"
    by (auto split: if_splits)
  have "js_session_files s = js_session_files t \<and>
    to_be_bytes (of_nat (length (requested_ids s))) @
      concat (map (\<lambda>k. absorb (as_bytes k)) (requested_ids s)) =
    to_be_bytes (of_nat (length (requested_ids t))) @
      concat (map (\<lambda>k. absorb (as_bytes k)) (requested_ids t))"
    using assms(3,4) tail unfolding preimage_tail_def spec_framed_def
    by (intro preimage_files_cancel) auto
  moreover from this have "requested_ids s = requested_ids t"
    using requested_ids_framed assms by (intro preimage_ids_cancel) auto
  ultimately have "js_requested s = js_requested t" "js_session_files s = js_session_files t"
    using assms(1,2) unfolding requested_ids_def spec_wf_def
    by (auto intro!: requested_ids_inj [of "js_session_files s"])
  with head flag show "same_request s t" by (intro same_requestI) (auto dest: head_fields_inj)
qed (rule same_request_preimage)

definition sample_spec :: "string \<Rightarrow> JobSpec" where
  "sample_spec label = \<lparr>js_identity = sample_identity, js_publication = sample_publication,
     js_session_files = [sample_file ''a'' 1, sample_file ''b'' 2], js_requested = [1],
     js_full_session = False, js_date_label = label\<rparr>"

lemma sample_spec_wf: "spec_wf (sample_spec l) \<and> spec_framed (sample_spec l)"
  by (simp add: sample_spec_def sample_defs spec_wf_def spec_framed_def framed_def file_framed_def)

theorem request_preimage_injective_witness:
  "request_preimage (sample_spec ''monday'') = request_preimage (sample_spec ''tuesday'') \<and>
   request_preimage (sample_spec ''monday'') \<noteq>
     request_preimage (sample_spec ''monday''\<lparr>js_full_session := True, js_requested := [1, 0]\<rparr>)"
proof -
  let ?full = "sample_spec ''monday''\<lparr>js_full_session := True, js_requested := [1, 0]\<rparr>"
  have full: "spec_wf ?full" "spec_framed ?full"
    by (simp_all add: sample_spec_def sample_defs spec_wf_def spec_framed_def framed_def file_framed_def)
  have "same_request (sample_spec ''monday'') (sample_spec ''tuesday'')"
    "\<not> same_request (sample_spec ''monday'') ?full"
    by (simp_all add: same_request_def sample_spec_def)
  then show ?thesis
    using request_preimage_injective [of "sample_spec ''monday''" "sample_spec ''tuesday''"]
      request_preimage_injective [of "sample_spec ''monday''" ?full] sample_spec_wf full by blast
qed

section \<open>Hexadecimal digests\<close>

lemma hex_pairs_to_hex [simp]: "hex_pairs (RequestDigest_to_hex d) = Some d"
  by (induction d) (simp_all add: RequestDigest_to_hex_def byte_to_hex_def)

lemma to_hex_lower: "list_all is_lower_hex (RequestDigest_to_hex d)"
proof (induction d)
  case Nil
  then show ?case by (simp add: RequestDigest_to_hex_def)
next
  case (Cons b d)
  have "unat b < 256" using unsigned_less [of b, where ?'a = nat] by simp
  with Cons show ?case by (simp add: RequestDigest_to_hex_def byte_to_hex_def)
qed

lemma length_to_hex [simp]: "length (RequestDigest_to_hex d) = 2 * length d"
  by (induction d) (simp_all add: RequestDigest_to_hex_def byte_to_hex_def)

lemma to_hex_ok: "length d = 32 \<Longrightarrow> sha256_hex_ok (RequestDigest_to_hex d)"
  using to_hex_lower [of d] by (simp add: sha256_hex_ok_def)

lemma from_hex_ok: "sha256_hex_ok v \<Longrightarrow> hex_pairs v = Some d \<Longrightarrow> RequestDigest_from_hex v = Inr d"
  by (simp add: RequestDigest_from_hex_def require_sha256_hex_def)

text \<open>
  A 32-byte request digest survives its hexadecimal column: parsing what
  \<open>to_hex\<close> writes gives the digest back.
\<close>

theorem request_digest_hex_roundtrip:
  "length d = 32 \<Longrightarrow> RequestDigest_from_hex (RequestDigest_to_hex d) = Inr d"
  by (simp add: from_hex_ok to_hex_ok)

theorem request_digest_hex_roundtrip_witness:
  "RequestDigest_from_hex (RequestDigest_to_hex (replicate 32 171)) = Inr (replicate 32 171)"
  by (rule request_digest_hex_roundtrip) simp

section \<open>Requests and specifications\<close>

lemma JobIdentity_new_Inr:
  "JobIdentity_new d ss r = Inr i \<Longrightarrow>
   i = \<lparr>ji_device_id = d, ji_session_id = ss, ji_revision = r\<rparr> \<and>
   \<not> is_blank d \<and> \<not> is_blank ss \<and> \<not> is_blank r"
  by (auto simp: JobIdentity_new_def result_bind_Inr_iff)

lemma PublicationMaterial_new_Inr:
  "PublicationMaterial_new r pl sg pk = Inr m \<Longrightarrow>
   m = \<lparr>pm_revision = r, pm_payload = pl, pm_signature = sg, pm_public_key = pk\<rparr> \<and>
   \<not> is_blank r \<and> pl \<noteq> [] \<and> length sg = 64 \<and> length pk = 32"
  by (auto simp: PublicationMaterial_new_def result_bind_Inr_iff PUBLICATION_SIGNATURE_LEN_def
      PUBLICATION_PUBLIC_KEY_LEN_def split: if_splits)

lemma JobFileSpec_new_Inr:
  "JobFileSpec_new k p n h = Inr f \<Longrightarrow>
   f = \<lparr>jf_file_id = k, jf_display_path = p, jf_size_bytes = n, jf_sha256 = h\<rparr> \<and>
   \<not> is_blank k \<and> \<not> is_blank p \<and> sha256_hex_ok h"
  by (auto simp: JobFileSpec_new_def result_bind_Inr_iff)

definition plain_file_spec :: "JobFile \<Rightarrow> JobFileSpec" where
  "plain_file_spec f = \<lparr>jf_file_id = file_id f, jf_display_path = target_path_or_id f,
     jf_size_bytes = expected_size f, jf_sha256 = expected_sha256_hex f\<rparr>"

lemma result_collect_job_files:
  "result_collect job_file_spec fs = Inr out \<Longrightarrow> out = map plain_file_spec fs"
  unfolding result_collect_Inr_iff
  by (induction fs out rule: list_all2_induct)
    (auto simp: job_file_spec_def plain_file_spec_def dest: JobFileSpec_new_Inr)

lemma whole_request_files:
  assumes "spec_wf s" "map jf_file_id (requested_files s) = map jf_file_id (js_session_files s)"
  shows "requested_files s = js_session_files s"
proof (rule map_inj_on [OF assms(2)])
  have "set (requested_files s) \<union> set (js_session_files s) = set (js_session_files s)"
    using requested_files_subset [OF assms(1)] by blast
  then show "inj_on jf_file_id (set (requested_files s) \<union> set (js_session_files s))"
    using assms(1) by (simp add: spec_wf_def distinct_map)
qed

text \<open>
  A request in the form recovery rebuilds it in: the natural key as its label and
  every local path written out.
\<close>

definition normal_request :: "TransferRequest \<Rightarrow> TransferRequest" where
  "normal_request r = r\<lparr>
     tr_idempotency_key := natural_key \<lparr>ji_device_id = tr_device_id r,
       ji_session_id = tr_session_id r, ji_revision = tr_revision r\<rparr>,
     tr_files := map (\<lambda>f. f\<lparr>target_relative_path := Some (target_path_or_id f)\<rparr>) (tr_files r)\<rparr>"

text \<open>
  Recovery loses nothing of a request: the specification \<open>to_job_spec\<close> makes
  of it gives, through \<open>request_from_spec\<close>, the same files in the same order with
  the same sizes, hashes and local paths, the same identity and the same
  publication material.
\<close>

theorem request_spec_roundtrip:
  assumes "to_job_spec r full label = Inr s"
  shows "request_from_spec s = normal_request r"
proof -
  let ?files = "map plain_file_spec (tr_files r)"
  from assms obtain identity publication where
    parts: "JobIdentity_new (tr_device_id r) (tr_session_id r) (tr_revision r) = Inr identity"
      "PublicationMaterial_new (tr_revision r) (tr_manifest_bytes r) (tr_signature r)
         (tr_publication_public_key r) = Inr publication"
    and new: "JobSpec_new identity publication ?files (map file_id (tr_files r)) full label = Inr s"
    by (auto simp: to_job_spec_def result_bind_Inr_iff dest!: result_collect_job_files)
  note wf = JobSpec_new_wf [OF new]
  have "map jf_file_id (requested_files s) = map jf_file_id (js_session_files s)"
    using wf(2,3) by (simp add: plain_file_spec_def comp_def)
  then have "requested_files s = ?files"
    using whole_request_files [OF wf(1)] wf(3) by metis
  moreover have "js_identity s = identity" "js_publication s = publication"
    using new by (auto simp: JobSpec_new_ok)
  ultimately show ?thesis
    using parts by (auto simp: request_from_spec_def normal_request_def plain_file_spec_def
        dest!: JobIdentity_new_Inr PublicationMaterial_new_Inr)
qed

definition sample_request :: TransferRequest where
  "sample_request = \<lparr>tr_device_id = ''dev'', tr_session_id = ''s'', tr_revision = ''r1'',
     tr_idempotency_key = ''k'',
     tr_files = [\<lparr>file_id = ''a'', target_relative_path = Some ''left/a.mp4'', expected_size = 5,
                  expected_sha256_hex = replicate 64 CHR ''0''\<rparr>,
                 \<lparr>file_id = ''b'', target_relative_path = None, expected_size = 6,
                  expected_sha256_hex = replicate 64 CHR ''f''\<rparr>],
     tr_manifest_bytes = [1, 2], tr_signature = replicate 64 3,
     tr_publication_public_key = replicate 32 4\<rparr>"

theorem request_spec_roundtrip_witness:
  "\<exists>s. to_job_spec sample_request True ''today'' = Inr s \<and>
       request_from_spec s = normal_request sample_request"
proof -
  have "\<not> isl (to_job_spec sample_request True ''today'')" by code_simp
  then obtain s where "to_job_spec sample_request True ''today'' = Inr s"
    by (metis isl_def sum.exhaust)
  then show ?thesis using request_spec_roundtrip by blast
qed

end
