(* ===== verification/File_System.thy ===== *)
theory File_System
  imports Job_Spec
begin

text \<open>
  The operating-system interface the download engine is written against: paths
  as component lists (\<open>std::path\<close> on Unix), a tree of nodes, and the file
  operations with their errors.  A disk carries a fault script: the operation
  with a given number may fail with an error code, a write after any number of
  its bytes.  Symbolic links are followed at the last component.
\<close>

section \<open>Paths\<close>

datatype path_component = RootDir | CurDir | ParentDir | Normal string

type_synonym path = "path_component list"

text \<open>\<open>Path::components\<close>: empty segments vanish, a dot survives only at the start.\<close>

definition segment_component :: "string \<Rightarrow> path_component" where
  "segment_component s = (if s = ''..'' then ParentDir else Normal s)"

definition later_components :: "string list \<Rightarrow> path" where
  "later_components segs = map segment_component (filter (\<lambda>s. s \<noteq> [] \<and> s \<noteq> ''.'') segs)"

definition is_absolute :: "string \<Rightarrow> bool" where
  "is_absolute s \<longleftrightarrow> s \<noteq> [] \<and> hd s = CHR ''/''"

definition components :: "string \<Rightarrow> path" where
  "components s =
    (let segs = split_char CHR ''/'' s in
     if is_absolute s then RootDir # later_components segs
     else if hd segs = ''.'' then CurDir # later_components segs
     else later_components segs)"

text \<open>\<open>Path::join\<close>: an absolute argument replaces the base.\<close>

definition join_path :: "path \<Rightarrow> string \<Rightarrow> path" where
  "join_path base s =
    (if is_absolute s \<or> base = [] then components s
     else base @ later_components (split_char CHR ''/'' s))"

fun path_strip_prefix :: "path \<Rightarrow> path \<Rightarrow> path option" where
  "path_strip_prefix [] p = Some p"
| "path_strip_prefix (c # cs) [] = None"
| "path_strip_prefix (c # cs) (d # ds) = (if c = d then path_strip_prefix cs ds else None)"

definition is_normal :: "path_component \<Rightarrow> bool" where
  "is_normal c = (case c of Normal _ \<Rightarrow> True | _ \<Rightarrow> False)"

text \<open>Pushing a suffix onto the text of a path, as \<open>OsString::push\<close> does.\<close>

definition push_suffix :: "path \<Rightarrow> string \<Rightarrow> path" where
  "push_suffix p sfx =
    (if p = [] then [Normal sfx]
     else (case last p of
             Normal n \<Rightarrow> butlast p @ [Normal (n @ sfx)]
           | RootDir \<Rightarrow> p @ [Normal sfx]
           | CurDir \<Rightarrow> butlast p @ [Normal (CHR ''.'' # sfx)]
           | ParentDir \<Rightarrow> butlast p @ [Normal (''..'' @ sfx)]))"

lemma path_strip_prefix_append [simp]: "path_strip_prefix p (p @ q) = Some q"
  by (induction p) auto

lemma path_strip_prefix_self [simp]: "path_strip_prefix p p = Some []"
  using path_strip_prefix_append [of p "[]"] by simp

lemma push_suffix_Normal [simp]:
  "push_suffix (p @ [Normal n]) sfx = p @ [Normal (n @ sfx)]"
  by (simp add: push_suffix_def)

section \<open>Nodes and errors\<close>

text \<open>A directory node carries the length its metadata reports.\<close>

datatype node = NFile bytes | NDir u64 | NSymlink path

datatype io_kind = NotFound | AlreadyExists | OtherKind

datatype io_error = IoError (io_kind: io_kind) (raw_os_error: "nat option")

definition ENOENT :: io_error where "ENOENT = IoError NotFound (Some 2)"
definition EEXIST :: io_error where "EEXIST = IoError AlreadyExists (Some 17)"
definition ENOTDIR :: io_error where "ENOTDIR = IoError OtherKind (Some 20)"
definition EISDIR :: io_error where "EISDIR = IoError OtherKind (Some 21)"
definition ENOTEMPTY :: io_error where "ENOTEMPTY = IoError OtherKind (Some 39)"
definition ELOOP :: io_error where "ELOOP = IoError OtherKind (Some 40)"

lemma io_kinds [simp]:
  "io_kind ENOENT = NotFound" "io_kind EEXIST = AlreadyExists" "io_kind ENOTDIR = OtherKind"
  "io_kind EISDIR = OtherKind" "io_kind ELOOP = OtherKind" "io_kind ENOTEMPTY = OtherKind"
  by (simp_all add: ENOTEMPTY_def ENOENT_def EEXIST_def ENOTDIR_def EISDIR_def ELOOP_def)

type_synonym nodes = "(path \<times> node) list"

record Disk =
  dk_nodes :: nodes
  dk_clock :: nat
  dk_faults :: "nat \<Rightarrow> (nat \<times> nat) option"

abbreviation lookup :: "Disk \<Rightarrow> path \<Rightarrow> node option" where
  "lookup d \<equiv> map_of (dk_nodes d)"

definition put_node :: "path \<Rightarrow> node \<Rightarrow> nodes \<Rightarrow> nodes" where
  "put_node p n ns = (p, n) # filter (\<lambda>e. fst e \<noteq> p) ns"

definition del_node :: "path \<Rightarrow> nodes \<Rightarrow> nodes" where
  "del_node p ns = filter (\<lambda>e. fst e \<noteq> p) ns"

lemma map_of_put_node [simp]: "map_of (put_node p n ns) = (map_of ns)(p \<mapsto> n)"
  by (auto simp: put_node_def map_of_filter_fst fun_eq_iff)

lemma map_of_del_node [simp]: "map_of (del_node p ns) = (map_of ns)(p := None)"
  by (simp add: del_node_def map_of_filter_fst)

fun follow :: "nat \<Rightarrow> nodes \<Rightarrow> path \<Rightarrow> path option" where
  "follow 0 ns p = None"
| "follow (Suc k) ns p =
     (case map_of ns p of Some (NSymlink t) \<Rightarrow> follow k ns t | _ \<Rightarrow> Some p)"

text \<open>Linux gives up after forty links.\<close>

definition resolve_link :: "nodes \<Rightarrow> path \<Rightarrow> path option" where
  "resolve_link ns p = follow 40 ns p"

definition no_symlink :: "Disk \<Rightarrow> path \<Rightarrow> bool" where
  "no_symlink d p = (case lookup d p of Some (NSymlink _) \<Rightarrow> False | _ \<Rightarrow> True)"

lemma resolve_link_plain: "no_symlink d p \<Longrightarrow> resolve_link (dk_nodes d) p = Some p"
proof -
  assume "no_symlink d p"
  then have "follow (Suc k) (dk_nodes d) p = Some p" for k
    by (auto simp: no_symlink_def split: option.splits node.splits)
  then have "follow (Suc 39) (dk_nodes d) p = Some p" .
  then show ?thesis by (simp add: resolve_link_def)
qed

section \<open>Operations\<close>

text \<open>
  Every operation takes one step of the clock; a scheduled fault replaces its
  effect (a faulty write keeps the scheduled number of its bytes).
\<close>

type_synonym 'a io = "Disk \<Rightarrow> (io_error + 'a) \<times> Disk"

definition io_tick :: "Disk \<Rightarrow> Disk" where
  "io_tick d = d\<lparr>dk_clock := Suc (dk_clock d)\<rparr>"

definition current_fault :: "Disk \<Rightarrow> (nat \<times> nat) option" where
  "current_fault d = dk_faults d (dk_clock d)"

definition guarded :: "'a io \<Rightarrow> 'a io" where
  "guarded body d =
    (case current_fault d of
       Some (errno, _) \<Rightarrow> (Inl (IoError OtherKind (Some errno)), io_tick d)
     | None \<Rightarrow> body (io_tick d))"

definition symlink_metadata :: "path \<Rightarrow> node io" where
  "symlink_metadata p = guarded (\<lambda>d.
    (case lookup d p of None \<Rightarrow> Inl ENOENT | Some n \<Rightarrow> Inr n, d))"

definition metadata :: "path \<Rightarrow> node io" where
  "metadata p = guarded (\<lambda>d.
    (case resolve_link (dk_nodes d) p of
       None \<Rightarrow> Inl ELOOP
     | Some q \<Rightarrow> (case lookup d q of None \<Rightarrow> Inl ENOENT | Some n \<Rightarrow> Inr n), d))"

definition node_len :: "node \<Rightarrow> u64" where
  "node_len n = (case n of NFile b \<Rightarrow> of_nat (length b) | NDir l \<Rightarrow> l | NSymlink _ \<Rightarrow> 0)"

definition read_file :: "path \<Rightarrow> bytes io" where
  "read_file p = guarded (\<lambda>d.
    (case resolve_link (dk_nodes d) p of
       None \<Rightarrow> Inl ELOOP
     | Some q \<Rightarrow>
         (case lookup d q of
            None \<Rightarrow> Inl ENOENT
          | Some (NFile b) \<Rightarrow> Inr b
          | Some _ \<Rightarrow> Inl EISDIR), d))"

text \<open>
  Opening for writing gives the resolved path, which the handle keeps naming;
  \<open>create\<close> makes a missing file, \<open>truncate\<close> empties an existing one.
\<close>

definition open_write :: "bool \<Rightarrow> bool \<Rightarrow> path \<Rightarrow> path io" where
  "open_write create trunc p = guarded (\<lambda>d.
    case resolve_link (dk_nodes d) p of
      None \<Rightarrow> (Inl ELOOP, d)
    | Some q \<Rightarrow>
        (case lookup d q of
           Some (NFile b) \<Rightarrow>
             (Inr q, if trunc then d\<lparr>dk_nodes := put_node q (NFile []) (dk_nodes d)\<rparr> else d)
         | Some _ \<Rightarrow> (Inl EISDIR, d)
         | None \<Rightarrow>
             if \<not> create then (Inl ENOENT, d)
             else (case lookup d (butlast q) of
                     Some (NDir _) \<Rightarrow>
                       (Inr q, d\<lparr>dk_nodes := put_node q (NFile []) (dk_nodes d)\<rparr>)
                   | Some _ \<Rightarrow> (Inl ENOTDIR, d)
                   | None \<Rightarrow> (Inl ENOENT, d))))"

text \<open>Content after writing \<open>data\<close> at an offset; a gap reads as zeros.\<close>

definition write_at :: "nat \<Rightarrow> bytes \<Rightarrow> bytes \<Rightarrow> bytes" where
  "write_at off data b =
    take off b @ replicate (off - length b) 0 @ data @ drop (off + length data) b"

definition file_bytes :: "Disk \<Rightarrow> path \<Rightarrow> bytes" where
  "file_bytes d p = (case lookup d p of Some (NFile b) \<Rightarrow> b | _ \<Rightarrow> [])"

definition write_all_at :: "path \<Rightarrow> nat \<Rightarrow> bytes \<Rightarrow> unit io" where
  "write_all_at q off data d =
    (let put = (\<lambda>x. (io_tick d)\<lparr>dk_nodes :=
                 put_node q (NFile (write_at off x (file_bytes d q))) (dk_nodes d)\<rparr>) in
     case current_fault d of
       Some (errno, landed) \<Rightarrow> (Inl (IoError OtherKind (Some errno)), put (take landed data))
     | None \<Rightarrow> (Inr (), put data))"

definition sync_all :: "path \<Rightarrow> unit io" where
  "sync_all q = guarded (\<lambda>d. (Inr (), d))"

definition set_len :: "path \<Rightarrow> nat \<Rightarrow> unit io" where
  "set_len q n = guarded (\<lambda>d.
    (Inr (), d\<lparr>dk_nodes := put_node q
       (NFile (take n (file_bytes d q) @ replicate (n - length (file_bytes d q)) 0)) (dk_nodes d)\<rparr>))"

definition remove_file :: "path \<Rightarrow> unit io" where
  "remove_file p = guarded (\<lambda>d.
    case lookup d p of
      None \<Rightarrow> (Inl ENOENT, d)
    | Some (NDir _) \<Rightarrow> (Inl EISDIR, d)
    | Some _ \<Rightarrow> (Inr (), d\<lparr>dk_nodes := del_node p (dk_nodes d)\<rparr>))"

text \<open>Renaming moves the node and, for a directory, everything below it.\<close>

definition move_key :: "path \<Rightarrow> path \<Rightarrow> path \<Rightarrow> path" where
  "move_key a b p = (case path_strip_prefix a p of None \<Rightarrow> p | Some rest \<Rightarrow> b @ rest)"

definition move_nodes :: "path \<Rightarrow> path \<Rightarrow> nodes \<Rightarrow> nodes" where
  "move_nodes a b ns =
    map (\<lambda>e. (move_key a b (fst e), snd e)) (filter (\<lambda>e. path_strip_prefix b (fst e) = None) ns)"

text \<open>
  A directory replaces only an empty directory, a file only something that is not
  one; the directory that is to hold the new name must exist.
\<close>

definition dir_empty :: "path \<Rightarrow> nodes \<Rightarrow> bool" where
  "dir_empty p ns \<longleftrightarrow> list_all (\<lambda>e. fst e = p \<or> path_strip_prefix p (fst e) = None) ns"

definition rename_onto :: "node \<Rightarrow> path \<Rightarrow> path \<Rightarrow> unit io" where
  "rename_onto n a b d =
    (case n of
       NDir _ \<Rightarrow>
         (case lookup d b of
            Some (NDir _) \<Rightarrow>
              if dir_empty b (dk_nodes d) then (Inr (), d\<lparr>dk_nodes := move_nodes a b (dk_nodes d)\<rparr>)
              else (Inl ENOTEMPTY, d)
          | Some _ \<Rightarrow> (Inl ENOTDIR, d)
          | None \<Rightarrow> (Inr (), d\<lparr>dk_nodes := move_nodes a b (dk_nodes d)\<rparr>))
     | _ \<Rightarrow>
         (case lookup d b of
            Some (NDir _) \<Rightarrow> (Inl EISDIR, d)
          | _ \<Rightarrow> (Inr (), d\<lparr>dk_nodes := put_node b n (del_node a (dk_nodes d))\<rparr>)))"

definition rename_now :: "path \<Rightarrow> path \<Rightarrow> unit io" where
  "rename_now a b d =
    (case lookup d a of
       None \<Rightarrow> (Inl ENOENT, d)
     | Some n \<Rightarrow>
         (case lookup d (butlast b) of
            None \<Rightarrow> (Inl ENOENT, d)
          | Some (NDir _) \<Rightarrow> rename_onto n a b d
          | Some _ \<Rightarrow> (Inl ENOTDIR, d)))"

definition rename :: "path \<Rightarrow> path \<Rightarrow> unit io" where
  "rename a b = guarded (rename_now a b)"

definition create_dir :: "path \<Rightarrow> unit io" where
  "create_dir p = guarded (\<lambda>d.
    case lookup d p of
      Some _ \<Rightarrow> (Inl EEXIST, d)
    | None \<Rightarrow>
        (case lookup d (butlast p) of
           Some (NDir _) \<Rightarrow> (Inr (), d\<lparr>dk_nodes := put_node p (NDir 4096) (dk_nodes d)\<rparr>)
         | Some _ \<Rightarrow> (Inl ENOTDIR, d)
         | None \<Rightarrow> (Inl ENOENT, d)))"

text \<open>\<open>create_dir_all\<close>: every missing ancestor, from the outermost one.\<close>

fun make_dirs :: "path list \<Rightarrow> Disk \<Rightarrow> (io_error + unit) \<times> Disk" where
  "make_dirs [] d = (Inr (), d)"
| "make_dirs (p # ps) d =
     (case lookup d p of
        None \<Rightarrow> make_dirs ps (d\<lparr>dk_nodes := put_node p (NDir 4096) (dk_nodes d)\<rparr>)
      | Some (NDir _) \<Rightarrow> make_dirs ps d
      | Some _ \<Rightarrow> (Inl EEXIST, d))"

definition create_dir_all :: "path \<Rightarrow> unit io" where
  "create_dir_all p = guarded (make_dirs (map (\<lambda>k. take k p) [1..<Suc (length p)]))"

text \<open>The names of the entries of a directory.\<close>

definition dir_names :: "path \<Rightarrow> nodes \<Rightarrow> string list" where
  "dir_names p ns =
    remdups (concat (map (\<lambda>e. (case path_strip_prefix p (fst e) of
                         Some [Normal n] \<Rightarrow> [n]
                       | _ \<Rightarrow> [])) ns))"

definition read_dir :: "path \<Rightarrow> string list io" where
  "read_dir p = guarded (\<lambda>d.
    (case lookup d p of
       None \<Rightarrow> Inl ENOENT
     | Some (NDir _) \<Rightarrow> Inr (dir_names p (dk_nodes d))
     | Some _ \<Rightarrow> Inl ENOTDIR, d))"

text \<open>\<open>remove_dir\<close>, and \<open>Path::is_dir\<close> and \<open>Path::exists\<close>, which answer no on any error.\<close>

definition remove_dir :: "path \<Rightarrow> unit io" where
  "remove_dir p = guarded (\<lambda>d.
    case lookup d p of
      None \<Rightarrow> (Inl ENOENT, d)
    | Some (NDir _) \<Rightarrow>
        if dir_empty p (dk_nodes d) then (Inr (), d\<lparr>dk_nodes := del_node p (dk_nodes d)\<rparr>)
        else (Inl ENOTEMPTY, d)
    | Some _ \<Rightarrow> (Inl ENOTDIR, d))"

definition path_is_dir :: "path \<Rightarrow> Disk \<Rightarrow> bool \<times> Disk" where
  "path_is_dir p d = (case metadata p d of (r, d') \<Rightarrow> (case r of Inr (NDir _) \<Rightarrow> True | _ \<Rightarrow> False, d'))"

definition path_exists :: "path \<Rightarrow> Disk \<Rightarrow> bool \<times> Disk" where
  "path_exists p d = (case metadata p d of (r, d') \<Rightarrow> (\<not> isl r, d'))"

text \<open>
  \<open>remove_dir_all\<close>: a symbolic link is removed itself, a directory with everything
  below it; a failure in the middle leaves a rest, removed from the leaves.
\<close>

definition remove_leaves :: "nat \<Rightarrow> path \<Rightarrow> nodes \<Rightarrow> nodes" where
  "remove_leaves k p ns =
    (let inside = filter (\<lambda>q. path_strip_prefix p q \<noteq> None) (map fst ns);
         gone = take k (rev (sort_key length inside)) in
     filter (\<lambda>e. fst e \<notin> set gone) ns)"

definition remove_tree :: "path \<Rightarrow> nodes \<Rightarrow> nodes" where
  "remove_tree p ns = filter (\<lambda>e. path_strip_prefix p (fst e) = None) ns"

definition remove_dir_all :: "path \<Rightarrow> unit io" where
  "remove_dir_all p d =
    (case current_fault d of
       Some (errno, landed) \<Rightarrow>
         (Inl (IoError OtherKind (Some errno)),
          (case lookup d p of
             Some (NDir _) \<Rightarrow> (io_tick d)\<lparr>dk_nodes := remove_leaves landed p (dk_nodes d)\<rparr>
           | _ \<Rightarrow> io_tick d))
     | None \<Rightarrow>
         (case lookup d p of
            None \<Rightarrow> (Inl ENOENT, io_tick d)
          | Some (NFile _) \<Rightarrow> (Inl ENOTDIR, io_tick d)
          | Some (NSymlink _) \<Rightarrow> (Inr (), (io_tick d)\<lparr>dk_nodes := del_node p (dk_nodes d)\<rparr>)
          | Some (NDir _) \<Rightarrow> (Inr (), (io_tick d)\<lparr>dk_nodes := remove_tree p (dk_nodes d)\<rparr>)))"

text \<open>\<open>create_new\<close>: an existing name, a link included, is an error.\<close>

definition open_new :: "path \<Rightarrow> path io" where
  "open_new p = guarded (\<lambda>d.
    case lookup d p of
      Some _ \<Rightarrow> (Inl EEXIST, d)
    | None \<Rightarrow>
        (case lookup d (butlast p) of
           Some (NDir _) \<Rightarrow> (Inr p, d\<lparr>dk_nodes := put_node p (NFile []) (dk_nodes d)\<rparr>)
         | Some _ \<Rightarrow> (Inl ENOTDIR, d)
         | None \<Rightarrow> (Inl ENOENT, d)))"

section \<open>Frame lemmas\<close>

text \<open>
  \<open>touches N S m\<close>: started where no path of \<open>N\<close> is a symbolic link, the operation
  \<open>m\<close> changes no node at a path outside \<open>S\<close>, leaves no symbolic link in \<open>N\<close> and
  keeps the fault script, whatever that script says.
\<close>

definition touches :: "path set \<Rightarrow> path set \<Rightarrow> (Disk \<Rightarrow> 'r \<times> Disk) \<Rightarrow> bool" where
  "touches N S m \<longleftrightarrow>
    (\<forall>d. (\<forall>p\<in>N. no_symlink d p) \<longrightarrow>
       (\<forall>p. p \<notin> S \<longrightarrow> lookup (snd (m d)) p = lookup d p) \<and>
       (\<forall>p\<in>N. no_symlink (snd (m d)) p) \<and>
       dk_faults (snd (m d)) = dk_faults d)"

named_theorems touchesI \<open>what each disk operation may change\<close>

lemma touchesD:
  assumes "touches N S m" "\<forall>p\<in>N. no_symlink d p"
  shows "p \<notin> S \<Longrightarrow> lookup (snd (m d)) p = lookup d p"
    and "\<forall>p\<in>N. no_symlink (snd (m d)) p" and "dk_faults (snd (m d)) = dk_faults d"
  using assms by (auto simp: touches_def)

lemma touches_mono: "touches N S m \<Longrightarrow> S \<subseteq> T \<Longrightarrow> touches N T m"
  unfolding touches_def by blast

lemma tick_simps [simp]:
  "dk_nodes (io_tick d) = dk_nodes d" "dk_faults (io_tick d) = dk_faults d"
  "dk_clock (io_tick d) = Suc (dk_clock d)"
  by (simp_all add: io_tick_def)

lemma no_symlink_tick [simp]: "no_symlink (io_tick d) p = no_symlink d p"
  by (simp add: no_symlink_def)

lemma no_symlink_put:
  "no_symlink (d\<lparr>dk_nodes := put_node q n ns\<rparr>) p =
     (if p = q then \<not> (\<exists>t. n = NSymlink t) else no_symlink (d\<lparr>dk_nodes := ns\<rparr>) p)"
  by (auto simp: no_symlink_def split: node.splits)

lemma no_symlink_del:
  "no_symlink (d\<lparr>dk_nodes := ns\<rparr>) p \<Longrightarrow> no_symlink (d\<lparr>dk_nodes := del_node q ns\<rparr>) p"
  by (auto simp: no_symlink_def)

lemma touches_guarded: "touches N S body \<Longrightarrow> touches N S (guarded body)"
  by (auto simp: touches_def guarded_def split: option.splits)

lemma touches_reads [touchesI]:
  "touches N S (symlink_metadata p)" "touches N S (metadata p)" "touches N S (read_file p)"
  "touches N S (sync_all p)" "touches N S (read_dir p)"
  unfolding symlink_metadata_def metadata_def read_file_def sync_all_def read_dir_def
  by (rule touches_guarded, simp add: touches_def)+

lemma touches_put:
  "p \<in> S \<Longrightarrow> (\<And>d t. n d \<noteq> NSymlink t) \<Longrightarrow>
   touches N S (\<lambda>d. (r, d\<lparr>dk_nodes := put_node p (n d) (dk_nodes d)\<rparr>))"
  by (auto simp: touches_def no_symlink_put)

lemma touches_write_all_at [touchesI]: "p \<in> S \<Longrightarrow> touches N S (write_all_at p off b)"
  by (auto simp: touches_def write_all_at_def Let_def no_symlink_put io_tick_def
      split: option.splits)
    (auto simp: no_symlink_def)

lemma touches_set_len [touchesI]: "p \<in> S \<Longrightarrow> touches N S (set_len p n)"
  unfolding set_len_def by (rule touches_guarded, rule touches_put) auto

lemma touches_remove_file [touchesI]: "p \<in> S \<Longrightarrow> touches N S (remove_file p)"
  unfolding remove_file_def
  by (rule touches_guarded) (auto simp: touches_def no_symlink_del split: option.splits node.splits)

lemma touches_create_dir [touchesI]: "p \<in> S \<Longrightarrow> touches N S (create_dir p)"
  unfolding create_dir_def
  by (rule touches_guarded) (auto simp: touches_def no_symlink_put split: option.splits node.splits)

lemma touches_make_dirs: "set ps \<subseteq> S \<Longrightarrow> touches N S (make_dirs ps)"
proof (induction ps)
  case Nil
  then show ?case by (simp add: touches_def)
next
  case (Cons p ps)
  let ?mk = "\<lambda>d. d\<lparr>dk_nodes := put_node p (NDir 4096) (dk_nodes d)\<rparr>"
  have ih: "touches N S (make_dirs ps)" and p: "p \<in> S" using Cons by auto
  have "touches N S (\<lambda>d. make_dirs ps (?mk d))"
    using ih p unfolding touches_def by (auto simp: no_symlink_put)
  then show ?case
    using ih p unfolding touches_def
    by (auto simp: no_symlink_put split: option.splits node.splits)
qed

lemma touches_create_dir_all [touchesI]:
  "(\<And>k. 0 < k \<Longrightarrow> k \<le> length p \<Longrightarrow> take k p \<in> S) \<Longrightarrow> touches N S (create_dir_all p)"
  unfolding create_dir_all_def
  by (rule touches_guarded, rule touches_make_dirs) (auto simp del: upt_Suc)

section \<open>Renaming\<close>

definition below :: "path \<Rightarrow> path set" where
  "below p = {q. path_strip_prefix p q \<noteq> None}"

lemma path_strip_prefix_Some: "path_strip_prefix p q = Some r \<longleftrightarrow> q = p @ r"
  by (induction p q rule: path_strip_prefix.induct) auto

lemma below_iff: "q \<in> below p \<longleftrightarrow> (\<exists>r. q = p @ r)"
  by (auto simp: below_def path_strip_prefix_Some)

lemma below_self [simp]: "p \<in> below p"
  by (simp add: below_iff)

lemma below_same_length: "length p = length q \<Longrightarrow> q \<in> below p \<longleftrightarrow> q = p"
  by (auto simp: below_iff)

lemma move_key_eq:
  "q \<notin> below a \<Longrightarrow> move_key a b q = q" "move_key a b (a @ r) = b @ r"
  by (auto simp: move_key_def below_def split: option.splits)

lemma map_of_rekey:
  "(\<And>k. k \<in> fst ` set xs \<Longrightarrow> f k = k' \<longleftrightarrow> k = k0) \<Longrightarrow>
   map_of (map (\<lambda>e. (f (fst e), snd e)) xs) k' = map_of xs k0"
  by (induction xs) auto

lemma map_of_filter_key:
  "map_of (filter (\<lambda>e. P (fst e)) xs) k = (if P k then map_of xs k else None)"
  by (induction xs) auto

lemma move_nodes_outside:
  "q \<notin> below a \<Longrightarrow> q \<notin> below b \<Longrightarrow> map_of (move_nodes a b ns) q = map_of ns q"
proof -
  assume q: "q \<notin> below a" "q \<notin> below b"
  have "move_key a b k = q \<longleftrightarrow> k = q" for k
    using q by (auto simp: move_key_def below_def path_strip_prefix_Some split: option.splits)
  then have "map_of (move_nodes a b ns) q =
      map_of (filter (\<lambda>e. path_strip_prefix b (fst e) = None) ns) q"
    unfolding move_nodes_def by (intro map_of_rekey) blast
  also have "\<dots> = map_of ns q"
    using q by (subst map_of_filter_key) (auto simp: below_def)
  finally show ?thesis .
qed

lemma move_nodes_root:
  assumes "a \<notin> below b"
  shows "map_of (move_nodes a b ns) b = map_of ns a"
proof -
  have "move_key a b k = b \<longleftrightarrow> k = a"
    if "k \<in> fst ` set (filter (\<lambda>e. path_strip_prefix b (fst e) = None) ns)" for k
    using that by (auto simp: move_key_def path_strip_prefix_Some split: option.splits)
  then have "map_of (move_nodes a b ns) b =
      map_of (filter (\<lambda>e. path_strip_prefix b (fst e) = None) ns) a"
    unfolding move_nodes_def by (rule map_of_rekey)
  also have "\<dots> = map_of ns a"
    using assms by (subst map_of_filter_key) (auto simp: below_def)
  finally show ?thesis .
qed

lemma touches_rename [touchesI]:
  assumes "a \<in> N" "below a \<subseteq> S" "below b \<subseteq> S" "a \<notin> below b"
    and only: "\<And>q. q \<in> N \<Longrightarrow> q \<in> below b \<Longrightarrow> q = b"
    and only_a: "\<And>q. q \<in> N \<Longrightarrow> q \<in> below a \<Longrightarrow> q = a"
  shows "touches N S (rename a b)"
  unfolding rename_def
proof (rule touches_guarded, unfold touches_def, intro allI impI)
  fix d
  assume N: "\<forall>p\<in>N. no_symlink d p"
  let ?moved = "d\<lparr>dk_nodes := move_nodes a b (dk_nodes d)\<rparr>"
  have a: "a \<in> S" and b: "b \<in> S" using assms(2,3) by auto
  have out: "p \<notin> S \<Longrightarrow> lookup ?moved p = lookup d p" for p
    using assms(2,3) move_nodes_outside [of p a b "dk_nodes d"] by auto
  have gone: "lookup ?moved a = None"
  proof -
    have key: "a \<noteq> move_key a b k" for k
      using assms(4) by (auto simp: move_key_def path_strip_prefix_Some below_iff split: option.splits)
    then have "a \<notin> fst ` set (move_nodes a b (dk_nodes d))"
      by (auto simp: move_nodes_def key)
    then show ?thesis by (simp add: map_of_eq_None_iff)
  qed
  have links: "no_symlink ?moved q" if "q \<in> N" for q
  proof (cases "q \<in> below a \<or> q \<in> below b")
    case True
    with that only only_a have "q = a \<or> q = b" by blast
    then show ?thesis
      using gone move_nodes_root [OF assms(4), of "dk_nodes d"] N assms(1)
      by (auto simp: no_symlink_def)
  next
    case False
    with move_nodes_outside have "lookup ?moved q = lookup d q" by simp
    with N that show ?thesis by (auto simp: no_symlink_def)
  qed
  have single: "no_symlink (d\<lparr>dk_nodes := put_node b n (del_node a (dk_nodes d))\<rparr>) q"
    if "q \<in> N" "lookup d a = Some n" for q n
    using N that assms(1) by (auto simp: no_symlink_def split: node.splits)
  show "(\<forall>p. p \<notin> S \<longrightarrow> lookup (snd (rename_now a b d)) p = lookup d p) \<and>
      (\<forall>p\<in>N. no_symlink (snd (rename_now a b d)) p) \<and>
      dk_faults (snd (rename_now a b d)) = dk_faults d"
    using N a b out links single unfolding rename_now_def rename_onto_def
    by (auto split: option.splits node.splits)
qed

section \<open>Opening files\<close>

lemma open_write_plain:
  assumes "no_symlink d p" "current_fault d = None"
  shows "open_write create trunc p d =
    (case lookup d p of
       Some (NFile b) \<Rightarrow>
         (Inr p, if trunc then (io_tick d)\<lparr>dk_nodes := put_node p (NFile []) (dk_nodes d)\<rparr> else io_tick d)
     | Some _ \<Rightarrow> (Inl EISDIR, io_tick d)
     | None \<Rightarrow>
         if \<not> create then (Inl ENOENT, io_tick d)
         else (case lookup d (butlast p) of
                 Some (NDir _) \<Rightarrow> (Inr p, (io_tick d)\<lparr>dk_nodes := put_node p (NFile []) (dk_nodes d)\<rparr>)
               | Some _ \<Rightarrow> (Inl ENOTDIR, io_tick d)
               | None \<Rightarrow> (Inl ENOENT, io_tick d)))"
  using resolve_link_plain [of "io_tick d" p] assms
  by (simp add: open_write_def guarded_def cong: option.case_cong node.case_cong)

end
