(* ===== verification/Download_Path.thy ===== *)
theory Download_Path
  imports File_System
begin

text \<open>
  Target path safety of the download engine (\<open>library/download.rs\<close>, part 1) and
  the error type of the engine: validation of identifier segments and signed
  relative paths, derivation of the target, case-folding collisions, symbolic
  links, and the creation of parent directories.
\<close>

section \<open>Errors of the download engine\<close>

datatype PathSafetyError =
    PsEmpty
  | NulByte
  | DotDot
  | ReservedInternalName string
  | PathSeparator
  | DriveOrColon
  | ForbiddenWindowsCharacter
  | ReservedDeviceName string
  | TrailingDotOrSpace
  | EscapesRoot
  | CaseInsensitiveCollision string string
  | SymlinkNotAllowed path
  | PsIo path io_error

text \<open>The two values an \<open>ImmutableField\<close> error renders.\<close>

datatype field_value = SizeValue u64 | TextValue string | EtagValue "string option"

datatype CheckpointError =
    NonMonotonic u64 u64
  | ExceedsDurableBytes path u64 u64
  | ImmutableField string field_value field_value

datatype DownloadError =
    PathSafety PathSafetyError
  | Io path io_error
  | SourceIo string
  | Source string
  | InvalidPlan string
  | MalformedContentRange string
  | RangeMismatch u64 u64
  | RangeNotSatisfiable
  | UnexpectedStatus u16
  | TooManyRestarts
  | ShortBody u64 u64
  | UnexpectedExtraBytes
  | SizeMismatch u64 u64
  | HashMismatch string string
  | Serialization string
  | Checkpoint CheckpointError
  | Verification string

section \<open>Sequencing\<close>

text \<open>Steps on the disk that may fail; \<open>dl_bind\<close> is the \<open>?\<close> operator.\<close>

type_synonym 'a dl = "Disk \<Rightarrow> (DownloadError + 'a) \<times> Disk"

definition dl_return :: "'a \<Rightarrow> 'a dl" where
  "dl_return x d = (Inr x, d)"

definition dl_fail :: "DownloadError \<Rightarrow> 'a dl" where
  "dl_fail e d = (Inl e, d)"

definition dl_bind :: "'a dl \<Rightarrow> ('a \<Rightarrow> 'b dl) \<Rightarrow> 'b dl" where
  "dl_bind m f d = (case m d of (Inl e, d') \<Rightarrow> (Inl e, d') | (Inr x, d') \<Rightarrow> f x d')"

definition dl_lift :: "DownloadError + 'a \<Rightarrow> 'a dl" where
  "dl_lift r d = (r, d)"

text \<open>An operation with its error still in hand, for the sources' matches on the kind.\<close>

definition dl_try :: "'a io \<Rightarrow> (io_error + 'a) dl" where
  "dl_try m d = (case m d of (r, d') \<Rightarrow> (Inr r, d'))"

definition dl_io :: "path \<Rightarrow> 'a io \<Rightarrow> 'a dl" where
  "dl_io p m d = (case m d of (Inl e, d') \<Rightarrow> (Inl (Io p e), d') | (Inr x, d') \<Rightarrow> (Inr x, d'))"

text \<open>Running a step and discarding its result, as \<open>let _ = \<dots>\<close> does.\<close>

definition dl_ignore :: "'a dl \<Rightarrow> unit dl" where
  "dl_ignore m d = (Inr (), snd (m d))"

lemma touches_dl [touchesI]:
  "touches N S (dl_return x)" "touches N S (dl_fail e)" "touches N S (dl_lift r)"
  by (simp_all add: touches_def dl_return_def dl_fail_def dl_lift_def)

lemma touches_dl_bind [touchesI]:
  assumes "touches N S m" "\<And>x. touches N S (f x)"
  shows "touches N S (dl_bind m f)"
  unfolding touches_def
proof (intro allI impI)
  fix d
  assume N: "\<forall>p\<in>N. no_symlink d p"
  note m = touchesD [OF assms(1) N]
  note f = touchesD [OF assms(2) m(2)]
  show "(\<forall>p. p \<notin> S \<longrightarrow> lookup (snd (dl_bind m f d)) p = lookup d p) \<and>
      (\<forall>p\<in>N. no_symlink (snd (dl_bind m f d)) p) \<and>
      dk_faults (snd (dl_bind m f d)) = dk_faults d"
    using m f by (cases "m d"; cases "fst (m d)") (simp_all add: dl_bind_def)
qed

lemma touches_result:
  "touches N S m \<Longrightarrow> (\<And>d. snd (m' d) = snd (m d)) \<Longrightarrow> touches N S m'"
  by (simp add: touches_def)

lemma touches_dl_io [touchesI]: "touches N S m \<Longrightarrow> touches N S (dl_io p m)"
  by (erule touches_result) (auto simp: dl_io_def split: prod.splits sum.splits)

lemma touches_dl_try [touchesI]: "touches N S m \<Longrightarrow> touches N S (dl_try m)"
  by (erule touches_result) (auto simp: dl_try_def split: prod.splits)

lemma touches_dl_ignore [touchesI]: "touches N S m \<Longrightarrow> touches N S (dl_ignore m)"
  by (erule touches_result) (simp add: dl_ignore_def)

lemma touches_if [touchesI]: "touches N S m \<Longrightarrow> touches N S n \<Longrightarrow> touches N S (if b then m else n)"
  by simp

lemma dl_bind_Inr:
  "dl_bind m f d = (Inr y, d'') \<longleftrightarrow> (\<exists>x d'. m d = (Inr x, d') \<and> f x d' = (Inr y, d''))"
  by (auto simp: dl_bind_def split: prod.splits sum.splits)

lemma dl_bind_fst:
  "dl_bind m f d =
    (case fst (m d) of Inl e \<Rightarrow> (Inl e, snd (m d)) | Inr x \<Rightarrow> f x (snd (m d)))"
  by (cases "m d"; cases "fst (m d)") (simp_all add: dl_bind_def)

lemma dl_bind_assoc: "dl_bind (dl_bind m f) g = dl_bind m (\<lambda>x. dl_bind (f x) g)"
proof
  fix d
  show "dl_bind (dl_bind m f) g d = dl_bind m (\<lambda>x. dl_bind (f x) g) d"
    by (cases "m d"; cases "fst (m d)") (simp_all add: dl_bind_def)
qed

section \<open>Segments and relative paths\<close>

definition STAGING_DIR_NAME :: string where "STAGING_DIR_NAME = ''.ylx-staging''"
definition REVISION_MARKER_NAME :: string where "REVISION_MARKER_NAME = ''.ylx-revision''"
definition SELECTED_MARKER_NAME :: string where "SELECTED_MARKER_NAME = ''.ylx-selected''"

definition WINDOWS_RESERVED_NAMES :: "string list" where
  "WINDOWS_RESERVED_NAMES =
    [''CON'', ''PRN'', ''AUX'', ''NUL'', ''COM1'', ''COM2'', ''COM3'', ''COM4'', ''COM5'', ''COM6'',
     ''COM7'', ''COM8'', ''COM9'', ''LPT1'', ''LPT2'', ''LPT3'', ''LPT4'', ''LPT5'', ''LPT6'',
     ''LPT7'', ''LPT8'', ''LPT9'', ''CLOCK$'', ''CONIN$'', ''CONOUT$'']"

definition backslash :: char where "backslash = char_of (92 :: nat)"
definition double_quote :: char where "double_quote = char_of (34 :: nat)"
definition nul_char :: char where "nul_char = char_of (0 :: nat)"

definition forbidden_windows_char :: "char \<Rightarrow> bool" where
  "forbidden_windows_char c \<longleftrightarrow>
    (of_char c :: nat) < 32 \<or>
    c \<in> set [CHR ''<'', CHR ''>'', double_quote, CHR ''|'', CHR ''?'', CHR ''*'']"

definition is_internal_name :: "string \<Rightarrow> bool" where
  "is_internal_name s \<longleftrightarrow>
    eq_ignore_ascii_case s STAGING_DIR_NAME \<or> eq_ignore_ascii_case s REVISION_MARKER_NAME \<or>
    eq_ignore_ascii_case s SELECTED_MARKER_NAME"

definition validate_id_segment :: "string \<Rightarrow> PathSafetyError + unit" where
  "validate_id_segment s =
    (if s = [] then Inl PsEmpty
     else if nul_char \<in> set s then Inl NulByte
     else if s = ''.'' \<or> s = ''..'' then Inl DotDot
     else if is_internal_name s then Inl (ReservedInternalName s)
     else if CHR ''/'' \<in> set s \<or> backslash \<in> set s then Inl PathSeparator
     else if CHR '':'' \<in> set s then Inl DriveOrColon
     else if list_ex forbidden_windows_char s then Inl ForbiddenWindowsCharacter
     else if hd (split_char CHR ''.'' (ascii_uppercase s)) \<in> set WINDOWS_RESERVED_NAMES then
       Inl (ReservedDeviceName s)
     else if last s = CHR ''.'' \<or> last s = CHR '' '' then Inl TrailingDotOrSpace
     else Inr ())"

fun validate_segments :: "string list \<Rightarrow> PathSafetyError + unit" where
  "validate_segments [] = Inr ()"
| "validate_segments (s # ss) = result_bind (validate_id_segment s) (\<lambda>_. validate_segments ss)"

definition validate_relative_path :: "string \<Rightarrow> PathSafetyError + unit" where
  "validate_relative_path r =
    (if r = [] then Inl PsEmpty
     else if backslash \<in> set r then Inl PathSeparator
     else validate_segments (split_char CHR ''/'' r))"

section \<open>Target derivation\<close>

definition check_confined :: "path \<Rightarrow> path \<Rightarrow> PathSafetyError + path" where
  "check_confined library_root candidate =
    (case path_strip_prefix library_root candidate of
       None \<Rightarrow> Inl EscapesRoot
     | Some relative \<Rightarrow> if list_all is_normal relative then Inr candidate else Inl EscapesRoot)"

definition derive_target_path_for_file ::
    "path \<Rightarrow> string \<Rightarrow> string \<Rightarrow> string \<Rightarrow> string option \<Rightarrow> PathSafetyError + path" where
  "derive_target_path_for_file library_root device_id session_id fid relative_path =
    result_bind (validate_id_segment device_id) (\<lambda>_.
    result_bind (validate_id_segment session_id) (\<lambda>_.
    result_bind (validate_id_segment fid) (\<lambda>_.
      let session_root = join_path (join_path library_root device_id) session_id in
      case relative_path of
        Some r \<Rightarrow>
          result_bind (validate_relative_path r) (\<lambda>_.
            check_confined library_root (join_path session_root r))
      | None \<Rightarrow> check_confined library_root (join_path session_root fid))))"

definition derive_target_path ::
    "path \<Rightarrow> string \<Rightarrow> string \<Rightarrow> string \<Rightarrow> PathSafetyError + path" where
  "derive_target_path library_root device_id session_id fid =
    derive_target_path_for_file library_root device_id session_id fid None"

definition part_path :: "path \<Rightarrow> path" where
  "part_path target = push_suffix target ''.part''"

definition journal_path :: "path \<Rightarrow> path" where
  "journal_path target = push_suffix (part_path target) ''.journal''"

section \<open>Checks against the file system\<close>

text \<open>
  \<open>lower\<close> is Unicode lower-casing (\<open>str::to_lowercase\<close>), whose tables are not
  part of the sources.
\<close>

fun find_collision :: "(string \<Rightarrow> string) \<Rightarrow> string \<Rightarrow> string list \<Rightarrow> PathSafetyError + unit" where
  "find_collision lower candidate [] = Inr ()"
| "find_collision lower candidate (name # names) =
     (if name \<noteq> candidate \<and> lower name = lower candidate
      then Inl (CaseInsensitiveCollision candidate name)
      else find_collision lower candidate names)"

definition check_case_insensitive_collision ::
    "(string \<Rightarrow> string) \<Rightarrow> path \<Rightarrow> string \<Rightarrow> unit dl" where
  "check_case_insensitive_collision lower dir candidate =
    dl_bind (dl_try (read_dir dir)) (\<lambda>r.
      case r of
        Inl e \<Rightarrow> if io_kind e = NotFound then dl_return () else dl_fail (PathSafety (PsIo dir e))
      | Inr names \<Rightarrow>
          (case find_collision lower candidate names of
             Inl e \<Rightarrow> dl_fail (PathSafety e)
           | Inr _ \<Rightarrow> dl_return ()))"

definition reject_symlink :: "path \<Rightarrow> unit dl" where
  "reject_symlink p =
    dl_bind (dl_try (symlink_metadata p)) (\<lambda>r.
      case r of
        Inr (NSymlink _) \<Rightarrow> dl_fail (PathSafety (SymlinkNotAllowed p))
      | Inr _ \<Rightarrow> dl_return ()
      | Inl e \<Rightarrow> if io_kind e = NotFound then dl_return () else dl_fail (PathSafety (PsIo p e)))"

text \<open>\<open>create_dir\<close> tolerating an existing directory.\<close>

definition ensure_dir :: "path \<Rightarrow> unit dl" where
  "ensure_dir p =
    dl_bind (dl_try (create_dir p)) (\<lambda>r.
      case r of
        Inr _ \<Rightarrow> dl_return ()
      | Inl e \<Rightarrow>
          if io_kind e = AlreadyExists then
            dl_bind (dl_io p (metadata p)) (\<lambda>n.
              case n of
                NDir _ \<Rightarrow> dl_return ()
              | _ \<Rightarrow> dl_fail (Io p (IoError AlreadyExists None)))
          else dl_fail (Io p e))"

fun prepare_components :: "(string \<Rightarrow> string) \<Rightarrow> path \<Rightarrow> path \<Rightarrow> unit dl" where
  "prepare_components lower parent [] = dl_fail (PathSafety EscapesRoot)"
| "prepare_components lower parent (c # cs) =
     (case c of
        Normal name \<Rightarrow>
          dl_bind (check_case_insensitive_collision lower parent name) (\<lambda>_.
          dl_bind (reject_symlink (parent @ [c])) (\<lambda>_.
            if cs = [] then dl_return ()
            else
              dl_bind (ensure_dir (parent @ [c])) (\<lambda>_.
              dl_bind (reject_symlink (parent @ [c])) (\<lambda>_.
                prepare_components lower (parent @ [c]) cs))))
      | _ \<Rightarrow> dl_fail (PathSafety EscapesRoot))"

definition prepare_target_parent :: "(string \<Rightarrow> string) \<Rightarrow> path \<Rightarrow> path \<Rightarrow> unit dl" where
  "prepare_target_parent lower library_root target =
    dl_bind (dl_io library_root (create_dir_all library_root)) (\<lambda>_.
      case path_strip_prefix library_root target of
        None \<Rightarrow> dl_fail (PathSafety EscapesRoot)
      | Some relative \<Rightarrow> prepare_components lower library_root relative)"

section \<open>Confinement\<close>

lemma validate_id_segment_ok:
  "validate_id_segment s = Inr u \<Longrightarrow>
   s \<noteq> [] \<and> s \<noteq> ''.'' \<and> s \<noteq> ''..'' \<and> \<not> is_internal_name s \<and>
   CHR ''/'' \<notin> set s \<and> backslash \<notin> set s \<and> CHR '':'' \<notin> set s \<and> nul_char \<notin> set s"
  by (auto simp: validate_id_segment_def split: if_splits)

lemma validate_segments_ok:
  "validate_segments ss = Inr u \<longleftrightarrow> list_all (\<lambda>s. validate_id_segment s = Inr ()) ss"
  by (induction ss) (auto simp: result_bind_Inr_iff)

lemma later_components_valid:
  "list_all (\<lambda>s. validate_id_segment s = Inr ()) ss \<Longrightarrow> later_components ss = map Normal ss"
  by (induction ss)
    (auto simp: later_components_def segment_component_def dest: validate_id_segment_ok)

lemma join_path_segment:
  assumes "base \<noteq> []" "validate_id_segment s = Inr u"
  shows "join_path base s = base @ [Normal s]"
proof -
  note v = validate_id_segment_ok [OF assms(2)]
  have "split_char CHR ''/'' s = [s]" using v by (simp add: split_char_atom)
  moreover have "\<not> is_absolute s" using v by (cases s) (auto simp: is_absolute_def)
  ultimately show ?thesis
    using assms v by (simp add: join_path_def later_components_def segment_component_def)
qed

lemma validate_relative_path_ok:
  "validate_relative_path r = Inr u \<Longrightarrow>
   list_all (\<lambda>s. validate_id_segment s = Inr ()) (split_char CHR ''/'' r) \<and> \<not> is_absolute r"
proof -
  assume "validate_relative_path r = Inr u"
  then have all: "list_all (\<lambda>s. validate_id_segment s = Inr ()) (split_char CHR ''/'' r)"
    and "r \<noteq> []"
    by (auto simp: validate_relative_path_def validate_segments_ok split: if_splits)
  have "\<not> is_absolute r"
  proof
    assume "is_absolute r"
    then obtain rest where "r = CHR ''/'' # rest" by (cases r) (auto simp: is_absolute_def)
    with all show False by (simp add: validate_id_segment_def)
  qed
  with all show ?thesis by simp
qed

text \<open>The session-relative segments of a target: the signed path, or the identifier.\<close>

definition local_segments :: "string \<Rightarrow> string option \<Rightarrow> string list" where
  "local_segments fid relative_path =
    (case relative_path of None \<Rightarrow> [fid] | Some r \<Rightarrow> split_char CHR ''/'' r)"

lemma check_confined_Normal [simp]:
  "check_confined root (root @ map Normal ss) = Inr (root @ map Normal ss)"
  by (simp add: check_confined_def list_all_iff is_normal_def)

lemma derive_shape:
  assumes "root \<noteq> []"
  shows "derive_target_path_for_file root dev ses fid rel = Inr p \<longleftrightarrow>
    validate_id_segment dev = Inr () \<and> validate_id_segment ses = Inr () \<and>
    validate_id_segment fid = Inr () \<and>
    (case rel of None \<Rightarrow> True | Some r \<Rightarrow> validate_relative_path r = Inr ()) \<and>
    p = root @ map Normal (dev # ses # local_segments fid rel)"
proof -
  have base: "join_path (join_path root dev) ses = root @ [Normal dev, Normal ses]"
    if "validate_id_segment dev = Inr ()" "validate_id_segment ses = Inr ()"
    using that assms by (simp add: join_path_segment)
  have leaf: "join_path (root @ [Normal dev, Normal ses]) fid = root @ map Normal [dev, ses, fid]"
    if "validate_id_segment fid = Inr ()"
    using that by (simp add: join_path_segment)
  have rest: "join_path (root @ [Normal dev, Normal ses]) r =
      root @ map Normal (dev # ses # split_char CHR ''/'' r)"
    if "validate_relative_path r = Inr ()" for r
    using validate_relative_path_ok [OF that]
    by (simp add: join_path_def later_components_valid)
  show ?thesis
    unfolding derive_target_path_for_file_def result_bind_Inr_iff Let_def local_segments_def
    using check_confined_Normal [of root "[dev, ses, fid]"]
      check_confined_Normal [of root "dev # ses # split_char CHR ''/'' _"]
    by (cases rel) (auto simp: base leaf rest result_bind_Inr_iff)
qed



text \<open>
  No hostile relative path is accepted: one with a parent or current
  component, an absolute one, one with an empty segment, a backslash or a drive
  colon, or one that reaches into the staging directory is refused, and the
  derivation refuses with it.
\<close>

theorem hostile_relative_path_refused:
  assumes "r = [] \<or> is_absolute r \<or> backslash \<in> set r \<or> CHR '':'' \<in> set r \<or>
    (\<exists>s\<in>set (split_char CHR ''/'' r). s = [] \<or> s = ''.'' \<or> s = ''..'' \<or> is_internal_name s)"
  shows "(\<exists>e. validate_relative_path r = Inl e) \<and>
    (\<exists>e. derive_target_path_for_file root dev ses fid (Some r) = Inl e)"
proof -
  have "validate_relative_path r \<noteq> Inr ()"
  proof
    assume ok: "validate_relative_path r = Inr ()"
    then have segs: "list_all (\<lambda>s. validate_id_segment s = Inr ()) (split_char CHR ''/'' r)"
      and "\<not> is_absolute r" "r \<noteq> []" "backslash \<notin> set r"
      using validate_relative_path_ok [OF ok]
      by (auto simp: validate_relative_path_def split: if_splits)
    moreover have "CHR '':'' \<notin> set r"
    proof -
      have "\<forall>s\<in>set (split_char CHR ''/'' r). CHR '':'' \<notin> set s"
        using segs validate_id_segment_ok unfolding list_all_iff by blast
      then have "CHR '':'' \<notin> set (join_char CHR ''/'' (split_char CHR ''/'' r))"
        by (rule join_char_notin) simp
      then show ?thesis by simp
    qed
    ultimately show False
      using assms validate_id_segment_ok unfolding list_all_iff by blast
  qed
  then obtain e where e: "validate_relative_path r = Inl e"
    by (metis old.unit.exhaust sum.exhaust)
  then show ?thesis
    by (cases "validate_id_segment dev"; cases "validate_id_segment ses"; cases "validate_id_segment fid")
      (simp_all add: derive_target_path_for_file_def Let_def)
qed

theorem hostile_relative_path_refused_witness:
  "(\<exists>e. validate_relative_path ''video/../../etc'' = Inl e) \<and>
   (\<exists>e. validate_relative_path ''.YLX-Staging/x'' = Inl e)"
proof -
  have "''..'' \<in> set (split_char CHR ''/'' ''video/../../etc'')" by simp
  moreover have "''.YLX-Staging'' \<in> set (split_char CHR ''/'' ''.YLX-Staging/x'')"
    "is_internal_name ''.YLX-Staging''" by (simp, code_simp)
  ultimately show ?thesis
    using hostile_relative_path_refused [of "''video/../../etc''" "[]" "[]" "[]" "[]"]
      hostile_relative_path_refused [of "''.YLX-Staging/x''" "[]" "[]" "[]" "[]"] by blast
qed

section \<open>Parents and links\<close>

lemma reject_symlink_ok:
  "reject_symlink p d = (Inr u, d') \<Longrightarrow> no_symlink d p \<and> d' = io_tick d"
  by (auto simp: reject_symlink_def dl_bind_def dl_try_def dl_return_def dl_fail_def
      symlink_metadata_def guarded_def no_symlink_def
      split: option.splits prod.splits sum.splits node.splits if_splits)

lemma find_collision_ok:
  "find_collision lower c names = Inr u \<longleftrightarrow> (\<forall>n\<in>set names. lower n = lower c \<longrightarrow> n = c)"
  by (induction names) auto

lemma touches_reject_symlink [touchesI]: "touches N S (reject_symlink p)"
  unfolding reject_symlink_def
  by (intro touchesI) (auto intro: touchesI split: sum.splits node.splits)

lemma touches_collision [touchesI]: "touches N S (check_case_insensitive_collision lower dir c)"
  unfolding check_case_insensitive_collision_def
  by (intro touchesI) (auto intro: touchesI split: sum.splits)

lemma touches_ensure_dir [touchesI]: "p \<in> S \<Longrightarrow> touches N S (ensure_dir p)"
  unfolding ensure_dir_def
  by (intro touchesI) (auto intro!: touchesI split: sum.splits node.splits)

end
