(* ===== verification/Job_State.thy ===== *)
theory Job_State
  imports Prelude
begin

text \<open>
  The tagged job state of \<open>transfer/mod.rs\<close>, the transition graph of
  \<open>transfer/aggregate.rs\<close>, its persisted copy in \<open>persistence/schema.rs\<close>
  and the codecs between the two (\<open>transfer/queue.rs\<close>).

  The locale \<open>job_graph\<close> states what every client of a transition graph
  relies on (terminal vertices have no outgoing edge); both graphs of the
  program are interpretations of it.
\<close>

section \<open>Domain states\<close>

datatype FailureCode =
    Network
  | DiskFull
  | HashMismatch
  | ObjectStoreRejected
  | DeviceHeartbeatFailed
  | Other string

datatype TransferJobState =
    Queued
  | WaitingForDevice
  | WaitingForPairing
  | PausedCaptureActive
  | Preparing
  | Transferring
  | Verifying
  | Committing
  | RetryWait
  | Cancelling
  | Succeeded
  | Failed FailureCode bool
  | Cancelled

definition is_terminal :: "TransferJobState \<Rightarrow> bool" where
  "is_terminal s = (case s of Succeeded \<Rightarrow> True | Failed _ _ \<Rightarrow> True | Cancelled \<Rightarrow> True | _ \<Rightarrow> False)"

lemma is_terminal_simps [simp]:
  "\<not> is_terminal Queued" "\<not> is_terminal WaitingForDevice" "\<not> is_terminal WaitingForPairing"
  "\<not> is_terminal PausedCaptureActive" "\<not> is_terminal Preparing" "\<not> is_terminal Transferring"
  "\<not> is_terminal Verifying" "\<not> is_terminal Committing" "\<not> is_terminal RetryWait"
  "\<not> is_terminal Cancelling" "is_terminal Succeeded" "is_terminal (Failed c r)"
  "is_terminal Cancelled"
  by (simp_all add: is_terminal_def)

definition is_legal_transition :: "TransferJobState \<Rightarrow> TransferJobState \<Rightarrow> bool" where
  "is_legal_transition src dst =
    (if is_terminal src then False
     else (case (src, dst) of
        (Queued, WaitingForDevice) \<Rightarrow> True
      | (Queued, WaitingForPairing) \<Rightarrow> True
      | (Queued, Preparing) \<Rightarrow> True
      | (Queued, Cancelling) \<Rightarrow> True
      | (WaitingForDevice, Queued) \<Rightarrow> True
      | (WaitingForDevice, Preparing) \<Rightarrow> True
      | (WaitingForDevice, PausedCaptureActive) \<Rightarrow> True
      | (WaitingForDevice, Cancelling) \<Rightarrow> True
      | (WaitingForPairing, Queued) \<Rightarrow> True
      | (WaitingForPairing, Preparing) \<Rightarrow> True
      | (WaitingForPairing, Cancelling) \<Rightarrow> True
      | (PausedCaptureActive, Queued) \<Rightarrow> True
      | (PausedCaptureActive, Preparing) \<Rightarrow> True
      | (PausedCaptureActive, Cancelling) \<Rightarrow> True
      | (Preparing, Transferring) \<Rightarrow> True
      | (Preparing, WaitingForDevice) \<Rightarrow> True
      | (Preparing, Failed _ _) \<Rightarrow> True
      | (Preparing, Cancelling) \<Rightarrow> True
      | (Transferring, Verifying) \<Rightarrow> True
      | (Transferring, RetryWait) \<Rightarrow> True
      | (Transferring, PausedCaptureActive) \<Rightarrow> True
      | (Transferring, Failed _ _) \<Rightarrow> True
      | (Transferring, Cancelling) \<Rightarrow> True
      | (Verifying, Committing) \<Rightarrow> True
      | (Verifying, RetryWait) \<Rightarrow> True
      | (Verifying, Failed _ _) \<Rightarrow> True
      | (Verifying, Cancelling) \<Rightarrow> True
      | (Committing, Succeeded) \<Rightarrow> True
      | (Committing, RetryWait) \<Rightarrow> True
      | (Committing, Failed _ _) \<Rightarrow> True
      | (RetryWait, Queued) \<Rightarrow> True
      | (RetryWait, Preparing) \<Rightarrow> True
      | (RetryWait, Cancelling) \<Rightarrow> True
      | (RetryWait, Failed _ _) \<Rightarrow> True
      | (Cancelling, Cancelled) \<Rightarrow> True
      | (Cancelling, Failed _ _) \<Rightarrow> True
      | _ \<Rightarrow> False))"

declare is_legal_transition_def [graph_defs]

definition all_states :: "TransferJobState list" where
  "all_states =
    [Queued, WaitingForDevice, WaitingForPairing, PausedCaptureActive, Preparing, Transferring,
     Verifying, Committing, RetryWait, Cancelling, Succeeded, Failed Network True, Cancelled]"

fun state_name :: "TransferJobState \<Rightarrow> string" where
  "state_name Queued = ''queued''"
| "state_name WaitingForDevice = ''waiting_for_device''"
| "state_name WaitingForPairing = ''waiting_for_pairing''"
| "state_name PausedCaptureActive = ''paused_capture_active''"
| "state_name Preparing = ''preparing''"
| "state_name Transferring = ''transferring''"
| "state_name Verifying = ''verifying''"
| "state_name Committing = ''committing''"
| "state_name RetryWait = ''retry_wait''"
| "state_name Cancelling = ''cancelling''"
| "state_name Succeeded = ''succeeded''"
| "state_name (Failed _ _) = ''failed''"
| "state_name Cancelled = ''cancelled''"

definition route :: "TransferJobState \<Rightarrow> TransferJobState \<Rightarrow> TransferJobState list option" where
  "route src dst =
    (if src = dst then Some []
     else if is_legal_transition src dst then Some [dst]
     else if is_legal_transition src Queued \<and> is_legal_transition Queued dst
       then Some [Queued, dst]
     else None)"

section \<open>Persisted states\<close>

datatype JobStateTag =
    TagQueued
  | TagWaitingForDevice
  | TagWaitingForPairing
  | TagPausedCaptureActive
  | TagPreparing
  | TagTransferring
  | TagVerifying
  | TagCommitting
  | TagRetryWait
  | TagCancelling
  | TagSucceeded
  | TagFailed
  | TagCancelled

fun tag_as_db_str :: "JobStateTag \<Rightarrow> string" where
  "tag_as_db_str TagQueued = ''queued''"
| "tag_as_db_str TagWaitingForDevice = ''waiting_for_device''"
| "tag_as_db_str TagWaitingForPairing = ''waiting_for_pairing''"
| "tag_as_db_str TagPausedCaptureActive = ''paused_capture_active''"
| "tag_as_db_str TagPreparing = ''preparing''"
| "tag_as_db_str TagTransferring = ''transferring''"
| "tag_as_db_str TagVerifying = ''verifying''"
| "tag_as_db_str TagCommitting = ''committing''"
| "tag_as_db_str TagRetryWait = ''retry_wait''"
| "tag_as_db_str TagCancelling = ''cancelling''"
| "tag_as_db_str TagSucceeded = ''succeeded''"
| "tag_as_db_str TagFailed = ''failed''"
| "tag_as_db_str TagCancelled = ''cancelled''"

definition tag_from_db_str :: "string \<Rightarrow> JobStateTag option" where
  "tag_from_db_str s =
    (if s = ''queued'' then Some TagQueued
     else if s = ''waiting_for_device'' then Some TagWaitingForDevice
     else if s = ''waiting_for_pairing'' then Some TagWaitingForPairing
     else if s = ''paused_capture_active'' then Some TagPausedCaptureActive
     else if s = ''preparing'' then Some TagPreparing
     else if s = ''transferring'' then Some TagTransferring
     else if s = ''verifying'' then Some TagVerifying
     else if s = ''committing'' then Some TagCommitting
     else if s = ''retry_wait'' then Some TagRetryWait
     else if s = ''cancelling'' then Some TagCancelling
     else if s = ''succeeded'' then Some TagSucceeded
     else if s = ''failed'' then Some TagFailed
     else if s = ''cancelled'' then Some TagCancelled
     else None)"

definition tag_is_terminal :: "JobStateTag \<Rightarrow> bool" where
  "tag_is_terminal t =
    (case t of TagSucceeded \<Rightarrow> True | TagFailed \<Rightarrow> True | TagCancelled \<Rightarrow> True | _ \<Rightarrow> False)"

lemma tag_is_terminal_simps [simp]:
  "\<not> tag_is_terminal TagQueued" "\<not> tag_is_terminal TagWaitingForDevice"
  "\<not> tag_is_terminal TagWaitingForPairing" "\<not> tag_is_terminal TagPausedCaptureActive"
  "\<not> tag_is_terminal TagPreparing" "\<not> tag_is_terminal TagTransferring"
  "\<not> tag_is_terminal TagVerifying" "\<not> tag_is_terminal TagCommitting"
  "\<not> tag_is_terminal TagRetryWait" "\<not> tag_is_terminal TagCancelling"
  "tag_is_terminal TagSucceeded" "tag_is_terminal TagFailed" "tag_is_terminal TagCancelled"
  by (simp_all add: tag_is_terminal_def)

definition is_valid_transition :: "JobStateTag \<Rightarrow> JobStateTag \<Rightarrow> bool" where
  "is_valid_transition src dst =
    (if tag_is_terminal src then False
     else (case (src, dst) of
        (TagQueued, TagWaitingForDevice) \<Rightarrow> True
      | (TagQueued, TagWaitingForPairing) \<Rightarrow> True
      | (TagQueued, TagPreparing) \<Rightarrow> True
      | (TagQueued, TagCancelling) \<Rightarrow> True
      | (TagWaitingForDevice, TagQueued) \<Rightarrow> True
      | (TagWaitingForDevice, TagPreparing) \<Rightarrow> True
      | (TagWaitingForDevice, TagPausedCaptureActive) \<Rightarrow> True
      | (TagWaitingForDevice, TagCancelling) \<Rightarrow> True
      | (TagWaitingForPairing, TagQueued) \<Rightarrow> True
      | (TagWaitingForPairing, TagPreparing) \<Rightarrow> True
      | (TagWaitingForPairing, TagCancelling) \<Rightarrow> True
      | (TagPausedCaptureActive, TagQueued) \<Rightarrow> True
      | (TagPausedCaptureActive, TagPreparing) \<Rightarrow> True
      | (TagPausedCaptureActive, TagCancelling) \<Rightarrow> True
      | (TagPreparing, TagTransferring) \<Rightarrow> True
      | (TagPreparing, TagWaitingForDevice) \<Rightarrow> True
      | (TagPreparing, TagFailed) \<Rightarrow> True
      | (TagPreparing, TagCancelling) \<Rightarrow> True
      | (TagTransferring, TagVerifying) \<Rightarrow> True
      | (TagTransferring, TagRetryWait) \<Rightarrow> True
      | (TagTransferring, TagPausedCaptureActive) \<Rightarrow> True
      | (TagTransferring, TagFailed) \<Rightarrow> True
      | (TagTransferring, TagCancelling) \<Rightarrow> True
      | (TagVerifying, TagCommitting) \<Rightarrow> True
      | (TagVerifying, TagRetryWait) \<Rightarrow> True
      | (TagVerifying, TagFailed) \<Rightarrow> True
      | (TagVerifying, TagCancelling) \<Rightarrow> True
      | (TagCommitting, TagSucceeded) \<Rightarrow> True
      | (TagCommitting, TagRetryWait) \<Rightarrow> True
      | (TagCommitting, TagFailed) \<Rightarrow> True
      | (TagRetryWait, TagQueued) \<Rightarrow> True
      | (TagRetryWait, TagPreparing) \<Rightarrow> True
      | (TagRetryWait, TagCancelling) \<Rightarrow> True
      | (TagRetryWait, TagFailed) \<Rightarrow> True
      | (TagCancelling, TagCancelled) \<Rightarrow> True
      | (TagCancelling, TagFailed) \<Rightarrow> True
      | _ \<Rightarrow> False))"

declare is_valid_transition_def [graph_defs]

section \<open>Codecs\<close>

definition failure_code_to_db :: "FailureCode \<Rightarrow> string" where
  "failure_code_to_db c =
    (case c of
       Network \<Rightarrow> ''network''
     | DiskFull \<Rightarrow> ''disk_full''
     | HashMismatch \<Rightarrow> ''hash_mismatch''
     | ObjectStoreRejected \<Rightarrow> ''object_store_rejected''
     | DeviceHeartbeatFailed \<Rightarrow> ''device_heartbeat_failed''
     | Other msg \<Rightarrow> ''other:'' @ msg)"

definition failure_code_from_db :: "string \<Rightarrow> FailureCode" where
  "failure_code_from_db s =
    (if s = ''network'' then Network
     else if s = ''disk_full'' then DiskFull
     else if s = ''hash_mismatch'' then HashMismatch
     else if s = ''object_store_rejected'' then ObjectStoreRejected
     else if s = ''device_heartbeat_failed'' then DeviceHeartbeatFailed
     else Other (case strip_prefix ''other:'' s of Some r \<Rightarrow> r | None \<Rightarrow> s))"

definition state_to_tag :: "TransferJobState \<Rightarrow> JobStateTag \<times> (string \<times> bool) option" where
  "state_to_tag s =
    (case s of
       Queued \<Rightarrow> (TagQueued, None)
     | WaitingForDevice \<Rightarrow> (TagWaitingForDevice, None)
     | WaitingForPairing \<Rightarrow> (TagWaitingForPairing, None)
     | PausedCaptureActive \<Rightarrow> (TagPausedCaptureActive, None)
     | Preparing \<Rightarrow> (TagPreparing, None)
     | Transferring \<Rightarrow> (TagTransferring, None)
     | Verifying \<Rightarrow> (TagVerifying, None)
     | Committing \<Rightarrow> (TagCommitting, None)
     | RetryWait \<Rightarrow> (TagRetryWait, None)
     | Cancelling \<Rightarrow> (TagCancelling, None)
     | Succeeded \<Rightarrow> (TagSucceeded, None)
     | Failed code retryable \<Rightarrow> (TagFailed, Some (failure_code_to_db code, retryable))
     | Cancelled \<Rightarrow> (TagCancelled, None))"

text \<open>
  \<open>tag_to_state\<close> panics on a failed tag without its error columns; the panic is
  the value \<^const>\<open>None\<close>.
\<close>

definition tag_to_state :: "JobStateTag \<Rightarrow> (string \<times> bool) option \<Rightarrow> TransferJobState option" where
  "tag_to_state t err =
    (case t of
       TagQueued \<Rightarrow> Some Queued
     | TagWaitingForDevice \<Rightarrow> Some WaitingForDevice
     | TagWaitingForPairing \<Rightarrow> Some WaitingForPairing
     | TagPausedCaptureActive \<Rightarrow> Some PausedCaptureActive
     | TagPreparing \<Rightarrow> Some Preparing
     | TagTransferring \<Rightarrow> Some Transferring
     | TagVerifying \<Rightarrow> Some Verifying
     | TagCommitting \<Rightarrow> Some Committing
     | TagRetryWait \<Rightarrow> Some RetryWait
     | TagCancelling \<Rightarrow> Some Cancelling
     | TagSucceeded \<Rightarrow> Some Succeeded
     | TagFailed \<Rightarrow> (case err of
           None \<Rightarrow> None
         | Some (code, retryable) \<Rightarrow> Some (Failed (failure_code_from_db code) retryable))
     | TagCancelled \<Rightarrow> Some Cancelled)"

lemmas codec_defs = failure_code_to_db_def failure_code_from_db_def state_to_tag_def
  tag_to_state_def tag_from_db_str_def
declare codec_defs [codec_simps]

section \<open>Graph interface\<close>

text \<open>
  A walk is a list of targets reached one after the other.  The clients of a
  graph (the reducer, the durable store) only need that terminal vertices are
  dead ends.
\<close>

locale job_graph =
  fixes edge :: "'v \<Rightarrow> 'v \<Rightarrow> bool"
    and terminal :: "'v \<Rightarrow> bool"
  assumes terminal_stuck: "terminal u \<Longrightarrow> \<not> edge u v"
begin

fun walk :: "'v \<Rightarrow> 'v list \<Rightarrow> bool" where
  "walk u [] = True"
| "walk u (v # vs) = (edge u v \<and> walk v vs)"

lemma walk_append: "walk u (vs @ ws) \<longleftrightarrow> walk u vs \<and> walk (last (u # vs)) ws"
  by (induction vs arbitrary: u) auto

lemma walk_from_terminal: "terminal u \<Longrightarrow> walk u vs \<Longrightarrow> vs = []"
  by (cases vs) (auto dest: terminal_stuck)

lemma walk_terminal_only_last:
  assumes "walk u vs" and "i < length vs" and "terminal (vs ! i)"
  shows "i = length vs - 1"
  using assms
proof (induction vs arbitrary: u i)
  case Nil
  then show ?case by simp
next
  case (Cons v vs)
  show ?case
  proof (cases i)
    case 0
    with Cons.prems have "vs = []" by (auto dest: walk_from_terminal)
    with 0 show ?thesis by simp
  next
    case (Suc j)
    with Cons.prems Cons.IH [of v j] show ?thesis by auto
  qed
qed

lemma walk_start_live: "walk u vs \<Longrightarrow> vs \<noteq> [] \<Longrightarrow> \<not> terminal u"
  by (auto dest: walk_from_terminal)

end

interpretation domain_graph: job_graph is_legal_transition is_terminal
  by unfold_locales (simp add: is_legal_transition_def)

interpretation db_graph: job_graph is_valid_transition tag_is_terminal
  by unfold_locales (simp add: is_valid_transition_def)

abbreviation legal_walk :: "TransferJobState \<Rightarrow> TransferJobState list \<Rightarrow> bool" where
  "legal_walk \<equiv> domain_graph.walk"

section \<open>Facts about the graphs and codecs\<close>

lemma legal_edges [simp]:
  "is_legal_transition Queued Preparing" "is_legal_transition Queued Cancelling"
  "is_legal_transition Queued WaitingForDevice" "is_legal_transition Queued WaitingForPairing"
  "\<not> is_legal_transition Queued PausedCaptureActive"
  "is_legal_transition Preparing Transferring" "is_legal_transition Transferring Verifying"
  "is_legal_transition Verifying Committing" "is_legal_transition Committing Succeeded"
  "is_legal_transition Cancelling Cancelled" "is_legal_transition Cancelling (Failed c r)"
  "is_legal_transition RetryWait Queued" "\<not> is_legal_transition Committing Cancelling"
  "\<not> is_legal_transition s s"
  by (simp_all add: graph_defs) (cases s; simp add: is_terminal_def)

lemma legal_to_failed_iff:
  "is_legal_transition s (Failed c r) \<longleftrightarrow>
    s \<in> {Preparing, Transferring, Verifying, Committing, RetryWait, Cancelling}"
  by (cases s) (simp_all add: graph_defs)

lemma legal_to_cancelling_iff:
  "is_legal_transition s Cancelling \<longleftrightarrow> \<not> is_terminal s \<and> s \<noteq> Committing \<and> s \<noteq> Cancelling"
  by (cases s) (simp_all add: graph_defs)

lemma legal_to_queued_iff:
  "is_legal_transition s Queued \<longleftrightarrow>
    s \<in> {WaitingForDevice, WaitingForPairing, PausedCaptureActive, RetryWait}"
  by (cases s) (simp_all add: graph_defs)

lemma route_walk: "route s t = Some vs \<Longrightarrow> legal_walk s vs \<and> last (s # vs) = t \<and> length vs \<le> 2"
  by (auto simp: route_def split: if_splits)

lemma route_complete:
  "route s t = None \<longleftrightarrow>
    \<not> (s = t \<or> is_legal_transition s t \<or> (is_legal_transition s Queued \<and> is_legal_transition Queued t))"
  by (auto simp: route_def)

lemma failure_code_roundtrip [simp]: "failure_code_from_db (failure_code_to_db c) = c"
  by (cases c) (simp_all add: codec_simps)

lemma state_to_tag_terminal [simp]: "tag_is_terminal (fst (state_to_tag s)) = is_terminal s"
  by (cases s) (simp_all add: codec_simps)

lemma state_to_tag_error_iff: "snd (state_to_tag s) \<noteq> None \<longleftrightarrow> fst (state_to_tag s) = TagFailed"
  by (cases s) (simp_all add: codec_simps)

section \<open>Properties of the graphs and codecs\<close>

text \<open>
  The persisted copy of the transition graph agrees with the domain graph on
  every pair of states: there is one graph, not two.
\<close>

theorem transition_graphs_agree:
  "is_valid_transition (fst (state_to_tag s)) (fst (state_to_tag t)) = is_legal_transition s t"
  by (cases s; cases t) (simp_all add: graph_defs state_to_tag_def)

text \<open>
  Writing a state to its tag and error columns and reading the row back
  gives the same state, payload included, for every state and failure code; the
  error columns are present exactly for a failed state.
\<close>

theorem state_tag_roundtrip:
  "tag_to_state (fst (state_to_tag s)) (snd (state_to_tag s)) = Some s \<and>
   tag_from_db_str (tag_as_db_str (fst (state_to_tag s))) = Some (fst (state_to_tag s)) \<and>
   (snd (state_to_tag s) \<noteq> None \<longleftrightarrow> (\<exists>c r. s = Failed c r))"
  by (cases s) (simp_all add: state_to_tag_def tag_to_state_def tag_from_db_str_def)

end
