(* ===== verification/Work_Queue.thy ===== *)
theory Work_Queue
  imports Prelude
begin

text \<open>
  The bounded ready set of \<open>transfer/scheduler.rs\<close>: a FIFO of job ids with a
  membership set, a capacity and counters.

  The locale \<open>ready_queue\<close> is the contract the coordinator's dispatcher and
  workers rely on; its client lemmas (conservation of notifications, FIFO
  delivery) are proved once and reach the program's queue by interpretation.
\<close>

section \<open>The queue\<close>

type_synonym job_id = string

datatype ScheduleOutcome = Scheduled | AlreadyScheduled | Full | Stopped

definition outcome_is_scheduled :: "ScheduleOutcome \<Rightarrow> bool" where
  "outcome_is_scheduled out \<longleftrightarrow> out = Scheduled"

record WorkQueue =
  wq_capacity :: nat
  wq_order :: "job_id list"
  wq_scheduled :: "job_id set"
  wq_stopped :: bool
  wq_overflows :: u64
  wq_duplicates :: u64
  wq_delivered :: u64

definition WorkQueue_new :: "nat \<Rightarrow> WorkQueue" where
  "WorkQueue_new capacity =
    \<lparr>wq_capacity = max capacity 1, wq_order = [], wq_scheduled = {}, wq_stopped = False,
     wq_overflows = 0, wq_duplicates = 0, wq_delivered = 0\<rparr>"

definition schedule :: "WorkQueue \<Rightarrow> job_id \<Rightarrow> WorkQueue \<times> ScheduleOutcome" where
  "schedule q j =
    (if wq_stopped q then (q, Stopped)
     else if j \<in> wq_scheduled q
       then (q\<lparr>wq_duplicates := wq_duplicates q + 1\<rparr>, AlreadyScheduled)
     else if wq_capacity q \<le> length (wq_order q)
       then (q\<lparr>wq_overflows := wq_overflows q + 1\<rparr>, Full)
     else (q\<lparr>wq_scheduled := insert j (wq_scheduled q), wq_order := wq_order q @ [j]\<rparr>, Scheduled))"

text \<open>
  One pass of \<open>claim\<close>'s loop under the lock: stopped, a job, or nothing yet.
\<close>

datatype ClaimPoll = ClaimStopped | Claimed job_id | ClaimEmpty

definition claim_poll :: "WorkQueue \<Rightarrow> WorkQueue \<times> ClaimPoll" where
  "claim_poll q =
    (if wq_stopped q then (q, ClaimStopped)
     else (case wq_order q of
             [] \<Rightarrow> (q, ClaimEmpty)
           | j # rest \<Rightarrow>
               (q\<lparr>wq_order := rest, wq_scheduled := wq_scheduled q - {j},
                  wq_delivered := wq_delivered q + 1\<rparr>, Claimed j)))"

text \<open>
  \<open>claim\<close> itself: every element of the list is what other threads do to the
  queue while the claimer waits on the condition variable; the end of the list
  is the deadline.
\<close>

fun claim :: "(WorkQueue \<Rightarrow> WorkQueue) list \<Rightarrow> WorkQueue \<Rightarrow> WorkQueue \<times> job_id option" where
  "claim waits q =
    (case claim_poll q of
       (q', ClaimStopped) \<Rightarrow> (q', None)
     | (q', Claimed j) \<Rightarrow> (q', Some j)
     | (q', ClaimEmpty) \<Rightarrow>
         (case waits of
            [] \<Rightarrow> (q', None)
          | w # ws \<Rightarrow> claim ws (w q')))"

declare claim.simps [simp del]

definition stop :: "WorkQueue \<Rightarrow> WorkQueue" where
  "stop q = q\<lparr>wq_stopped := True, wq_order := [], wq_scheduled := {}\<rparr>"

definition is_stopped :: "WorkQueue \<Rightarrow> bool" where
  "is_stopped q = wq_stopped q"

definition queue_len :: "WorkQueue \<Rightarrow> nat" where
  "queue_len q = length (wq_order q)"

definition queue_is_empty :: "WorkQueue \<Rightarrow> bool" where
  "queue_is_empty q \<longleftrightarrow> queue_len q = 0"

definition is_scheduled :: "WorkQueue \<Rightarrow> job_id \<Rightarrow> bool" where
  "is_scheduled q j \<longleftrightarrow> j \<in> wq_scheduled q"

text \<open>The invariant between the three pieces of queue state.\<close>

definition queue_inv :: "WorkQueue \<Rightarrow> bool" where
  "queue_inv q \<longleftrightarrow>
    distinct (wq_order q) \<and> wq_scheduled q = set (wq_order q) \<and>
    length (wq_order q) \<le> wq_capacity q \<and> 0 < wq_capacity q"

section \<open>The contract of a ready queue\<close>

datatype 'j queue_op = Offer 'j | Take

locale ready_queue =
  fixes offer :: "'q \<Rightarrow> 'j \<Rightarrow> 'q \<times> bool"
    and take_one :: "'q \<Rightarrow> 'q \<times> 'j option"
    and waiting :: "'q \<Rightarrow> 'j list"
    and cap :: "'q \<Rightarrow> nat"
    and invar :: "'q \<Rightarrow> bool"
  assumes offer_invar: "invar q \<Longrightarrow> invar (fst (offer q j))"
    and take_invar: "invar q \<Longrightarrow> invar (fst (take_one q))"
    and offer_cap: "cap (fst (offer q j)) = cap q"
    and take_cap: "cap (fst (take_one q)) = cap q"
    and offer_waiting: "invar q \<Longrightarrow>
      waiting (fst (offer q j)) = waiting q @ (if snd (offer q j) then [j] else [])"
    and take_waiting: "invar q \<Longrightarrow>
      waiting q = (case snd (take_one q) of None \<Rightarrow> [] | Some j \<Rightarrow> [j]) @ waiting (fst (take_one q))"
    and offer_fresh: "invar q \<Longrightarrow> snd (offer q j) \<Longrightarrow> j \<notin> set (waiting q)"
    and bounded: "invar q \<Longrightarrow> length (waiting q) \<le> cap q"
begin

fun run_ops :: "'q \<Rightarrow> 'j queue_op list \<Rightarrow> 'q \<times> 'j list \<times> 'j list" where
  "run_ops q [] = (q, [], [])"
| "run_ops q (Offer j # ops) =
     (case offer q j of (q', ok) \<Rightarrow>
        (case run_ops q' ops of (q'', acc, del) \<Rightarrow> (q'', (if ok then [j] else []) @ acc, del)))"
| "run_ops q (Take # ops) =
     (case take_one q of (q', r) \<Rightarrow>
        (case run_ops q' ops of (q'', acc, del) \<Rightarrow>
           (q'', acc, (case r of None \<Rightarrow> [] | Some j \<Rightarrow> [j]) @ del)))"

lemma run_ops_invar: "invar q \<Longrightarrow> invar (fst (run_ops q ops)) \<and> cap (fst (run_ops q ops)) = cap q"
proof (induction ops arbitrary: q)
  case Nil
  then show ?case by simp
next
  case (Cons op ops)
  show ?case
  proof (cases op)
    case (Offer j)
    with Cons.IH [of "fst (offer q j)"] Cons.prems offer_invar [of q j] offer_cap [of q j]
    show ?thesis by (simp add: case_prod_beta)
  next
    case Take
    with Cons.IH [of "fst (take_one q)"] Cons.prems take_invar [of q] take_cap [of q]
    show ?thesis by (simp add: case_prod_beta)
  qed
qed

text \<open>
  Conservation and order in one equation: what was delivered followed by what
  still waits is what waited at the start followed by what was accepted.
\<close>

lemma run_ops_fifo:
  "invar q \<Longrightarrow> run_ops q ops = (q', acc, del) \<Longrightarrow> del @ waiting q' = waiting q @ acc"
proof (induction ops arbitrary: q acc del)
  case Nil
  then show ?case by simp
next
  case (Cons op ops)
  show ?case
  proof (cases op)
    case (Offer j)
    obtain a' d' where r: "run_ops (fst (offer q j)) ops = (q', a', d')"
      and eqs: "acc = (if snd (offer q j) then [j] else []) @ a'" "del = d'"
      using Cons.prems(2) Offer by (auto simp: case_prod_beta prod_eq_iff)
    have "d' @ waiting q' = waiting (fst (offer q j)) @ a'"
      by (rule Cons.IH [OF offer_invar [OF Cons.prems(1)] r])
    then show ?thesis using eqs by (simp add: offer_waiting [OF Cons.prems(1)])
  next
    case Take
    obtain a' d' where r: "run_ops (fst (take_one q)) ops = (q', a', d')"
      and eqs: "acc = a'" "del = (case snd (take_one q) of None \<Rightarrow> [] | Some j \<Rightarrow> [j]) @ d'"
      using Cons.prems(2) Take by (auto simp: case_prod_beta prod_eq_iff)
    have "d' @ waiting q' = waiting (fst (take_one q)) @ a'"
      by (rule Cons.IH [OF take_invar [OF Cons.prems(1)] r])
    then show ?thesis using eqs take_waiting [OF Cons.prems(1)] by simp
  qed
qed

text \<open>
  Overtaking is impossible: a job with \<open>n\<close> others in front of it is delivered
  as the \<open>n + 1\<close>st delivery of any run that delivers more than \<open>n\<close> jobs.
\<close>

lemma run_ops_position:
  assumes "invar q" and "run_ops q ops = (q', acc, del)"
    and "n < length (waiting q)" and "n < length del"
  shows "del ! n = waiting q ! n"
proof -
  have "del @ waiting q' = waiting q @ acc"
    using assms(1,2) by (rule run_ops_fifo)
  then have "(del @ waiting q') ! n = (waiting q @ acc) ! n" by simp
  with assms(3,4) show ?thesis by (simp add: nth_append)
qed

end

section \<open>The program's queue implements the contract\<close>

lemma queue_inv_new: "queue_inv (WorkQueue_new capacity)"
  by (simp add: queue_inv_def WorkQueue_new_def)

lemma queue_inv_schedule: "queue_inv q \<Longrightarrow> queue_inv (fst (schedule q j))"
  by (auto simp: queue_inv_def schedule_def)

lemma queue_inv_claim_poll: "queue_inv q \<Longrightarrow> queue_inv (fst (claim_poll q))"
  by (auto simp: queue_inv_def claim_poll_def split: list.splits)

lemma queue_inv_stop: "queue_inv q \<Longrightarrow> queue_inv (stop q)"
  by (auto simp: queue_inv_def stop_def)

fun poll_job :: "ClaimPoll \<Rightarrow> job_id option" where
  "poll_job (Claimed j) = Some j"
| "poll_job _ = None"

definition offer_job :: "WorkQueue \<Rightarrow> job_id \<Rightarrow> WorkQueue \<times> bool" where
  "offer_job q j = (case schedule q j of (q', out) \<Rightarrow> (q', outcome_is_scheduled out))"

definition take_job :: "WorkQueue \<Rightarrow> WorkQueue \<times> job_id option" where
  "take_job q = (case claim_poll q of (q', r) \<Rightarrow> (q', poll_job r))"

lemmas queue_op_defs = offer_job_def take_job_def schedule_def claim_poll_def
  outcome_is_scheduled_def

interpretation wq: ready_queue offer_job take_job wq_order wq_capacity queue_inv
proof unfold_locales
  fix q :: WorkQueue and j
  show "queue_inv q \<Longrightarrow> queue_inv (fst (offer_job q j))"
    using queue_inv_schedule [of q j] by (simp add: offer_job_def case_prod_beta)
  show "queue_inv q \<Longrightarrow> queue_inv (fst (take_job q))"
    using queue_inv_claim_poll [of q] by (simp add: take_job_def case_prod_beta)
  show "wq_capacity (fst (offer_job q j)) = wq_capacity q"
    by (simp add: queue_op_defs)
  show "wq_capacity (fst (take_job q)) = wq_capacity q"
    by (simp add: queue_op_defs split: list.splits)
  show "wq_order (fst (offer_job q j)) = wq_order q @ (if snd (offer_job q j) then [j] else [])"
    by (simp add: queue_op_defs)
  show "queue_inv q \<Longrightarrow> snd (offer_job q j) \<Longrightarrow> j \<notin> set (wq_order q)"
    by (simp add: queue_op_defs queue_inv_def split: if_splits)
  show "queue_inv q \<Longrightarrow> length (wq_order q) \<le> wq_capacity q"
    by (simp add: queue_inv_def)
  show "wq_order q = (case snd (take_job q) of None \<Rightarrow> [] | Some j \<Rightarrow> [j]) @ wq_order (fst (take_job q))"
    by (simp add: queue_op_defs split: list.splits)
qed

lemma claim_invariant:
  "queue_inv q \<Longrightarrow> (\<forall>w\<in>set waits. \<forall>p. queue_inv p \<longrightarrow> queue_inv (w p)) \<Longrightarrow>
    queue_inv (fst (claim waits q))"
proof (induction waits arbitrary: q)
  case Nil
  with queue_inv_claim_poll [of q] show ?case
    by (subst claim.simps) (auto split: prod.splits ClaimPoll.splits)
next
  case (Cons w ws)
  obtain p r where p: "claim_poll q = (p, r)" by fastforce
  with queue_inv_claim_poll [OF Cons.prems(1)] have "queue_inv p" by simp
  with Cons p show ?case
    by (subst claim.simps) (auto split: ClaimPoll.splits)
qed

lemma claim_delivers:
  assumes "\<not> wq_stopped q" and "wq_order q = j # rest"
  shows "snd (claim waits q) = Some j \<and> wq_order (fst (claim waits q)) = rest"
  using assms by (subst (1 2) claim.simps) (simp add: claim_poll_def)

section \<open>Properties of the queue\<close>

text \<open>
  C28.  The ready set is a faithful bounded FIFO: over any sequence of offers and
  claims from a well-formed queue, the jobs delivered followed by the jobs still
  waiting are exactly the jobs that waited at the start followed by the accepted
  offers, in order; no job waits twice and the capacity is never exceeded.
\<close>

theorem work_queue_fifo:
  assumes "queue_inv q" and "wq.run_ops q ops = (q', acc, del)"
  shows "del @ wq_order q' = wq_order q @ acc \<and> distinct (wq_order q') \<and>
    length (wq_order q') \<le> wq_capacity q"
proof -
  have "queue_inv q'" and "wq_capacity q' = wq_capacity q"
    using wq.run_ops_invar [OF assms(1), of ops] assms(2) by simp_all
  then show ?thesis
    using wq.run_ops_fifo [OF assms] by (simp add: queue_inv_def)
qed

theorem work_queue_fifo_witness:
  "\<exists>q' acc del. wq.run_ops (WorkQueue_new 2)
       [Offer ''a'', Offer ''a'', Offer ''b'', Offer ''c'', Take] = (q', acc, del) \<and>
     acc = [''a'', ''b''] \<and> del = [''a''] \<and> del @ wq_order q' = acc"
proof -
  let ?ops = "[Offer ''a'', Offer ''a'', Offer ''b'', Offer ''c'', Take]"
  obtain q' acc del where r: "wq.run_ops (WorkQueue_new 2) ?ops = (q', acc, del)"
    by (cases "wq.run_ops (WorkQueue_new 2) ?ops") auto
  have "acc = [''a'', ''b'']" "del = [''a'']"
    using r by (auto simp: queue_op_defs WorkQueue_new_def)
  with r work_queue_fifo [OF queue_inv_new r] show ?thesis
    by (simp add: WorkQueue_new_def)
qed

text \<open>
  Scheduling is decided by the queue alone, in the order the code checks:
  a stopped queue refuses, a job already waiting is collapsed into its existing
  notification, a full queue refuses, and otherwise the job is appended; only the
  last case changes what waits, and a refusal is counted.
\<close>

theorem schedule_cases:
  assumes "queue_inv q"
  shows "schedule q j =
    (if wq_stopped q then (q, Stopped)
     else if j \<in> set (wq_order q) then (q\<lparr>wq_duplicates := wq_duplicates q + 1\<rparr>, AlreadyScheduled)
     else if length (wq_order q) = wq_capacity q
       then (q\<lparr>wq_overflows := wq_overflows q + 1\<rparr>, Full)
     else (q\<lparr>wq_scheduled := set (wq_order q @ [j]), wq_order := wq_order q @ [j]\<rparr>, Scheduled))"
  using assms by (auto simp: schedule_def queue_inv_def)

theorem schedule_cases_witness:
  "snd (schedule (fst (schedule (WorkQueue_new 1) ''a'')) ''b'') = Full"
  using schedule_cases [OF queue_inv_schedule [OF queue_inv_new], of 1 "''a''" "''b''"]
  by (simp add: schedule_def WorkQueue_new_def)

text \<open>
  A claim returns the oldest waiting job at once when there is one; after
  \<open>stop\<close> every claimer, however long it was prepared to wait, gets nothing and
  nothing is left waiting.
\<close>

theorem claim_oldest_or_stopped:
  "(wq_order q = j # rest \<and> \<not> wq_stopped q \<longrightarrow>
      snd (claim waits q) = Some j \<and> wq_order (fst (claim waits q)) = rest) \<and>
   claim waits (stop q) = (stop q, None) \<and> wq_order (stop q) = [] \<and>
   snd (schedule (stop q) j) = Stopped"
proof -
  have "claim waits (stop q) = (stop q, None)"
    by (subst claim.simps) (simp add: claim_poll_def stop_def)
  then show ?thesis
    using claim_delivers [of q j rest waits] by (simp add: stop_def schedule_def)
qed

theorem claim_oldest_or_stopped_witness:
  "snd (claim [] (fst (schedule (WorkQueue_new 4) ''a''))) = Some ''a''"
  using claim_oldest_or_stopped [of "fst (schedule (WorkQueue_new 4) ''a'')" "''a''" "[]" "[]"]
  by (simp add: schedule_def WorkQueue_new_def)

end
