(* ===== verification/Fault.thy ===== *)
theory Fault
  imports Download_Path Job_State Work_Queue
begin

text \<open>
  Machinery faults of the coordinator (\<open>transfer/fault.rs\<close>) and the two
  classifications of a download failure: the operational one of \<open>fault.rs\<close> and
  the life-cycle one of \<open>transfer/coordinator.rs\<close>.  The text an error prints as
  (derived by the \<open>thiserror\<close> macros) is the argument \<open>shown\<close>.
\<close>

datatype FaultKind =
    FaultTransition | FaultSend | FaultCheckpoint | FaultWorkerPanic | FaultDesiredRunState
  | FaultShutdown

fun fault_kind_name :: "FaultKind \<Rightarrow> string" where
  "fault_kind_name FaultTransition = ''transition''"
| "fault_kind_name FaultSend = ''send''"
| "fault_kind_name FaultCheckpoint = ''checkpoint''"
| "fault_kind_name FaultWorkerPanic = ''worker_panic''"
| "fault_kind_name FaultDesiredRunState = ''desired_run_state''"
| "fault_kind_name FaultShutdown = ''shutdown''"

datatype FailureClass = LocalIo | Remote | Integrity | Configuration | ClassCancelled

fun failure_class_name :: "FailureClass \<Rightarrow> string" where
  "failure_class_name LocalIo = ''local_io''"
| "failure_class_name Remote = ''remote''"
| "failure_class_name Integrity = ''integrity''"
| "failure_class_name Configuration = ''configuration''"
| "failure_class_name ClassCancelled = ''cancelled''"

text \<open>The free text of a fault is not represented.\<close>

record CoordinatorFault =
  cf_job_id :: "job_id option"
  cf_kind :: FaultKind
  cf_class :: FailureClass

definition CoordinatorFault_new ::
    "job_id option \<Rightarrow> FaultKind \<Rightarrow> FailureClass \<Rightarrow> CoordinatorFault" where
  "CoordinatorFault_new j kind cls = \<lparr>cf_job_id = j, cf_kind = kind, cf_class = cls\<rparr>"

fun classify_download_failure :: "DownloadError \<Rightarrow> FailureClass" where
  "classify_download_failure (DownloadError.HashMismatch _ _) = Integrity"
| "classify_download_failure (SizeMismatch _ _) = Integrity"
| "classify_download_failure UnexpectedExtraBytes = Integrity"
| "classify_download_failure (ShortBody _ _) = Integrity"
| "classify_download_failure (RangeMismatch _ _) = Integrity"
| "classify_download_failure (Verification _) = Integrity"
| "classify_download_failure (SourceIo _) = Remote"
| "classify_download_failure (Source _) = Remote"
| "classify_download_failure RangeNotSatisfiable = Remote"
| "classify_download_failure (MalformedContentRange _) = Remote"
| "classify_download_failure (UnexpectedStatus _) = Remote"
| "classify_download_failure TooManyRestarts = Remote"
| "classify_download_failure (Io _ _) = LocalIo"
| "classify_download_failure (Checkpoint _) = LocalIo"
| "classify_download_failure (PathSafety _) = Configuration"
| "classify_download_failure (InvalidPlan _) = Configuration"
| "classify_download_failure (Serialization _) = Configuration"

definition ENOSPC_CODE :: nat where
  "ENOSPC_CODE = 28"

fun classify_download_error ::
    "(DownloadError \<Rightarrow> string) \<Rightarrow> DownloadError \<Rightarrow> FailureCode \<times> bool" where
  "classify_download_error shown (DownloadError.HashMismatch _ _) = (FailureCode.HashMismatch, True)"
| "classify_download_error shown (SizeMismatch _ _) = (FailureCode.HashMismatch, True)"
| "classify_download_error shown (SourceIo _) = (Network, True)"
| "classify_download_error shown (Source _) = (Network, True)"
| "classify_download_error shown (Io _ err) =
     (if raw_os_error err = Some ENOSPC_CODE then (DiskFull, False) else (Network, True))"
| "classify_download_error shown RangeNotSatisfiable = (Network, True)"
| "classify_download_error shown (RangeMismatch _ _) = (Network, True)"
| "classify_download_error shown (MalformedContentRange _) = (Network, True)"
| "classify_download_error shown (UnexpectedStatus _) = (Network, True)"
| "classify_download_error shown UnexpectedExtraBytes = (Network, True)"
| "classify_download_error shown (ShortBody _ _) = (Network, True)"
| "classify_download_error shown TooManyRestarts = (Network, True)"
| "classify_download_error shown e = (Other (shown e), False)"

text \<open>
  A failure the request itself causes is never retried, one the remote side causes
  always is, and a full disk is the only local one with a code of its own.
\<close>

lemma classification_agrees:
  "case classify_download_failure e of
     Configuration \<Rightarrow> classify_download_error shown e = (Other (shown e), False)
   | Remote \<Rightarrow> classify_download_error shown e = (Network, True)
   | Integrity \<Rightarrow> (case e of Verification _ \<Rightarrow> snd (classify_download_error shown e) = False
       | _ \<Rightarrow> snd (classify_download_error shown e) = True)
   | LocalIo \<Rightarrow> fst (classify_download_error shown e) \<in> {DiskFull, Network, Other (shown e)}
   | ClassCancelled \<Rightarrow> False"
  by (cases e) simp_all

end
