(* ===== verification/Device_State.thy ===== *)
theory Device_State
  imports Prelude
begin

text \<open>
  The three orthogonal state axes of a device (\<open>device/mod.rs\<close>) and the one
  reading of two of them that the transfer reducer consumes
  (\<open>DeviceSnapshot\<close> and \<open>DeviceReadiness\<close> of \<open>transfer/aggregate.rs\<close>).
\<close>

datatype DiscoveryState = Online | Stale | Offline

datatype PairingPhase = Pending | Allowed | PairingRejected | PairingExpired | PairingCancelled

datatype ConnectionState =
    Disconnected
  | Pairing (conn_attempt_id: string) (conn_phase: PairingPhase)
  | Connected (conn_connection_id: string) (conn_epoch: u64)
  | Expired (conn_reason: string)

datatype CaptureActivityState =
    CaptureIdle
  | CaptureStarting
  | CaptureRecording
  | CaptureStopping
  | CaptureError
  | CaptureUnknown

record Device =
  dev_device_id :: string
  dev_name :: string
  dev_tls_fingerprint :: string
  dev_discovery :: DiscoveryState
  dev_connection :: ConnectionState
  dev_capture_activity :: CaptureActivityState

datatype DeviceReadiness = Ready | WaitDevice | WaitPairing | CapturePaused

record DeviceSnapshot =
  snap_version :: u64
  snap_connection :: ConnectionState
  snap_capture :: CaptureActivityState

definition DeviceSnapshot_new ::
  "u64 \<Rightarrow> ConnectionState \<Rightarrow> CaptureActivityState \<Rightarrow> DeviceSnapshot" where
  "DeviceSnapshot_new v conn cap =
    \<lparr>snap_version = v, snap_connection = conn, snap_capture = cap\<rparr>"

definition readiness :: "DeviceSnapshot \<Rightarrow> DeviceReadiness" where
  "readiness s =
    (case snap_connection s of
       Connected _ _ \<Rightarrow>
         (case snap_capture s of
            CaptureRecording \<Rightarrow> CapturePaused
          | CaptureStarting \<Rightarrow> CapturePaused
          | CaptureStopping \<Rightarrow> CapturePaused
          | CaptureIdle \<Rightarrow> Ready
          | CaptureError \<Rightarrow> Ready
          | CaptureUnknown \<Rightarrow> Ready)
     | Pairing _ _ \<Rightarrow> WaitPairing
     | Disconnected \<Rightarrow> WaitDevice
     | Expired _ \<Rightarrow> WaitDevice)"

definition is_ready :: "DeviceSnapshot \<Rightarrow> bool" where
  "is_ready s \<longleftrightarrow> readiness s = Ready"

lemma is_ready_iff:
  "is_ready s \<longleftrightarrow>
    (\<exists>c e. snap_connection s = Connected c e) \<and>
    snap_capture s \<notin> {CaptureRecording, CaptureStarting, CaptureStopping}"
  by (auto simp: is_ready_def readiness_def
      split: ConnectionState.splits CaptureActivityState.splits)

end
