(* ===== verification/Job_Aggregate.thy ===== *)
theory Job_Aggregate
  imports Job_State Device_State
begin

text \<open>
  The pure per-job reducer \<open>JobAggregate::decide\<close> of \<open>transfer/aggregate.rs\<close>:
  commands, effects and decisions, one definition per handler, and the
  snapshot and lease types of the same file.

  A decision is an outcome and an ordered list of effects.  The lemmas show
  that the commits a decision proposes always walk the legal graph from the
  aggregate's state with consecutive expected versions, that refusals carry no
  effect, and what each command achieves in every state.
\<close>

section \<open>Commands, effects, decisions\<close>

datatype InterruptReason = IrCapturePause | IrUserPause | IrCancel | IrDeviceLost | IrShutdown

datatype WorkerReport =
    Prepared
  | PreparationFailed FailureCode bool
  | TransferComplete
  | TransferFailed FailureCode bool
  | WorkerPanicked string
  | Interrupted InterruptReason
  | Verified
  | CommitComplete
  | CommitFailed FailureCode bool

fun expected_state :: "WorkerReport \<Rightarrow> TransferJobState option" where
  "expected_state Prepared = Some Preparing"
| "expected_state (PreparationFailed _ _) = Some Preparing"
| "expected_state TransferComplete = Some Transferring"
| "expected_state (TransferFailed _ _) = Some Transferring"
| "expected_state (Interrupted _) = Some Transferring"
| "expected_state (WorkerPanicked _) = None"
| "expected_state Verified = Some Verifying"
| "expected_state CommitComplete = Some Committing"
| "expected_state (CommitFailed _ _) = Some Committing"

fun report_name :: "WorkerReport \<Rightarrow> string" where
  "report_name Prepared = ''prepared''"
| "report_name (PreparationFailed _ _) = ''preparation_failed''"
| "report_name TransferComplete = ''transfer_complete''"
| "report_name (TransferFailed _ _) = ''transfer_failed''"
| "report_name (WorkerPanicked _) = ''worker_panicked''"
| "report_name (Interrupted _) = ''interrupted''"
| "report_name Verified = ''verified''"
| "report_name CommitComplete = ''commit_complete''"
| "report_name (CommitFailed _ _) = ''commit_failed''"

datatype DesiredRunState = Run | Paused

datatype JobCommand =
    Transition TransferJobState
  | Pause
  | Resume
  | Cancel
  | FinalizeCancel
  | Retry
  | Dismiss
  | DeviceObserved DeviceSnapshot
  | Worker WorkerReport

fun command_name :: "JobCommand \<Rightarrow> string" where
  "command_name (Transition _) = ''transition''"
| "command_name Pause = ''pause''"
| "command_name Resume = ''resume''"
| "command_name Cancel = ''cancel''"
| "command_name FinalizeCancel = ''finalize_cancel''"
| "command_name Retry = ''retry''"
| "command_name Dismiss = ''dismiss''"
| "command_name (DeviceObserved _) = ''device_observed''"
| "command_name (Worker _) = ''worker''"

datatype Effect =
    Commit u64 TransferJobState
  | SetDesiredRunState DesiredRunState
  | RequestInterrupt InterruptReason
  | ClearInterrupt
  | AwaitWorkerRelease
  | Dispatch
  | RecordDeviceVersion u64
  | SpawnRetryJob
  | RemoveJob

datatype RejectReason =
    AlreadyTerminal
  | NotTerminal
  | NotFailed
  | IllegalTransition TransferJobState TransferJobState

datatype CommandOutcome = Accepted | NoOp | Rejected RejectReason

fun is_rejected :: "CommandOutcome \<Rightarrow> bool" where
  "is_rejected (Rejected _) = True"
| "is_rejected _ = False"

record Decision =
  outcome :: CommandOutcome
  effects :: "Effect list"

definition accepted :: "Effect list \<Rightarrow> Decision" where
  "accepted es = \<lparr>outcome = Accepted, effects = es\<rparr>"

definition no_op :: Decision where
  "no_op = \<lparr>outcome = NoOp, effects = []\<rparr>"

definition rejected :: "RejectReason \<Rightarrow> Decision" where
  "rejected r = \<lparr>outcome = Rejected r, effects = []\<rparr>"

lemma decision_simps [simp]:
  "outcome (accepted es) = Accepted" "effects (accepted es) = es"
  "outcome no_op = NoOp" "effects no_op = []"
  "outcome (rejected r) = Rejected r" "effects (rejected r) = []"
  by (simp_all add: accepted_def no_op_def rejected_def)

fun commit_target :: "Effect \<Rightarrow> TransferJobState option" where
  "commit_target (Commit _ t) = Some t"
| "commit_target _ = None"

text \<open>\<open>final_state\<close>: the first commit found from the back of the effect list.\<close>

definition final_state :: "Decision \<Rightarrow> TransferJobState \<Rightarrow> TransferJobState" where
  "final_state d current =
    (case List.map_filter commit_target (rev (effects d)) of
       t # _ \<Rightarrow> t
     | [] \<Rightarrow> current)"

section \<open>The reducer\<close>

record JobAggregate =
  agg_state :: TransferJobState
  agg_version :: u64
  agg_desired :: DesiredRunState
  agg_observed :: u64

definition JobAggregate_new :: "TransferJobState \<Rightarrow> JobAggregate" where
  "JobAggregate_new s =
    \<lparr>agg_state = s, agg_version = 1, agg_desired = Run, agg_observed = 0\<rparr>"

definition commit :: "JobAggregate \<Rightarrow> TransferJobState \<Rightarrow> Effect" where
  "commit a to = Commit (agg_version a) to"

definition commits_towards :: "JobAggregate \<Rightarrow> TransferJobState \<Rightarrow> Effect list option" where
  "commits_towards a to =
    (case route (agg_state a) to of
       None \<Rightarrow> None
     | Some hops \<Rightarrow>
         Some (map (\<lambda>(i, hop). Commit (agg_version a + of_nat i) hop) (enumerate 0 hops)))"

definition parked :: "TransferJobState \<Rightarrow> bool" where
  "parked s \<longleftrightarrow>
    s \<in> {Queued, WaitingForDevice, WaitingForPairing, PausedCaptureActive} \<or> s = RetryWait"

text \<open>
  The \<open>match\<close> of \<open>decide_device_observed\<close>: either an early return with the
  interrupt to request (\<^const>\<open>Inl\<close>) or the target state (\<^const>\<open>Inr\<close>).
\<close>

definition observed_target ::
  "TransferJobState \<Rightarrow> DeviceReadiness \<Rightarrow> InterruptReason + TransferJobState option" where
  "observed_target s r =
    (if parked s
     then (case r of
             Ready \<Rightarrow> Inr (Some Preparing)
           | WaitDevice \<Rightarrow> Inr (Some WaitingForDevice)
           | WaitPairing \<Rightarrow> Inr (Some WaitingForPairing)
           | CapturePaused \<Rightarrow> Inr (Some PausedCaptureActive))
     else (case (s, r) of
             (Preparing, Ready) \<Rightarrow> Inr None
           | (Preparing, _) \<Rightarrow> Inr (Some WaitingForDevice)
           | (Transferring, Ready) \<Rightarrow> Inr None
           | (Transferring, CapturePaused) \<Rightarrow> Inl IrCapturePause
           | (Transferring, WaitDevice) \<Rightarrow> Inl IrDeviceLost
           | (Transferring, WaitPairing) \<Rightarrow> Inl IrDeviceLost
           | _ \<Rightarrow> Inr None))"

definition decide_device_observed :: "JobAggregate \<Rightarrow> DeviceSnapshot \<Rightarrow> Decision" where
  "decide_device_observed a snapshot =
    (if snap_version snapshot < agg_observed a then no_op
     else if is_terminal (agg_state a) \<or> agg_state a = Cancelling then no_op
     else if agg_desired a = Paused then no_op
     else
       let record = RecordDeviceVersion (snap_version snapshot) in
       (case observed_target (agg_state a) (readiness snapshot) of
          Inl reason \<Rightarrow> accepted [record, RequestInterrupt reason]
        | Inr target \<Rightarrow>
            (let commits = (case Option.bind target (commits_towards a) of
                              None \<Rightarrow> [] | Some cs \<Rightarrow> cs) in
             if commits = []
             then (if agg_observed a < snap_version snapshot then accepted [record] else no_op)
             else accepted (record # commits))))"

definition decide_finalize_cancel :: "JobAggregate \<Rightarrow> Decision" where
  "decide_finalize_cancel a =
    (if agg_state a = Cancelled then no_op
     else if is_terminal (agg_state a) then rejected AlreadyTerminal
     else if agg_state a = Cancelling
       then accepted [commit a Cancelled, ClearInterrupt]
     else if \<not> is_legal_transition (agg_state a) Cancelling
       then rejected (IllegalTransition (agg_state a) Cancelling)
     else accepted [commit a Cancelling, Commit (agg_version a + 1) Cancelled, ClearInterrupt])"

definition decide_worker_panic :: "JobAggregate \<Rightarrow> string \<Rightarrow> Decision" where
  "decide_worker_panic a detail =
    (let failed = Failed (Other detail) False;
         direct = (case commits_towards a failed of None \<Rightarrow> [] | Some cs \<Rightarrow> cs) in
     if direct \<noteq> [] then accepted direct
     else if is_legal_transition (agg_state a) Cancelling \<and> is_legal_transition Cancelling failed
       then accepted [commit a Cancelling, Commit (agg_version a + 1) failed]
     else rejected (IllegalTransition (agg_state a) failed))"

definition interrupt_valid_state :: "TransferJobState \<Rightarrow> InterruptReason \<Rightarrow> bool" where
  "interrupt_valid_state s reason =
    (case reason of
       IrCancel \<Rightarrow> s = Transferring \<or> s = Cancelling
     | _ \<Rightarrow> s = Transferring)"

definition decide_interrupted :: "JobAggregate \<Rightarrow> InterruptReason \<Rightarrow> Decision" where
  "decide_interrupted a reason =
    (if agg_state a = Cancelling \<and> reason \<noteq> IrCancel then no_op
     else if \<not> interrupt_valid_state (agg_state a) reason
       then rejected (IllegalTransition (agg_state a) (agg_state a))
     else (case reason of
             IrCancel \<Rightarrow> decide_finalize_cancel a
           | IrShutdown \<Rightarrow> no_op
           | _ \<Rightarrow>
               (let target = (case reason of IrCapturePause \<Rightarrow> PausedCaptureActive | _ \<Rightarrow> RetryWait) in
                case commits_towards a target of
                  None \<Rightarrow> no_op
                | Some commits \<Rightarrow>
                    if commits = [] then no_op else accepted (ClearInterrupt # commits))))"

text \<open>
  The \<open>unreachable!\<close> arms of \<open>decide_worker\<close> are the last case of
  \<open>worker_target\<close>; \<open>worker_target_total\<close> shows they are never reached.
\<close>

fun worker_target :: "WorkerReport \<Rightarrow> TransferJobState option" where
  "worker_target Prepared = Some Transferring"
| "worker_target TransferComplete = Some Verifying"
| "worker_target Verified = Some Committing"
| "worker_target CommitComplete = Some Succeeded"
| "worker_target (PreparationFailed code retryable) = Some (Failed code retryable)"
| "worker_target (TransferFailed code retryable) = Some (Failed code retryable)"
| "worker_target (CommitFailed code retryable) = Some (Failed code retryable)"
| "worker_target _ = None"

definition decide_worker :: "JobAggregate \<Rightarrow> WorkerReport \<Rightarrow> Decision" where
  "decide_worker a report =
    (if is_terminal (agg_state a) then rejected AlreadyTerminal
     else (case report of
             WorkerPanicked detail \<Rightarrow> decide_worker_panic a detail
           | Interrupted reason \<Rightarrow> decide_interrupted a reason
           | _ \<Rightarrow>
               if agg_state a = Cancelling then no_op
               else (case expected_state report of
                       None \<Rightarrow> no_op
                     | Some expected \<Rightarrow>
                         if agg_state a \<noteq> expected
                         then rejected (IllegalTransition (agg_state a) expected)
                         else (case worker_target report of
                                 Some to \<Rightarrow> accepted [commit a to]
                               | None \<Rightarrow> no_op))))"

definition decide_transition :: "JobAggregate \<Rightarrow> TransferJobState \<Rightarrow> Decision" where
  "decide_transition a to =
    (if agg_state a = to then no_op
     else if is_terminal (agg_state a) then rejected AlreadyTerminal
     else if \<not> is_legal_transition (agg_state a) to
       then rejected (IllegalTransition (agg_state a) to)
     else accepted [commit a to])"

definition decide_pause :: "JobAggregate \<Rightarrow> Decision" where
  "decide_pause a =
    (if is_terminal (agg_state a) then rejected AlreadyTerminal
     else accepted
       [SetDesiredRunState Paused, RequestInterrupt IrUserPause, AwaitWorkerRelease, ClearInterrupt])"

definition decide_resume :: "JobAggregate \<Rightarrow> Decision" where
  "decide_resume a =
    (if is_terminal (agg_state a) then rejected AlreadyTerminal
     else if agg_state a = Cancelling then rejected (IllegalTransition Cancelling Queued)
     else accepted
       ([SetDesiredRunState Run] @
        (if agg_state a = RetryWait then [commit a Queued] else []) @
        [Dispatch]))"

definition decide_cancel :: "JobAggregate \<Rightarrow> Decision" where
  "decide_cancel a =
    (if is_terminal (agg_state a) then rejected AlreadyTerminal
     else if agg_state a = Cancelling
       then accepted [RequestInterrupt IrCancel, Dispatch, AwaitWorkerRelease]
     else if \<not> is_legal_transition (agg_state a) Cancelling
       then rejected (IllegalTransition (agg_state a) Cancelling)
     else accepted
       [RequestInterrupt IrCancel, commit a Cancelling, Dispatch, AwaitWorkerRelease])"

definition decide_retry :: "JobAggregate \<Rightarrow> Decision" where
  "decide_retry a =
    (case agg_state a of
       Failed _ _ \<Rightarrow> accepted [SpawnRetryJob]
     | _ \<Rightarrow> rejected NotFailed)"

definition decide_dismiss :: "JobAggregate \<Rightarrow> Decision" where
  "decide_dismiss a =
    (if \<not> is_terminal (agg_state a) then rejected NotTerminal
     else accepted [AwaitWorkerRelease, RemoveJob])"

fun decide :: "JobAggregate \<Rightarrow> JobCommand \<Rightarrow> Decision" where
  "decide a (Transition to) = decide_transition a to"
| "decide a Pause = decide_pause a"
| "decide a Resume = decide_resume a"
| "decide a Cancel = decide_cancel a"
| "decide a FinalizeCancel = decide_finalize_cancel a"
| "decide a Retry = decide_retry a"
| "decide a Dismiss = decide_dismiss a"
| "decide a (DeviceObserved snapshot) = decide_device_observed a snapshot"
| "decide a (Worker report) = decide_worker a report"

lemmas decide_handler_defs =
  decide_transition_def decide_pause_def decide_resume_def decide_cancel_def
  decide_finalize_cancel_def decide_retry_def decide_dismiss_def decide_device_observed_def
  decide_worker_def decide_worker_panic_def decide_interrupted_def interrupt_valid_state_def
declare decide_handler_defs [decide_defs]

section \<open>Snapshots\<close>

record JobFailure =
  jf_code :: FailureCode
  jf_retryable :: bool

definition failure_of :: "TransferJobState \<Rightarrow> JobFailure option" where
  "failure_of s =
    (case s of
       Failed code retryable \<Rightarrow> Some \<lparr>jf_code = code, jf_retryable = retryable\<rparr>
     | _ \<Rightarrow> None)"

section \<open>Chains of commits\<close>

definition commits :: "Effect list \<Rightarrow> (u64 \<times> TransferJobState) list" where
  "commits es = List.map_filter (\<lambda>e. case e of Commit v t \<Rightarrow> Some (v, t) | _ \<Rightarrow> None) es"

lemma commits_simps [simp]:
  "commits [] = []" "commits (Commit v t # es) = (v, t) # commits es"
  "commits (SetDesiredRunState d # es) = commits es" "commits (RequestInterrupt r # es) = commits es"
  "commits (ClearInterrupt # es) = commits es" "commits (AwaitWorkerRelease # es) = commits es"
  "commits (Dispatch # es) = commits es" "commits (RecordDeviceVersion v # es) = commits es"
  "commits (SpawnRetryJob # es) = commits es" "commits (RemoveJob # es) = commits es"
  by (simp_all add: commits_def List.map_filter_simps)

text \<open>
  A chain decided at version \<open>v\<close> in state \<open>s\<close>: the expected versions are
  \<open>v, v + 1, \<dots>\<close> and the targets walk the legal graph.
\<close>

fun commit_chain :: "u64 \<Rightarrow> TransferJobState \<Rightarrow> (u64 \<times> TransferJobState) list \<Rightarrow> bool" where
  "commit_chain v s [] = True"
| "commit_chain v s ((w, t) # cs) = (w = v \<and> is_legal_transition s t \<and> commit_chain (v + 1) t cs)"

lemma commits_towards_Some:
  "commits_towards a t = Some es \<Longrightarrow>
    commit_chain (agg_version a) (agg_state a) (commits es) \<and>
    (es = [] \<longleftrightarrow> agg_state a = t) \<and> last (agg_state a # map snd (commits es)) = t"
  by (auto simp: commits_towards_def route_def commit_def split: option.splits if_splits)

lemma commit_chain_walk: "commit_chain v s cs \<Longrightarrow> legal_walk s (map snd cs)"
  by (induction v s cs rule: commit_chain.induct) auto

lemma decide_finalize_cancel_chain:
  "commit_chain (agg_version a) (agg_state a) (commits (effects (decide_finalize_cancel a)))"
  by (auto simp: decide_finalize_cancel_def commit_def)

lemma decide_device_observed_chain:
  "commit_chain (agg_version a) (agg_state a) (commits (effects (decide_device_observed a s)))"
  by (auto simp: decide_device_observed_def Let_def dest: commits_towards_Some
      split: sum.splits option.splits bind_splits)

lemma decide_interrupted_chain:
  "commit_chain (agg_version a) (agg_state a) (commits (effects (decide_interrupted a r)))"
  by (auto simp: decide_interrupted_def Let_def decide_finalize_cancel_chain
      dest: commits_towards_Some split: option.splits InterruptReason.splits)

lemma decide_worker_panic_chain:
  "commit_chain (agg_version a) (agg_state a) (commits (effects (decide_worker_panic a d)))"
  by (auto simp: decide_worker_panic_def Let_def commit_def
      dest: commits_towards_Some split: option.splits)

lemma worker_target_legal:
  "expected_state r = Some s \<Longrightarrow> worker_target r = Some t \<Longrightarrow> is_legal_transition s t"
  by (cases r) (auto simp: legal_to_failed_iff)

lemma decide_worker_chain:
  "commit_chain (agg_version a) (agg_state a) (commits (effects (decide_worker a r)))"
  by (cases r)
    (auto simp: decide_worker_def decide_interrupted_chain decide_worker_panic_chain
      commit_def legal_to_failed_iff)


lemma decide_chain:
  "commit_chain (agg_version a) (agg_state a) (commits (effects (decide a c)))"
proof (cases c)
  case (Transition to)
  then show ?thesis by (simp add: decide_transition_def commit_def)
next
  case Resume
  then show ?thesis by (simp add: decide_resume_def commit_def)
next
  case Cancel
  then show ?thesis by (simp add: decide_cancel_def commit_def)
next
  case Retry
  then show ?thesis by (simp add: decide_retry_def split: TransferJobState.splits)
qed (simp_all add: decide_finalize_cancel_chain decide_device_observed_chain decide_worker_chain
      decide_pause_def decide_dismiss_def)

text \<open>A reducer decision proposes at most two commits.\<close>

lemma commit_chain_length:
  assumes "commit_chain v s cs" and "length cs \<le> 2" and "unat v < u64_max"
  shows "sorted_wrt (<) (map fst cs)"
proof (cases cs)
  case Nil
  then show ?thesis by simp
next
  case (Cons c cs')
  with assms show ?thesis
    by (cases c; cases cs') (auto simp: u64_succ_greater)
qed

lemma commits_towards_length:
  "commits_towards a t = Some es \<Longrightarrow> length (commits es) \<le> 2"
  by (auto simp: commits_towards_def route_def split: option.splits if_splits)

lemma decide_finalize_cancel_length: "length (commits (effects (decide_finalize_cancel a))) \<le> 2"
  by (simp add: decide_finalize_cancel_def commit_def)

lemma decide_worker_length: "length (commits (effects (decide_worker a r))) \<le> 2"
  by (cases r)
    (auto simp: decide_worker_def decide_worker_panic_def decide_interrupted_def Let_def
      decide_finalize_cancel_length commit_def
      dest: commits_towards_length split: option.splits InterruptReason.splits)

lemma decide_length: "length (commits (effects (decide a c))) \<le> 2"
proof (cases c)
  case (DeviceObserved s)
  then show ?thesis
    by (auto simp: decide_device_observed_def Let_def dest: commits_towards_length
        split: sum.splits option.splits bind_splits)
next
  case Retry
  then show ?thesis by (simp add: decide_retry_def split: TransferJobState.splits)
qed (simp_all add: decide_finalize_cancel_length decide_worker_length decide_transition_def
      decide_pause_def decide_resume_def decide_cancel_def decide_dismiss_def commit_def)

lemma final_state_eq_last:
  "final_state d s = last (s # map snd (commits (effects d)))"
proof -
  have "List.map_filter commit_target es = map snd (commits es)" for es
    by (induction es) (auto simp: commits_def List.map_filter_def split: Effect.splits)
  moreover have "List.map_filter commit_target (rev es) = rev (List.map_filter commit_target es)" for es
    by (simp add: List.map_filter_def rev_filter rev_map)
  ultimately show ?thesis
    by (auto simp: final_state_def rev_map split: list.splits)
qed

section \<open>Properties of the reducer\<close>

text \<open>
  C12.  Every decision of the reducer, in every state and for every command,
  proposes a chain of commits that starts at the aggregate's own version,
  increases the expected version by one per commit and only takes edges of the
  legal transition graph starting from the aggregate's state.
\<close>

theorem decide_commits_legal:
  "commit_chain (agg_version a) (agg_state a) (commits (effects (decide a c))) \<and>
   legal_walk (agg_state a) (map snd (commits (effects (decide a c)))) \<and>
   length (commits (effects (decide a c))) \<le> 2"
  using decide_chain [of a c] commit_chain_walk [OF decide_chain] decide_length [of a c] by simp

text \<open>
  The expected versions of one decision are strictly increasing (below the
  top of the 64-bit range), so a performer that has applied only a part of a
  chain cannot apply the rest against the wrong version.
\<close>

theorem decide_versions_increasing:
  assumes "unat (agg_version a) < u64_max"
  shows "sorted_wrt (<) (map fst (commits (effects (decide a c))))"
  using decide_chain decide_length assms by (rule commit_chain_length)

theorem decide_versions_increasing_witness:
  "map fst (commits (effects (decide (JobAggregate_new Transferring) FinalizeCancel))) = [1, 2] \<and>
   sorted_wrt (<) (map fst (commits (effects (decide (JobAggregate_new Transferring) FinalizeCancel))))"
proof -
  have "unat (agg_version (JobAggregate_new Transferring)) < u64_max"
    by (simp add: JobAggregate_new_def u64_max_def)
  from decide_versions_increasing [OF this, of FinalizeCancel] show ?thesis
    by (simp add: JobAggregate_new_def decide_finalize_cancel_def commit_def legal_to_cancelling_iff)
qed

text \<open>
  A command is accepted exactly when it produces effects: a refused
  command and a no-op never carry one.
\<close>

theorem decide_accepted_iff_effects:
  "outcome (decide a c) = Accepted \<longleftrightarrow> effects (decide a c) \<noteq> []"
  by (cases c)
    (auto simp: decide_defs Let_def split: option.splits sum.splits bind_splits
      TransferJobState.splits WorkerReport.splits InterruptReason.splits)

text \<open>
  Terminal states are immutable: in a succeeded, failed or cancelled job no
  command proposes a commit, and the decision leaves the job where it is.
\<close>

theorem decide_terminal_immutable:
  assumes "is_terminal (agg_state a)"
  shows "commits (effects (decide a c)) = [] \<and> final_state (decide a c) (agg_state a) = agg_state a"
proof -
  have "map snd (commits (effects (decide a c))) = []"
    using assms commit_chain_walk [OF decide_chain] by (rule domain_graph.walk_from_terminal)
  then show ?thesis by (simp add: final_state_eq_last)
qed

theorem decide_terminal_immutable_witness:
  "commits (effects (decide (JobAggregate_new Succeeded) Cancel)) = [] \<and>
   final_state (decide (JobAggregate_new Succeeded) Cancel) Succeeded = Succeeded"
  using decide_terminal_immutable [of "JobAggregate_new Succeeded" Cancel]
  by (simp add: JobAggregate_new_def)

text \<open>
  A worker panic never strands a job: from every non-terminal state the
  report is accepted and the job ends in the non-retryable failed state that
  carries the panic detail.
\<close>

theorem decide_worker_panic_converges:
  assumes "\<not> is_terminal (agg_state a)"
  shows "outcome (decide a (Worker (WorkerPanicked d))) = Accepted \<and>
    final_state (decide a (Worker (WorkerPanicked d))) (agg_state a) = Failed (Other d) False"
  using assms
  by (cases "agg_state a")
    (auto simp: final_state_eq_last decide_worker_def decide_worker_panic_def Let_def
      commits_towards_def route_def legal_to_failed_iff legal_to_cancelling_iff commit_def)

theorem decide_worker_panic_converges_witness:
  "final_state (decide (JobAggregate_new WaitingForPairing) (Worker (WorkerPanicked ''boom'')))
     WaitingForPairing = Failed (Other ''boom'') False"
  using decide_worker_panic_converges [of "JobAggregate_new WaitingForPairing" "''boom''"]
  by (simp add: JobAggregate_new_def)

text \<open>
  What a fresh device reading does to a parked job the user wants to run:
  a ready device moves it to preparing, an absent one to waiting for the device,
  one in pairing to waiting for pairing, from every parked state.  A capture in
  progress parks it as capture-paused only from waiting-for-device (or leaves it
  there); the graph has no route from the other parked states, which stay.
\<close>

theorem decide_device_observed_parked:
  assumes "parked (agg_state a)" and "agg_desired a = Run"
    and "agg_observed a \<le> snap_version s"
  shows "final_state (decide a (DeviceObserved s)) (agg_state a) =
    (case readiness s of
       Ready \<Rightarrow> Preparing
     | WaitDevice \<Rightarrow> WaitingForDevice
     | WaitPairing \<Rightarrow> WaitingForPairing
     | CapturePaused \<Rightarrow>
         if agg_state a = WaitingForDevice \<or> agg_state a = PausedCaptureActive
         then PausedCaptureActive else agg_state a)"
  using assms
  by (cases "agg_state a"; cases "readiness s")
    (auto simp: final_state_eq_last decide_device_observed_def Let_def parked_def not_less
      observed_target_def commits_towards_def route_def is_legal_transition_def)

theorem decide_device_observed_parked_witness:
  "final_state (decide (JobAggregate_new RetryWait)
      (DeviceObserved (DeviceSnapshot_new 3 (Connected ''c1'' 7) CaptureIdle))) RetryWait = Preparing"
  using decide_device_observed_parked
    [of "JobAggregate_new RetryWait" "DeviceSnapshot_new 3 (Connected ''c1'' 7) CaptureIdle"]
  by (simp add: JobAggregate_new_def DeviceSnapshot_new_def parked_def readiness_def)

text \<open>
  A device reading that is older than one the job already acted on, or
  that arrives while the user has paused the job, or while the job is being
  cancelled or is over, changes nothing at all.
\<close>

theorem decide_device_observed_ignored:
  assumes "snap_version s < agg_observed a \<or> agg_desired a = Paused \<or>
    agg_state a = Cancelling \<or> is_terminal (agg_state a)"
  shows "decide a (DeviceObserved s) = no_op"
  using assms by (auto simp: decide_device_observed_def)

theorem decide_device_observed_ignored_witness:
  "decide ((JobAggregate_new Transferring)\<lparr>agg_observed := 9\<rparr>)
     (DeviceObserved (DeviceSnapshot_new 3 Disconnected CaptureIdle)) = no_op"
  using decide_device_observed_ignored
    [where a = "(JobAggregate_new Transferring)\<lparr>agg_observed := 9\<rparr>"
       and s = "DeviceSnapshot_new 3 Disconnected CaptureIdle"]
  by (simp add: DeviceSnapshot_new_def)

text \<open>
  A reading never moves a job that is transferring, verifying or
  committing; an active transfer is only asked to unwind, with the capture
  reason when a recording started and the device-lost reason when the device
  went away.
\<close>

theorem decide_device_observed_active:
  assumes "agg_state a \<in> {Transferring, Verifying, Committing}"
    and "agg_desired a = Run" and "agg_observed a \<le> snap_version s"
  shows "commits (effects (decide a (DeviceObserved s))) = [] \<and>
    (\<forall>r. RequestInterrupt r \<in> set (effects (decide a (DeviceObserved s))) \<longleftrightarrow>
       agg_state a = Transferring \<and>
       (r = IrCapturePause \<and> readiness s = CapturePaused \<or>
        r = IrDeviceLost \<and> (readiness s = WaitDevice \<or> readiness s = WaitPairing)))"
  using assms
  by (cases "readiness s")
    (auto simp: decide_device_observed_def Let_def observed_target_def parked_def)

theorem decide_device_observed_active_witness:
  "RequestInterrupt IrDeviceLost \<in> set (effects (decide (JobAggregate_new Transferring)
      (DeviceObserved (DeviceSnapshot_new 3 Disconnected CaptureIdle))))"
  using decide_device_observed_active
    [of "JobAggregate_new Transferring" "DeviceSnapshot_new 3 Disconnected CaptureIdle"]
  by (simp add: JobAggregate_new_def DeviceSnapshot_new_def readiness_def)

text \<open>
  Cancellation, state by state: the command is accepted in every
  non-terminal state but committing, it then leaves the job in the cancelling
  state after asking the worker to unwind with the cancel reason and waiting for
  it; finalizing from that state commits cancelled.
\<close>

theorem decide_cancel_protocol:
  "(outcome (decide a Cancel) = Accepted \<longleftrightarrow>
     \<not> is_terminal (agg_state a) \<and> agg_state a \<noteq> Committing) \<and>
   (outcome (decide a Cancel) = Accepted \<longrightarrow>
     final_state (decide a Cancel) (agg_state a) = Cancelling \<and>
     hd (effects (decide a Cancel)) = RequestInterrupt IrCancel \<and>
     last (effects (decide a Cancel)) = AwaitWorkerRelease \<and>
     final_state (decide (a\<lparr>agg_state := Cancelling\<rparr>) FinalizeCancel) Cancelling = Cancelled)"
  by (auto simp: decide_cancel_def decide_finalize_cancel_def final_state_eq_last commit_def
      legal_to_cancelling_iff)

theorem decide_cancel_protocol_witness:
  "outcome (decide (JobAggregate_new Transferring) Cancel) = Accepted \<and>
   final_state (decide (JobAggregate_new Transferring) Cancel) Transferring = Cancelling"
  using decide_cancel_protocol [of "JobAggregate_new Transferring"]
  by (simp add: JobAggregate_new_def)

text \<open>
  The one non-terminal state out of which the user cannot cancel is
  committing: the graph has no edge to cancelling there, and the command is
  refused with that edge.
\<close>

theorem decide_cancel_refused_while_committing:
  assumes "agg_state a = Committing"
  shows "decide a Cancel = rejected (IllegalTransition Committing Cancelling) \<and>
    decide a FinalizeCancel = rejected (IllegalTransition Committing Cancelling)"
  using assms by (simp add: decide_cancel_def decide_finalize_cancel_def)

theorem decide_cancel_refused_while_committing_witness:
  "decide (JobAggregate_new Committing) Cancel = rejected (IllegalTransition Committing Cancelling)"
  using decide_cancel_refused_while_committing [of "JobAggregate_new Committing"]
  by (simp add: JobAggregate_new_def)

end
