(* ===== verification/Leases.thy ===== *)
theory Leases
  imports Job_Aggregate Work_Queue
begin

text \<open>
  Exclusive ownership in the coordinator: the per-target write leases
  (\<open>TargetLeases\<close> of \<open>transfer/aggregate.rs\<close>) and the per-job control block
  (\<open>JobControl\<close> of \<open>transfer/queue.rs\<close>) whose \<open>active\<close> flag is the worker's
  claim on the job.  Both hand out RAII guards; a guard is the value the
  acquiring operation returns and dropping it is the release operation.

  The locale \<open>exclusive_table\<close> states the contract of such a table and proves
  mutual exclusion over arbitrary interleavings of acquire and drop.
\<close>

section \<open>Target leases\<close>

record TargetKey =
  tk_device_id :: string
  tk_session_id :: string

definition TargetKey_new :: "string \<Rightarrow> string \<Rightarrow> TargetKey" where
  "TargetKey_new d s = \<lparr>tk_device_id = d, tk_session_id = s\<rparr>"

type_synonym TargetLeases = "TargetKey \<rightharpoonup> job_id"

definition try_acquire :: "TargetLeases \<Rightarrow> TargetKey \<Rightarrow> job_id \<Rightarrow> (TargetLeases \<times> TargetKey) option" where
  "try_acquire held target j =
    (if held target \<noteq> None then None else Some (held(target \<mapsto> j), target))"

definition holder :: "TargetLeases \<Rightarrow> TargetKey \<Rightarrow> job_id option" where
  "holder held target = held target"

definition release :: "TargetLeases \<Rightarrow> TargetKey \<Rightarrow> TargetLeases" where
  "release held target = held(target := None)"

section \<open>The job control block\<close>

record JobControl =
  jc_active :: bool
  jc_interrupt_flag :: bool
  jc_interrupt_reason :: "InterruptReason option"
  jc_checkpoint_fault :: "string option"

definition JobControl_default :: JobControl where
  "JobControl_default =
    \<lparr>jc_active = False, jc_interrupt_flag = False, jc_interrupt_reason = None,
     jc_checkpoint_fault = None\<rparr>"

definition try_claim :: "JobControl \<Rightarrow> JobControl option" where
  "try_claim c = (if jc_active c then None else Some (c\<lparr>jc_active := True\<rparr>))"

definition drop_active_lease :: "JobControl \<Rightarrow> JobControl" where
  "drop_active_lease c = c\<lparr>jc_active := False\<rparr>"

definition request_interrupt :: "JobControl \<Rightarrow> InterruptReason \<Rightarrow> JobControl" where
  "request_interrupt c r = c\<lparr>jc_interrupt_reason := Some r, jc_interrupt_flag := True\<rparr>"

definition clear_interrupt :: "JobControl \<Rightarrow> JobControl" where
  "clear_interrupt c = c\<lparr>jc_interrupt_flag := False, jc_interrupt_reason := None\<rparr>"

definition current_interrupt_reason :: "JobControl \<Rightarrow> InterruptReason option" where
  "current_interrupt_reason c = jc_interrupt_reason c"

definition record_checkpoint_fault :: "JobControl \<Rightarrow> string \<Rightarrow> JobControl" where
  "record_checkpoint_fault c detail =
    (if jc_checkpoint_fault c = None then c\<lparr>jc_checkpoint_fault := Some detail\<rparr> else c)"

definition take_checkpoint_fault :: "JobControl \<Rightarrow> JobControl \<times> string option" where
  "take_checkpoint_fault c = (c\<lparr>jc_checkpoint_fault := None\<rparr>, jc_checkpoint_fault c)"

text \<open>The flag and the reason are set and cleared together.\<close>

definition control_inv :: "JobControl \<Rightarrow> bool" where
  "control_inv c \<longleftrightarrow> (jc_interrupt_flag c \<longleftrightarrow> jc_interrupt_reason c \<noteq> None)"

lemma control_inv_ops:
  "control_inv JobControl_default"
  "control_inv (request_interrupt c r)"
  "control_inv (clear_interrupt c)"
  "control_inv c \<Longrightarrow> try_claim c = Some c' \<Longrightarrow> control_inv c'"
  "control_inv c \<Longrightarrow> control_inv (drop_active_lease c)"
  "control_inv c \<Longrightarrow> control_inv (record_checkpoint_fault c d)"
  "control_inv c \<Longrightarrow> control_inv (fst (take_checkpoint_fault c))"
  by (auto simp: control_inv_def JobControl_default_def request_interrupt_def clear_interrupt_def
      try_claim_def drop_active_lease_def record_checkpoint_fault_def take_checkpoint_fault_def
      split: if_splits)

section \<open>The contract of an exclusive table\<close>

datatype ('k, 'o) lease_op = Acquire 'k 'o | DropLease 'k

text \<open>
  \<open>out\<close> is the list of guards alive: a successful acquire adds one, a guard can
  only be dropped by the code that owns it, so \<open>DropLease k\<close> of a guard that is
  not alive does nothing.
\<close>

locale exclusive_table =
  fixes acquire :: "'t \<Rightarrow> 'k \<Rightarrow> 'o \<Rightarrow> 't option"
    and drop_lease :: "'t \<Rightarrow> 'k \<Rightarrow> 't"
    and owner :: "'t \<Rightarrow> 'k \<Rightarrow> 'o option"
  assumes acquire_None: "acquire t k w = None \<longleftrightarrow> owner t k \<noteq> None"
    and acquire_Some: "acquire t k w = Some t' \<Longrightarrow> owner t' = (owner t)(k \<mapsto> w)"
    and drop_owner: "owner (drop_lease t k) = (owner t)(k := None)"
begin

fun lease_step :: "'t \<times> ('k \<times> 'o) list \<Rightarrow> ('k, 'o) lease_op \<Rightarrow> 't \<times> ('k \<times> 'o) list" where
  "lease_step (t, guards) (Acquire k w) =
     (case acquire t k w of None \<Rightarrow> (t, guards) | Some t' \<Rightarrow> (t', (k, w) # guards))"
| "lease_step (t, guards) (DropLease k) =
     (if k \<in> fst ` set guards then (drop_lease t k, filter (\<lambda>p. fst p \<noteq> k) guards)
      else (t, guards))"

definition run_leases :: "'t \<times> ('k \<times> 'o) list \<Rightarrow> ('k, 'o) lease_op list \<Rightarrow> 't \<times> ('k \<times> 'o) list" where
  "run_leases s ops = fold (\<lambda>op s. lease_step s op) ops s"

definition lease_inv :: "'t \<times> ('k \<times> 'o) list \<Rightarrow> bool" where
  "lease_inv s \<longleftrightarrow> distinct (map fst (snd s)) \<and> owner (fst s) = map_of (snd s)"

lemma lease_step_inv: "lease_inv s \<Longrightarrow> lease_inv (lease_step s op)"
proof (cases s; cases op)
  fix t guards k w
  assume inv: "lease_inv s" and s: "s = (t, guards)" and op: "op = Acquire k w"
  have "k \<notin> fst ` set guards" if "acquire t k w = Some t'" for t'
    using that inv s acquire_None [of t k w]
    by (auto simp: lease_inv_def map_of_eq_None_iff)
  then show "lease_inv (lease_step s op)"
    using inv by (auto simp: s op lease_inv_def dest: acquire_Some split: option.splits)
next
  fix t guards k
  assume "lease_inv s" and "s = (t, guards)" and "op = DropLease k"
  then show "lease_inv (lease_step s op)"
    by (simp add: lease_inv_def drop_owner map_of_filter_fst distinct_map_filter)
qed

lemma run_leases_inv: "lease_inv s \<Longrightarrow> lease_inv (run_leases s ops)"
  unfolding run_leases_def by (induction ops arbitrary: s) (auto simp: lease_step_inv)

text \<open>Mutual exclusion: two guards alive on one key are the same guard.\<close>

lemma run_leases_exclusive:
  assumes "lease_inv s" and "(k, v) \<in> set (snd (run_leases s ops))"
    and "(k, w) \<in> set (snd (run_leases s ops))"
  shows "v = w"
  using run_leases_inv [OF assms(1), of ops] assms(2,3)
  by (auto simp: lease_inv_def dest: eq_key_imp_eq_value)

end

definition acquire_target :: "TargetLeases \<Rightarrow> TargetKey \<Rightarrow> job_id \<Rightarrow> TargetLeases option" where
  "acquire_target held target j = map_option fst (try_acquire held target j)"

interpretation target_table: exclusive_table acquire_target release holder
  by unfold_locales
    (auto simp: acquire_target_def try_acquire_def release_def holder_def fun_eq_iff split: if_splits)

text \<open>The control block is the table with the job itself as its only key.\<close>

definition acquire_control :: "JobControl \<Rightarrow> unit \<Rightarrow> unit \<Rightarrow> JobControl option" where
  "acquire_control c k w = try_claim c"

definition control_owner :: "JobControl \<Rightarrow> unit \<Rightarrow> unit option" where
  "control_owner c k = (if jc_active c then Some () else None)"

interpretation control_table: exclusive_table acquire_control "\<lambda>c _. drop_active_lease c" control_owner
  by unfold_locales
    (auto simp: acquire_control_def try_claim_def drop_active_lease_def control_owner_def fun_eq_iff
      split: if_splits)

section \<open>Properties of the leases\<close>

text \<open>
  At most one job writes to a target: after any interleaving of lease
  acquisitions and guard drops from an empty registry, two live guards for the
  same (device, session) belong to the same job, and the registry's holder of a
  target is exactly the owner of its live guard.
\<close>

theorem target_lease_exclusive:
  assumes "target_table.run_leases (Map.empty, []) ops = (held, guards)"
  shows "holder held target = map_of guards target \<and> distinct (map fst guards) \<and>
    (\<forall>i j. (target, i) \<in> set guards \<and> (target, j) \<in> set guards \<longrightarrow> i = j)"
proof -
  have start: "target_table.lease_inv (Map.empty, [])"
    by (simp add: target_table.lease_inv_def holder_def fun_eq_iff)
  from target_table.run_leases_inv [OF start, of ops]
  have inv: "distinct (map fst guards) \<and> holder held = map_of guards"
    using assms by (simp add: target_table.lease_inv_def)
  have "i = j" if "(target, i) \<in> set guards" "(target, j) \<in> set guards" for i j
    using target_table.run_leases_exclusive [OF start, of target i ops j] assms that by simp
  with inv show ?thesis by auto
qed

theorem target_lease_exclusive_witness:
  "\<exists>held guards.
    target_table.run_leases (Map.empty, [])
      [Acquire (TargetKey_new ''d'' ''s'') ''j1'', Acquire (TargetKey_new ''d'' ''s'') ''j2'']
      = (held, guards) \<and> guards = [(TargetKey_new ''d'' ''s'', ''j1'')] \<and>
    holder held (TargetKey_new ''d'' ''s'') = Some ''j1''"
proof -
  let ?t = "TargetKey_new ''d'' ''s''"
  let ?ops = "[Acquire ?t ''j1'', Acquire ?t ''j2'']"
  obtain held guards where r: "target_table.run_leases (Map.empty, []) ?ops = (held, guards)"
    by (cases "target_table.run_leases (Map.empty, []) ?ops") auto
  have "guards = [(?t, ''j1'')]"
    using r by (auto simp: target_table.run_leases_def acquire_target_def try_acquire_def)
  with r target_lease_exclusive [OF r, of ?t] show ?thesis by auto
qed

end
