(* ===== verification/Download_Journal.thy ===== *)
theory Download_Journal
  imports Download_Path
begin

text \<open>
  The durable checkpoint journal of a partial download and crash recovery
  (\<open>library/download.rs\<close>, parts 2 and 3): the checked advance, the downward
  correction, the atomic rewrite, the removal of partial state and the
  trustworthy resume offset.
\<close>

section \<open>The host\<close>

record DownloadJournal =
  dj_confirmed_offset :: u64
  dj_expected_size :: u64
  dj_expected_sha256_hex :: string
  dj_etag :: "string option"

text \<open>
  What the engine takes from other packages: SHA-256, the JSON codec of the
  journal and the Unicode lower-casing tables.
\<close>

record Host =
  host_lower :: "string \<Rightarrow> string"
  host_sha256 :: "bytes \<Rightarrow> bytes"
  host_to_json :: "DownloadJournal \<Rightarrow> bytes"
  host_from_json :: "bytes \<Rightarrow> DownloadJournal option"

text \<open>\<open>read_to_string\<close> refuses bytes that are not UTF-8.\<close>

definition cont_byte :: "u8 \<Rightarrow> bool" where
  "cont_byte b \<longleftrightarrow> 128 \<le> b \<and> b < 192"

definition utf8_pair :: "u8 \<Rightarrow> u8 \<Rightarrow> bool" where
  "utf8_pair a b \<longleftrightarrow> 194 \<le> a \<and> a < 224 \<and> cont_byte b"

definition utf8_triple :: "u8 \<Rightarrow> u8 \<Rightarrow> u8 \<Rightarrow> bool" where
  "utf8_triple a b c \<longleftrightarrow>
    224 \<le> a \<and> a < 240 \<and> cont_byte b \<and> cont_byte c \<and>
    (a = 224 \<longrightarrow> 160 \<le> b) \<and> (a = 237 \<longrightarrow> b < 160)"

definition utf8_quad :: "u8 \<Rightarrow> u8 \<Rightarrow> u8 \<Rightarrow> u8 \<Rightarrow> bool" where
  "utf8_quad a b c d \<longleftrightarrow>
    240 \<le> a \<and> a < 245 \<and> cont_byte b \<and> cont_byte c \<and> cont_byte d \<and>
    (a = 240 \<longrightarrow> 144 \<le> b) \<and> (a = 244 \<longrightarrow> b < 144)"

fun utf8_valid :: "bytes \<Rightarrow> bool" where
  "utf8_valid [] = True"
| "utf8_valid (a # bs) =
     (if a < 128 then utf8_valid bs
      else case bs of
        b # cs \<Rightarrow>
          if utf8_pair a b then utf8_valid cs
          else (case cs of
                  c # ds \<Rightarrow>
                    if utf8_triple a b c then utf8_valid ds
                    else (case ds of
                            d # es \<Rightarrow> utf8_quad a b c d \<and> utf8_valid es
                          | [] \<Rightarrow> False)
                | [] \<Rightarrow> False)
      | [] \<Rightarrow> False)"

section \<open>Durable writes\<close>

definition fsync_dir :: "path \<Rightarrow> unit dl" where
  "fsync_dir dir = dl_bind (dl_io dir (metadata dir)) (\<lambda>_. dl_io dir (sync_all dir))"

definition tmp_path :: "path \<Rightarrow> path" where
  "tmp_path p = push_suffix p ''.tmp''"

definition path_parent :: "path \<Rightarrow> path option" where
  "path_parent p = (if p = [] \<or> last p = RootDir then None else Some (butlast p))"

definition write_synced :: "path \<Rightarrow> bytes \<Rightarrow> unit dl" where
  "write_synced tmp b =
    dl_bind (dl_io tmp (open_write True True tmp)) (\<lambda>f.
    dl_bind (dl_io tmp (write_all_at f 0 b)) (\<lambda>_.
      dl_io tmp (sync_all f)))"

definition write_file_durably :: "path \<Rightarrow> bytes \<Rightarrow> unit dl" where
  "write_file_durably p b =
    (case path_parent p of
       None \<Rightarrow> dl_fail (Serialization ''durable write path has no parent directory'')
     | Some parent \<Rightarrow>
         dl_bind (dl_io parent (create_dir_all parent)) (\<lambda>_.
         dl_bind (write_synced (tmp_path p) b) (\<lambda>_.
         dl_bind (dl_io p (rename (tmp_path p) p)) (\<lambda>_.
           fsync_dir parent))))"

section \<open>Journal operations\<close>

definition journal_read :: "Host \<Rightarrow> path \<Rightarrow> DownloadJournal option dl" where
  "journal_read h p =
    dl_bind (dl_try (read_file p)) (\<lambda>r.
      case r of
        Inl e \<Rightarrow> if io_kind e = NotFound then dl_return None else dl_fail (Io p e)
      | Inr raw \<Rightarrow>
          if utf8_valid raw then dl_return (host_from_json h raw)
          else dl_fail (Io p (IoError OtherKind None)))"

definition journal_write :: "Host \<Rightarrow> path \<Rightarrow> DownloadJournal \<Rightarrow> unit dl" where
  "journal_write h p j = write_file_durably p (host_to_json h j)"

text \<open>The length of a file, zero when there is none.\<close>

definition len_or_zero :: "path \<Rightarrow> u64 dl" where
  "len_or_zero p =
    dl_bind (dl_try (metadata p)) (\<lambda>r.
      case r of
        Inr n \<Rightarrow> dl_return (node_len n)
      | Inl e \<Rightarrow> if io_kind e = NotFound then dl_return 0 else dl_fail (Io p e))"

text \<open>The refusals of \<open>advance\<close> against a recorded journal.\<close>

definition check_recorded :: "DownloadJournal \<Rightarrow> DownloadJournal \<Rightarrow> CheckpointError + unit" where
  "check_recorded recorded proposed =
    (if dj_confirmed_offset proposed < dj_confirmed_offset recorded then
       Inl (NonMonotonic (dj_confirmed_offset recorded) (dj_confirmed_offset proposed))
     else if dj_expected_size recorded \<noteq> dj_expected_size proposed then
       Inl (ImmutableField ''expected_size'' (SizeValue (dj_expected_size recorded))
             (SizeValue (dj_expected_size proposed)))
     else if dj_expected_sha256_hex recorded \<noteq> dj_expected_sha256_hex proposed then
       Inl (ImmutableField ''expected_sha256_hex'' (TextValue (dj_expected_sha256_hex recorded))
             (TextValue (dj_expected_sha256_hex proposed)))
     else (case dj_etag recorded of
             None \<Rightarrow> Inr ()
           | Some e \<Rightarrow>
               if dj_etag proposed \<noteq> Some e then
                 Inl (ImmutableField ''etag'' (TextValue e) (EtagValue (dj_etag proposed)))
               else Inr ()))"

definition journal_advance :: "Host \<Rightarrow> path \<Rightarrow> path \<Rightarrow> DownloadJournal \<Rightarrow> unit dl" where
  "journal_advance h p part proposed =
    dl_bind (len_or_zero part) (\<lambda>durable.
      if durable < dj_confirmed_offset proposed then
        dl_fail (Checkpoint (ExceedsDurableBytes part (dj_confirmed_offset proposed) durable))
      else
        dl_bind (journal_read h p) (\<lambda>existing.
          case existing of
            None \<Rightarrow> journal_write h p proposed
          | Some recorded \<Rightarrow>
              (case check_recorded recorded proposed of
                 Inl e \<Rightarrow> dl_fail (Checkpoint e)
               | Inr _ \<Rightarrow> journal_write h p proposed)))"

definition journal_reset_to :: "Host \<Rightarrow> path \<Rightarrow> DownloadJournal \<Rightarrow> u64 \<Rightarrow> DownloadJournal dl" where
  "journal_reset_to h p journal durable_offset =
    (if dj_confirmed_offset journal < durable_offset then
       dl_fail (Checkpoint (NonMonotonic (dj_confirmed_offset journal) durable_offset))
     else
       let corrected = journal\<lparr>dj_confirmed_offset := durable_offset\<rparr> in
       dl_bind (journal_write h p corrected) (\<lambda>_. dl_return corrected))"

text \<open>Removing a file that may be missing.\<close>

definition remove_if_present :: "path \<Rightarrow> unit dl" where
  "remove_if_present p =
    dl_bind (dl_try (remove_file p)) (\<lambda>r.
      case r of
        Inr _ \<Rightarrow> dl_return ()
      | Inl e \<Rightarrow> if io_kind e = NotFound then dl_return () else dl_fail (Io p e))"

definition discard_partial :: "path \<Rightarrow> path \<Rightarrow> unit dl" where
  "discard_partial part jpath =
    dl_bind (remove_if_present part) (\<lambda>_. remove_if_present jpath)"

definition truncate_part :: "path \<Rightarrow> u64 \<Rightarrow> unit dl" where
  "truncate_part part n =
    dl_bind (dl_io part (open_write False False part)) (\<lambda>f.
    dl_bind (dl_io part (set_len f (unat n))) (\<lambda>_.
      dl_io part (sync_all f)))"

definition recover_resume_offset :: "path \<Rightarrow> DownloadJournal option \<Rightarrow> u64 dl" where
  "recover_resume_offset part journal =
    dl_bind (len_or_zero part) (\<lambda>actual_len.
      let claimed = (case journal of None \<Rightarrow> 0 | Some j \<Rightarrow> dj_confirmed_offset j);
          safe_offset = min actual_len claimed in
      if safe_offset < actual_len then
        dl_bind (truncate_part part safe_offset) (\<lambda>_. dl_return safe_offset)
      else dl_return safe_offset)"

text \<open>
  The recovery step of \<open>download_file\<close>: read the journal, settle the resume offset
  and bring an over-claiming journal down to it.
\<close>

definition recover_partial ::
    "Host \<Rightarrow> path \<Rightarrow> path \<Rightarrow> (DownloadJournal option \<times> u64) dl" where
  "recover_partial h part jpath =
    dl_bind (journal_read h jpath) (\<lambda>journal_opt.
    dl_bind (recover_resume_offset part journal_opt) (\<lambda>resume_offset.
      case journal_opt of
        None \<Rightarrow> dl_return (None, resume_offset)
      | Some journal \<Rightarrow>
          if resume_offset < dj_confirmed_offset journal then
            dl_bind (journal_reset_to h jpath journal resume_offset) (\<lambda>corrected.
              dl_return (Some corrected, resume_offset))
          else dl_return (Some journal, resume_offset)))"

section \<open>What the operations may change\<close>

text \<open>
  The files of one download beside its target, and everything the engine may
  change while it works on them: these files and missing parent directories.
\<close>

definition journal_tmp :: "path \<Rightarrow> path" where
  "journal_tmp target = tmp_path (journal_path target)"

definition side_files :: "path \<Rightarrow> path set" where
  "side_files target = {part_path target, journal_tmp target}"

definition engine_scope :: "path \<Rightarrow> path set" where
  "engine_scope target =
    below (part_path target) \<union> below (journal_path target) \<union> below (journal_tmp target) \<union>
    {take k target | k. k < length target}"

lemma side_paths:
  "part_path (base @ [Normal n]) = base @ [Normal (n @ ''.part'')]"
  "journal_path (base @ [Normal n]) = base @ [Normal (n @ ''.part.journal'')]"
  "journal_tmp (base @ [Normal n]) = base @ [Normal (n @ ''.part.journal.tmp'')]"
  by (simp_all add: part_path_def journal_path_def journal_tmp_def tmp_path_def)

lemma below_sibling [simp]: "base @ [x] \<in> below (base @ [y]) \<longleftrightarrow> x = y"
  by (subst below_same_length) auto

lemma take_shorter: "k < length p \<Longrightarrow> take k p \<noteq> p"
  by (metis length_take less_irrefl min.absorb4)

lemma target_not_in_scope: "base @ [Normal n] \<notin> engine_scope (base @ [Normal n])"
  unfolding engine_scope_def side_paths
  using take_shorter [of _ "base @ [Normal n]", symmetric] by (auto simp del: take_append)

lemma dl_io_Inr: "dl_io p m d = (Inr x, d') \<longleftrightarrow> m d = (Inr x, d')"
  by (auto simp: dl_io_def split: prod.splits sum.splits)

lemma open_write_resolved:
  "no_symlink d p \<Longrightarrow> open_write c t p d = (Inr q, d') \<Longrightarrow> q = p"
  using resolve_link_plain [of "io_tick d" p]
  by (auto simp: open_write_def guarded_def split: option.splits node.splits if_splits)

lemma touches_open_write:
  assumes "p \<in> N" "p \<in> S"
  shows "touches N S (open_write c t p)"
  unfolding open_write_def
proof (rule touches_guarded, unfold touches_def, intro allI impI)
  fix d
  assume N: "\<forall>p\<in>N. no_symlink d p"
  let ?r = "case resolve_link (dk_nodes d) p of
      None \<Rightarrow> (Inl ELOOP, d)
    | Some q \<Rightarrow>
        (case lookup d q of
           Some (NFile b) \<Rightarrow>
             (Inr q, if t then d\<lparr>dk_nodes := put_node q (NFile []) (dk_nodes d)\<rparr> else d)
         | Some _ \<Rightarrow> (Inl EISDIR, d)
         | None \<Rightarrow>
             if \<not> c then (Inl ENOENT, d)
             else (case lookup d (butlast q) of
                     Some (NDir _) \<Rightarrow>
                       (Inr q, d\<lparr>dk_nodes := put_node q (NFile []) (dk_nodes d)\<rparr>)
                   | Some _ \<Rightarrow> (Inl ENOTDIR, d)
                   | None \<Rightarrow> (Inl ENOENT, d)))"
  have "snd ?r = d \<or> snd ?r = d\<lparr>dk_nodes := put_node p (NFile []) (dk_nodes d)\<rparr>"
    using resolve_link_plain [of d p] N assms(1)
    by (auto split: option.splits node.splits)
  then show "(\<forall>p. p \<notin> S \<longrightarrow> lookup (snd ?r) p = lookup d p) \<and>
      (\<forall>p\<in>N. no_symlink (snd ?r) p) \<and> dk_faults (snd ?r) = dk_faults d"
    using N assms by (elim disjE) (auto simp: no_symlink_put)
qed

lemma touches_opened:
  assumes "p \<in> N" "p \<in> S" "touches N S (g p)"
  shows "touches N S (dl_bind (dl_io p' (open_write c t p)) g)"
  unfolding touches_def
proof (intro allI impI)
  fix d
  assume N: "\<forall>p\<in>N. no_symlink d p"
  note m = touchesD [OF touches_open_write [OF assms(1,2), of c t] N]
  note g = touchesD [OF assms(3) m(2)]
  have "fst (open_write c t p d) = Inr q \<Longrightarrow> q = p" for q
    using open_write_resolved [of d p c t q] N assms(1) by (metis prod.collapse)
  then show "(\<forall>q. q \<notin> S \<longrightarrow> lookup (snd (dl_bind (dl_io p' (open_write c t p)) g d)) q = lookup d q) \<and>
      (\<forall>q\<in>N. no_symlink (snd (dl_bind (dl_io p' (open_write c t p)) g d)) q) \<and>
      dk_faults (snd (dl_bind (dl_io p' (open_write c t p)) g d)) = dk_faults d"
    using m g by (cases "open_write c t p d"; cases "fst (open_write c t p d)")
      (simp_all add: dl_bind_def dl_io_def)
qed

lemma touches_fsync_dir [touchesI]: "touches N S (fsync_dir p)"
  unfolding fsync_dir_def by (intro touchesI)

lemma touches_write_synced:
  "p \<in> N \<Longrightarrow> p \<in> S \<Longrightarrow> touches N S (write_synced p b)"
  unfolding write_synced_def by (intro touches_opened) (auto intro: touchesI)

lemma touches_write_file_durably:
  assumes "tmp_path p \<in> N" "below p \<subseteq> S" "below (tmp_path p) \<subseteq> S" "tmp_path p \<notin> below p"
    and "\<And>q. q \<in> N \<Longrightarrow> q \<in> below p \<Longrightarrow> q = p"
    and "\<And>q. q \<in> N \<Longrightarrow> q \<in> below (tmp_path p) \<Longrightarrow> q = tmp_path p"
    and "\<And>k. k < length p \<Longrightarrow> take k p \<in> S"
  shows "touches N S (write_file_durably p b)"
proof -
  have "touches N S (create_dir_all (butlast p))"
    using assms(7) by (intro touches_create_dir_all) (simp add: butlast_conv_take)
  moreover have "touches N S (rename (tmp_path p) p)"
    using assms by (intro touches_rename) auto
  moreover have "touches N S (write_synced (tmp_path p) b)"
    using assms(1,3) below_self by (intro touches_write_synced) auto
  ultimately show ?thesis
    unfolding write_file_durably_def path_parent_def
    by (auto intro!: touchesI)
qed

lemma touches_journal_read [touchesI]: "touches N S (journal_read h p)"
  unfolding journal_read_def
  by (intro touchesI) (auto intro: touchesI split: sum.splits)

lemma touches_len_or_zero [touchesI]: "touches N S (len_or_zero p)"
  unfolding len_or_zero_def
  by (intro touchesI) (auto intro: touchesI split: sum.splits)

lemma touches_remove_if_present [touchesI]: "p \<in> S \<Longrightarrow> touches N S (remove_if_present p)"
  unfolding remove_if_present_def
  by (intro touchesI) (auto intro: touchesI split: sum.splits)

section \<open>Results of the operations\<close>

lemma write_at_empty [simp]: "write_at 0 b [] = b"
  by (simp add: write_at_def)

lemma guarded_Inr:
  "guarded body d = (Inr x, d') \<Longrightarrow> current_fault d = None \<and> body (io_tick d) = (Inr x, d')"
  by (auto simp: guarded_def split: option.splits)

lemma open_write_truncated:
  assumes "no_symlink d p" "open_write True True p d = (Inr q, d')"
  shows "q = p \<and> lookup d' p = Some (NFile [])"
proof -
  have cf: "current_fault d = None"
    using guarded_Inr [OF assms(2) [unfolded open_write_def]] by blast
  show ?thesis
    using assms(2) open_write_plain [OF assms(1) cf, of True True]
    by (auto split: option.splits node.splits)
qed

lemma write_all_at_ok:
  "write_all_at q off b d = (Inr u, d') \<Longrightarrow>
   lookup d' q = Some (NFile (write_at off b (file_bytes d q)))"
  by (auto simp: write_all_at_def Let_def split: option.splits)

lemma sync_all_ok: "sync_all q d = (Inr u, d') \<Longrightarrow> d' = io_tick d"
  by (auto simp: sync_all_def dest: guarded_Inr)

lemma write_synced_ok:
  assumes "no_symlink d p" "write_synced p b d = (Inr u, d')"
  shows "lookup d' p = Some (NFile b)"
proof -
  from assms(2) obtain q d1 d2 where
    op: "open_write True True p d = (Inr q, d1)" and wr: "write_all_at q 0 b d1 = (Inr (), d2)"
    and sy: "sync_all q d2 = (Inr u, d')"
    by (auto simp: write_synced_def dl_bind_Inr dl_io_Inr)
  note o = open_write_truncated [OF assms(1) op]
  have "lookup d2 p = Some (NFile (write_at 0 b (file_bytes d1 p)))"
    using write_all_at_ok [OF wr] o by simp
  then show ?thesis using o sync_all_ok [OF sy] by (simp add: file_bytes_def)
qed

lemma rename_result:
  assumes "lookup d a = Some (NFile b)" "a \<noteq> p"
  shows "lookup (snd (rename a p d)) p = lookup d p \<or> lookup (snd (rename a p d)) p = Some (NFile b)"
    and "rename a p d = (Inr u, d') \<Longrightarrow> lookup d' p = Some (NFile b) \<and> lookup d' a = None"
  using assms
  by (auto simp: rename_def guarded_def rename_now_def rename_onto_def
      split: option.splits node.splits if_splits)

lemma fsync_dir_result: "dk_nodes (snd (fsync_dir p d)) = dk_nodes d"
  by (auto simp: fsync_dir_def dl_bind_def dl_io_def metadata_def sync_all_def guarded_def
      split: prod.splits sum.splits option.splits)

text \<open>
  The rewrite of a file is atomic: at every outcome the file holds its old node
  or the new content, and on success the new content.
\<close>

lemma write_file_durably_atomic:
  assumes p: "p = base @ [Normal n]" and ns: "no_symlink d (tmp_path p)"
  shows "lookup (snd (write_file_durably p b d)) p = lookup d p \<or>
      lookup (snd (write_file_durably p b d)) p = Some (NFile b)"
    and "write_file_durably p b d = (Inr u, d') \<Longrightarrow> lookup d' p = Some (NFile b)"
proof -
  let ?tmp = "tmp_path p"
  have tmp: "?tmp = base @ [Normal (n @ ''.tmp'')]" "?tmp \<noteq> p" "?tmp \<noteq> base"
    using p by (simp_all add: tmp_path_def)
  define d1 where "d1 = snd (dl_io base (create_dir_all base) d)"
  define d2 where "d2 = snd (write_synced ?tmp b d1)"
  have mk: "touches {?tmp} {take k base | k. k \<le> length base} (dl_io base (create_dir_all base))"
    by (rule touches_dl_io, rule touches_create_dir_all) auto
  have p_out: "p \<notin> {take k base | k. k \<le> length base}"
    using p by (auto dest: arg_cong [of _ _ length])
  have l1: "lookup d1 p = lookup d p" and ns1: "no_symlink d1 ?tmp"
    using touchesD [OF mk, of d] ns p_out unfolding d1_def by auto
  have wr: "touches {?tmp} {?tmp} (write_synced ?tmp b)" by (rule touches_write_synced) auto
  have l2: "lookup d2 p = lookup d p"
    using touchesD(1) [OF wr, of d1 p] ns1 l1 tmp(2) unfolding d2_def by auto
  have complete: "fst (write_synced ?tmp b d1) = Inr () \<Longrightarrow> lookup d2 ?tmp = Some (NFile b)"
    using write_synced_ok [OF ns1, of b "()" d2] unfolding d2_def by (metis prod.collapse)
  have w: "write_file_durably p b d =
    (case fst (dl_io base (create_dir_all base) d) of Inl e \<Rightarrow> (Inl e, d1) | Inr _ \<Rightarrow>
      (case fst (write_synced ?tmp b d1) of Inl e \<Rightarrow> (Inl e, d2) | Inr _ \<Rightarrow>
        dl_bind (dl_io p (rename ?tmp p)) (\<lambda>_. fsync_dir base) d2))"
    using p by (cases "fst (dl_io base (create_dir_all base) d)"; cases "fst (write_synced ?tmp b d1)")
      (simp_all add: write_file_durably_def path_parent_def d1_def d2_def
        dl_bind_fst [of "dl_io base _"] dl_bind_fst [of "write_synced _ _"])
  have r: "lookup (snd (dl_bind (dl_io p (rename ?tmp p)) (\<lambda>_. fsync_dir base) d2)) p =
      lookup (snd (rename ?tmp p d2)) p"
    by (simp add: dl_bind_def dl_io_def fsync_dir_result split: prod.splits sum.splits)
  show "lookup (snd (write_file_durably p b d)) p = lookup d p \<or>
      lookup (snd (write_file_durably p b d)) p = Some (NFile b)"
    using rename_result(1) [OF complete tmp(2)] l1 l2 r unfolding w by (auto split: sum.splits)
  assume "write_file_durably p b d = (Inr u, d')"
  then obtain d3 where "fst (write_synced ?tmp b d1) = Inr ()" "rename ?tmp p d2 = (Inr (), d3)"
    "fsync_dir base d3 = (Inr u, d')"
    unfolding w by (auto simp: dl_bind_Inr dl_io_Inr split: sum.splits)
  then show "lookup d' p = Some (NFile b)"
    using rename_result(2) [OF complete tmp(2)] fsync_dir_result [of base d3] by fastforce
qed

section \<open>Checkpoints never run ahead of the bytes\<close>

definition part_len :: "Disk \<Rightarrow> path \<Rightarrow> u64" where
  "part_len d p = (case lookup d p of None \<Rightarrow> 0 | Some n \<Rightarrow> node_len n)"

definition journal_view :: "Host \<Rightarrow> Disk \<Rightarrow> path \<Rightarrow> DownloadJournal option" where
  "journal_view h d p =
    (case lookup d p of
       Some (NFile raw) \<Rightarrow> if utf8_valid raw then host_from_json h raw else None
     | _ \<Rightarrow> None)"

text \<open>The round trip of the JSON codec, which \<open>serde_json\<close> documents.\<close>

definition json_faithful :: "Host \<Rightarrow> bool" where
  "json_faithful h \<longleftrightarrow>
    (\<forall>j. utf8_valid (host_to_json h j) \<and> host_from_json h (host_to_json h j) = Some j)"

lemma len_or_zero_ok:
  assumes "no_symlink d p" "len_or_zero p d = (Inr l, d')"
  shows "l = part_len d p \<and> d' = io_tick d"
  using assms(2) resolve_link_plain [of "io_tick d" p] assms(1)
  by (auto simp: len_or_zero_def dl_bind_def dl_try_def dl_return_def dl_fail_def metadata_def
      guarded_def part_len_def split: option.splits if_splits)

lemma journal_read_ok:
  assumes "no_symlink d p" "journal_read h p d = (Inr j, d')"
  shows "j = journal_view h d p \<and> d' = io_tick d"
  using assms(2) resolve_link_plain [of "io_tick d" p] assms(1)
  by (auto simp: journal_read_def dl_bind_def dl_try_def dl_return_def dl_fail_def read_file_def
      guarded_def journal_view_def split: option.splits node.splits if_splits)

lemma journal_view_written:
  "json_faithful h \<Longrightarrow> lookup d p = Some (NFile (host_to_json h j)) \<Longrightarrow> journal_view h d p = Some j"
  by (simp add: journal_view_def json_faithful_def)

lemma check_recorded_ok:
  "check_recorded r p = Inr u \<longleftrightarrow>
   dj_confirmed_offset r \<le> dj_confirmed_offset p \<and> dj_expected_size r = dj_expected_size p \<and>
   dj_expected_sha256_hex r = dj_expected_sha256_hex p \<and>
   (dj_etag r = None \<or> dj_etag p = dj_etag r)"
  by (auto simp: check_recorded_def not_less split: option.splits)

lemma journal_advance_ok:
  assumes "no_symlink d part" "no_symlink d p" "journal_advance h p part j d = (Inr u, d')"
  shows "dj_confirmed_offset j \<le> part_len d part \<and>
    (\<forall>r. journal_view h d p = Some r \<longrightarrow> check_recorded r j = Inr ()) \<and>
    journal_write h p j (io_tick (io_tick d)) = (Inr u, d')"
proof -
  from assms(3) obtain l d1 where l: "len_or_zero part d = (Inr l, d1)"
    and rest: "(if l < dj_confirmed_offset j then
        dl_fail (Checkpoint (ExceedsDurableBytes part (dj_confirmed_offset j) l))
      else dl_bind (journal_read h p) (\<lambda>existing. case existing of
            None \<Rightarrow> journal_write h p j
          | Some recorded \<Rightarrow> (case check_recorded recorded j of
                 Inl e \<Rightarrow> dl_fail (Checkpoint e)
               | Inr _ \<Rightarrow> journal_write h p j))) d1 = (Inr u, d')"
    by (auto simp: journal_advance_def dl_bind_Inr)
  have d1: "l = part_len d part" "d1 = io_tick d" using len_or_zero_ok [OF assms(1) l] by auto
  from rest obtain ex d2 where le: "\<not> l < dj_confirmed_offset j"
    and rd: "journal_read h p d1 = (Inr ex, d2)"
    and wr: "(case ex of None \<Rightarrow> journal_write h p j
          | Some recorded \<Rightarrow> (case check_recorded recorded j of
                 Inl e \<Rightarrow> dl_fail (Checkpoint e)
               | Inr _ \<Rightarrow> journal_write h p j)) d2 = (Inr u, d')"
    by (auto simp: dl_bind_Inr dl_fail_def split: if_splits)
  have "no_symlink d1 p" using assms(2) d1 by simp
  from journal_read_ok [OF this rd] have "ex = journal_view h d p" "d2 = io_tick (io_tick d)"
    using d1 by (auto simp: journal_view_def)
  with wr le d1 show ?thesis
    by (auto simp: dl_fail_def not_less split: option.splits sum.splits)
qed

lemma advance_cases:
  assumes "no_symlink d part" "no_symlink d p" "journal_advance h p part j d = (r, d')"
  shows "dk_nodes d' = dk_nodes d \<or> (r, d') = journal_write h p j (io_tick (io_tick d))"
proof (cases r)
  case (Inr u)
  with assms journal_advance_ok show ?thesis by metis
next
  case (Inl e)
  have l: "snd (len_or_zero part d) = io_tick d"
    by (auto simp: len_or_zero_def dl_bind_def dl_try_def dl_return_def dl_fail_def metadata_def
      guarded_def split: option.splits sum.splits)
  have rd: "snd (journal_read h p (io_tick d)) = io_tick (io_tick d)"
    by (auto simp: journal_read_def dl_bind_def dl_try_def dl_return_def dl_fail_def read_file_def
      guarded_def split: option.splits sum.splits)
  from assms(3) show ?thesis
    unfolding journal_advance_def dl_bind_fst l
    by (auto simp: dl_fail_def dl_bind_fst rd split: sum.splits option.splits if_splits)
qed

lemma scope_ancestor: "k \<le> length base \<Longrightarrow> take k base \<in> engine_scope (base @ [Normal n])"
  unfolding engine_scope_def
  by (rule UnI2, rule CollectI, rule exI [of _ k]) simp

lemma take_not_leaf: "take k base \<noteq> base @ [x]"
  by (auto dest: arg_cong [of _ _ length])

lemma touches_journal_write:
  "touches {part_path (base @ [Normal n]), journal_tmp (base @ [Normal n])}
     (engine_scope (base @ [Normal n]) - {part_path (base @ [Normal n])})
     (journal_write h (journal_path (base @ [Normal n])) j)"
  unfolding journal_write_def
proof (rule touches_write_file_durably)
  fix k
  assume "k < length (journal_path (base @ [Normal n]))"
  then have "take k (journal_path (base @ [Normal n])) = take k base" "k \<le> length base"
    by (simp_all add: side_paths)
  then show "take k (journal_path (base @ [Normal n]))
      \<in> engine_scope (base @ [Normal n]) - {part_path (base @ [Normal n])}"
    using scope_ancestor take_not_leaf by (simp add: side_paths)
qed (auto simp: engine_scope_def side_paths tmp_path_def below_iff)

text \<open>
  A checkpoint is a durability claim that holds.  When \<open>advance\<close> succeeds the
  journal on disk is the proposed one, the partial file is untouched and at
  least as long as the claimed offset, and against the journal recorded before
  the offset did not move back, size and digest are the same and a recorded ETag
  is kept.  Whatever the outcome, the journal file is the old one or the
  proposed one, never a torn one, and the partial file is untouched.
\<close>

theorem journal_advance_sound:
  assumes "target = base @ [Normal n]" "json_faithful h"
    and "no_symlink d (part_path target)" "no_symlink d (journal_path target)"
    and "no_symlink d (journal_tmp target)"
    and "journal_advance h (journal_path target) (part_path target) j d = (r, d')"
  shows "lookup d' (part_path target) = lookup d (part_path target) \<and>
    (lookup d' (journal_path target) = lookup d (journal_path target) \<or>
     journal_view h d' (journal_path target) = Some j) \<and>
    (r = Inr () \<longrightarrow>
       journal_view h d' (journal_path target) = Some j \<and>
       dj_confirmed_offset j \<le> part_len d' (part_path target) \<and>
       (\<forall>old. journal_view h d (journal_path target) = Some old \<longrightarrow>
          dj_confirmed_offset old \<le> dj_confirmed_offset j \<and>
          dj_expected_size old = dj_expected_size j \<and>
          dj_expected_sha256_hex old = dj_expected_sha256_hex j \<and>
          (dj_etag old = None \<or> dj_etag j = dj_etag old)))"
proof -
  let ?part = "part_path target" and ?jp = "journal_path target"
  have jp: "?jp = base @ [Normal (n @ ''.part.journal'')]"
    using assms(1) by (simp add: side_paths)
  note atomic = write_file_durably_atomic [OF jp, folded journal_tmp_def, of _ "host_to_json h j"]
  have part: "touches {?part, journal_tmp target} (engine_scope target - {?part})
      (journal_advance h ?jp ?part j)"
    unfolding journal_advance_def using touches_journal_write [of base n h j] assms(1)
    by (intro touchesI) (auto intro: touchesI split: option.splits sum.splits)
  have same: "lookup d' ?part = lookup d ?part"
    using touchesD(1) [OF part, of d ?part] assms(3,5,6) by simp
  have "lookup d' ?jp = lookup d ?jp \<or> lookup d' ?jp = Some (NFile (host_to_json h j))"
    using advance_cases [OF assms(3,4,6)]
  proof
    assume "(r, d') = journal_write h ?jp j (io_tick (io_tick d))"
    then have "d' = snd (write_file_durably ?jp (host_to_json h j) (io_tick (io_tick d)))"
      by (metis journal_write_def snd_conv)
    then show ?thesis using atomic(1) [of "io_tick (io_tick d)"] assms(5) by simp
  qed simp
  then have torn: "lookup d' ?jp = lookup d ?jp \<or> journal_view h d' ?jp = Some j"
    using journal_view_written [OF assms(2)] by blast
  have ok: "journal_view h d' ?jp = Some j \<and> dj_confirmed_offset j \<le> part_len d' ?part \<and>
      (\<forall>old. journal_view h d ?jp = Some old \<longrightarrow> check_recorded old j = Inr ())" if "r = Inr ()"
    using journal_advance_ok [OF assms(3,4), of h j "()" d'] that assms(5,6) same
      atomic(2) [of "io_tick (io_tick d)" "()" d'] journal_view_written [OF assms(2)]
    by (auto simp: journal_write_def part_len_def)
  show ?thesis using same torn ok by (auto simp: check_recorded_ok)
qed

section \<open>Crash recovery\<close>

definition regular_or_missing :: "Disk \<Rightarrow> path \<Rightarrow> bool" where
  "regular_or_missing d p =
    (case lookup d p of None \<Rightarrow> True | Some (NFile b) \<Rightarrow> length b < 2 ^ 64 | Some _ \<Rightarrow> False)"

lemma regular_no_symlink: "regular_or_missing d p \<Longrightarrow> no_symlink d p"
  by (auto simp: regular_or_missing_def no_symlink_def split: option.splits node.splits)

lemma part_len_file_bytes:
  assumes "regular_or_missing d p"
  shows "part_len d p = of_nat (length (file_bytes d p))"
    and "unat (part_len d p) = length (file_bytes d p)"
  using assms
  by (auto simp: regular_or_missing_def part_len_def file_bytes_def node_len_def unat_of_nat
      split: option.splits node.splits)

lemma set_len_ok:
  "set_len q n d = (Inr u, d') \<Longrightarrow> n \<le> length (file_bytes d q) \<Longrightarrow>
   dk_nodes d' = put_node q (NFile (take n (file_bytes d q))) (dk_nodes d)"
  by (auto simp: set_len_def file_bytes_def dest!: guarded_Inr)

lemma truncate_part_ok:
  assumes reg: "regular_or_missing d part" and lt: "n < part_len d part"
    and ok: "truncate_part part n d = (Inr u, d')"
  shows "dk_nodes d' = put_node part (NFile (take (unat n) (file_bytes d part))) (dk_nodes d)"
proof -
  from ok obtain f d2 d3 where op: "open_write False False part d = (Inr f, d2)"
    and sl: "set_len f (unat n) d2 = (Inr (), d3)" and sy: "sync_all f d3 = (Inr u, d')"
    by (auto simp: truncate_part_def dl_bind_Inr dl_io_Inr)
  have "current_fault d = None"
    using guarded_Inr [OF op [unfolded open_write_def]] by blast
  then have d2: "f = part" "dk_nodes d2 = dk_nodes d"
    using open_write_plain [OF regular_no_symlink [OF reg], of False False] op
    by (auto split: option.splits node.splits)
  then have "unat n \<le> length (file_bytes d2 part)"
    using lt part_len_file_bytes(2) [OF reg] by (simp add: word_less_nat_alt file_bytes_def)
  from set_len_ok [OF sl [unfolded d2(1)] this]
  show ?thesis using d2 sync_all_ok [OF sy] by (simp add: file_bytes_def)
qed

definition safe_offset :: "Disk \<Rightarrow> path \<Rightarrow> DownloadJournal option \<Rightarrow> u64" where
  "safe_offset d part jo =
    min (part_len d part) (case jo of None \<Rightarrow> 0 | Some j \<Rightarrow> dj_confirmed_offset j)"

lemma safe_offset_le: "safe_offset d part jo \<le> part_len d part"
  by (simp add: safe_offset_def)

lemma recover_resume_offset_nodes:
  assumes reg: "regular_or_missing d part" and ok: "recover_resume_offset part jo d = (Inr off, d')"
  shows "off = safe_offset d part jo \<and> dk_nodes d' =
    (if off < part_len d part then put_node part (NFile (take (unat off) (file_bytes d part))) (dk_nodes d)
     else dk_nodes d)"
proof -
  from ok obtain l d1 where l: "len_or_zero part d = (Inr l, d1)" and rest:
    "(let s = min l (case jo of None \<Rightarrow> 0 | Some j \<Rightarrow> dj_confirmed_offset j) in
      if s < l then dl_bind (truncate_part part s) (\<lambda>_. dl_return s) else dl_return s) d1 = (Inr off, d')"
    by (auto simp: recover_resume_offset_def dl_bind_Inr Let_def)
  have d1: "l = part_len d part" "d1 = io_tick d"
    using len_or_zero_ok [OF regular_no_symlink [OF reg] l] by auto
  have reg1: "regular_or_missing (io_tick d) part" and len1: "part_len (io_tick d) part = part_len d part"
    and bytes1: "file_bytes (io_tick d) part = file_bytes d part"
    using reg by (simp_all add: regular_or_missing_def part_len_def file_bytes_def)
  show ?thesis
  proof (cases "safe_offset d part jo < part_len d part")
    case True
    with rest d1 have "truncate_part part (safe_offset d part jo) (io_tick d) = (Inr (), d')"
      and "off = safe_offset d part jo"
      by (auto simp: Let_def safe_offset_def dl_bind_Inr dl_return_def)
    with truncate_part_ok [OF reg1 _ this(1)] True len1 bytes1 show ?thesis by simp
  next
    case False
    with rest d1 show ?thesis by (auto simp: Let_def safe_offset_def dl_return_def)
  qed
qed

lemma recover_resume_offset_ok:
  assumes reg: "regular_or_missing d part" and ok: "recover_resume_offset part jo d = (Inr off, d')"
  shows "off = safe_offset d part jo" "regular_or_missing d' part" "part_len d' part = off"
    "file_bytes d' part = take (unat off) (file_bytes d part)"
    "q \<noteq> part \<Longrightarrow> lookup d' q = lookup d q"
proof -
  note off = recover_resume_offset_nodes [OF reg ok] and len = part_len_file_bytes [OF reg]
  have "off \<le> part_len d part" using off safe_offset_le by simp
  then have le: "unat off \<le> length (file_bytes d part)"
    and eq: "\<not> off < part_len d part \<Longrightarrow> off = part_len d part"
    using len(2) by (simp add: word_le_nat_alt, simp)
  have "unat off < 2 ^ 64" using unsigned_less [of off, where ?'a = nat] by simp
  then show "file_bytes d' part = take (unat off) (file_bytes d part)" "part_len d' part = off"
    "regular_or_missing d' part"
    using off len le reg eq
    by (auto simp: file_bytes_def part_len_def regular_or_missing_def node_len_def min_absorb2)
  show "off = safe_offset d part jo" "q \<noteq> part \<Longrightarrow> lookup d' q = lookup d q" using off by simp_all
qed

lemma journal_reset_to_ok:
  assumes "journal_reset_to h p j off d = (Inr c, d')"
  shows "c = j\<lparr>dj_confirmed_offset := off\<rparr> \<and> off \<le> dj_confirmed_offset j \<and>
    journal_write h p c d = (Inr (), d')"
  using assms
  by (auto simp: journal_reset_to_def Let_def dl_bind_Inr dl_return_def dl_fail_def not_less
      split: if_splits)

lemma safe_offset_claim:
  "\<not> safe_offset d part (Some j) < dj_confirmed_offset j \<Longrightarrow>
   safe_offset d part (Some j) = dj_confirmed_offset j"
  by (simp add: safe_offset_def min_def split: if_splits)

lemma recover_partial_ok:
  assumes "target = base @ [Normal n]" "json_faithful h"
    and "regular_or_missing d (part_path target)"
    and "no_symlink d (journal_path target)" "no_symlink d (journal_tmp target)"
    and "recover_partial h (part_path target) (journal_path target) d = (Inr (jo, off), d')"
  shows "off = safe_offset d (part_path target) (journal_view h d (journal_path target)) \<and>
    file_bytes d' (part_path target) = take (unat off) (file_bytes d (part_path target)) \<and>
    part_len d' (part_path target) = off \<and>
    jo = map_option (dj_confirmed_offset_update (\<lambda>_. off)) (journal_view h d (journal_path target)) \<and>
    journal_view h d' (journal_path target) = jo"
proof -
  let ?part = "part_path target" and ?jp = "journal_path target" and ?tmp = "journal_tmp target"
  have paths: "?jp = base @ [Normal (n @ ''.part.journal'')]" "?jp \<noteq> ?part" "?tmp \<noteq> ?part"
    using assms(1) by (simp_all add: side_paths)
  from assms(6) obtain jv d1 off' d2 where rd: "journal_read h ?jp d = (Inr jv, d1)"
    and rc: "recover_resume_offset ?part jv d1 = (Inr off', d2)"
    and rest: "(case jv of None \<Rightarrow> dl_return (None, off')
      | Some j \<Rightarrow> if off' < dj_confirmed_offset j then
            dl_bind (journal_reset_to h ?jp j off') (\<lambda>c. dl_return (Some c, off'))
          else dl_return (Some j, off')) d2 = (Inr (jo, off), d')"
    by (auto simp: recover_partial_def dl_bind_Inr)
  have jv: "jv = journal_view h d ?jp" and d1: "d1 = io_tick d" using journal_read_ok [OF assms(4) rd] by auto
  have reg1: "regular_or_missing d1 ?part" and so1: "safe_offset d1 ?part jv = safe_offset d ?part jv"
    and fb1: "file_bytes d1 ?part = file_bytes d ?part"
    using assms(3) d1 by (simp_all add: regular_or_missing_def safe_offset_def part_len_def file_bytes_def)
  note rec = recover_resume_offset_ok [OF reg1 rc]
  have jv2: "journal_view h d2 ?jp = jv" and ns2: "no_symlink d2 ?tmp" "no_symlink d2 ?part"
    using rec(5) paths(2,3) d1 jv assms(5) regular_no_symlink [OF rec(2)]
    by (auto simp: journal_view_def no_symlink_def)
  have wrote: "lookup d' ?part = lookup d2 ?part \<and> journal_view h d' ?jp = Some c"
    if "journal_write h ?jp c d2 = (Inr (), d')" for c
    using touchesD(1) [OF touches_journal_write [of base n h c], of d2 ?part] that ns2 assms(1)
      write_file_durably_atomic(2) [OF paths(1), of d2 "host_to_json h c" "()" d']
      journal_view_written [OF assms(2)]
    by (auto simp: journal_write_def journal_tmp_def)
  have "off = off' \<and> lookup d' ?part = lookup d2 ?part \<and>
      jo = map_option (dj_confirmed_offset_update (\<lambda>_. off)) jv \<and> journal_view h d' ?jp = jo"
  proof (cases jv)
    case None
    with rest jv2 show ?thesis by (auto simp: dl_return_def)
  next
    case (Some j)
    show ?thesis
    proof (cases "off' < dj_confirmed_offset j")
      case True
      with rest Some obtain c where "journal_reset_to h ?jp j off' d2 = (Inr c, d')"
        "jo = Some c" "off = off'"
        by (auto simp: dl_bind_Inr dl_return_def)
      with journal_reset_to_ok [OF this(1)] wrote Some show ?thesis by auto
    next
      case False
      then have "off' = dj_confirmed_offset j" using safe_offset_claim rec(1) Some by metis
      moreover from False rest Some have "jo = Some j" "off = off'" "d' = d2"
        by (auto simp: dl_return_def)
      ultimately show ?thesis using jv2 Some by simp
    qed
  qed
  then show ?thesis
    using rec so1 fb1 jv by (auto simp: part_len_def file_bytes_def)
qed

text \<open>
  C25.  Recovery after a crash at any point is conservative and consistent.  The
  resume offset is the smaller of the partial file's length and the journal's
  claim; the partial file is cut to exactly that length and keeps those bytes;
  and the journal, in memory and on disk, then claims exactly that offset and
  still names the same content.
\<close>

theorem recover_partial_sound:
  assumes "target = base @ [Normal n]" "json_faithful h"
    and "regular_or_missing d (part_path target)"
    and "no_symlink d (journal_path target)" "no_symlink d (journal_tmp target)"
    and "recover_partial h (part_path target) (journal_path target) d = (Inr (jo, off), d')"
  shows "off = safe_offset d (part_path target) (journal_view h d (journal_path target)) \<and>
    file_bytes d' (part_path target) = take (unat off) (file_bytes d (part_path target)) \<and>
    part_len d' (part_path target) = off \<and>
    jo = map_option (dj_confirmed_offset_update (\<lambda>_. off)) (journal_view h d (journal_path target)) \<and>
    journal_view h d' (journal_path target) = jo"
  using recover_partial_ok [OF assms] .

section \<open>A reference codec\<close>

text \<open>
  An executable codec with the round trip of \<^const>\<open>json_faithful\<close>: comma-separated
  decimal numbers and hexadecimal texts.
\<close>

definition text_of :: "bytes \<Rightarrow> string" where
  "text_of b = map (\<lambda>x. char_of (unat x)) b"

definition hex_text :: "string \<Rightarrow> string" where
  "hex_text s = RequestDigest_to_hex (as_bytes s)"

definition unhex_text :: "string \<Rightarrow> string option" where
  "unhex_text t = map_option text_of (hex_pairs t)"

definition ref_to_json :: "DownloadJournal \<Rightarrow> bytes" where
  "ref_to_json j = as_bytes (join_char CHR '',''
    [decimal (unat (dj_confirmed_offset j)), decimal (unat (dj_expected_size j)),
     hex_text (dj_expected_sha256_hex j),
     (case dj_etag j of None \<Rightarrow> ''n'' | Some e \<Rightarrow> CHR ''e'' # hex_text e)])"

definition ref_etag :: "string \<Rightarrow> string option option" where
  "ref_etag t = (case t of c # r \<Rightarrow> if c = CHR ''e'' then map_option Some (unhex_text r) else Some None
                 | [] \<Rightarrow> None)"

definition ref_from_json :: "bytes \<Rightarrow> DownloadJournal option" where
  "ref_from_json b =
    (case split_char CHR '','' (text_of b) of
       [o1, s1, h1, e1] \<Rightarrow>
         (case (parse_u64 o1, parse_u64 s1, unhex_text h1, ref_etag e1) of
            (Some off, Some sz, Some hx, Some et) \<Rightarrow>
              Some \<lparr>dj_confirmed_offset = off, dj_expected_size = sz,
                    dj_expected_sha256_hex = hx, dj_etag = et\<rparr>
          | _ \<Rightarrow> None)
     | _ \<Rightarrow> None)"

definition ref_host :: "(bytes \<Rightarrow> bytes) \<Rightarrow> Host" where
  "ref_host sha = \<lparr>host_lower = ascii_lowercase, host_sha256 = sha,
     host_to_json = ref_to_json, host_from_json = ref_from_json\<rparr>"

lemma unat_as_byte: "unat (of_nat (of_char c) :: u8) = of_char c"
  using of_char_less [of c] by (simp add: unat_of_nat)

lemma text_of_as_bytes [simp]: "text_of (as_bytes s) = s"
  by (simp add: text_of_def as_bytes_def comp_def unat_as_byte)

lemma unhex_hex_text [simp]: "unhex_text (hex_text s) = Some s"
  by (simp add: unhex_text_def hex_text_def)

lemma ref_etag_enc [simp]:
  "ref_etag (case e of None \<Rightarrow> ''n'' | Some x \<Rightarrow> CHR ''e'' # hex_text x) = Some e"
  by (simp add: ref_etag_def split: option.splits)

text \<open>The characters the codec writes: digits, lower-case letters and commas.\<close>

definition plain_char :: "char \<Rightarrow> bool" where
  "plain_char c \<longleftrightarrow> 48 \<le> (of_char c :: nat) \<and> (of_char c :: nat) < 128"

lemma plain_hex_text: "c \<in> set (hex_text s) \<Longrightarrow> plain_char c"
  using to_hex_lower [of "as_bytes s"]
  by (auto simp: hex_text_def list_all_iff is_lower_hex_def plain_char_def Let_def)

lemma plain_decimal: "c \<in> set (decimal m) \<Longrightarrow> plain_char c"
  by (auto dest!: decimal_digits simp: plain_char_def of_char_digit_char)

lemma utf8_valid_ascii: "\<forall>b\<in>set bs. b < 128 \<Longrightarrow> utf8_valid bs"
  by (induction bs) auto

lemma ref_fields_plain:
  "\<forall>s\<in>set [decimal (unat (dj_confirmed_offset j)), decimal (unat (dj_expected_size j)),
     hex_text (dj_expected_sha256_hex j),
     (case dj_etag j of None \<Rightarrow> ''n'' | Some e \<Rightarrow> CHR ''e'' # hex_text e)]. \<forall>c\<in>set s. plain_char c"
  using plain_hex_text plain_decimal
  by (auto simp: plain_char_def split: option.splits)

lemma join_plain_ascii:
  "\<forall>s\<in>set ss. \<forall>c\<in>set s. plain_char c \<Longrightarrow> \<forall>c\<in>set (join_char CHR '','' ss). (of_char c :: nat) < 128"
  by (induction "CHR '',''" ss rule: join_char.induct) (auto simp: plain_char_def)

lemma ref_host_faithful: "json_faithful (ref_host sha)"
proof -
  have "utf8_valid (ref_to_json j)" for j
    using join_plain_ascii [OF ref_fields_plain [of j]]
    by (intro utf8_valid_ascii)
      (auto simp: ref_to_json_def as_bytes_def word_less_nat_alt unat_as_byte)
  moreover have "ref_from_json (ref_to_json j) = Some j" for j
  proof -
    have comma: "\<not> plain_char CHR '',''" by (simp add: plain_char_def)
    have "split_char CHR '','' (text_of (ref_to_json j)) =
      [decimal (unat (dj_confirmed_offset j)), decimal (unat (dj_expected_size j)),
       hex_text (dj_expected_sha256_hex j),
       (case dj_etag j of None \<Rightarrow> ''n'' | Some e \<Rightarrow> CHR ''e'' # hex_text e)]"
      unfolding ref_to_json_def text_of_as_bytes
      using ref_fields_plain [of j] comma by (intro split_join_char) blast+
    then show ?thesis
      by (simp add: ref_from_json_def parse_u64_decimal [OF unat_u64_bound])
  qed
  ultimately show ?thesis by (simp add: json_faithful_def ref_host_def)
qed

section \<open>A sample disk\<close>

definition lib_root :: path where
  "lib_root = [RootDir, Normal ''lib'']"

definition sample_target :: path where
  "sample_target = lib_root @ [Normal ''a'']"

definition sample_journal :: "u64 \<Rightarrow> DownloadJournal" where
  "sample_journal off = \<lparr>dj_confirmed_offset = off, dj_expected_size = 9,
     dj_expected_sha256_hex = ''00'', dj_etag = Some ''v1''\<rparr>"

definition sample_disk :: "u64 \<Rightarrow> Disk" where
  "sample_disk claim = \<lparr>dk_nodes =
     [([RootDir], NDir 4096), (lib_root, NDir 4096),
      (part_path sample_target, NFile [1, 2, 3, 4, 5]),
      (journal_path sample_target, NFile (ref_to_json (sample_journal claim)))],
     dk_clock = 0, dk_faults = (\<lambda>_. None)\<rparr>"

lemma sample_disk_plain:
  "sample_target = lib_root @ [Normal ''a'']"
  "regular_or_missing (sample_disk c) (part_path sample_target)"
  "no_symlink (sample_disk c) (part_path sample_target)"
  "no_symlink (sample_disk c) (journal_path sample_target)"
  "no_symlink (sample_disk c) (journal_tmp sample_target)"
  by (simp_all add: sample_disk_def sample_target_def lib_root_def side_paths
      side_paths [where base = "[_, _]", simplified] no_symlink_def regular_or_missing_def)

theorem journal_advance_sound_witness:
  "\<exists>d'. journal_advance (ref_host id) (journal_path sample_target) (part_path sample_target)
       (sample_journal 5) (sample_disk 3) = (Inr (), d') \<and>
     journal_view (ref_host id) d' (journal_path sample_target) = Some (sample_journal 5) \<and>
     5 \<le> part_len d' (part_path sample_target)"
proof -
  let ?run = "journal_advance (ref_host id) (journal_path sample_target) (part_path sample_target)
       (sample_journal 5) (sample_disk 3)"
  have "fst ?run = Inr ()" by code_simp
  then have run: "?run = (Inr (), snd ?run)" by (metis prod.collapse)
  from journal_advance_sound [OF sample_disk_plain(1) ref_host_faithful sample_disk_plain(3-5) run]
  show ?thesis using run by (auto simp: sample_journal_def)
qed

theorem recover_partial_sound_witness:
  "\<exists>d'. recover_partial (ref_host id) (part_path sample_target) (journal_path sample_target)
       (sample_disk 8) = (Inr (Some (sample_journal 5), 5), d') \<and>
     part_len d' (part_path sample_target) = 5 \<and>
     journal_view (ref_host id) d' (journal_path sample_target) = Some (sample_journal 5)"
proof -
  let ?run = "recover_partial (ref_host id) (part_path sample_target) (journal_path sample_target)
       (sample_disk 8)"
  have "fst ?run = Inr (Some (sample_journal 5), 5)" by code_simp
  then have run: "?run = (Inr (Some (sample_journal 5), 5), snd ?run)" by (metis prod.collapse)
  from recover_partial_sound [OF sample_disk_plain(1) ref_host_faithful sample_disk_plain(2,4,5) run]
  show ?thesis using run by auto
qed



end
