(* ===== verification/Artifact.thy ===== *)
theory Artifact
  imports Download_Journal
begin

text \<open>
  The single judge of what is already on disk for an expected file
  (\<open>library/artifact.rs\<close>): the verdict on the committed target, the partial
  verdict from the partial file and its journal, and the recovery plan of a job.
\<close>

section \<open>Expected files\<close>

record FilePlan =
  fp_device_id :: string
  fp_session_id :: string
  fp_file_id :: string
  fp_target_relative_path :: "string option"
  fp_expected_size :: u64
  fp_expected_sha256_hex :: string

record ExpectedArtifact =
  ea_file_id :: string
  ea_target_relative_path :: "string option"
  ea_expected_size :: u64
  ea_expected_sha256_hex :: "string option"

definition ExpectedArtifact_new ::
    "string \<Rightarrow> string option \<Rightarrow> u64 \<Rightarrow> string \<Rightarrow> ExpectedArtifact" where
  "ExpectedArtifact_new fid rel sz hex =
    \<lparr>ea_file_id = fid, ea_target_relative_path = rel, ea_expected_size = sz,
     ea_expected_sha256_hex = Some hex\<rparr>"

definition without_digest :: "string \<Rightarrow> string option \<Rightarrow> u64 \<Rightarrow> ExpectedArtifact" where
  "without_digest fid rel sz =
    \<lparr>ea_file_id = fid, ea_target_relative_path = rel, ea_expected_size = sz,
     ea_expected_sha256_hex = None\<rparr>"

definition expected_from_plan :: "FilePlan \<Rightarrow> ExpectedArtifact" where
  "expected_from_plan plan =
    \<lparr>ea_file_id = fp_file_id plan, ea_target_relative_path = fp_target_relative_path plan,
     ea_expected_size = fp_expected_size plan,
     ea_expected_sha256_hex = Some (fp_expected_sha256_hex plan)\<rparr>"

section \<open>Verdicts\<close>

text \<open>What an \<open>Unreadable\<close> message renders.\<close>

datatype unreadable_cause = IoCause io_error | EngineCause DownloadError

datatype InvalidReason =
    InvSizeMismatch u64 u64
  | InvDigestMismatch string string
  | NotARegularFile
  | UnsafeTargetPath PathSafetyError
  | Unreadable path unreadable_cause

datatype ArtifactStatus =
    Missing
  | Partial u64
  | Verified
  | Invalid InvalidReason

record ArtifactEvidence =
  ae_file_id :: string
  ae_expected_size :: u64
  ae_target :: "path option"
  ae_status :: ArtifactStatus

definition durable_bytes :: "ArtifactEvidence \<Rightarrow> u64" where
  "durable_bytes e =
    (case ae_status e of
       Verified \<Rightarrow> ae_expected_size e
     | Partial durable_offset \<Rightarrow> min durable_offset (ae_expected_size e)
     | Missing \<Rightarrow> 0
     | Invalid _ \<Rightarrow> 0)"

definition is_verified :: "ArtifactEvidence \<Rightarrow> bool" where
  "is_verified e \<longleftrightarrow> ae_status e = Verified"

definition needs_download :: "ArtifactEvidence \<Rightarrow> bool" where
  "needs_download e \<longleftrightarrow> \<not> is_verified e"

section \<open>Recovery plans\<close>

record RecoveryPlan =
  rp_evidence :: "ArtifactEvidence list"

definition plan_reuse :: "RecoveryPlan \<Rightarrow> ArtifactEvidence list" where
  "plan_reuse p = filter is_verified (rp_evidence p)"

definition plan_redownload :: "RecoveryPlan \<Rightarrow> ArtifactEvidence list" where
  "plan_redownload p = filter needs_download (rp_evidence p)"

definition plan_durable_bytes :: "RecoveryPlan \<Rightarrow> u64" where
  "plan_durable_bytes p = foldl (\<lambda>acc e. saturating_add acc (durable_bytes e)) 0 (rp_evidence p)"

definition plan_verified_files :: "RecoveryPlan \<Rightarrow> u32" where
  "plan_verified_files p = of_nat (length (filter is_verified (rp_evidence p)))"

definition plan_total_bytes :: "RecoveryPlan \<Rightarrow> u64" where
  "plan_total_bytes p = foldl (\<lambda>acc e. saturating_add acc (ae_expected_size e)) 0 (rp_evidence p)"

section \<open>The inspector\<close>

record ArtifactInspector =
  ai_library_root :: path
  ai_device_id :: string
  ai_session_id :: string

definition sha256_hex :: "Host \<Rightarrow> bytes \<Rightarrow> string" where
  "sha256_hex h b = RequestDigest_to_hex (host_sha256 h b)"

definition sha256_of_file :: "Host \<Rightarrow> path \<Rightarrow> string dl" where
  "sha256_of_file h p = dl_bind (dl_io p (read_file p)) (\<lambda>b. dl_return (sha256_hex h b))"

definition committed_verdict ::
    "Host \<Rightarrow> path \<Rightarrow> u64 \<Rightarrow> ExpectedArtifact \<Rightarrow> Disk \<Rightarrow> ArtifactStatus \<times> Disk" where
  "committed_verdict h target actual_size expected d =
    (if actual_size \<noteq> ea_expected_size expected then
       (Invalid (InvSizeMismatch (ea_expected_size expected) actual_size), d)
     else
       (case ea_expected_sha256_hex expected of
          None \<Rightarrow> (Verified, d)
        | Some expected_hex \<Rightarrow>
            (case sha256_of_file h target d of
               (Inr actual, d') \<Rightarrow>
                 (if actual = ascii_lowercase expected_hex then Verified
                  else Invalid (InvDigestMismatch (ascii_lowercase expected_hex) actual), d')
             | (Inl e, d') \<Rightarrow> (Invalid (Unreadable target (EngineCause e)), d'))))"

definition partial_verdict :: "Host \<Rightarrow> path \<Rightarrow> ExpectedArtifact \<Rightarrow> Disk \<Rightarrow> ArtifactStatus \<times> Disk" where
  "partial_verdict h target expected d =
    (case metadata (part_path target) d of
       (m, d1) \<Rightarrow>
         let len = (case m of Inl _ \<Rightarrow> 0 | Inr n \<Rightarrow> node_len n) in
         (case journal_read h (journal_path target) d1 of
            (j, d2) \<Rightarrow>
              let confirmed = (case j of Inr (Some x) \<Rightarrow> dj_confirmed_offset x | _ \<Rightarrow> 0);
                  durable_offset = min (min len confirmed) (ea_expected_size expected) in
              (if durable_offset = 0 then Missing else Partial durable_offset, d2)))"

definition judge :: "Host \<Rightarrow> path \<Rightarrow> ExpectedArtifact \<Rightarrow> Disk \<Rightarrow> ArtifactStatus \<times> Disk" where
  "judge h target expected d =
    (case symlink_metadata target d of
       (Inr (NFile b), d') \<Rightarrow> committed_verdict h target (node_len (NFile b)) expected d'
     | (Inr _, d') \<Rightarrow> (Invalid NotARegularFile, d')
     | (Inl e, d') \<Rightarrow>
         if io_kind e = NotFound then partial_verdict h target expected d'
         else (Invalid (Unreadable target (IoCause e)), d'))"

definition inspector_target :: "ArtifactInspector \<Rightarrow> ExpectedArtifact \<Rightarrow> PathSafetyError + path" where
  "inspector_target i expected =
    derive_target_path_for_file (ai_library_root i) (ai_device_id i) (ai_session_id i)
      (ea_file_id expected) (ea_target_relative_path expected)"

definition inspect ::
    "Host \<Rightarrow> ArtifactInspector \<Rightarrow> ExpectedArtifact \<Rightarrow> Disk \<Rightarrow> ArtifactEvidence \<times> Disk" where
  "inspect h i expected d =
    (case inspector_target i expected of
       Inl e \<Rightarrow>
         (\<lparr>ae_file_id = ea_file_id expected, ae_expected_size = ea_expected_size expected,
           ae_target = None, ae_status = Invalid (UnsafeTargetPath e)\<rparr>, d)
     | Inr target \<Rightarrow>
         (case judge h target expected d of
            (status, d') \<Rightarrow>
              (\<lparr>ae_file_id = ea_file_id expected, ae_expected_size = ea_expected_size expected,
                ae_target = Some target, ae_status = status\<rparr>, d')))"

fun inspect_all ::
    "Host \<Rightarrow> ArtifactInspector \<Rightarrow> ExpectedArtifact list \<Rightarrow> Disk \<Rightarrow> ArtifactEvidence list \<times> Disk" where
  "inspect_all h i [] d = ([], d)"
| "inspect_all h i (f # fs) d =
     (case inspect h i f d of
        (e, d') \<Rightarrow> (case inspect_all h i fs d' of (es, d'') \<Rightarrow> (e # es, d'')))"

definition plan_recovery ::
    "Host \<Rightarrow> ArtifactInspector \<Rightarrow> ExpectedArtifact list \<Rightarrow> Disk \<Rightarrow> RecoveryPlan \<times> Disk" where
  "plan_recovery h i fs d = (case inspect_all h i fs d of (es, d') \<Rightarrow> (\<lparr>rp_evidence = es\<rparr>, d'))"

section \<open>Verdicts say what is on disk\<close>

lemma read_file_nodes [simp]: "dk_nodes (snd (read_file p d)) = dk_nodes d"
  by (auto simp: read_file_def guarded_def split: option.splits)

lemma metadata_nodes [simp]: "dk_nodes (snd (metadata p d)) = dk_nodes d"
  by (auto simp: metadata_def guarded_def split: option.splits)

lemma symlink_metadata_nodes [simp]: "dk_nodes (snd (symlink_metadata p d)) = dk_nodes d"
  by (auto simp: symlink_metadata_def guarded_def split: option.splits)

lemma journal_read_nodes [simp]: "dk_nodes (snd (journal_read h p d)) = dk_nodes d"
  by (auto simp: journal_read_def dl_bind_fst dl_try_def dl_return_def dl_fail_def
      read_file_def guarded_def split: option.splits sum.splits)

lemma sha256_of_file_nodes [simp]: "dk_nodes (snd (sha256_of_file h p d)) = dk_nodes d"
  by (auto simp: sha256_of_file_def dl_bind_fst dl_io_def dl_return_def read_file_def guarded_def
      split: option.splits sum.splits)

lemma reads_keep_nodes:
  "sha256_of_file h p d = (r1, d') \<Longrightarrow> dk_nodes d' = dk_nodes d"
  "journal_read h p d = (r2, d') \<Longrightarrow> dk_nodes d' = dk_nodes d"
  "metadata p d = (r3, d') \<Longrightarrow> dk_nodes d' = dk_nodes d"
  "symlink_metadata p d = (r4, d') \<Longrightarrow> dk_nodes d' = dk_nodes d"
  by (metis snd_conv sha256_of_file_nodes journal_read_nodes metadata_nodes symlink_metadata_nodes)+

lemma sha256_of_file_ok:
  assumes "lookup d p = Some (NFile b)" "sha256_of_file h p d = (Inr x, d')"
  shows "x = sha256_hex h b"
proof -
  have "no_symlink (io_tick d) p" using assms(1) by (simp add: no_symlink_def)
  then show ?thesis
    using assms resolve_link_plain [of "io_tick d" p]
    by (auto simp: sha256_of_file_def dl_bind_Inr dl_io_Inr dl_return_def read_file_def
        dest!: guarded_Inr)
qed

text \<open>The content a verdict of \<open>Verified\<close> vouches for.\<close>

definition content_matches :: "Host \<Rightarrow> ExpectedArtifact \<Rightarrow> bytes \<Rightarrow> bool" where
  "content_matches h expected b \<longleftrightarrow>
    of_nat (length b) = ea_expected_size expected \<and>
    (case ea_expected_sha256_hex expected of
       None \<Rightarrow> True
     | Some hex \<Rightarrow> sha256_hex h b = ascii_lowercase hex)"

lemma committed_verdict_Verified:
  assumes "lookup d target = Some (NFile b)"
    and "committed_verdict h target (node_len (NFile b)) expected d = (Verified, d')"
  shows "content_matches h expected b"
  using assms sha256_of_file_ok [OF assms(1)]
  by (auto simp: committed_verdict_def content_matches_def node_len_def
      split: option.splits if_splits prod.splits sum.splits)

lemma partial_verdict_not_Verified:
  "fst (partial_verdict h target expected d) \<noteq> Verified"
  by (simp add: partial_verdict_def Let_def split: prod.splits)

lemma judge_Verified:
  assumes "judge h target expected d = (Verified, d')"
  shows "\<exists>b. lookup d target = Some (NFile b) \<and> content_matches h expected b"
proof -
  obtain r d1 where sm: "symlink_metadata target d = (r, d1)" by force
  then have d1: "lookup d1 = lookup d" using symlink_metadata_nodes [of target d] by simp
  from assms sm partial_verdict_not_Verified [of h target expected d1]
  obtain b where r: "r = Inr (NFile b)"
    and v: "committed_verdict h target (node_len (NFile b)) expected d1 = (Verified, d')"
    by (auto simp: judge_def split: sum.splits node.splits if_splits)
  have "lookup d target = Some (NFile b)"
    using sm r by (auto simp: symlink_metadata_def guarded_def split: option.splits)
  with committed_verdict_Verified [OF _ v] d1 show ?thesis by simp
qed

definition no_faults :: "Disk \<Rightarrow> bool" where
  "no_faults d \<longleftrightarrow> (\<forall>k. dk_faults d k = None)"

lemma no_faults_current [simp]: "no_faults d \<Longrightarrow> current_fault d = None"
  by (simp add: no_faults_def current_fault_def)

lemma no_faults_tick [simp]: "no_faults (io_tick d) = no_faults d"
  by (simp add: no_faults_def)

lemma judge_complete:
  assumes "no_faults d" "lookup d target = Some (NFile b)" "content_matches h expected b"
  shows "fst (judge h target expected d) = Verified"
proof -
  have "no_symlink d target" using assms(2) by (simp add: no_symlink_def)
  then have read: "read_file target (io_tick d) = (Inr b, io_tick (io_tick d))"
    using assms(1,2) resolve_link_plain [of "io_tick (io_tick d)" target]
    by (simp add: read_file_def guarded_def)
  have "symlink_metadata target d = (Inr (NFile b), io_tick d)"
    using assms(1,2) by (simp add: symlink_metadata_def guarded_def)
  then show ?thesis
    using assms(3) read
    by (auto simp: judge_def committed_verdict_def content_matches_def node_len_def
        sha256_of_file_def dl_bind_def dl_io_def dl_return_def split: option.splits)
qed

lemma committed_verdict_nodes [simp]:
  "dk_nodes (snd (committed_verdict h target sz expected d)) = dk_nodes d"
  by (auto simp: committed_verdict_def reads_keep_nodes split: option.splits prod.splits sum.splits)

lemma partial_verdict_nodes [simp]:
  "dk_nodes (snd (partial_verdict h target expected d)) = dk_nodes d"
  by (auto simp: partial_verdict_def Let_def dest!: reads_keep_nodes split: prod.splits)

lemma judge_nodes [simp]: "dk_nodes (snd (judge h target expected d)) = dk_nodes d"
  by (auto simp: judge_def dest!: reads_keep_nodes split: prod.splits sum.splits node.splits)

text \<open>
  C30.  \<open>Verified\<close> means verified.  When the inspector reports a file as verified,
  a regular file is at the derived target with exactly the expected length and
  (the digest being known) the expected SHA-256; inspecting changes no file;
  and without I/O errors every such file is reported as verified.
\<close>

theorem inspect_verified_iff_content:
  assumes "inspect h i expected d = (e, d')"
  shows "dk_nodes d' = dk_nodes d \<and>
    (is_verified e \<longrightarrow>
       (\<exists>target b. inspector_target i expected = Inr target \<and> ae_target e = Some target \<and>
          lookup d target = Some (NFile b) \<and> content_matches h expected b)) \<and>
    (\<forall>target b. no_faults d \<and> inspector_target i expected = Inr target \<and>
          lookup d target = Some (NFile b) \<and> content_matches h expected b \<longrightarrow> is_verified e)"
proof (cases "inspector_target i expected")
  case (Inl x)
  with assms show ?thesis by (auto simp: inspect_def is_verified_def)
next
  case (Inr target)
  obtain st d1 where j: "judge h target expected d = (st, d1)" by force
  with Inr assms have e: "ae_status e = st" "ae_target e = Some target" "d' = d1"
    by (auto simp: inspect_def)
  have "dk_nodes d' = dk_nodes d" using judge_nodes [of h target expected d] j e by simp
  moreover have "is_verified e \<Longrightarrow> \<exists>b. lookup d target = Some (NFile b) \<and> content_matches h expected b"
    using judge_Verified [of h target expected d d1] j e by (simp add: is_verified_def)
  moreover have "no_faults d \<Longrightarrow> lookup d target = Some (NFile b) \<Longrightarrow> content_matches h expected b \<Longrightarrow>
      is_verified e" for b
    using judge_complete [of d target b h expected] j e by (simp add: is_verified_def)
  ultimately show ?thesis using Inr e by auto
qed

definition sample_inspector :: ArtifactInspector where
  "sample_inspector = \<lparr>ai_library_root = lib_root, ai_device_id = ''dev'', ai_session_id = ''s''\<rparr>"

definition sample_expected :: ExpectedArtifact where
  "sample_expected = ExpectedArtifact_new ''a'' None 2 ''0AFF''"

definition sample_committed :: Disk where
  "sample_committed = \<lparr>dk_nodes =
     [(lib_root @ map Normal [''dev'', ''s'', ''a''], NFile [10, 255])],
     dk_clock = 0, dk_faults = (\<lambda>_. None)\<rparr>"

theorem inspect_verified_iff_content_witness:
  "is_verified (fst (inspect (ref_host id) sample_inspector sample_expected sample_committed))"
proof -
  have t: "inspector_target sample_inspector sample_expected =
      Inr (lib_root @ map Normal [''dev'', ''s'', ''a''])" by code_simp
  have c: "content_matches (ref_host id) sample_expected [10, 255]" by code_simp
  have n: "no_faults sample_committed" by (simp add: no_faults_def sample_committed_def)
  have l: "lookup sample_committed (lib_root @ map Normal [''dev'', ''s'', ''a'']) = Some (NFile [10, 255])"
    by (simp add: sample_committed_def)
  obtain e d' where run: "inspect (ref_host id) sample_inspector sample_expected sample_committed = (e, d')"
    by force
  from inspect_verified_iff_content [OF run] t c n l run show ?thesis by auto
qed

section \<open>The partial verdict is the resume point\<close>

lemma partial_verdict_value:
  assumes "no_faults d" "no_symlink d (part_path target)" "no_symlink d (journal_path target)"
  shows "fst (partial_verdict h target expected d) =
    (let o1 = min (safe_offset d (part_path target) (journal_view h d (journal_path target)))
                (ea_expected_size expected) in
     if o1 = 0 then Missing else Partial o1)"
proof -
  have m: "metadata (part_path target) d =
      (case lookup d (part_path target) of None \<Rightarrow> Inl ENOENT | Some n \<Rightarrow> Inr n, io_tick d)"
    using assms resolve_link_plain [of "io_tick d" "part_path target"]
    by (simp add: metadata_def guarded_def)
  have r: "(case fst (journal_read h (journal_path target) (io_tick d)) of
        Inr (Some x) \<Rightarrow> dj_confirmed_offset x | _ \<Rightarrow> 0) =
      (case journal_view h d (journal_path target) of None \<Rightarrow> 0 | Some j \<Rightarrow> dj_confirmed_offset j)"
    using assms resolve_link_plain [of "io_tick (io_tick d)" "journal_path target"]
    by (auto simp: journal_read_def dl_bind_def dl_try_def dl_return_def dl_fail_def read_file_def
        guarded_def journal_view_def split: option.splits node.splits)
  have l: "(case (case lookup d (part_path target) of None \<Rightarrow> Inl ENOENT | Some n \<Rightarrow> Inr n) of
      Inl e \<Rightarrow> 0 | Inr n \<Rightarrow> node_len n) = part_len d (part_path target)"
    by (simp add: part_len_def split: option.splits)
  show ?thesis
    unfolding partial_verdict_def m prod.case Let_def l safe_offset_def
    by (simp add: r [symmetric] split: prod.splits)
qed

text \<open>
  The progress the inspector reports for an unfinished file is exactly the
  offset the engine resumes from: when a file has no committed target, recovery
  of its partial state returns an offset \<open>off\<close> with which the verdict agrees, as
  a partial of \<open>min off expected_size\<close> bytes, or as missing when that is zero.
\<close>

theorem partial_verdict_is_resume_offset:
  assumes "target = base @ [Normal n]" "json_faithful h" "no_faults d"
    and "lookup d target = None" "regular_or_missing d (part_path target)"
    and "no_symlink d (journal_path target)" "no_symlink d (journal_tmp target)"
    and "recover_partial h (part_path target) (journal_path target) d = (Inr (jo, off), d')"
  shows "fst (judge h target expected d) =
    (if min off (ea_expected_size expected) = 0 then Missing
     else Partial (min off (ea_expected_size expected)))"
proof -
  have sm: "symlink_metadata target d = (Inl ENOENT, io_tick d)"
    using assms(3,4) by (simp add: symlink_metadata_def guarded_def)
  have ns: "no_symlink (io_tick d) (part_path target)" "no_symlink (io_tick d) (journal_path target)"
    using regular_no_symlink [OF assms(5)] assms(6) by simp_all
  have "off = safe_offset d (part_path target) (journal_view h d (journal_path target))"
    using recover_partial_ok [OF assms(1,2,5-8)] by blast
  moreover have "safe_offset (io_tick d) (part_path target) (journal_view h (io_tick d) (journal_path target)) =
      safe_offset d (part_path target) (journal_view h d (journal_path target))"
    by (simp add: safe_offset_def part_len_def journal_view_def)
  ultimately show ?thesis
    using partial_verdict_value [OF _ ns, of h expected] assms(3) sm
    by (simp add: judge_def Let_def)
qed

theorem partial_verdict_is_resume_offset_witness:
  "fst (judge (ref_host id) sample_target (without_digest ''a'' None 9) (sample_disk 3)) = Partial 3"
proof -
  let ?run = "recover_partial (ref_host id) (part_path sample_target) (journal_path sample_target)
       (sample_disk 3)"
  have "fst ?run = Inr (Some (sample_journal 3), 3)" by code_simp
  then have run: "?run = (Inr (Some (sample_journal 3), 3), snd ?run)" by (metis prod.collapse)
  have nf: "no_faults (sample_disk 3)" by (simp add: no_faults_def sample_disk_def)
  have none: "lookup (sample_disk 3) sample_target = None"
    by (simp add: sample_disk_def sample_target_def lib_root_def side_paths [where base = "[_, _]", simplified])
  from partial_verdict_is_resume_offset [OF sample_disk_plain(1) ref_host_faithful nf none
      sample_disk_plain(2,4,5) run, of "without_digest ''a'' None 9"]
  show ?thesis by (simp add: without_digest_def)
qed

section \<open>Recovery plans add up\<close>

lemma durable_bytes_le: "durable_bytes e \<le> ae_expected_size e"
  by (simp add: durable_bytes_def split: ArtifactStatus.splits)

lemma foldl_saturating_mono:
  "a \<le> b \<Longrightarrow> (\<And>e. e \<in> set es \<Longrightarrow> f e \<le> g e) \<Longrightarrow>
   foldl (\<lambda>acc e. saturating_add acc (f e)) a es \<le> foldl (\<lambda>acc e. saturating_add acc (g e)) b es"
  by (induction es arbitrary: a b) (auto intro: saturating_add_mono)

text \<open>
  A recovery plan splits the files of a job into the verified ones and the
  ones to fetch, and never counts more bytes than the job has; when every file
  is verified it counts all of them.
\<close>

theorem recovery_plan_accounts:
  "length (plan_reuse p) + length (plan_redownload p) = length (rp_evidence p) \<and>
   plan_durable_bytes p \<le> plan_total_bytes p \<and>
   (plan_redownload p = [] \<longrightarrow> plan_durable_bytes p = plan_total_bytes p)"
proof -
  have "plan_redownload p = [] \<Longrightarrow> plan_durable_bytes p = plan_total_bytes p"
    unfolding plan_durable_bytes_def plan_total_bytes_def plan_redownload_def
    by (intro foldl_cong refl)
      (auto simp: filter_empty_conv needs_download_def is_verified_def durable_bytes_def)
  moreover have "plan_durable_bytes p \<le> plan_total_bytes p"
    unfolding plan_durable_bytes_def plan_total_bytes_def
    by (rule foldl_saturating_mono) (simp_all add: durable_bytes_le)
  moreover have "length (plan_reuse p) + length (plan_redownload p) = length (rp_evidence p)"
    unfolding plan_reuse_def plan_redownload_def needs_download_def
    using sum_length_filter_compl [of is_verified "rp_evidence p"] by simp
  ultimately show ?thesis by simp
qed

theorem recovery_plan_accounts_witness:
  "plan_durable_bytes \<lparr>rp_evidence = [\<lparr>ae_file_id = ''a'', ae_expected_size = 7, ae_target = None,
     ae_status = Verified\<rparr>]\<rparr> = 7"
proof -
  let ?p = "\<lparr>rp_evidence = [\<lparr>ae_file_id = ''a'', ae_expected_size = 7, ae_target = None,
     ae_status = Verified\<rparr>]\<rparr>"
  have "plan_redownload ?p = []" by (simp add: plan_redownload_def needs_download_def is_verified_def)
  with recovery_plan_accounts [of ?p] have "plan_durable_bytes ?p = plan_total_bytes ?p" by simp
  then show ?thesis by (simp add: plan_total_bytes_def)
qed

end
