(* ===== verification/Progress.thy ===== *)
theory Progress
  imports Artifact
begin

text \<open>
  Byte progress of a job (\<open>transfer/progress.rs\<close>): the tracker with its
  high-water mark, the baseline folded from the inspector's evidence, and the
  snapshots a concurrent reader takes.  Each field is an atomic; an operation is
  the sequence of its atomic steps.
\<close>

section \<open>Trackers\<close>

record JobProgress =
  jp_total_bytes :: u64
  jp_transferred_bytes :: u64
  jp_files_total :: u32
  jp_files_done :: u32

record JobProgressTracker =
  pt_total_bytes :: u64
  pt_files_total :: u32
  pt_completed_bytes :: u64
  pt_files_done :: u32
  pt_current_file_bytes :: u64
  pt_peak_transferred :: u64

record DiskBaseline =
  db_completed_bytes :: u64
  db_files_done :: u32
  db_partial_bytes :: u64

definition JobProgressTracker_new :: "u64 \<Rightarrow> u32 \<Rightarrow> JobProgressTracker" where
  "JobProgressTracker_new total_bytes files_total =
    \<lparr>pt_total_bytes = total_bytes, pt_files_total = files_total, pt_completed_bytes = 0,
     pt_files_done = 0, pt_current_file_bytes = 0, pt_peak_transferred = 0\<rparr>"

definition with_baseline :: "u64 \<Rightarrow> u32 \<Rightarrow> DiskBaseline \<Rightarrow> JobProgressTracker" where
  "with_baseline total_bytes files_total b =
    (JobProgressTracker_new total_bytes files_total)
      \<lparr>pt_completed_bytes := db_completed_bytes b, pt_files_done := db_files_done b,
       pt_peak_transferred := min (db_completed_bytes b + db_partial_bytes b) total_bytes\<rparr>"

definition raw_transferred :: "JobProgressTracker \<Rightarrow> u64" where
  "raw_transferred t =
    min (saturating_add (pt_completed_bytes t) (pt_current_file_bytes t)) (pt_total_bytes t)"

definition bump_peak :: "JobProgressTracker \<Rightarrow> JobProgressTracker" where
  "bump_peak t = t\<lparr>pt_peak_transferred := max (pt_peak_transferred t) (raw_transferred t)\<rparr>"

text \<open>The atomic steps of the two operations of the worker, in their order.\<close>

definition set_current_file_offset_steps ::
    "u64 \<Rightarrow> (JobProgressTracker \<Rightarrow> JobProgressTracker) list" where
  "set_current_file_offset_steps offset =
    [(\<lambda>t. t\<lparr>pt_current_file_bytes := offset\<rparr>), bump_peak]"

definition file_completed_steps :: "u64 \<Rightarrow> (JobProgressTracker \<Rightarrow> JobProgressTracker) list" where
  "file_completed_steps sz =
    [(\<lambda>t. t\<lparr>pt_current_file_bytes := 0\<rparr>),
     (\<lambda>t. t\<lparr>pt_completed_bytes := pt_completed_bytes t + sz\<rparr>),
     (\<lambda>t. t\<lparr>pt_files_done := pt_files_done t + 1\<rparr>),
     bump_peak]"

definition run_steps :: "(JobProgressTracker \<Rightarrow> JobProgressTracker) list \<Rightarrow> JobProgressTracker \<Rightarrow> JobProgressTracker" where
  "run_steps steps t = foldl (\<lambda>t f. f t) t steps"

definition set_current_file_offset :: "u64 \<Rightarrow> JobProgressTracker \<Rightarrow> JobProgressTracker" where
  "set_current_file_offset offset = run_steps (set_current_file_offset_steps offset)"

definition file_completed :: "u64 \<Rightarrow> JobProgressTracker \<Rightarrow> JobProgressTracker" where
  "file_completed sz = run_steps (file_completed_steps sz)"

text \<open>
  A snapshot loads the peak, then the completed bytes, then the current offset,
  then the file count; a concurrent worker may act between any two loads, so
  each load has its own tracker state.
\<close>

definition snapshot_loads ::
    "JobProgressTracker \<Rightarrow> JobProgressTracker \<Rightarrow> JobProgressTracker \<Rightarrow> JobProgressTracker \<Rightarrow> JobProgress" where
  "snapshot_loads tp tc tf td =
    \<lparr>jp_total_bytes = pt_total_bytes tp,
     jp_transferred_bytes =
       max (pt_peak_transferred tp)
         (min (saturating_add (pt_completed_bytes tc) (pt_current_file_bytes tf)) (pt_total_bytes tp)),
     jp_files_total = pt_files_total tp,
     jp_files_done = min (pt_files_done td) (pt_files_total tp)\<rparr>"

definition snapshot :: "JobProgressTracker \<Rightarrow> JobProgress" where
  "snapshot t = snapshot_loads t t t t"

section \<open>Baselines\<close>

definition baseline_default :: DiskBaseline where
  "baseline_default = \<lparr>db_completed_bytes = 0, db_files_done = 0, db_partial_bytes = 0\<rparr>"

definition baseline_add :: "DiskBaseline \<Rightarrow> ArtifactEvidence \<Rightarrow> DiskBaseline" where
  "baseline_add b item =
    (case ae_status item of
       Verified \<Rightarrow>
         b\<lparr>db_completed_bytes := saturating_add (db_completed_bytes b) (durable_bytes item),
           db_files_done := db_files_done b + 1\<rparr>
     | Partial _ \<Rightarrow>
         b\<lparr>db_partial_bytes := saturating_add (db_partial_bytes b) (durable_bytes item)\<rparr>
     | Missing \<Rightarrow> b
     | Invalid _ \<Rightarrow> b)"

definition from_evidence :: "ArtifactEvidence list \<Rightarrow> DiskBaseline" where
  "from_evidence evidence = foldl baseline_add baseline_default evidence"

definition baseline_durable_bytes :: "DiskBaseline \<Rightarrow> u64" where
  "baseline_durable_bytes b = saturating_add (db_completed_bytes b) (db_partial_bytes b)"

text \<open>The disk-backed evidence source and the functions built on it.\<close>

definition file_evidence ::
    "Host \<Rightarrow> ArtifactInspector \<Rightarrow> ExpectedArtifact list \<Rightarrow> Disk \<Rightarrow> ArtifactEvidence list" where
  "file_evidence h i files d = rp_evidence (fst (plan_recovery h i files d))"

definition from_evidence_source :: "ArtifactEvidence list \<Rightarrow> JobProgressTracker" where
  "from_evidence_source evidence =
    with_baseline (foldl (\<lambda>acc e. saturating_add acc (ae_expected_size e)) 0 evidence)
      (of_nat (length evidence)) (from_evidence evidence)"

definition baseline_from_source ::
    "Host \<Rightarrow> ArtifactInspector \<Rightarrow> ExpectedArtifact list \<Rightarrow> Disk \<Rightarrow> DiskBaseline" where
  "baseline_from_source h i files d = from_evidence (file_evidence h i files d)"

definition disk_baseline ::
    "Host \<Rightarrow> path \<Rightarrow> string \<Rightarrow> string \<Rightarrow> (string \<times> string option \<times> u64) list \<Rightarrow> Disk \<Rightarrow> DiskBaseline" where
  "disk_baseline h library_root device_id session_id files d =
    baseline_from_source h
      \<lparr>ai_library_root = library_root, ai_device_id = device_id, ai_session_id = session_id\<rparr>
      (map (\<lambda>(fid, rel, sz). without_digest fid rel sz) files) d"

section \<open>Monotone and never beyond the total\<close>

text \<open>
  What the worker does to a tracker: a sequence of operations, each run as its
  atomic steps.  The trace lists every state in between, in order.
\<close>

datatype progress_op = SetOffset u64 | FileDone u64

definition op_steps :: "progress_op \<Rightarrow> (JobProgressTracker \<Rightarrow> JobProgressTracker) list" where
  "op_steps p = (case p of SetOffset n \<Rightarrow> set_current_file_offset_steps n | FileDone n \<Rightarrow> file_completed_steps n)"

fun trace :: "(JobProgressTracker \<Rightarrow> JobProgressTracker) list \<Rightarrow> JobProgressTracker \<Rightarrow> JobProgressTracker list" where
  "trace [] t = [t]"
| "trace (f # fs) t = t # trace fs (f t)"

fun worker_trace :: "progress_op list \<Rightarrow> JobProgressTracker \<Rightarrow> JobProgressTracker list" where
  "worker_trace [] t = [t]"
| "worker_trace (p # ops) t =
     trace (op_steps p) t @ worker_trace ops (run_steps (op_steps p) t)"

text \<open>The bytes of the files an operation sequence completes.\<close>

fun done_bytes :: "progress_op list \<Rightarrow> nat" where
  "done_bytes [] = 0"
| "done_bytes (FileDone n # ops) = unat n + done_bytes ops"
| "done_bytes (SetOffset n # ops) = done_bytes ops"

text \<open>Between operations the high-water mark covers the counters and stays within the total.\<close>

definition tracker_inv :: "JobProgressTracker \<Rightarrow> bool" where
  "tracker_inv t \<longleftrightarrow> raw_transferred t \<le> pt_peak_transferred t \<and> pt_peak_transferred t \<le> pt_total_bytes t"

definition level :: "JobProgressTracker \<Rightarrow> u64" where
  "level t = max (pt_peak_transferred t) (raw_transferred t)"

text \<open>One worker step is an ascent: the level, the completed bytes and the peak do not fall.\<close>

definition ascends :: "JobProgressTracker \<Rightarrow> JobProgressTracker \<Rightarrow> bool" where
  "ascends t u \<longleftrightarrow>
    level t \<le> level u \<and> pt_completed_bytes t \<le> pt_completed_bytes u \<and>
    pt_peak_transferred t \<le> pt_peak_transferred u \<and>
    pt_total_bytes u = pt_total_bytes t \<and> pt_files_total u = pt_files_total t \<and>
    (pt_peak_transferred t \<le> pt_total_bytes t \<longrightarrow> pt_peak_transferred u \<le> pt_total_bytes u)"

lemma ascends_refl [simp]: "ascends t t"
  by (simp add: ascends_def)

lemma ascends_trans: "ascends t u \<Longrightarrow> ascends u v \<Longrightarrow> ascends t v"
  by (auto simp: ascends_def)

lemma snapshot_level: "jp_transferred_bytes (snapshot t) = level t"
  by (simp add: snapshot_def snapshot_loads_def level_def raw_transferred_def)

lemma ascends_bump: "ascends t (bump_peak t)" "tracker_inv (bump_peak t) \<longleftrightarrow> pt_peak_transferred t \<le> pt_total_bytes t"
  by (auto simp: ascends_def level_def bump_peak_def tracker_inv_def raw_transferred_def)

lemma raw_mono:
  "pt_completed_bytes t \<le> pt_completed_bytes u \<Longrightarrow> pt_current_file_bytes t \<le> pt_current_file_bytes u \<Longrightarrow>
   pt_total_bytes t = pt_total_bytes u \<Longrightarrow> raw_transferred t \<le> raw_transferred u"
  unfolding raw_transferred_def by (metis min.mono order_refl saturating_add_mono)

lemma ascends_offset:
  "tracker_inv t \<Longrightarrow> ascends t (t\<lparr>pt_current_file_bytes := n\<rparr>)"
  by (auto simp: ascends_def level_def tracker_inv_def max_def)

lemma ascends_add:
  assumes "pt_current_file_bytes t = 0" "unat (pt_completed_bytes t) + unat n \<le> u64_max"
  shows "ascends t (t\<lparr>pt_completed_bytes := pt_completed_bytes t + n\<rparr>)"
proof -
  have le: "pt_completed_bytes t \<le> pt_completed_bytes t + n"
    using assms(2) by (simp add: word_le_nat_alt unat_add_u64)
  then have "raw_transferred t \<le> raw_transferred (t\<lparr>pt_completed_bytes := pt_completed_bytes t + n\<rparr>)"
    by (intro raw_mono) simp_all
  with le show ?thesis by (simp add: ascends_def level_def max_def) (meson order_trans)
qed

text \<open>
  Every state inside one operation is above the state it started in and below
  the state it ends in, and the operation ends with the invariant.
\<close>

lemma op_trace_ascends:
  assumes "tracker_inv t" "unat (pt_completed_bytes t) + done_bytes [p] \<le> u64_max"
  shows "successively ascends (trace (op_steps p) t) \<and> tracker_inv (last (trace (op_steps p) t)) \<and>
    unat (pt_completed_bytes (last (trace (op_steps p) t))) = unat (pt_completed_bytes t) + done_bytes [p]"
proof (cases p)
  case (SetOffset n)
  let ?u = "t\<lparr>pt_current_file_bytes := n\<rparr>"
  have "ascends t ?u" "ascends ?u (bump_peak ?u)" using ascends_offset assms(1) ascends_bump(1) by auto
  moreover have "tracker_inv (bump_peak ?u)"
    using assms(1) unfolding ascends_bump(2) by (simp add: tracker_inv_def)
  ultimately show ?thesis
    using SetOffset by (simp add: op_steps_def set_current_file_offset_steps_def bump_peak_def)
next
  case (FileDone n)
  let ?u = "t\<lparr>pt_current_file_bytes := 0\<rparr>"
  let ?v = "?u\<lparr>pt_completed_bytes := pt_completed_bytes t + n\<rparr>"
  let ?w = "?v\<lparr>pt_files_done := pt_files_done t + 1\<rparr>"
  have fits: "unat (pt_completed_bytes t) + unat n \<le> u64_max" using assms(2) FileDone by simp
  have "ascends t ?u" using ascends_offset assms(1) by simp
  moreover have "ascends ?u ?v" using ascends_add [of ?u n] fits by simp
  moreover have "ascends ?v ?w" by (simp add: ascends_def level_def raw_transferred_def)
  moreover have "ascends ?w (bump_peak ?w)" by (rule ascends_bump)
  moreover have "tracker_inv (bump_peak ?w)"
    using assms(1) unfolding ascends_bump(2) by (simp add: tracker_inv_def)
  ultimately show ?thesis
    using FileDone fits
    by (simp add: op_steps_def file_completed_steps_def bump_peak_def unat_add_u64)
qed

lemma trace_facts [simp]:
  "trace fs t \<noteq> []" "hd (trace fs t) = t" "last (trace fs t) = run_steps fs t"
proof -
  show ne: "trace fs t \<noteq> []" for fs t by (cases fs) auto
  show "hd (trace fs t) = t" by (cases fs) auto
  show "last (trace fs t) = run_steps fs t"
    using ne by (induction fs arbitrary: t) (auto simp: run_steps_def)
qed

lemma worker_trace_facts [simp]: "worker_trace ops t \<noteq> []" "hd (worker_trace ops t) = t"
  by (cases ops; simp)+

lemma worker_trace_ascends:
  "tracker_inv t \<Longrightarrow> unat (pt_completed_bytes t) + done_bytes ops \<le> u64_max \<Longrightarrow>
   successively ascends (worker_trace ops t) \<and> tracker_inv (last (worker_trace ops t)) \<and>
   unat (pt_completed_bytes (last (worker_trace ops t))) = unat (pt_completed_bytes t) + done_bytes ops"
proof (induction ops arbitrary: t)
  case Nil
  then show ?case by simp
next
  case (Cons p ops)
  let ?u = "run_steps (op_steps p) t"
  have split: "done_bytes (p # ops) = done_bytes [p] + done_bytes ops" by (cases p) auto
  have op: "successively ascends (trace (op_steps p) t)" "tracker_inv ?u"
    "unat (pt_completed_bytes ?u) = unat (pt_completed_bytes t) + done_bytes [p]"
    using op_trace_ascends [of t p] Cons.prems split by simp_all
  then have "successively ascends (worker_trace ops ?u) \<and> tracker_inv (last (worker_trace ops ?u)) \<and>
      unat (pt_completed_bytes (last (worker_trace ops ?u))) = unat (pt_completed_bytes ?u) + done_bytes ops"
    using Cons.IH Cons.prems split by simp
  with op split show ?case by (simp add: successively_append_iff)
qed

lemma worker_trace_ordered:
  assumes "tracker_inv t" "unat (pt_completed_bytes t) + done_bytes ops \<le> u64_max"
    and "i \<le> j" "j < length (worker_trace ops t)"
  shows "ascends (worker_trace ops t ! i) (worker_trace ops t ! j)"
proof -
  have "transp ascends" by (rule transpI) (rule ascends_trans)
  then have "sorted_wrt ascends (worker_trace ops t)"
    using worker_trace_ascends [OF assms(1,2)] successively_conv_sorted_wrt by blast
  with assms(3,4) show ?thesis
    by (cases "i = j") (simp_all add: sorted_wrt_nth_less)
qed

lemma worker_trace_bounded:
  assumes "tracker_inv t" "unat (pt_completed_bytes t) + done_bytes ops \<le> u64_max"
    and "j < length (worker_trace ops t)"
  shows "level (worker_trace ops t ! j) \<le> pt_total_bytes t"
proof -
  have "ascends t (worker_trace ops t ! j)"
    using worker_trace_ordered [OF assms(1,2), of 0 j] assms(3)
    by (metis hd_conv_nth le0 worker_trace_facts)
  then have "pt_peak_transferred (worker_trace ops t ! j) \<le> pt_total_bytes t"
    "pt_total_bytes (worker_trace ops t ! j) = pt_total_bytes t"
    using assms(1) by (auto simp: ascends_def tracker_inv_def)
  then show ?thesis by (simp add: level_def raw_transferred_def)
qed

text \<open>
  C35.  Reported progress is monotone and within the total.  Over any run of the
  worker, a snapshot taken in one go at any point between its atomic steps
  reports at least what an earlier one reported and never more than the total;
  and a snapshot whose loads are interleaved with the worker never reports more
  than had been reached when its last byte counter was loaded.
\<close>

theorem progress_monotone_and_bounded:
  assumes "tracker_inv t" "unat (pt_completed_bytes t) + done_bytes ops \<le> u64_max"
    and "i \<le> j" "j \<le> k" "k < length (worker_trace ops t)"
  shows "jp_transferred_bytes (snapshot (worker_trace ops t ! i)) \<le>
      jp_transferred_bytes (snapshot (worker_trace ops t ! j)) \<and>
    jp_transferred_bytes (snapshot (worker_trace ops t ! j)) \<le> pt_total_bytes t \<and>
    jp_transferred_bytes (snapshot_loads (worker_trace ops t ! i) (worker_trace ops t ! j)
      (worker_trace ops t ! k) td) \<le> jp_transferred_bytes (snapshot (worker_trace ops t ! k))"
proof -
  let ?s = "\<lambda>n. worker_trace ops t ! n"
  note ord = worker_trace_ordered [OF assms(1,2)]
  have ij: "ascends (?s i) (?s j)" and jk: "ascends (?s j) (?s k)" and ik: "ascends (?s i) (?s k)"
    using ord assms(3-5) by simp_all
  have "saturating_add (pt_completed_bytes (?s j)) (pt_current_file_bytes (?s k)) \<le>
      saturating_add (pt_completed_bytes (?s k)) (pt_current_file_bytes (?s k))"
    using jk by (intro saturating_add_mono) (simp_all add: ascends_def)
  then have "min (saturating_add (pt_completed_bytes (?s j)) (pt_current_file_bytes (?s k)))
      (pt_total_bytes (?s i)) \<le> raw_transferred (?s k)"
    unfolding raw_transferred_def using ik by (simp add: ascends_def min.mono min.coboundedI1)
  moreover have "pt_peak_transferred (?s i) \<le> pt_peak_transferred (?s k)" using ik by (simp add: ascends_def)
  ultimately have "jp_transferred_bytes (snapshot_loads (?s i) (?s j) (?s k) td) \<le> level (?s k)"
    unfolding snapshot_loads_def level_def JobProgress.simps by (rule max.mono [rotated])
  then show ?thesis
    using ij worker_trace_bounded [OF assms(1,2), of j] assms(4,5)
    by (simp add: snapshot_level) (simp add: ascends_def)
qed

theorem progress_monotone_and_bounded_witness:
  "jp_transferred_bytes (snapshot (worker_trace [SetOffset 3, FileDone 5] (JobProgressTracker_new 9 2) ! 1)) \<le>
   jp_transferred_bytes (snapshot (worker_trace [SetOffset 3, FileDone 5] (JobProgressTracker_new 9 2) ! 5))"
proof -
  let ?t = "JobProgressTracker_new 9 2"
  have inv: "tracker_inv ?t" by (simp add: tracker_inv_def raw_transferred_def JobProgressTracker_new_def)
  have fits: "unat (pt_completed_bytes ?t) + done_bytes [SetOffset 3, FileDone 5] \<le> u64_max"
    by (simp add: JobProgressTracker_new_def u64_max_def)
  have len: "5 < length (worker_trace [SetOffset 3, FileDone 5] ?t)"
    by (simp add: op_steps_def set_current_file_offset_steps_def file_completed_steps_def)
  from progress_monotone_and_bounded [OF inv fits, of 1 5 5 ?t] len show ?thesis by simp
qed

text \<open>
  C40.  The high-water mark does not make concurrent snapshots monotone.  A
  snapshot loads the mark before the counters: one reader sees three bytes of a
  file before the worker has raised the mark, and a later reader loads the old
  mark, lets the worker raise it and clear the offset, and reports zero.
\<close>

theorem racing_snapshots_can_regress:
  "\<exists>ops t i j k l m n. tracker_inv t \<and> i \<le> j \<and> j \<le> k \<and> k \<le> l \<and> l \<le> m \<and> m \<le> n \<and>
     n < length (worker_trace ops t) \<and>
     jp_transferred_bytes (snapshot_loads (worker_trace ops t ! l) (worker_trace ops t ! m)
       (worker_trace ops t ! n) t) <
     jp_transferred_bytes (snapshot_loads (worker_trace ops t ! i) (worker_trace ops t ! j)
       (worker_trace ops t ! k) t)"
proof -
  let ?t = "JobProgressTracker_new 9 2" and ?ops = "[SetOffset 3, FileDone 5]"
  let ?s = "\<lambda>n. worker_trace ?ops ?t ! n"
  have inv: "tracker_inv ?t" by (simp add: tracker_inv_def raw_transferred_def JobProgressTracker_new_def)
  have len: "4 < length (worker_trace ?ops ?t)"
    by (simp add: op_steps_def set_current_file_offset_steps_def file_completed_steps_def)
  have "jp_transferred_bytes (snapshot_loads (?s 1) (?s 1) (?s 1) ?t) = 3"
    "jp_transferred_bytes (snapshot_loads (?s 1) (?s 4) (?s 4) ?t) = 0"
    by (simp_all add: op_steps_def set_current_file_offset_steps_def file_completed_steps_def
        run_steps_def bump_peak_def snapshot_loads_def raw_transferred_def JobProgressTracker_new_def
        saturating_add_def u64_max_def)
  then show ?thesis
    using inv len by (intro exI [of _ ?ops] exI [of _ ?t] exI [of _ 1] exI [of _ 1] exI [of _ 1]
        exI [of _ 1] exI [of _ 4] exI [of _ 4]) simp
qed

section \<open>The baseline of a recovered job\<close>

definition total_size :: "ArtifactEvidence list \<Rightarrow> nat" where
  "total_size es = sum_list (map (\<lambda>e. unat (ae_expected_size e)) es)"

definition total_durable :: "ArtifactEvidence list \<Rightarrow> nat" where
  "total_durable es = sum_list (map (\<lambda>e. unat (durable_bytes e)) es)"

lemma total_durable_le: "total_durable es \<le> total_size es"
  unfolding total_durable_def total_size_def
  using durable_bytes_le by (intro sum_list_mono) (simp add: word_le_nat_alt)

lemma foldl_saturating_exact:
  "unat a + sum_list (map (\<lambda>e. unat (f e)) es) \<le> u64_max \<Longrightarrow>
   unat (foldl (\<lambda>acc e. saturating_add acc (f e)) a es) = unat a + sum_list (map (\<lambda>e. unat (f e)) es)"
proof (induction es arbitrary: a)
  case Nil
  then show ?case by simp
next
  case (Cons e es)
  then have "unat (saturating_add a (f e)) = unat a + unat (f e)" by (simp add: u64_simps)
  with Cons show ?case by simp
qed

lemma baseline_sum:
  "unat (db_completed_bytes b) + unat (db_partial_bytes b) + total_durable es \<le> u64_max \<Longrightarrow>
   unat (db_completed_bytes (foldl baseline_add b es)) + unat (db_partial_bytes (foldl baseline_add b es)) =
   unat (db_completed_bytes b) + unat (db_partial_bytes b) + total_durable es"
proof (induction es arbitrary: b)
  case Nil
  then show ?case by (simp add: total_durable_def)
next
  case (Cons e es)
  have split: "total_durable (e # es) = unat (durable_bytes e) + total_durable es"
    by (simp add: total_durable_def)
  have "unat (db_completed_bytes (baseline_add b e)) + unat (db_partial_bytes (baseline_add b e)) =
      unat (db_completed_bytes b) + unat (db_partial_bytes b) + unat (durable_bytes e)"
    using Cons.prems split
    by (cases "ae_status e") (simp_all add: baseline_add_def durable_bytes_def u64_simps)
  with Cons.IH [of "baseline_add b e"] Cons.prems split show ?case by simp
qed

text \<open>
  A recovered job starts its progress at exactly the bytes the inspector
  vouches for.  For files whose sizes add up within 64 bits, the tracker built
  from their evidence satisfies the tracker invariant, its first snapshot
  reports the sum of the durable bytes of all files out of the sum of their
  sizes, and the unchecked addition of its constructor does not wrap.
\<close>

theorem recovered_tracker_baseline:
  assumes "total_size es \<le> u64_max"
  shows "tracker_inv (from_evidence_source es) \<and>
    unat (jp_transferred_bytes (snapshot (from_evidence_source es))) = total_durable es \<and>
    unat (jp_total_bytes (snapshot (from_evidence_source es))) = total_size es"
proof -
  let ?b = "from_evidence es" and ?t = "from_evidence_source es"
  have sum: "unat (db_completed_bytes ?b) + unat (db_partial_bytes ?b) = total_durable es"
    using baseline_sum [of baseline_default es] total_durable_le [of es] assms
    by (simp add: from_evidence_def baseline_default_def)
  then have add: "unat (db_completed_bytes ?b + db_partial_bytes ?b) = total_durable es"
    using total_durable_le [of es] assms by (subst unat_add_u64) simp_all
  have tot: "unat (pt_total_bytes ?t) = total_size es"
    using foldl_saturating_exact [of 0 ae_expected_size es] assms
    by (simp add: from_evidence_source_def with_baseline_def JobProgressTracker_new_def total_size_def)
  have peak: "pt_peak_transferred ?t = db_completed_bytes ?b + db_partial_bytes ?b"
    using add tot total_durable_le [of es]
    by (simp add: from_evidence_source_def with_baseline_def JobProgressTracker_new_def min_def
        word_le_nat_alt)
  have raw: "raw_transferred ?t \<le> pt_peak_transferred ?t"
  proof -
    have "raw_transferred ?t \<le> db_completed_bytes ?b"
      by (simp add: raw_transferred_def from_evidence_source_def with_baseline_def
          JobProgressTracker_new_def)
    also have "\<dots> \<le> db_completed_bytes ?b + db_partial_bytes ?b"
      using sum add by (simp add: word_le_nat_alt)
    finally show ?thesis by (simp add: peak)
  qed
  then have "level ?t = pt_peak_transferred ?t" by (simp add: level_def max_def)
  then show ?thesis
    using raw peak add tot total_durable_le [of es]
    by (simp add: tracker_inv_def snapshot_level word_le_nat_alt)
      (simp add: snapshot_def snapshot_loads_def)
qed

theorem recovered_tracker_baseline_witness:
  "unat (jp_transferred_bytes (snapshot (from_evidence_source
     [\<lparr>ae_file_id = ''a'', ae_expected_size = 7, ae_target = None, ae_status = Verified\<rparr>,
      \<lparr>ae_file_id = ''b'', ae_expected_size = 9, ae_target = None, ae_status = Partial 4\<rparr>]))) = 11"
proof -
  let ?es = "[\<lparr>ae_file_id = ''a'', ae_expected_size = 7, ae_target = None, ae_status = Verified\<rparr>,
      \<lparr>ae_file_id = ''b'', ae_expected_size = 9, ae_target = None, ae_status = Partial 4\<rparr>]"
  have "total_size ?es \<le> u64_max" by (simp add: total_size_def u64_max_def)
  from recovered_tracker_baseline [OF this] have
    "unat (jp_transferred_bytes (snapshot (from_evidence_source ?es))) = total_durable ?es" by simp
  also have "total_durable ?es = 11"
    by (simp add: total_durable_def durable_bytes_def)
  finally show ?thesis .
qed

end
