(* ===== verification/Download_Range.thy ===== *)
theory Download_Range
  imports Download_Path
begin

text \<open>
  Interpretation of range responses (\<open>library/download.rs\<close>, part 4): the strict
  \<open>Content-Range\<close> parser and the meaning of each HTTP status for the download.
\<close>

record RequestedRange =
  rq_start :: u64
  rq_if_match_etag :: "string option"

datatype RangeOutcome =
    RangePartial u64 u64 u64
  | FullFromZero "u64 option"
  | NotSatisfiable "u64 option"
  | PreconditionFailed

text \<open>Optional results against the one error a malformed header has.\<close>

definition ok_or :: "'e \<Rightarrow> 'a option \<Rightarrow> 'e + 'a" where
  "ok_or e r = (case r of None \<Rightarrow> Inl e | Some x \<Rightarrow> Inr x)"

lemma ok_or_Inr [simp]: "ok_or e r = Inr x \<longleftrightarrow> r = Some x"
  by (simp add: ok_or_def split: option.splits)

lemma ok_or_Some [simp]: "ok_or e (Some x) = Inr x"
  by (simp add: ok_or_def)

definition parse_content_range_header :: "string \<Rightarrow> DownloadError + (u64 \<times> u64 \<times> u64)" where
  "parse_content_range_header header =
    (let malformed = MalformedContentRange header in
     result_bind (ok_or malformed (strip_prefix ''bytes '' header)) (\<lambda>rest.
     result_bind (ok_or malformed (split_once CHR ''/'' rest)) (\<lambda>(range_part, total_part).
       if total_part = ''*'' then Inl malformed
       else
         result_bind (ok_or malformed (parse_u64 total_part)) (\<lambda>total.
         result_bind (ok_or malformed (split_once CHR ''-'' range_part)) (\<lambda>(start_s, end_s).
         result_bind (ok_or malformed (parse_u64 start_s)) (\<lambda>start.
         result_bind (ok_or malformed (parse_u64 end_s)) (\<lambda>end_incl.
           if end_incl < start \<or> total \<le> end_incl then Inl malformed
           else Inr (start, end_incl, total))))))))"

definition parse_unsatisfiable_total :: "string \<Rightarrow> u64 option" where
  "parse_unsatisfiable_total header = Option.bind (strip_prefix ''bytes */'' header) parse_u64"

definition interpret_range_response ::
    "u16 \<Rightarrow> string option \<Rightarrow> u64 option \<Rightarrow> u64 \<Rightarrow> DownloadError + RangeOutcome" where
  "interpret_range_response status content_range content_length requested_start =
    (if status = 206 then
       result_bind (ok_or (MalformedContentRange ''206 response is missing a Content-Range header'')
                     content_range) (\<lambda>header.
       result_bind (parse_content_range_header header) (\<lambda>(start, end_incl, total).
         if start \<noteq> requested_start then Inl (RangeMismatch requested_start start)
         else Inr (RangePartial start end_incl total)))
     else if status = 200 then Inr (FullFromZero content_length)
     else if status = 416 then
       Inr (NotSatisfiable (Option.bind content_range parse_unsatisfiable_total))
     else if status = 412 then Inr PreconditionFailed
     else Inl (UnexpectedStatus status))"

section \<open>Properties\<close>

text \<open>The header an honest server sends for a range.\<close>

definition content_range_header :: "u64 \<Rightarrow> u64 \<Rightarrow> u64 \<Rightarrow> string" where
  "content_range_header s e t =
    ''bytes '' @ decimal (unat s) @ CHR ''-'' # decimal (unat e) @ CHR ''/'' # decimal (unat t)"

lemma decimal_no_separator:
  "CHR ''-'' \<notin> set (decimal n)" "CHR ''/'' \<notin> set (decimal n)" "CHR ''*'' \<notin> set (decimal n)"
  by (rule decimal_no_char, simp)+

lemma decimal_not_star: "decimal n \<noteq> ''*''"
  using decimal_no_separator(3) [of n] by auto

lemma parse_decimal_u64: "parse_u64 (decimal (unat w)) = Some w"
  by (simp add: parse_u64_decimal [OF unat_u64_bound])

lemma parse_content_range_Inr:
  "parse_content_range_header header = Inr (s, e, t) \<Longrightarrow> s \<le> e \<and> e < t"
  by (auto simp: parse_content_range_header_def Let_def result_bind_Inr_iff not_less not_le
      split: if_splits)

lemma content_range_parse:
  "parse_content_range_header (content_range_header s e t) =
     (if s \<le> e \<and> e < t then Inr (s, e, t)
      else Inl (MalformedContentRange (content_range_header s e t)))"
proof -
  let ?range = "decimal (unat s) @ CHR ''-'' # decimal (unat e)"
  have slash: "split_once CHR ''/'' (?range @ CHR ''/'' # decimal (unat t)) = Some (?range, decimal (unat t))"
    using decimal_no_separator(2) by (intro split_once_append) simp
  have dash: "split_once CHR ''-'' ?range = Some (decimal (unat s), decimal (unat e))"
    using decimal_no_separator(1) by (intro split_once_append)
  have pre: "strip_prefix ''bytes '' (content_range_header s e t) =
      Some (?range @ CHR ''/'' # decimal (unat t))"
    unfolding content_range_header_def by (subst strip_prefix_append) simp
  show ?thesis
    unfolding parse_content_range_header_def Let_def pre ok_or_Some result_bind.simps slash prod.case
    by (auto simp: decimal_not_star parse_decimal_u64 dash not_less not_le)
qed

text \<open>
  The \<open>Content-Range\<close> parser and the header a server renders are inverse, on
  exactly the ranges that make sense: the header of a range is accepted if and
  only if it is not empty and lies inside the total, and then parses to that
  range.
\<close>

theorem content_range_roundtrip:
  "parse_content_range_header (content_range_header s e t) =
     (if s \<le> e \<and> e < t then Inr (s, e, t)
      else Inl (MalformedContentRange (content_range_header s e t)))"
  by (rule content_range_parse)

lemma interpret_partial:
  "interpret_range_response st cr cl rs = Inr (RangePartial s e t) \<Longrightarrow>
   st = 206 \<and> s = rs \<and> s \<le> e \<and> e < t"
  by (auto simp: interpret_range_response_def result_bind_Inr_iff
      dest: parse_content_range_Inr split: if_splits prod.splits)

text \<open>
  C36.  Only a 206 whose header names exactly the requested start is appended to a
  partial file, and then its declared length \<open>end - start + 1\<close> and the offset it
  ends at are computed without wrap-around.
\<close>

theorem range_response_sound:
  assumes "interpret_range_response status cr cl requested = Inr (RangePartial s e t)"
  shows "status = 206 \<and> s = requested \<and> s \<le> e \<and> e < t \<and>
    unat (e - s + 1) = unat e - unat s + 1 \<and> unat (s + (e - s + 1)) = unat e + 1"
proof -
  note p = interpret_partial [OF assms]
  have lt: "unat e < unat t" "unat s \<le> unat e"
    using p by (auto simp: word_less_nat_alt word_le_nat_alt)
  have bound: "unat e < u64_max" using lt unat_u64_bound [of t] by simp
  have sub: "unat (e - s) = unat e - unat s" using p by (auto simp: unat_sub)
  then have one: "unat (e - s + 1) = unat e - unat s + 1"
    using bound by (simp add: unat_add_u64)
  have "s + (e - s + 1) = e + 1" by simp
  then have "unat (s + (e - s + 1)) = unat e + 1" using bound by (simp add: unat_add_u64)
  with p one show ?thesis by auto
qed

theorem range_response_sound_witness:
  "interpret_range_response 206 (Some (content_range_header 5 8 9)) None 5 =
     Inr (RangePartial 5 8 9) \<and> unat (8 - 5 + 1 :: u64) = 4"
proof -
  have i: "interpret_range_response 206 (Some (content_range_header 5 8 9)) None 5 =
      Inr (RangePartial 5 8 9)"
    by (simp add: interpret_range_response_def content_range_parse)
  from range_response_sound [OF i] i show ?thesis by simp
qed

end
