(* ===== verification/Download_Engine.thy ===== *)
theory Download_Engine
  imports Artifact Download_Range
begin

text \<open>
  Downloading one file end to end (\<open>library/download.rs\<close>, part 6): writing a
  response body with checkpoints, the bounded restart loop over range
  responses, verification of size and digest, and the atomic commit.
\<close>

section \<open>Sources\<close>

text \<open>
  A response body is the sequence of what its reads return; an empty chunk or
  the end of the list is the end of the stream.  A source is asked at most once
  per attempt, so its behaviour is indexed by the attempt.
\<close>

datatype body_read = Chunk bytes | ReadError string

record SourceResponse =
  sr_status :: u16
  sr_etag :: "string option"
  sr_content_range :: "string option"
  sr_content_length :: "u64 option"
  sr_body :: "body_read list"

type_synonym DownloadSource = "nat \<Rightarrow> RequestedRange \<Rightarrow> DownloadError + SourceResponse"

definition JOURNAL_CHECKPOINT_INTERVAL :: u64 where
  "JOURNAL_CHECKPOINT_INTERVAL = 262144"

definition MAX_ETAG_RESTART_ATTEMPTS :: nat where
  "MAX_ETAG_RESTART_ATTEMPTS = 3"

record VerifiedFile =
  vf_device_id :: string
  vf_session_id :: string
  vf_file_id :: string
  vf_path :: path
  vf_size_bytes :: u64
  vf_sha256_hex :: string
  vf_etag :: "string option"

definition validate_plan :: "FilePlan \<Rightarrow> DownloadError + unit" where
  "validate_plan plan =
    (let hex = fp_expected_sha256_hex plan in
     if length hex \<noteq> 64 \<or> \<not> list_all is_ascii_hexdigit hex then Inl (InvalidPlan hex) else Inr ())"

definition expected_etag_for_resume :: "u64 \<Rightarrow> DownloadJournal option \<Rightarrow> string option" where
  "expected_etag_for_resume resume_offset journal =
    (if resume_offset = 0 then None else Option.bind journal dj_etag)"

section \<open>Writing a response body\<close>

definition plan_journal :: "FilePlan \<Rightarrow> u64 \<Rightarrow> string option \<Rightarrow> DownloadJournal" where
  "plan_journal plan offset etag =
    \<lparr>dj_confirmed_offset = offset, dj_expected_size = fp_expected_size plan,
     dj_expected_sha256_hex = fp_expected_sha256_hex plan, dj_etag = etag\<rparr>"

definition over_limit :: "u64 option \<Rightarrow> u64 \<Rightarrow> bool" where
  "over_limit expected_len written = (case expected_len of None \<Rightarrow> False | Some limit \<Rightarrow> limit < written)"

text \<open>
  The read-and-write loop: \<open>f\<close> is the open handle, \<open>pos\<close> its position, \<open>written\<close>
  and \<open>since\<close> the two counters.
\<close>

fun write_loop ::
    "Host \<Rightarrow> FilePlan \<Rightarrow> path \<Rightarrow> path \<Rightarrow> path \<Rightarrow> u64 \<Rightarrow> u64 option \<Rightarrow> string option \<Rightarrow>
     nat \<Rightarrow> u64 \<Rightarrow> u64 \<Rightarrow> body_read list \<Rightarrow> u64 dl" where
  "write_loop h plan part jpath f start expected_len etag pos written since [] = dl_return written"
| "write_loop h plan part jpath f start expected_len etag pos written since (r # rs) =
     (case r of
        ReadError e \<Rightarrow> dl_fail (SourceIo e)
      | Chunk b \<Rightarrow>
          if b = [] then dl_return written
          else
            dl_bind (dl_io part (write_all_at f pos b)) (\<lambda>_.
              let pos' = pos + length b; written' = written + of_nat (length b);
                  since' = since + of_nat (length b) in
              if over_limit expected_len written' then dl_fail UnexpectedExtraBytes
              else if JOURNAL_CHECKPOINT_INTERVAL \<le> since' then
                dl_bind (dl_io part (sync_all f)) (\<lambda>_.
                dl_bind (journal_advance h jpath part (plan_journal plan (start + written') etag)) (\<lambda>_.
                  write_loop h plan part jpath f start expected_len etag pos' written' 0 rs))
              else write_loop h plan part jpath f start expected_len etag pos' written' since' rs))"

definition seek_start :: "path \<Rightarrow> unit io" where
  "seek_start f = guarded (\<lambda>d. (Inr (), d))"

definition write_response_body ::
    "Host \<Rightarrow> FilePlan \<Rightarrow> path \<Rightarrow> path \<Rightarrow> u64 \<Rightarrow> body_read list \<Rightarrow> u64 option \<Rightarrow> string option \<Rightarrow> u64 dl" where
  "write_response_body h plan part jpath start body expected_len etag =
    dl_bind (dl_io part (open_write True (start = 0) part)) (\<lambda>f.
    dl_bind (if 0 < start then dl_io part (seek_start f) else dl_return ()) (\<lambda>_.
    dl_bind (write_loop h plan part jpath f start expected_len etag (unat start) 0 0 body) (\<lambda>written.
      if (case expected_len of None \<Rightarrow> False | Some limit \<Rightarrow> written \<noteq> limit) then
        dl_fail (ShortBody (the expected_len) written)
      else dl_bind (dl_io part (sync_all f)) (\<lambda>_. dl_return written))))"

section \<open>One attempt\<close>

text \<open>An attempt either restarts from nothing or finishes with the final ETag.\<close>

datatype attempt = Restart | Finished "string option"

definition restart_clean :: "path \<Rightarrow> path \<Rightarrow> attempt dl" where
  "restart_clean part jpath = dl_bind (discard_partial part jpath) (\<lambda>_. dl_return Restart)"

definition on_not_satisfiable ::
    "FilePlan \<Rightarrow> path \<Rightarrow> path \<Rightarrow> DownloadJournal option \<Rightarrow> u64 \<Rightarrow> attempt dl" where
  "on_not_satisfiable plan part jpath journal_opt resume_offset =
    (if resume_offset = 0 then dl_fail RangeNotSatisfiable
     else
       dl_bind (len_or_zero part) (\<lambda>actual_len.
         if actual_len \<noteq> fp_expected_size plan then
           dl_bind (discard_partial part jpath) (\<lambda>_. dl_fail RangeNotSatisfiable)
         else dl_return (Finished (Option.bind journal_opt dj_etag))))"

definition on_full ::
    "Host \<Rightarrow> FilePlan \<Rightarrow> path \<Rightarrow> path \<Rightarrow> SourceResponse \<Rightarrow> u64 option \<Rightarrow> attempt dl" where
  "on_full h plan part jpath response total_len =
    dl_bind (discard_partial part jpath) (\<lambda>_.
    dl_bind (write_response_body h plan part jpath 0 (sr_body response) total_len (sr_etag response)) (\<lambda>written.
    dl_bind (journal_advance h jpath part (plan_journal plan written (sr_etag response))) (\<lambda>_.
      dl_return (Finished (sr_etag response)))))"

definition etag_changed :: "u64 \<Rightarrow> DownloadJournal option \<Rightarrow> SourceResponse \<Rightarrow> bool" where
  "etag_changed resume_offset journal_opt response =
    (case expected_etag_for_resume resume_offset journal_opt of
       None \<Rightarrow> False
     | Some prev_etag \<Rightarrow> sr_etag response \<noteq> Some prev_etag)"

definition on_partial ::
    "Host \<Rightarrow> FilePlan \<Rightarrow> path \<Rightarrow> path \<Rightarrow> DownloadJournal option \<Rightarrow> u64 \<Rightarrow> SourceResponse \<Rightarrow>
     u64 \<Rightarrow> u64 \<Rightarrow> attempt dl" where
  "on_partial h plan part jpath journal_opt resume_offset response start end_inclusive =
    (if etag_changed resume_offset journal_opt response then restart_clean part jpath
     else
       dl_bind (write_response_body h plan part jpath start (sr_body response)
                 (Some (end_inclusive - start + 1)) (sr_etag response)) (\<lambda>written.
       dl_bind (journal_advance h jpath part
                 (plan_journal plan (start + written) (sr_etag response))) (\<lambda>_.
         dl_return (Finished (sr_etag response)))))"

definition run_attempt ::
    "Host \<Rightarrow> FilePlan \<Rightarrow> path \<Rightarrow> path \<Rightarrow> (RequestedRange \<Rightarrow> DownloadError + SourceResponse) \<Rightarrow>
     DownloadJournal option \<Rightarrow> u64 \<Rightarrow> attempt dl" where
  "run_attempt h plan part jpath fetch_range journal_opt resume_offset =
    dl_bind (dl_lift (fetch_range
      \<lparr>rq_start = resume_offset,
       rq_if_match_etag = expected_etag_for_resume resume_offset journal_opt\<rparr>)) (\<lambda>response.
    dl_bind (dl_lift (interpret_range_response (sr_status response) (sr_content_range response)
      (sr_content_length response) resume_offset)) (\<lambda>outcome.
      case outcome of
        PreconditionFailed \<Rightarrow> restart_clean part jpath
      | NotSatisfiable _ \<Rightarrow> on_not_satisfiable plan part jpath journal_opt resume_offset
      | FullFromZero total_len \<Rightarrow> on_full h plan part jpath response total_len
      | RangePartial start end_inclusive _ \<Rightarrow>
          on_partial h plan part jpath journal_opt resume_offset response start end_inclusive))"

text \<open>The loop, with the attempts that are left; a restart forgets journal and offset.\<close>

fun attempt_loop ::
    "Host \<Rightarrow> FilePlan \<Rightarrow> path \<Rightarrow> path \<Rightarrow> DownloadSource \<Rightarrow> nat \<Rightarrow>
     DownloadJournal option \<Rightarrow> u64 \<Rightarrow> string option dl" where
  "attempt_loop h plan part jpath source 0 journal_opt resume_offset = dl_fail TooManyRestarts"
| "attempt_loop h plan part jpath source (Suc left) journal_opt resume_offset =
     dl_bind (run_attempt h plan part jpath (source (MAX_ETAG_RESTART_ATTEMPTS - Suc left))
               journal_opt resume_offset) (\<lambda>a.
       case a of
         Restart \<Rightarrow> attempt_loop h plan part jpath source left None 0
       | Finished etag \<Rightarrow> dl_return etag)"

section \<open>Verification and commit\<close>

definition verify_part :: "Host \<Rightarrow> FilePlan \<Rightarrow> path \<Rightarrow> path \<Rightarrow> (u64 \<times> string) dl" where
  "verify_part h plan part jpath =
    dl_bind (dl_io part (metadata part)) (\<lambda>meta.
      if node_len meta \<noteq> fp_expected_size plan then
        dl_bind (discard_partial part jpath) (\<lambda>_.
          dl_fail (SizeMismatch (fp_expected_size plan) (node_len meta)))
      else
        dl_bind (sha256_of_file h part) (\<lambda>actual_hash.
          let expected_hash = ascii_lowercase (fp_expected_sha256_hex plan) in
          if actual_hash \<noteq> expected_hash then
            dl_bind (discard_partial part jpath) (\<lambda>_.
              dl_fail (HashMismatch expected_hash actual_hash))
          else dl_return (node_len meta, actual_hash)))"

definition commit_part :: "path \<Rightarrow> path \<Rightarrow> path \<Rightarrow> path \<Rightarrow> unit dl" where
  "commit_part part jpath target parent =
    dl_bind (dl_io part (open_write False False part)) (\<lambda>f.
    dl_bind (dl_io part (sync_all f)) (\<lambda>_.
    dl_bind (dl_io target (rename part target)) (\<lambda>_.
    dl_bind (fsync_dir parent) (\<lambda>_.
      dl_ignore (dl_io jpath (remove_file jpath))))))"

definition verified_file ::
    "FilePlan \<Rightarrow> path \<Rightarrow> u64 \<Rightarrow> string \<Rightarrow> string option \<Rightarrow> VerifiedFile" where
  "verified_file plan target sz hex etag =
    \<lparr>vf_device_id = fp_device_id plan, vf_session_id = fp_session_id plan,
     vf_file_id = fp_file_id plan, vf_path = target, vf_size_bytes = sz,
     vf_sha256_hex = hex, vf_etag = etag\<rparr>"

definition fetch_and_commit ::
    "Host \<Rightarrow> DownloadSource \<Rightarrow> FilePlan \<Rightarrow> path \<Rightarrow> path \<Rightarrow> VerifiedFile dl" where
  "fetch_and_commit h source plan target parent =
    dl_bind (recover_partial h (part_path target) (journal_path target)) (\<lambda>(journal_opt, resume_offset).
    dl_bind (attempt_loop h plan (part_path target) (journal_path target) source
              MAX_ETAG_RESTART_ATTEMPTS journal_opt resume_offset) (\<lambda>final_etag.
    dl_bind (verify_part h plan (part_path target) (journal_path target)) (\<lambda>(len, actual_hash).
    dl_bind (commit_part (part_path target) (journal_path target) target parent) (\<lambda>_.
      dl_return (verified_file plan target len actual_hash final_etag)))))"

text \<open>What the inspector's verdict makes of an existing target.\<close>

definition settle_target :: "FilePlan \<Rightarrow> path \<Rightarrow> ArtifactStatus \<Rightarrow> VerifiedFile option dl" where
  "settle_target plan target status =
    (case status of
       Verified \<Rightarrow>
         dl_bind (dl_ignore (discard_partial (part_path target) (journal_path target))) (\<lambda>_.
           dl_return (Some (verified_file plan target (fp_expected_size plan)
             (ascii_lowercase (fp_expected_sha256_hex plan)) None)))
     | Invalid _ \<Rightarrow>
         dl_bind (reject_symlink target) (\<lambda>_.
         dl_bind (remove_if_present target) (\<lambda>_. dl_return None))
     | Missing \<Rightarrow> dl_return None
     | Partial _ \<Rightarrow> dl_return None)"

definition dl_judge :: "Host \<Rightarrow> path \<Rightarrow> FilePlan \<Rightarrow> ArtifactStatus dl" where
  "dl_judge h library_root plan d =
    (case inspect h \<lparr>ai_library_root = library_root, ai_device_id = fp_device_id plan,
                     ai_session_id = fp_session_id plan\<rparr> (expected_from_plan plan) d of
       (e, d') \<Rightarrow> (Inr (ae_status e), d'))"

text \<open>The part of \<open>download_file\<close> after the path checks.\<close>

definition download_at ::
    "Host \<Rightarrow> DownloadSource \<Rightarrow> FilePlan \<Rightarrow> path \<Rightarrow> path \<Rightarrow> path \<Rightarrow> VerifiedFile dl" where
  "download_at h source plan library_root target parent =
    dl_bind (dl_judge h library_root plan) (\<lambda>status.
    dl_bind (settle_target plan target status) (\<lambda>settled.
      case settled of
        Some verified \<Rightarrow> dl_return verified
      | None \<Rightarrow> fetch_and_commit h source plan target parent))"

definition part_name :: "path \<Rightarrow> string option" where
  "part_name p = (if p = [] then None else case last p of Normal n \<Rightarrow> Some n | _ \<Rightarrow> None)"

definition download_file ::
    "Host \<Rightarrow> DownloadSource \<Rightarrow> FilePlan \<Rightarrow> path \<Rightarrow> VerifiedFile dl" where
  "download_file h source plan library_root =
    dl_bind (dl_lift (validate_plan plan)) (\<lambda>_.
    dl_bind (dl_lift (map_sum PathSafety (\<lambda>p. p)
      (derive_target_path_for_file library_root (fp_device_id plan) (fp_session_id plan)
        (fp_file_id plan) (fp_target_relative_path plan)))) (\<lambda>target.
      case path_parent target of
        None \<Rightarrow> dl_fail (PathSafety EscapesRoot)
      | Some parent \<Rightarrow>
          dl_bind (prepare_target_parent (host_lower h) library_root target) (\<lambda>_.
          dl_bind (case part_name (part_path target) of
                     None \<Rightarrow> dl_return ()
                   | Some name \<Rightarrow> check_case_insensitive_collision (host_lower h) parent name) (\<lambda>_.
          dl_bind (reject_symlink (part_path target)) (\<lambda>_.
            download_at h source plan library_root target parent)))))"

section \<open>Nothing but the partial state is touched\<close>

text \<open>
  Until the commit, every step leaves everything outside the scope of the
  download alone, in particular the target, and makes no symbolic link of the
  partial file.
\<close>

lemma side_in_scope:
  "part_path t \<in> engine_scope t" "journal_path t \<in> engine_scope t" "journal_tmp t \<in> engine_scope t"
  "part_path t \<in> side_files t"
  by (simp_all add: engine_scope_def side_files_def)

lemma touches_discard_partial:
  "touches (side_files t) (engine_scope t) (discard_partial (part_path t) (journal_path t))"
  unfolding discard_partial_def by (intro touchesI side_in_scope)

lemma touches_journal_advance:
  assumes "t = base @ [Normal n]"
  shows "touches (side_files t) (engine_scope t) (journal_advance h (journal_path t) (part_path t) j)"
proof -
  have "touches (side_files t) (engine_scope t) (journal_write h (journal_path t) j)"
    using touches_mono [OF touches_journal_write [of base n h j]] assms by (auto simp: side_files_def)
  then show ?thesis
    unfolding journal_advance_def
    by (intro touchesI) (auto intro: touchesI split: option.splits sum.splits)
qed

lemma touches_write_loop:
  assumes "t = base @ [Normal n]"
  shows "touches (side_files t) (engine_scope t)
    (write_loop h plan (part_path t) (journal_path t) (part_path t) start el etag pos w s rs)"
proof (induction rs arbitrary: pos w s)
  case Nil
  then show ?case by (simp add: touches_dl)
next
  case (Cons r rs)
  then show ?case
    by (auto simp: Let_def split: body_read.splits
        intro!: touchesI side_in_scope touches_journal_advance [OF assms])
qed

lemma touches_seek [touchesI]: "touches N S (seek_start p)"
  unfolding seek_start_def by (rule touches_guarded) (simp add: touches_def)

lemma touches_write_response_body:
  assumes "t = base @ [Normal n]"
  shows "touches (side_files t) (engine_scope t)
    (write_response_body h plan (part_path t) (journal_path t) start body el etag)"
  unfolding write_response_body_def
  by (rule touches_opened) (auto intro!: touchesI side_in_scope touches_write_loop [OF assms])

lemma touches_recover_resume_offset:
  "touches (side_files t) (engine_scope t) (recover_resume_offset (part_path t) jo)"
proof -
  have "touches (side_files t) (engine_scope t) (truncate_part (part_path t) k)" for k
    unfolding truncate_part_def
    by (rule touches_opened) (auto intro!: touchesI side_in_scope)
  then show ?thesis
    unfolding recover_resume_offset_def Let_def by (intro touchesI)
qed

lemma touches_recover_partial:
  assumes "t = base @ [Normal n]"
  shows "touches (side_files t) (engine_scope t) (recover_partial h (part_path t) (journal_path t))"
proof -
  have w: "touches (side_files t) (engine_scope t) (journal_write h (journal_path t) j)" for j
    using touches_mono [OF touches_journal_write [of base n h j]] assms by (auto simp: side_files_def)
  show ?thesis
    unfolding recover_partial_def journal_reset_to_def Let_def
    by (intro touchesI touches_recover_resume_offset)
      (auto intro!: touchesI w split: option.splits)
qed

lemma touches_run_attempt:
  assumes "t = base @ [Normal n]"
  shows "touches (side_files t) (engine_scope t)
    (run_attempt h plan (part_path t) (journal_path t) fetch jo off)"
  unfolding run_attempt_def restart_clean_def on_not_satisfiable_def on_full_def on_partial_def
  by (intro touchesI)
    (auto intro!: touchesI touches_discard_partial touches_write_response_body [OF assms]
      touches_journal_advance [OF assms] split: RangeOutcome.splits)

lemma touches_attempt_loop:
  assumes "t = base @ [Normal n]"
  shows "touches (side_files t) (engine_scope t)
    (attempt_loop h plan (part_path t) (journal_path t) source k jo off)"
proof (induction k arbitrary: jo off)
  case 0
  then show ?case by (simp add: touches_dl)
next
  case (Suc k)
  then show ?case
    by (auto intro!: touches_dl_bind touches_run_attempt [OF assms] touches_dl split: attempt.splits)
qed

lemma touches_verify_part:
  "touches (side_files t) (engine_scope t) (verify_part h plan (part_path t) (journal_path t))"
  unfolding verify_part_def sha256_of_file_def Let_def
  by (intro touchesI touches_discard_partial)

section \<open>Verification\<close>

lemma sha256_of_file_exact:
  assumes "no_symlink d p" "sha256_of_file h p d = (Inr x, d')"
  shows "\<exists>b. lookup d p = Some (NFile b) \<and> x = sha256_hex h b \<and> dk_nodes d' = dk_nodes d"
  using assms(2) resolve_link_plain [of "io_tick d" p] assms(1)
  by (auto simp: sha256_of_file_def dl_bind_Inr dl_io_Inr dl_return_def read_file_def
      dest!: guarded_Inr split: option.splits node.splits)

lemma metadata_exact:
  assumes "no_symlink d p" "metadata p d = (Inr m, d')"
  shows "lookup d p = Some m \<and> d' = io_tick d"
  using assms(2) resolve_link_plain [of "io_tick d" p] assms(1)
  by (auto simp: metadata_def dest!: guarded_Inr split: option.splits)

lemma verify_part_ok:
  assumes "no_symlink d part" "verify_part h plan part jpath d = (Inr (len, hex), d')"
  shows "\<exists>b. lookup d part = Some (NFile b) \<and> content_matches h (expected_from_plan plan) b \<and>
    len = fp_expected_size plan \<and> hex = ascii_lowercase (fp_expected_sha256_hex plan) \<and>
    dk_nodes d' = dk_nodes d"
proof -
  from assms(2) obtain m d1 where md: "metadata part d = (Inr m, d1)"
    and rest: "(if node_len m \<noteq> fp_expected_size plan then
        dl_bind (discard_partial part jpath) (\<lambda>_.
          dl_fail (SizeMismatch (fp_expected_size plan) (node_len m)))
      else
        dl_bind (sha256_of_file h part) (\<lambda>actual_hash.
          let expected_hash = ascii_lowercase (fp_expected_sha256_hex plan) in
          if actual_hash \<noteq> expected_hash then
            dl_bind (discard_partial part jpath) (\<lambda>_.
              dl_fail (HashMismatch expected_hash actual_hash))
          else dl_return (node_len m, actual_hash))) d1 = (Inr (len, hex), d')"
    unfolding verify_part_def dl_bind_Inr dl_io_Inr by blast
  from rest have len: "node_len m = fp_expected_size plan"
    by (cases "node_len m = fp_expected_size plan") (auto simp: dl_bind_Inr dl_fail_def)
  with rest obtain x d2 where sha: "sha256_of_file h part d1 = (Inr x, d2)"
    and rest2: "(if x \<noteq> ascii_lowercase (fp_expected_sha256_hex plan) then
            dl_bind (discard_partial part jpath) (\<lambda>_.
              dl_fail (HashMismatch (ascii_lowercase (fp_expected_sha256_hex plan)) x))
          else dl_return (node_len m, x)) d2 = (Inr (len, hex), d')"
    by (auto simp: dl_bind_Inr Let_def)
  from rest2 have hex: "x = ascii_lowercase (fp_expected_sha256_hex plan)"
    by (cases "x = ascii_lowercase (fp_expected_sha256_hex plan)") (auto simp: dl_bind_Inr dl_fail_def)
  with rest2 have fin: "len = node_len m" "hex = x" "d' = d2" by (auto simp: dl_return_def)
  note m = metadata_exact [OF assms(1) md]
  then have "no_symlink d1 part" using assms(1) by simp
  from sha256_of_file_exact [OF this sha] obtain b where
    b: "lookup d1 part = Some (NFile b)" "x = sha256_hex h b" "dk_nodes d2 = dk_nodes d1" by blast
  with m have "m = NFile b" by simp
  with b m len hex fin show ?thesis
    by (auto simp: content_matches_def expected_from_plan_def node_len_def)
qed

lemma ignore_remove_other:
  "p \<noteq> q \<Longrightarrow> lookup (snd (dl_ignore (dl_io q (remove_file q)) d)) p = lookup d p"
  using touchesD(1) [of "{}" "{q}" "dl_ignore (dl_io q (remove_file q))" d p]
  by (auto intro!: touchesI)

lemma commit_part_result:
  assumes "lookup d part = Some (NFile b)" "part \<noteq> target" "jpath \<noteq> target"
  shows "lookup (snd (commit_part part jpath target parent d)) target = lookup d target \<or>
      lookup (snd (commit_part part jpath target parent d)) target = Some (NFile b)"
    and "commit_part part jpath target parent d = (Inr u, d') \<Longrightarrow> lookup d' target = Some (NFile b)"
proof -
  have ns: "no_symlink d part" using assms(1) by (simp add: no_symlink_def)
  have ow: "dk_nodes (snd (open_write False False part d)) = dk_nodes d"
  proof (cases "current_fault d")
    case None
    with open_write_plain [OF ns None, of False False] assms(1) show ?thesis by simp
  qed (auto simp: open_write_def guarded_def)
  have sy: "dk_nodes (snd (sync_all f e)) = dk_nodes e" for f e
    by (auto simp: sync_all_def guarded_def split: option.splits)
  define d1 where "d1 = snd (open_write False False part d)"
  define f where "f = projr (fst (open_write False False part d))"
  define d2 where "d2 = snd (sync_all f d1)"
  have l2: "lookup d2 = lookup d" using ow sy by (simp add: d1_def d2_def)
  define d3 where "d3 = snd (rename part target d2)"
  have l3: "lookup d3 target = lookup d target \<or> lookup d3 target = Some (NFile b)"
    using rename_result(1) [of d2 part b target] l2 assms(1,2) by (simp add: d3_def)
  have tail: "lookup (snd (dl_bind (fsync_dir parent) (\<lambda>_. dl_ignore (dl_io jpath (remove_file jpath))) e)) target =
      lookup e target" for e
    using ignore_remove_other [OF assms(3) [symmetric]] fsync_dir_result [of parent e]
    by (auto simp: dl_bind_fst split: sum.splits)
  have c: "commit_part part jpath target parent d =
    (case fst (open_write False False part d) of Inl e \<Rightarrow> (Inl (Io part e), d1) | Inr _ \<Rightarrow>
     (case fst (sync_all f d1) of Inl e \<Rightarrow> (Inl (Io part e), d2) | Inr _ \<Rightarrow>
      (case fst (rename part target d2) of Inl e \<Rightarrow> (Inl (Io target e), d3) | Inr _ \<Rightarrow>
        dl_bind (fsync_dir parent) (\<lambda>_. dl_ignore (dl_io jpath (remove_file jpath))) d3)))"
    by (auto simp: commit_part_def dl_bind_fst [of "dl_io _ _"] dl_io_def d1_def d2_def d3_def f_def
        split: prod.splits sum.splits)
  show "lookup (snd (commit_part part jpath target parent d)) target = lookup d target \<or>
      lookup (snd (commit_part part jpath target parent d)) target = Some (NFile b)"
    using l2 l3 ow tail [of d3] unfolding c by (auto simp: d1_def split: sum.splits)
  assume ok: "commit_part part jpath target parent d = (Inr u, d')"
  then have "fst (rename part target d2) = Inr ()"
    and d': "d' = snd (dl_bind (fsync_dir parent) (\<lambda>_. dl_ignore (dl_io jpath (remove_file jpath))) d3)"
    unfolding c by (auto split: sum.splits)
  then have "lookup d3 target = Some (NFile b)"
    using rename_result(2) [of d2 part b target "()" d3] l2 assms(1,2)
    by (metis d3_def prod.collapse)
  with d' tail [of d3] show "lookup d' target = Some (NFile b)" by simp
qed

section \<open>Only verified content is committed\<close>

text \<open>The states of the target a download may leave behind.\<close>

definition committed :: "Host \<Rightarrow> FilePlan \<Rightarrow> Disk \<Rightarrow> path \<Rightarrow> bool" where
  "committed h plan d target \<longleftrightarrow>
    (\<exists>b. lookup d target = Some (NFile b) \<and> content_matches h (expected_from_plan plan) b)"

lemma dl_bind_cases:
  assumes "dl_bind m f d = (r, d')"
  obtains (fail) e where "m d = (Inl e, d')" "r = Inl e"
  | (step) x d1 where "m d = (Inr x, d1)" "f x d1 = (r, d')"
  using assms by (cases "m d"; cases "fst (m d)") (auto simp: dl_bind_def)

lemma touches_run:
  assumes "touches N S m" "m d = (r, d')" "\<forall>p\<in>N. no_symlink d p"
  shows "p \<notin> S \<Longrightarrow> lookup d' p = lookup d p" "\<forall>p\<in>N. no_symlink d' p"
  using touchesD [OF assms(1,3)] assms(2) by auto

lemma fetch_and_commit_safe:
  assumes t: "target = base @ [Normal n]" and N: "\<forall>p\<in>side_files target. no_symlink d p"
    and run: "fetch_and_commit h source plan target parent d = (r, d')"
  shows "lookup d' target = lookup d target \<or> committed h plan d' target"
    and "r = Inr vf \<Longrightarrow> committed h plan d' target \<and> vf_path vf = target \<and>
      vf_size_bytes vf = fp_expected_size plan \<and>
      vf_sha256_hex vf = ascii_lowercase (fp_expected_sha256_hex plan)"
proof -
  let ?part = "part_path target" and ?jp = "journal_path target"
  have out: "target \<notin> engine_scope target" using target_not_in_scope t by simp
  have ne: "?part \<noteq> target" "?jp \<noteq> target" using t by (simp_all add: side_paths)
  have part: "?part \<in> side_files target" by (simp add: side_files_def)
  have "(lookup d' target = lookup d target \<or> committed h plan d' target) \<and>
    (\<forall>vf. r = Inr vf \<longrightarrow> committed h plan d' target \<and> vf_path vf = target \<and>
      vf_size_bytes vf = fp_expected_size plan \<and>
      vf_sha256_hex vf = ascii_lowercase (fp_expected_sha256_hex plan))"
    using run [unfolded fetch_and_commit_def]
  proof (cases rule: dl_bind_cases)
    case (fail e)
    with touches_run(1) [OF touches_recover_partial [OF t] _ N out] show ?thesis by auto
  next
    case (step jr d1)
    obtain jo off where jr: "jr = (jo, off)" by force
    note k1 = touches_run [OF touches_recover_partial [OF t] step(1) N]
    from step(2) [unfolded jr prod.case] show ?thesis
    proof (cases rule: dl_bind_cases)
      case (fail e)
      with touches_run(1) [OF touches_attempt_loop [OF t] _ k1(2) out] k1(1) [OF out]
      show ?thesis by auto
    next
      case (step etag d2)
      note k2 = touches_run [OF touches_attempt_loop [OF t] step(1) k1(2)]
      from step(2) show ?thesis
      proof (cases rule: dl_bind_cases)
        case (fail e)
        with touches_run(1) [OF touches_verify_part _ k2(2) out] k1(1) [OF out] k2(1) [OF out]
        show ?thesis by auto
      next
        case (step lh d3)
        obtain len hex where lh: "lh = (len, hex)" by force
        have "no_symlink d2 ?part" using k2(2) part by blast
        from verify_part_ok [OF this step(1) [unfolded lh]] obtain b where
          b: "lookup d3 ?part = Some (NFile b)" "content_matches h (expected_from_plan plan) b"
          and v: "len = fp_expected_size plan" "hex = ascii_lowercase (fp_expected_sha256_hex plan)"
            "dk_nodes d3 = dk_nodes d2" by auto
        have old: "lookup d3 target = lookup d target"
          using k1(1) [OF out] k2(1) [OF out] v(3) by simp
        note c = commit_part_result [OF b(1) ne, of parent]
        from step(2) [unfolded lh prod.case] show ?thesis
        proof (cases rule: dl_bind_cases)
          case (fail e)
          with c(1) old b(2) show ?thesis by (auto simp: committed_def)
        next
          case (step u d4)
          with c(2) [OF step(1)] b(2) v show ?thesis
            by (auto simp: committed_def dl_return_def verified_file_def)
        qed
      qed
    qed
  qed
  then show "lookup d' target = lookup d target \<or> committed h plan d' target"
    and "r = Inr vf \<Longrightarrow> committed h plan d' target \<and> vf_path vf = target \<and>
      vf_size_bytes vf = fp_expected_size plan \<and>
      vf_sha256_hex vf = ascii_lowercase (fp_expected_sha256_hex plan)" by blast+
qed

lemma touches_prepare_components:
  "parent @ cs = target \<Longrightarrow>
   touches N {take k target | k. k < length target} (prepare_components lower parent cs)"
proof (induction cs arbitrary: parent)
  case Nil
  then show ?case by (simp add: touches_dl)
next
  case (Cons c cs)
  let ?S = "{take k target | k. k < length target}"
  have ih: "touches N ?S (prepare_components lower (parent @ [c]) cs)"
    using Cons by simp
  have dir: "cs \<noteq> [] \<Longrightarrow> parent @ [c] \<in> ?S"
    using Cons.prems by (intro CollectI exI [of _ "Suc (length parent)"]) auto
  show ?case
  proof (cases "\<exists>name. c = Normal name")
    case True
    then obtain name where c: "c = Normal name" by blast
    show ?thesis
    proof (cases "cs = []")
      case True
      then show ?thesis by (simp add: c) (intro touchesI)
    next
      case False
      show ?thesis
        using False unfolding prepare_components.simps c path_component.case
        by (simp, intro touchesI dir [unfolded c] ih [unfolded c]) simp
    qed
  next
    case False
    then show ?thesis by (cases c) (simp_all add: touches_dl)
  qed
qed

lemma touches_prepare_target_parent:
  assumes "target = root @ rel" "rel \<noteq> []"
  shows "touches N {take k target | k. k < length target} (prepare_target_parent lower root target)"
proof -
  have "take k root \<in> {take k target | k. k < length target}" if "k \<le> length root" for k
    using that assms by (intro CollectI exI [of _ k]) (auto simp: less_Suc_eq_le length_greater_0_conv [symmetric] simp del: length_greater_0_conv)
  then show ?thesis
    unfolding prepare_target_parent_def assms(1) path_strip_prefix_append option.case
    by (intro touchesI touches_prepare_components) simp_all
qed

lemma settle_target_result:
  assumes t: "target = base @ [Normal n]" and N: "\<forall>p\<in>side_files target. no_symlink d p"
    and run: "settle_target plan target status d = (r, d')"
  shows "\<forall>p\<in>side_files target. no_symlink d' p"
    and "lookup d' target = lookup d target \<or> lookup d' target = None"
    and "r = Inr (Some vf) \<Longrightarrow> status = Verified \<and> lookup d' target = lookup d target \<and>
      vf = verified_file plan target (fp_expected_size plan)
        (ascii_lowercase (fp_expected_sha256_hex plan)) None"
proof -
  let ?S = "insert target (engine_scope target)"
  have out: "target \<notin> engine_scope target" using target_not_in_scope t by simp
  have disc: "touches (side_files target) (engine_scope target)
      (dl_ignore (discard_partial (part_path target) (journal_path target)))"
    by (intro touchesI touches_discard_partial)
  have "touches (side_files target) ?S (settle_target plan target status)"
    unfolding settle_target_def
    by (auto intro!: touchesI touches_mono [OF touches_discard_partial] split: ArtifactStatus.splits)
  from touches_run(2) [OF this run N] show "\<forall>p\<in>side_files target. no_symlink d' p" .
  have rm: "lookup (snd (remove_file target e)) target = lookup e target \<or>
      lookup (snd (remove_file target e)) target = None" for e
    by (auto simp: remove_file_def guarded_def split: option.splits node.splits)
  have rmp: "lookup (snd (remove_if_present target e)) target = lookup e target \<or>
      lookup (snd (remove_if_present target e)) target = None" for e
    using rm [of e] by (auto simp: remove_if_present_def dl_bind_fst dl_try_def dl_return_def dl_fail_def
        split: prod.splits sum.splits)
  have rj: "lookup (snd (reject_symlink target e)) target = lookup e target" for e
    using touchesD(1) [OF touches_reject_symlink [of "{}" "{}"], of e target] by simp
  show "lookup d' target = lookup d target \<or> lookup d' target = None"
  proof (cases status)
    case Verified
    with run touches_run(1) [OF disc _ N out] show ?thesis
      by (auto simp: settle_target_def dl_bind_fst dl_ignore_def dl_return_def)
  next
    case (Invalid x)
    with run have "d' = snd (reject_symlink target d) \<or>
        d' = snd (remove_if_present target (snd (reject_symlink target d)))"
      by (auto simp: settle_target_def dl_bind_fst dl_return_def split: sum.splits)
    then show ?thesis using rj [of d] rmp [of "snd (reject_symlink target d)"] by metis
  qed (use run in \<open>auto simp: settle_target_def dl_return_def\<close>)
  assume r: "r = Inr (Some vf)"
  then have "status = Verified"
    using run by (cases status) (auto simp: settle_target_def dl_bind_Inr dl_return_def)
  with run r touches_run(1) [OF disc _ N out] show "status = Verified \<and>
      lookup d' target = lookup d target \<and>
      vf = verified_file plan target (fp_expected_size plan)
        (ascii_lowercase (fp_expected_sha256_hex plan)) None"
    by (auto simp: settle_target_def dl_bind_Inr dl_ignore_def dl_return_def)
qed

lemma path_parent_leaf: "path_parent (base @ [Normal n]) = Some base"
  by (simp add: path_parent_def)

lemma derived_target_leaf:
  assumes "root \<noteq> []" "derive_target_path_for_file root dev ses fid rel = Inr target"
  obtains base n mid where "target = base @ [Normal n]" "base = root @ mid" "path_parent target = Some base"
proof -
  let ?segs = "local_segments fid rel"
  have shape: "target = root @ map Normal (dev # ses # ?segs)"
    using derive_shape [OF assms(1)] assms(2) by blast
  have "?segs \<noteq> []" by (simp add: local_segments_def split: option.splits)
  then have "map Normal ?segs = map Normal (butlast ?segs) @ [Normal (last ?segs)]"
    by (metis append_butlast_last_id list.simps(8) list.simps(9) map_append)
  then have "target = (root @ map Normal (dev # ses # butlast ?segs)) @ [Normal (last ?segs)]"
    using shape by simp
  then show thesis using that path_parent_leaf by metis
qed

lemma dl_judge_result:
  assumes "derive_target_path_for_file root (fp_device_id plan) (fp_session_id plan)
      (fp_file_id plan) (fp_target_relative_path plan) = Inr target"
    and "dl_judge h root plan d = (Inr status, d')"
  shows "dk_nodes d' = dk_nodes d" "status = Verified \<Longrightarrow> committed h plan d target"
proof -
  let ?i = "\<lparr>ai_library_root = root, ai_device_id = fp_device_id plan,
                     ai_session_id = fp_session_id plan\<rparr>"
  have it: "inspector_target ?i (expected_from_plan plan) = Inr target"
    using assms(1) by (simp add: inspector_target_def expected_from_plan_def)
  obtain st d1 where j: "judge h target (expected_from_plan plan) d = (st, d1)" by force
  with assms(2) it have "status = st" "d' = d1" by (auto simp: dl_judge_def inspect_def)
  then show "dk_nodes d' = dk_nodes d" "status = Verified \<Longrightarrow> committed h plan d target"
    using judge_nodes [of h target "expected_from_plan plan" d] j
      judge_Verified [of h target "expected_from_plan plan" d d1]
    by (auto simp: committed_def)
qed

lemma download_at_safe:
  assumes t: "target = base @ [Normal n]" and N: "\<forall>p\<in>side_files target. no_symlink d p"
    and der: "derive_target_path_for_file root (fp_device_id plan) (fp_session_id plan)
      (fp_file_id plan) (fp_target_relative_path plan) = Inr target"
    and run: "download_at h source plan root target parent d = (r, d')"
  shows "lookup d' target = lookup d target \<or> lookup d' target = None \<or> committed h plan d' target"
    and "r = Inr vf \<Longrightarrow> committed h plan d' target \<and> vf_path vf = target \<and>
      vf_size_bytes vf = fp_expected_size plan \<and>
      vf_sha256_hex vf = ascii_lowercase (fp_expected_sha256_hex plan)"
proof -
  obtain status d1 where jd: "dl_judge h root plan d = (Inr status, d1)"
    by (cases "dl_judge h root plan d") (auto simp: dl_judge_def split: prod.splits)
  note j = dl_judge_result [OF der jd]
  have N1: "\<forall>p\<in>side_files target. no_symlink d1 p" using N j(1) by (simp add: no_symlink_def)
  from run jd have run1: "dl_bind (settle_target plan target status) (\<lambda>settled. case settled of
        Some verified \<Rightarrow> dl_return verified
      | None \<Rightarrow> fetch_and_commit h source plan target parent) d1 = (r, d')"
    by (simp add: download_at_def dl_bind_fst)
  have "(lookup d' target = lookup d target \<or> lookup d' target = None \<or> committed h plan d' target) \<and>
    (\<forall>vf. r = Inr vf \<longrightarrow> committed h plan d' target \<and> vf_path vf = target \<and>
      vf_size_bytes vf = fp_expected_size plan \<and>
      vf_sha256_hex vf = ascii_lowercase (fp_expected_sha256_hex plan))"
    using run1
  proof (cases rule: dl_bind_cases)
    case (fail e)
    with settle_target_result(2) [OF t N1 fail(1)] j(1) show ?thesis by auto
  next
    case (step settled d2)
    note st = settle_target_result [OF t N1 step(1)]
    show ?thesis
    proof (cases settled)
      case None
      with step(2) have fc: "fetch_and_commit h source plan target parent d2 = (r, d')" by simp
      from fetch_and_commit_safe [OF t st(1) fc] st(2) j(1) show ?thesis by auto
    next
      case (Some vf)
      with st(3) step j have "status = Verified" "lookup d' target = lookup d target" "r = Inr vf"
        "vf = verified_file plan target (fp_expected_size plan)
          (ascii_lowercase (fp_expected_sha256_hex plan)) None"
        by (auto simp: dl_return_def)
      with j(2) show ?thesis by (auto simp: committed_def verified_file_def)
    qed
  qed
  then show "lookup d' target = lookup d target \<or> lookup d' target = None \<or> committed h plan d' target"
    and "r = Inr vf \<Longrightarrow> committed h plan d' target \<and> vf_path vf = target \<and>
      vf_size_bytes vf = fp_expected_size plan \<and>
      vf_sha256_hex vf = ascii_lowercase (fp_expected_sha256_hex plan)" by blast+
qed

text \<open>
  C2.  A download commits only verified content.  Whatever the source sends and
  whatever I/O errors happen, \<open>download_file\<close> leaves the target as it was, or
  removed, or holding a file of exactly the expected size and SHA-256; and it
  reports success only in the last case, with that size and digest.  (The
  journal's temporary file must not be a symbolic link to begin with.)
\<close>

theorem download_commits_only_verified:
  assumes "library_root \<noteq> []"
    and "derive_target_path_for_file library_root (fp_device_id plan) (fp_session_id plan)
      (fp_file_id plan) (fp_target_relative_path plan) = Inr target"
    and "no_symlink d (journal_tmp target)"
    and "download_file h source plan library_root d = (r, d')"
  shows "(lookup d' target = lookup d target \<or> lookup d' target = None \<or> committed h plan d' target) \<and>
    (\<forall>vf. r = Inr vf \<longrightarrow> committed h plan d' target \<and> vf_path vf = target \<and>
      vf_size_bytes vf = fp_expected_size plan \<and>
      vf_sha256_hex vf = ascii_lowercase (fp_expected_sha256_hex plan))"
proof -
  obtain base n mid where t: "target = base @ [Normal n]" and mid: "base = library_root @ mid"
    and parent: "path_parent target = Some base"
    using derived_target_leaf [OF assms(1,2)] .
  let ?part = "part_path target" and ?tmp = "{journal_tmp target}"
    and ?S = "{take k target | k. k < length target}"
  define prep where "prep = dl_bind (prepare_target_parent (host_lower h) library_root target) (\<lambda>_.
      case part_name ?part of None \<Rightarrow> dl_return ()
      | Some name \<Rightarrow> check_case_insensitive_collision (host_lower h) base name)"
  have prep: "touches ?tmp ?S prep"
    unfolding prep_def using t mid
    by (intro touchesI touches_prepare_target_parent [where rel = "mid @ [Normal n]"])
      (auto intro: touchesI split: option.splits)
  have out: "target \<notin> ?S" using take_shorter [of _ target, symmetric] by auto
  have body: "(\<exists>e. r = Inl e \<and> d' = d) \<or>
      dl_bind prep (\<lambda>_. dl_bind (reject_symlink ?part) (\<lambda>_.
        download_at h source plan library_root target base)) d = (r, d')"
    using assms(2,4) parent
    by (cases "validate_plan plan")
      (auto simp: download_file_def dl_bind_fst [of "dl_lift _"] dl_lift_def prep_def dl_bind_assoc)
  have "\<exists>e. r = Inl e \<and> d' = d \<Longrightarrow> ?thesis" by auto
  moreover have ?thesis if "dl_bind prep (\<lambda>_. dl_bind (reject_symlink ?part) (\<lambda>_.
        download_at h source plan library_root target base)) d = (r, d')"
    using that
  proof (cases rule: dl_bind_cases)
    case (fail e)
    with touches_run(1) [OF prep fail(1) _ out] assms(3) show ?thesis by auto
  next
    case (step x d1)
    have keep: "lookup d1 target = lookup d target" "no_symlink d1 (journal_tmp target)"
      using touches_run [OF prep step(1)] out assms(3) by auto
    from step(2) show ?thesis
    proof (cases rule: dl_bind_cases)
      case (fail e)
      with touches_run(1) [OF touches_reject_symlink [of "{}" "{}"] fail(1)] keep(1)
      show ?thesis by auto
    next
      case (step y d2)
      note rj = reject_symlink_ok [OF step(1)]
      have "\<forall>p\<in>side_files target. no_symlink d2 p"
        using rj keep(2) by (simp add: side_files_def)
      from download_at_safe [OF t this assms(2) step(2)] rj keep(1) show ?thesis by auto
    qed
  qed
  ultimately show ?thesis using body by blast
qed

definition toy_sha :: "bytes \<Rightarrow> bytes" where
  "toy_sha b = replicate 32 (foldl (+) 7 b)"

definition sample_plan :: FilePlan where
  "sample_plan = \<lparr>fp_device_id = ''dev'', fp_session_id = ''s'', fp_file_id = ''a'',
     fp_target_relative_path = None, fp_expected_size = 5,
     fp_expected_sha256_hex = RequestDigest_to_hex (toy_sha [1, 2, 3, 4, 5])\<rparr>"

definition sample_source :: DownloadSource where
  "sample_source k rq = Inr \<lparr>sr_status = 206, sr_etag = Some ''v1'',
     sr_content_range = Some ''bytes 0-4/5'', sr_content_length = None,
     sr_body = [Chunk [1, 2, 3], Chunk [4, 5]]\<rparr>"

definition empty_disk :: Disk where
  "empty_disk = \<lparr>dk_nodes = [([RootDir], NDir 4096)], dk_clock = 0, dk_faults = (\<lambda>_. None)\<rparr>"

theorem download_commits_only_verified_witness:
  "\<exists>vf d'. download_file (ref_host toy_sha) sample_source sample_plan lib_root empty_disk = (Inr vf, d') \<and>
     committed (ref_host toy_sha) sample_plan d' (lib_root @ map Normal [''dev'', ''s'', ''a''])"
proof -
  let ?run = "download_file (ref_host toy_sha) sample_source sample_plan lib_root empty_disk"
    and ?t = "lib_root @ map Normal [''dev'', ''s'', ''a'']"
  have "\<not> isl (fst ?run)" by code_simp
  then obtain vf where "fst ?run = Inr vf" by (metis isl_def sum.exhaust)
  then have run: "?run = (Inr vf, snd ?run)" by (metis prod.collapse)
  have t: "derive_target_path_for_file lib_root (fp_device_id sample_plan) (fp_session_id sample_plan)
      (fp_file_id sample_plan) (fp_target_relative_path sample_plan) = Inr ?t" by code_simp
  have n: "no_symlink empty_disk (journal_tmp ?t)" by code_simp
  have r: "lib_root \<noteq> []" by (simp add: lib_root_def)
  from download_commits_only_verified [OF r t n run] run show ?thesis by blast
qed

definition is_mismatch :: "DownloadError \<Rightarrow> bool" where
  "is_mismatch e = (case e of SizeMismatch _ _ \<Rightarrow> True | HashMismatch _ _ \<Rightarrow> True | _ \<Rightarrow> False)"

lemma io_not_mismatch:
  "dl_io p m d = (Inl e, d') \<Longrightarrow> \<not> is_mismatch e"
  "sha256_of_file h p d = (Inl e, d') \<Longrightarrow> \<not> is_mismatch e"
  "remove_if_present p d = (Inl e, d') \<Longrightarrow> \<not> is_mismatch e"
  by (auto simp: is_mismatch_def dl_io_def sha256_of_file_def remove_if_present_def dl_bind_fst dl_try_def
      dl_return_def dl_fail_def split: prod.splits sum.splits if_splits)

lemma remove_if_present_gone:
  "remove_if_present p d = (Inr u, d') \<Longrightarrow> lookup d' p = None"
  by (auto simp: remove_if_present_def dl_bind_def dl_try_def dl_return_def dl_fail_def
      remove_file_def guarded_def split: option.splits node.splits)

lemma discard_then_fail:
  assumes "dl_bind (discard_partial part jpath) (\<lambda>_. dl_fail x) d = (Inl e, d')"
    and "is_mismatch e" "part \<noteq> jpath"
  shows "lookup d' part = None \<and> lookup d' jpath = None"
proof -
  from assms obtain d1 where r1: "remove_if_present part d = (Inr (), d1)"
    and r2: "remove_if_present jpath d1 = (Inr (), d')"
    by (auto simp: discard_partial_def dl_bind_assoc dl_fail_def elim!: dl_bind_cases
        dest: io_not_mismatch)
  have "lookup d' part = lookup d1 part"
    using touches_run(1) [OF touches_remove_if_present [of jpath "{jpath}" "{}"] r2] assms(3) by simp
  with remove_if_present_gone [OF r1] remove_if_present_gone [OF r2] show ?thesis by simp
qed

text \<open>
  A file that fails verification leaves nothing to resume: when the check of
  a finished partial file reports a wrong size or a wrong digest, both the
  partial file and its journal are gone, so that a retry starts from byte zero.
\<close>

theorem mismatch_discards_partial:
  assumes "verify_part h plan part jpath d = (Inl e, d')" "is_mismatch e" "part \<noteq> jpath"
  shows "lookup d' part = None \<and> lookup d' jpath = None"
  using assms(1) [unfolded verify_part_def]
proof (cases rule: dl_bind_cases)
  case (fail x)
  with assms(2) io_not_mismatch(1) [OF fail(1)] show ?thesis by simp
next
  case (step m d1)
  show ?thesis
  proof (cases "node_len m = fp_expected_size plan")
    case False
    with step(2) discard_then_fail [OF _ assms(2,3)] show ?thesis by simp
  next
    case True
    with step(2) have "dl_bind (sha256_of_file h part) (\<lambda>actual_hash.
          let expected_hash = ascii_lowercase (fp_expected_sha256_hex plan) in
          if actual_hash \<noteq> expected_hash then
            dl_bind (discard_partial part jpath) (\<lambda>_.
              dl_fail (HashMismatch expected_hash actual_hash))
          else dl_return (node_len m, actual_hash)) d1 = (Inl e, d')" by simp
    then show ?thesis
    proof (cases rule: dl_bind_cases)
      case (fail x)
      with assms(2) io_not_mismatch(2) [OF fail(1)] show ?thesis by simp
    next
      case (step x d2)
      with discard_then_fail [OF _ assms(2,3)] show ?thesis
        by (auto simp: Let_def dl_return_def split: if_splits)
    qed
  qed
qed

theorem mismatch_discards_partial_witness:
  "\<exists>e d'. verify_part (ref_host toy_sha) (sample_plan\<lparr>fp_expected_size := 6\<rparr>) (part_path sample_target)
      (journal_path sample_target) (sample_disk 3) = (Inl e, d') \<and>
    lookup d' (part_path sample_target) = None"
proof -
  let ?run = "verify_part (ref_host toy_sha) (sample_plan\<lparr>fp_expected_size := 6\<rparr>) (part_path sample_target)
      (journal_path sample_target) (sample_disk 3)"
  have "fst ?run = Inl (SizeMismatch 6 5)" by code_simp
  then have run: "?run = (Inl (SizeMismatch 6 5), snd ?run)" by (metis prod.collapse)
  have m: "is_mismatch (SizeMismatch 6 5)" by (simp add: is_mismatch_def)
  have ne: "part_path sample_target \<noteq> journal_path sample_target" by code_simp
  from mismatch_discards_partial [OF run m ne] run show ?thesis by blast
qed



end
