(* ===== verification/Store_Rows.thy ===== *)
theory Store_Rows
  imports Job_Aggregate Job_Spec "HOL-Library.List_Lexorder" "HOL-Library.Char_ord"
    "HOL-Library.Product_Lexorder"
begin

text \<open>
  The tables of the transfer database (\<open>persistence/schema.rs\<close>) as lists of
  rows with their raw columns, the constraints SQLite enforces on them, and the
  readers of \<open>persistence/transfer_store.rs\<close> that decode a row into a typed
  record.  A TEXT column is a \<^typ>\<open>string\<close>, an INTEGER column an \<^typ>\<open>int\<close>, a
  nullable column an \<open>option\<close>.  The message of an error is a value of
  \<open>detail\<close>, one constructor per message of the sources with the values it
  interpolates.
\<close>

section \<open>Errors\<close>

datatype sql_error = CheckFailed | UniqueFailed | ForeignKeyFailed | NoRows | BadColumn | Full

datatype detail =
    TerminalNeedsComplete JobStateTag
  | ErrorIffFailed
  | VersionExhausted string
  | OutOfI64 string u64
  | StaleOrTerminal string u64
  | MissingOrStale string
  | FileNotInJob string string
  | NegativeSize string int
  | ExceedsExpected string u64 u64
  | VerifiedNeedsDigest
  | InvalidDigest JobSpecError
  | OnlyVerifiedDigest
  | UnknownLedgerStatus string
  | NegativeCheckpoint int
  | VerifiedDowngrade string
  | MovesBackwards string u64 u64
  | BadOperationKind string string
  | BadIdentity string JobSpecError
  | BadRequestDigest string JobSpecError
  | BadState string string
  | NegativeVersion string int
  | NotAnInteger string
  | BadDesired string string
  | NegativeSequence string int
  | BadOutcome string
  | OutcomeWithoutCode
  | OutcomeWithoutFlag
  | TerminalWithoutError string JobStateTag
  | Vanished string
  | NegativeAttempt int
  | AttemptExhausted string
  | NoUploadSpec string
  | NoUploadActivity string
  | UnacknowledgedOutcome string
  | UnknownJobId string
  | JobIdTaken string
  | SimulatedCrash

datatype PersistenceError =
    Io string
  | Corrupt string detail
  | Serialization string
  | Sqlite sql_error
  | Migration u32 string
  | Busy
  | Conflict detail
  | UnsupportedSchemaVersion string u32 u32
  | NotFound detail

definition is_corrupt :: "PersistenceError \<Rightarrow> bool" where
  "is_corrupt e = (case e of Corrupt _ _ \<Rightarrow> True | _ \<Rightarrow> False)"

section \<open>Column codecs\<close>

datatype OperationKind = Download | Upload

fun kind_as_db_str :: "OperationKind \<Rightarrow> string" where
  "kind_as_db_str Download = ''download''"
| "kind_as_db_str Upload = ''upload''"

definition kind_from_db_str :: "string \<Rightarrow> OperationKind option" where
  "kind_from_db_str v =
    (if v = ''download'' then Some Download else if v = ''upload'' then Some Upload else None)"

definition is_upload :: "OperationKind \<Rightarrow> bool" where
  "is_upload k = (case k of Upload \<Rightarrow> True | Download \<Rightarrow> False)"

datatype FileLedgerStatus = LedgerMissing | LedgerPartial | LedgerVerified | LedgerInvalid

fun ledger_as_db_str :: "FileLedgerStatus \<Rightarrow> string" where
  "ledger_as_db_str LedgerMissing = ''missing''"
| "ledger_as_db_str LedgerPartial = ''partial''"
| "ledger_as_db_str LedgerVerified = ''verified''"
| "ledger_as_db_str LedgerInvalid = ''invalid''"

definition ledger_from_db_str :: "string \<Rightarrow> FileLedgerStatus option" where
  "ledger_from_db_str v =
    (if v = ''missing'' then Some LedgerMissing
     else if v = ''partial'' then Some LedgerPartial
     else if v = ''verified'' then Some LedgerVerified
     else if v = ''invalid'' then Some LedgerInvalid
     else None)"

fun desired_run_state_db :: "DesiredRunState \<Rightarrow> string" where
  "desired_run_state_db Run = ''run''"
| "desired_run_state_db Paused = ''paused''"

definition desired_run_state_from_db :: "string \<Rightarrow> DesiredRunState option" where
  "desired_run_state_from_db v =
    (if v = ''run'' then Some Run else if v = ''paused'' then Some Paused else None)"

datatype TerminalOutcome = OutcomeSucceeded | OutcomeFailed string bool | OutcomeCancelled

fun outcome_state_tag :: "TerminalOutcome \<Rightarrow> JobStateTag" where
  "outcome_state_tag OutcomeSucceeded = TagSucceeded"
| "outcome_state_tag (OutcomeFailed code retryable) = TagFailed"
| "outcome_state_tag OutcomeCancelled = TagCancelled"

definition outcome_as_db_str :: "TerminalOutcome \<Rightarrow> string" where
  "outcome_as_db_str oc = tag_as_db_str (outcome_state_tag oc)"

definition is_success :: "TerminalOutcome \<Rightarrow> bool" where
  "is_success oc = (case oc of OutcomeSucceeded \<Rightarrow> True | _ \<Rightarrow> False)"

fun error_columns :: "TerminalOutcome \<Rightarrow> string option \<times> int option" where
  "error_columns (OutcomeFailed code retryable) = (Some code, Some (if retryable then 1 else 0))"
| "error_columns OutcomeSucceeded = (None, None)"
| "error_columns OutcomeCancelled = (None, None)"

definition from_columns :: "string \<Rightarrow> string option \<Rightarrow> int option \<Rightarrow> detail + TerminalOutcome" where
  "from_columns oc code retryable =
    (if oc = ''succeeded'' then Inr OutcomeSucceeded
     else if oc = ''cancelled'' then Inr OutcomeCancelled
     else if oc = ''failed'' then
       (case code of
          None \<Rightarrow> Inl OutcomeWithoutCode
        | Some c \<Rightarrow> (case retryable of
            None \<Rightarrow> Inl OutcomeWithoutFlag
          | Some r \<Rightarrow> Inr (OutcomeFailed c (r \<noteq> 0))))
     else Inl (BadOutcome oc))"

text \<open>\<open>i64::try_from\<close> on the way in, \<open>u64::try_from\<close> on the way out.\<close>

definition checked_i64 :: "u64 \<Rightarrow> string \<Rightarrow> PersistenceError + int" where
  "checked_i64 v field =
    (if unat v \<le> i64_max then Inr (uint v) else Inl (Conflict (OutOfI64 field v)))"

definition u64_of_column :: "int \<Rightarrow> u64 option" where
  "u64_of_column i = (if i < 0 then None else Some (word_of_int i))"

lemma checked_i64_code [code]:
  "checked_i64 v field =
    (if uint v \<le> 9223372036854775807 then Inr (uint v) else Inl (Conflict (OutOfI64 field v)))"
  by (simp add: checked_i64_def flip: uint_le_nat int_i64_max)

lemma checked_i64_ok [simp]:
  "checked_i64 v field = Inr i \<longleftrightarrow> unat v \<le> i64_max \<and> i = uint v"
  by (auto simp: checked_i64_def)

lemma u64_of_column_uint [simp]: "u64_of_column (uint v) = Some v"
  by (simp add: u64_of_column_def not_less)

lemma kind_roundtrip [simp]: "kind_from_db_str (kind_as_db_str k) = Some k"
  by (cases k) (simp_all add: kind_from_db_str_def)

lemma ledger_roundtrip [simp]: "ledger_from_db_str (ledger_as_db_str k) = Some k"
  by (cases k) (simp_all add: ledger_from_db_str_def)

lemma desired_roundtrip [simp]: "desired_run_state_from_db (desired_run_state_db d) = Some d"
  by (cases d) (simp_all add: desired_run_state_from_db_def)

lemma tag_roundtrip [simp]: "tag_from_db_str (tag_as_db_str t) = Some t"
  by (cases t) (simp_all add: tag_from_db_str_def)

lemma outcome_roundtrip [simp]:
  "from_columns (outcome_as_db_str oc) (fst (error_columns oc)) (snd (error_columns oc)) = Inr oc"
  by (cases oc) (simp_all add: from_columns_def outcome_as_db_str_def)

lemma outcome_tag_terminal [simp]: "tag_is_terminal (outcome_state_tag oc)"
  by (cases oc) simp_all

lemma kind_as_db_str_inj [simp]: "kind_as_db_str a = kind_as_db_str b \<longleftrightarrow> a = b"
  using kind_roundtrip by (metis option.inject)

lemma tag_as_db_str_inj [simp]: "tag_as_db_str a = tag_as_db_str b \<longleftrightarrow> a = b"
  using tag_roundtrip by (metis option.inject)

section \<open>Rows\<close>

record JobRow =
  jr_job_id :: string
  jr_operation_kind :: string
  jr_natural_key :: string
  jr_device_id :: string
  jr_session_id :: string
  jr_revision :: string
  jr_request_digest :: string
  jr_state :: string
  jr_state_version :: int
  jr_desired :: string
  jr_error_code :: "string option"
  jr_error_retryable :: "int option"
  jr_created_at :: string
  jr_updated_at :: string
  jr_dismissed_at :: "string option"

record SpecRow =
  spr_job_id :: string
  spr_version :: int
  spr_full_session :: int
  spr_date_label :: string
  spr_revision :: string
  spr_payload :: bytes
  spr_signature :: bytes
  spr_public_key :: bytes

record FileRow =
  flr_job_id :: string
  flr_inventory_index :: int
  flr_request_index :: "int option"
  flr_file_id :: string
  flr_display_path :: string
  flr_size_bytes :: int
  flr_sha256 :: string

record LedgerRow =
  lgr_job_id :: string
  lgr_file_id :: string
  lgr_status :: string
  lgr_bytes :: int
  lgr_sha256 :: "string option"
  lgr_updated_at :: string

record OutboxRow =
  obr_sequence :: int
  obr_job_id :: string
  obr_operation_kind :: string
  obr_outcome :: string
  obr_error_code :: "string option"
  obr_error_retryable :: "int option"
  obr_state_version :: int
  obr_recorded_at :: string
  obr_acknowledged_at :: "string option"

record LineageRow =
  lnr_child :: string
  lnr_parent :: string
  lnr_attempt :: int
  lnr_created_at :: string

record UploadSpecRow =
  usr_job_id :: string
  usr_entry_key :: string
  usr_revision :: string
  usr_input_digest :: string
  usr_object_prefix :: "string option"

record UploadRow =
  upr_transfer_key :: string
  upr_entry_key :: string
  upr_job_id :: "string option"

record ActivityRow =
  acr_job_id :: string
  acr_label :: string
  acr_target_label :: string
  acr_total_bytes :: int
  acr_confirmed_bytes :: int
  acr_created_at :: string
  acr_updated_at :: string

text \<open>
  The database.  \<open>ts_next_sequence\<close> is the AUTOINCREMENT counter of the
  completion outbox, which outlives deleted rows.
\<close>

record TransferStore =
  ts_jobs :: "JobRow list"
  ts_specs :: "SpecRow list"
  ts_files :: "FileRow list"
  ts_ledger :: "LedgerRow list"
  ts_outbox :: "OutboxRow list"
  ts_lineage :: "LineageRow list"
  ts_upload_specs :: "UploadSpecRow list"
  ts_uploads :: "UploadRow list"
  ts_activity :: "ActivityRow list"
  ts_next_sequence :: int

definition empty_store :: TransferStore where
  "empty_store = \<lparr>ts_jobs = [], ts_specs = [], ts_files = [], ts_ledger = [], ts_outbox = [],
     ts_lineage = [], ts_upload_specs = [], ts_uploads = [], ts_activity = [],
     ts_next_sequence = 1\<rparr>"

section \<open>Table constraints\<close>

definition job_check :: "JobRow \<Rightarrow> bool" where
  "job_check r \<longleftrightarrow>
    length (jr_request_digest r) = 64 \<and>
    tag_from_db_str (jr_state r) \<noteq> None \<and>
    1 \<le> jr_state_version r \<and>
    (jr_state r = ''failed'') = (jr_error_code r \<noteq> None) \<and>
    (jr_state r = ''failed'') = (jr_error_retryable r \<noteq> None) \<and>
    desired_run_state_from_db (jr_desired r) \<noteq> None \<and>
    kind_from_db_str (jr_operation_kind r) \<noteq> None"

definition spec_check :: "SpecRow \<Rightarrow> bool" where
  "spec_check r \<longleftrightarrow>
    1 \<le> spr_version r \<and> (spr_full_session r = 0 \<or> spr_full_session r = 1) \<and>
    spr_payload r \<noteq> [] \<and> length (spr_signature r) = 64 \<and> length (spr_public_key r) = 32"

definition file_check :: "FileRow \<Rightarrow> bool" where
  "file_check r \<longleftrightarrow>
    0 \<le> flr_inventory_index r \<and>
    (case flr_request_index r of None \<Rightarrow> True | Some i \<Rightarrow> 0 \<le> i) \<and>
    0 \<le> flr_size_bytes r \<and> length (flr_sha256 r) = 64"

definition ledger_check :: "LedgerRow \<Rightarrow> bool" where
  "ledger_check r \<longleftrightarrow>
    ledger_from_db_str (lgr_status r) \<noteq> None \<and> 0 \<le> lgr_bytes r \<and>
    (lgr_status r = ''verified'') = (lgr_sha256 r \<noteq> None)"

definition outbox_check :: "OutboxRow \<Rightarrow> bool" where
  "outbox_check r \<longleftrightarrow>
    (obr_outcome r = ''succeeded'' \<or> obr_outcome r = ''failed'' \<or> obr_outcome r = ''cancelled'') \<and>
    1 \<le> obr_state_version r \<and>
    (obr_outcome r = ''failed'') = (obr_error_code r \<noteq> None) \<and>
    (obr_outcome r = ''failed'') = (obr_error_retryable r \<noteq> None) \<and>
    kind_from_db_str (obr_operation_kind r) \<noteq> None"

definition lineage_check :: "LineageRow \<Rightarrow> bool" where
  "lineage_check r \<longleftrightarrow> 1 \<le> lnr_attempt r"

text \<open>Rows that cannot stand beside each other: primary keys and UNIQUE indexes.\<close>

definition job_clash :: "JobRow \<Rightarrow> JobRow \<Rightarrow> bool" where
  "job_clash a b \<longleftrightarrow> jr_job_id a = jr_job_id b \<or> jr_natural_key a = jr_natural_key b"

definition spec_clash :: "SpecRow \<Rightarrow> SpecRow \<Rightarrow> bool" where
  "spec_clash a b \<longleftrightarrow> spr_job_id a = spr_job_id b"

definition file_clash :: "FileRow \<Rightarrow> FileRow \<Rightarrow> bool" where
  "file_clash a b \<longleftrightarrow> flr_job_id a = flr_job_id b \<and>
    (flr_file_id a = flr_file_id b \<or> flr_inventory_index a = flr_inventory_index b \<or>
     flr_request_index a \<noteq> None \<and> flr_request_index a = flr_request_index b)"

definition ledger_clash :: "LedgerRow \<Rightarrow> LedgerRow \<Rightarrow> bool" where
  "ledger_clash a b \<longleftrightarrow> lgr_job_id a = lgr_job_id b \<and> lgr_file_id a = lgr_file_id b"

definition outbox_clash :: "OutboxRow \<Rightarrow> OutboxRow \<Rightarrow> bool" where
  "outbox_clash a b \<longleftrightarrow> obr_sequence a = obr_sequence b \<or> obr_job_id a = obr_job_id b"

definition lineage_clash :: "LineageRow \<Rightarrow> LineageRow \<Rightarrow> bool" where
  "lineage_clash a b \<longleftrightarrow> lnr_child a = lnr_child b \<or>
    lnr_parent a = lnr_parent b \<and> lnr_attempt a = lnr_attempt b"

section \<open>Statements\<close>

text \<open>
  INSERT and UPDATE on one table: the new rows must pass the CHECK constraints,
  and an inserted row must not clash with one that is there.
\<close>

definition sql_insert ::
    "('r \<Rightarrow> bool) \<Rightarrow> ('r \<Rightarrow> 'r \<Rightarrow> bool) \<Rightarrow> 'r \<Rightarrow> 'r list \<Rightarrow> PersistenceError + 'r list" where
  "sql_insert check clash r rows =
    (if \<not> check r then Inl (Sqlite CheckFailed)
     else if list_ex (clash r) rows then Inl (Sqlite UniqueFailed)
     else Inr (rows @ [r]))"

fun sql_insert_all ::
    "('r \<Rightarrow> bool) \<Rightarrow> ('r \<Rightarrow> 'r \<Rightarrow> bool) \<Rightarrow> 'r list \<Rightarrow> 'r list \<Rightarrow> PersistenceError + 'r list" where
  "sql_insert_all check clash [] rows = Inr rows"
| "sql_insert_all check clash (r # rs) rows =
     result_bind (sql_insert check clash r rows) (sql_insert_all check clash rs)"

definition sql_update ::
    "('r \<Rightarrow> bool) \<Rightarrow> ('r \<Rightarrow> bool) \<Rightarrow> ('r \<Rightarrow> 'r) \<Rightarrow> 'r list \<Rightarrow> PersistenceError + 'r list" where
  "sql_update check sel f rows =
    (if list_ex (\<lambda>r. sel r \<and> \<not> check (f r)) rows then Inl (Sqlite CheckFailed)
     else Inr (map (\<lambda>r. if sel r then f r else r) rows))"

definition changed_rows :: "('r \<Rightarrow> bool) \<Rightarrow> 'r list \<Rightarrow> nat" where
  "changed_rows sel rows = length (filter sel rows)"

lemma sql_insert_Inr:
  "sql_insert check clash r rows = Inr out \<longleftrightarrow>
   check r \<and> (\<forall>x\<in>set rows. \<not> clash r x) \<and> out = rows @ [r]"
  by (auto simp: sql_insert_def list_ex_iff)

lemma sql_update_Inr:
  "sql_update check sel f rows = Inr out \<longleftrightarrow>
   (\<forall>r\<in>set rows. sel r \<longrightarrow> check (f r)) \<and> out = map (\<lambda>r. if sel r then f r else r) rows"
  by (auto simp: sql_update_def list_ex_iff)

lemma changed_rows_0 [simp]: "changed_rows sel rows = 0 \<longleftrightarrow> (\<forall>r\<in>set rows. \<not> sel r)"
  by (simp add: changed_rows_def filter_empty_conv)

section \<open>Decoded rows\<close>

record StoredJob =
  sj_job_id :: string
  sj_operation_kind :: OperationKind
  sj_identity :: JobIdentity
  sj_request_digest :: bytes
  sj_state :: JobStateTag
  sj_state_version :: u64
  sj_desired :: DesiredRunState
  sj_error :: "(string \<times> bool) option"
  sj_created_at :: string
  sj_updated_at :: string
  sj_dismissed_at :: "string option"

record CompletionRecord =
  cr_sequence :: u64
  cr_job_id :: string
  cr_operation_kind :: OperationKind
  cr_outcome :: TerminalOutcome
  cr_state_version :: u64
  cr_recorded_at :: string
  cr_acknowledged_at :: "string option"

definition is_acknowledged :: "CompletionRecord \<Rightarrow> bool" where
  "is_acknowledged c \<longleftrightarrow> cr_acknowledged_at c \<noteq> None"

record RetryLineageRecord =
  rl_parent :: string
  rl_child :: string
  rl_attempt :: u64
  rl_created_at :: string

record FileLedgerEntry =
  le_file_id :: string
  le_status :: FileLedgerStatus
  le_bytes_confirmed :: u64
  le_verified_sha256 :: "string option"
  le_updated_at :: string

text \<open>An INTEGER column that has left the 64-bit range is a REAL and does not read back.\<close>

definition int_column :: "int \<Rightarrow> bool" where
  "int_column i \<longleftrightarrow> - (2 ^ 63) \<le> i \<and> i < 2 ^ 63"

definition map_err :: "('e \<Rightarrow> 'f) \<Rightarrow> 'e + 'a \<Rightarrow> 'f + 'a" where
  "map_err f r = (case r of Inl e \<Rightarrow> Inl (f e) | Inr x \<Rightarrow> Inr x)"

definition ok_or_else :: "'a option \<Rightarrow> 'e \<Rightarrow> 'e + 'a" where
  "ok_or_else m e = (case m of None \<Rightarrow> Inl e | Some x \<Rightarrow> Inr x)"

lemma ok_or_else_Inr [simp]: "ok_or_else m e = Inr x \<longleftrightarrow> m = Some x"
  by (cases m) (simp_all add: ok_or_else_def)

lemma map_err_Inr [simp]: "map_err f r = Inr x \<longleftrightarrow> r = Inr x"
  by (cases r) (simp_all add: map_err_def)

lemma map_err_simps [simp]: "map_err f (Inl e) = Inl (f e)" "map_err f (Inr x) = Inr x"
  by (simp_all add: map_err_def)

definition error_of_columns :: "string option \<Rightarrow> int option \<Rightarrow> (string \<times> bool) option" where
  "error_of_columns code retryable =
    (case (code, retryable) of (Some c, Some r) \<Rightarrow> Some (c, r \<noteq> 0) | _ \<Rightarrow> None)"

definition read_job_row :: "JobRow \<Rightarrow> detail + StoredJob" where
  "read_job_row r =
    result_bind (ok_or_else (kind_from_db_str (jr_operation_kind r))
      (BadOperationKind (jr_job_id r) (jr_operation_kind r))) (\<lambda>kind.
    result_bind (map_err (BadIdentity (jr_job_id r))
      (JobIdentity_new (jr_device_id r) (jr_session_id r) (jr_revision r))) (\<lambda>identity.
    result_bind (map_err (BadRequestDigest (jr_job_id r))
      (RequestDigest_from_hex (jr_request_digest r))) (\<lambda>digest.
    result_bind (ok_or_else (tag_from_db_str (jr_state r)) (BadState (jr_job_id r) (jr_state r)))
      (\<lambda>state.
    if \<not> int_column (jr_state_version r) then Inl (NotAnInteger ''state_version'')
    else
    result_bind (ok_or_else (u64_of_column (jr_state_version r))
      (NegativeVersion (jr_job_id r) (jr_state_version r))) (\<lambda>version.
    result_bind (ok_or_else (desired_run_state_from_db (jr_desired r))
      (BadDesired (jr_job_id r) (jr_desired r))) (\<lambda>desired.
    Inr \<lparr>sj_job_id = jr_job_id r, sj_operation_kind = kind, sj_identity = identity,
         sj_request_digest = digest, sj_state = state, sj_state_version = version,
         sj_desired = desired,
         sj_error = error_of_columns (jr_error_code r) (jr_error_retryable r),
         sj_created_at = jr_created_at r, sj_updated_at = jr_updated_at r,
         sj_dismissed_at = jr_dismissed_at r\<rparr>))))))"

text \<open>\<open>query_row(..).optional()\<close> on the job table, by primary key.\<close>

definition find_job :: "TransferStore \<Rightarrow> string \<Rightarrow> JobRow option" where
  "find_job s job_id = find (\<lambda>r. jr_job_id r = job_id) (ts_jobs s)"

definition decode_job :: "JobRow option \<Rightarrow> PersistenceError + StoredJob option" where
  "decode_job row =
    (case row of
       None \<Rightarrow> Inr None
     | Some r \<Rightarrow> (case read_job_row r of
         Inl d \<Rightarrow> Inl (Corrupt ''transfer_jobs'' d)
       | Inr j \<Rightarrow> Inr (Some j)))"

definition read_job :: "TransferStore \<Rightarrow> string \<Rightarrow> PersistenceError + StoredJob option" where
  "read_job s job_id = decode_job (find_job s job_id)"

definition created_key :: "JobRow \<Rightarrow> string \<times> string" where
  "created_key r = (jr_created_at r, jr_job_id r)"

definition same_identity :: "JobIdentity \<Rightarrow> JobRow \<Rightarrow> bool" where
  "same_identity i r \<longleftrightarrow> jr_device_id r = ji_device_id i \<and> jr_session_id r = ji_session_id i \<and>
    jr_revision r = ji_revision i"

definition last_option :: "'a list \<Rightarrow> 'a option" where
  "last_option xs = (if xs = [] then None else Some (last xs))"

definition read_latest_job_by_identity ::
    "TransferStore \<Rightarrow> JobIdentity \<Rightarrow> PersistenceError + StoredJob option" where
  "read_latest_job_by_identity s i =
    decode_job (last_option (sort_key created_key (filter (same_identity i) (ts_jobs s))))"

definition read_completion_row :: "OutboxRow \<Rightarrow> detail + CompletionRecord" where
  "read_completion_row r =
    result_bind (ok_or_else (u64_of_column (obr_sequence r))
      (NegativeSequence (obr_job_id r) (obr_sequence r))) (\<lambda>sequence.
    result_bind (ok_or_else (kind_from_db_str (obr_operation_kind r))
      (BadOperationKind (obr_job_id r) (obr_operation_kind r))) (\<lambda>kind.
    result_bind (ok_or_else (u64_of_column (obr_state_version r))
      (NegativeVersion (obr_job_id r) (obr_state_version r))) (\<lambda>version.
    result_bind (from_columns (obr_outcome r) (obr_error_code r) (obr_error_retryable r)) (\<lambda>oc.
    Inr \<lparr>cr_sequence = sequence, cr_job_id = obr_job_id r, cr_operation_kind = kind,
         cr_outcome = oc, cr_state_version = version, cr_recorded_at = obr_recorded_at r,
         cr_acknowledged_at = obr_acknowledged_at r\<rparr>))))"

definition find_outbox :: "TransferStore \<Rightarrow> string \<Rightarrow> OutboxRow option" where
  "find_outbox s job_id = find (\<lambda>r. obr_job_id r = job_id) (ts_outbox s)"

definition read_completion :: "TransferStore \<Rightarrow> string \<Rightarrow> PersistenceError + CompletionRecord option" where
  "read_completion s job_id =
    (case find_outbox s job_id of
       None \<Rightarrow> Inr None
     | Some r \<Rightarrow> (case read_completion_row r of
         Inl d \<Rightarrow> Inl (Corrupt ''transfer_completion_outbox'' d)
       | Inr c \<Rightarrow> Inr (Some c)))"

definition read_completions ::
    "TransferStore \<Rightarrow> bool \<Rightarrow> PersistenceError + CompletionRecord list" where
  "read_completions s unacknowledged_only =
    result_collect (\<lambda>r. map_err (Corrupt ''transfer_completion_outbox'') (read_completion_row r))
      (sort_key obr_sequence
        (filter (\<lambda>r. \<not> unacknowledged_only \<or> obr_acknowledged_at r = None) (ts_outbox s)))"

text \<open>\<open>ORDER BY request_index\<close>: SQLite sorts NULL first.\<close>

definition request_key :: "FileRow \<Rightarrow> bool \<times> int" where
  "request_key f = (case flr_request_index f of None \<Rightarrow> (False, 0) | Some i \<Rightarrow> (True, i))"

definition read_ledger_row :: "LedgerRow \<Rightarrow> PersistenceError + FileLedgerEntry" where
  "read_ledger_row r =
    result_bind (ok_or_else (u64_of_column (lgr_bytes r)) (Sqlite BadColumn)) (\<lambda>confirmed.
    result_bind (ok_or_else (ledger_from_db_str (lgr_status r)) (Sqlite BadColumn)) (\<lambda>status.
    Inr \<lparr>le_file_id = lgr_file_id r, le_status = status, le_bytes_confirmed = confirmed,
         le_verified_sha256 = lgr_sha256 r, le_updated_at = lgr_updated_at r\<rparr>))"

definition ledger_join :: "TransferStore \<Rightarrow> string \<Rightarrow> (FileRow \<times> LedgerRow) list" where
  "ledger_join s job_id =
    concat (map (\<lambda>l. map (\<lambda>f. (f, l))
        (filter (\<lambda>f. flr_job_id f = job_id \<and> flr_file_id f = lgr_file_id l) (ts_files s)))
      (filter (\<lambda>l. lgr_job_id l = job_id) (ts_ledger s)))"

definition read_ledger :: "TransferStore \<Rightarrow> string \<Rightarrow> PersistenceError + FileLedgerEntry list" where
  "read_ledger s job_id =
    result_collect (\<lambda>p. read_ledger_row (snd p))
      (sort_key (\<lambda>p. request_key (fst p)) (ledger_join s job_id))"

section \<open>Readable rows\<close>

text \<open>
  A job row as the store itself writes it: every column decodes, the version fits
  its column and the error columns are there exactly for a failed job.
\<close>

definition job_row_ok :: "JobRow \<Rightarrow> bool" where
  "job_row_ok r \<longleftrightarrow> job_check r \<and> int_column (jr_state_version r) \<and>
    \<not> isl (read_job_row r)"

lemma read_job_row_Inr:
  "read_job_row r = Inr j \<longleftrightarrow>
   (\<exists>kind identity digest state desired version.
      kind_from_db_str (jr_operation_kind r) = Some kind \<and>
      JobIdentity_new (jr_device_id r) (jr_session_id r) (jr_revision r) = Inr identity \<and>
      RequestDigest_from_hex (jr_request_digest r) = Inr digest \<and>
      tag_from_db_str (jr_state r) = Some state \<and>
      int_column (jr_state_version r) \<and> u64_of_column (jr_state_version r) = Some version \<and>
      desired_run_state_from_db (jr_desired r) = Some desired \<and>
      j = \<lparr>sj_job_id = jr_job_id r, sj_operation_kind = kind, sj_identity = identity,
         sj_request_digest = digest, sj_state = state, sj_state_version = version,
         sj_desired = desired,
         sj_error = error_of_columns (jr_error_code r) (jr_error_retryable r),
         sj_created_at = jr_created_at r, sj_updated_at = jr_updated_at r,
         sj_dismissed_at = jr_dismissed_at r\<rparr>)"
  by (auto simp: read_job_row_def result_bind_Inr_iff split: if_splits)

lemma read_job_row_fields:
  "read_job_row r = Inr j \<Longrightarrow>
   sj_job_id j = jr_job_id r \<and> jr_state r = tag_as_db_str (sj_state j) \<and>
   jr_state_version r = uint (sj_state_version j) \<and>
   sj_dismissed_at j = jr_dismissed_at r \<and>
   jr_operation_kind r = kind_as_db_str (sj_operation_kind j)"
  unfolding read_job_row_Inr
  by (auto simp: u64_of_column_def int_column_def tag_from_db_str_def kind_from_db_str_def
      uint_word_of_int split: if_splits)

end
