(* ===== verification/Transfer_Store.thy ===== *)
theory Transfer_Store
  imports Store_Rows
begin

text \<open>
  The operations of \<open>persistence/transfer_store.rs\<close> on the tables of
  \<open>Store_Rows\<close>.  Every operation is one transaction: it returns an error and
  leaves the database as it was, or a value with the new database.  Reads that
  fail inside SQLite for lack of disk or a lock are not represented; they would
  take the error branch of the same transaction.
\<close>

section \<open>Transitions of a live job\<close>

definition sql_terminal :: "string \<Rightarrow> bool" where
  "sql_terminal st \<longleftrightarrow> st = ''succeeded'' \<or> st = ''failed'' \<or> st = ''cancelled''"

definition update_jobs ::
    "(JobRow \<Rightarrow> bool) \<Rightarrow> (JobRow \<Rightarrow> JobRow) \<Rightarrow> TransferStore \<Rightarrow> PersistenceError + TransferStore" where
  "update_jobs sel f s =
    result_bind (sql_update job_check sel f (ts_jobs s)) (\<lambda>rows. Inr (s\<lparr>ts_jobs := rows\<rparr>))"

definition transition_row ::
    "string \<Rightarrow> int \<Rightarrow> string option \<times> int option \<Rightarrow> string \<Rightarrow> JobRow \<Rightarrow> JobRow" where
  "transition_row state version cols now r =
    r\<lparr>jr_state := state, jr_state_version := version, jr_error_code := fst cols,
      jr_error_retryable := snd cols, jr_updated_at := now\<rparr>"

definition transition_columns :: "(string \<times> bool) option \<Rightarrow> string option \<times> int option" where
  "transition_columns err =
    (case err of
       Some (code, retryable) \<Rightarrow> (Some code, Some (if retryable then 1 else 0))
     | None \<Rightarrow> (None, None))"

definition transition_job ::
    "TransferStore \<Rightarrow> string \<Rightarrow> u64 \<Rightarrow> JobStateTag \<Rightarrow> (string \<times> bool) option \<Rightarrow> string
     \<Rightarrow> PersistenceError + u64 \<times> TransferStore" where
  "transition_job s job_id expected_version to err now =
    (if tag_is_terminal to then Inl (Conflict (TerminalNeedsComplete to))
     else if (to = TagFailed) \<noteq> (err \<noteq> None) then Inl (Conflict ErrorIffFailed)
     else
       result_bind (ok_or_else (checked_add expected_version 1)
         (Conflict (VersionExhausted job_id))) (\<lambda>next_version.
       result_bind (checked_i64 next_version ''state_version'') (\<lambda>next_col.
       result_bind (checked_i64 expected_version ''expected_version'') (\<lambda>expected_col.
       let sel = (\<lambda>r. jr_job_id r = job_id \<and> jr_state_version r = expected_col \<and>
                      \<not> sql_terminal (jr_state r)) in
       result_bind (update_jobs sel
           (transition_row (tag_as_db_str to) next_col (transition_columns err) now) s) (\<lambda>s'.
       if changed_rows sel (ts_jobs s) = 0
       then Inl (Conflict (StaleOrTerminal job_id expected_version))
       else Inr (next_version, s'))))))"

definition set_desired_run_state ::
    "TransferStore \<Rightarrow> string \<Rightarrow> DesiredRunState \<Rightarrow> string \<Rightarrow> u64 option
     \<Rightarrow> PersistenceError + TransferStore" where
  "set_desired_run_state s job_id desired now expected_version =
    result_bind (case expected_version of
         None \<Rightarrow> Inr None
       | Some v \<Rightarrow> result_bind (checked_i64 v ''expected_version'') (\<lambda>c. Inr (Some c)))
      (\<lambda>expected_col.
    let sel = (\<lambda>r. jr_job_id r = job_id \<and>
         (case expected_col of None \<Rightarrow> True | Some c \<Rightarrow> jr_state_version r = c)) in
    result_bind (update_jobs sel
        (\<lambda>r. r\<lparr>jr_desired := desired_run_state_db desired, jr_updated_at := now\<rparr>) s) (\<lambda>s'.
    if changed_rows sel (ts_jobs s) = 0 then Inl (Conflict (MissingOrStale job_id)) else Inr s'))"

section \<open>The file ledger\<close>

definition ledger_digest ::
    "FileLedgerStatus \<Rightarrow> string option \<Rightarrow> PersistenceError + string option" where
  "ledger_digest status verified_sha256 =
    (case status of
       LedgerVerified \<Rightarrow> (case verified_sha256 of
           None \<Rightarrow> Inl (Conflict VerifiedNeedsDigest)
         | Some d \<Rightarrow> (case RequestDigest_from_hex d of
             Inl e \<Rightarrow> Inl (Conflict (InvalidDigest e))
           | Inr _ \<Rightarrow> Inr (Some d)))
     | _ \<Rightarrow> if verified_sha256 \<noteq> None then Inl (Conflict OnlyVerifiedDigest) else Inr None)"

definition find_file :: "TransferStore \<Rightarrow> string \<Rightarrow> string \<Rightarrow> FileRow option" where
  "find_file s job_id fid =
    find (\<lambda>r. flr_job_id r = job_id \<and> flr_file_id r = fid) (ts_files s)"

definition find_ledger :: "TransferStore \<Rightarrow> string \<Rightarrow> string \<Rightarrow> LedgerRow option" where
  "find_ledger s job_id fid =
    find (\<lambda>r. lgr_job_id r = job_id \<and> lgr_file_id r = fid) (ts_ledger s)"

text \<open>
  The comparison with the row that is there: an error, \<open>Inr False\<close> when the row
  already says the same, \<open>Inr True\<close> when it is to be written.
\<close>

definition ledger_guard ::
    "LedgerRow option \<Rightarrow> string \<Rightarrow> FileLedgerStatus \<Rightarrow> u64 \<Rightarrow> string option
     \<Rightarrow> PersistenceError + bool" where
  "ledger_guard row fid status confirmed digest =
    (case row of
       None \<Rightarrow> Inr True
     | Some r \<Rightarrow> (case ledger_from_db_str (lgr_status r) of
         None \<Rightarrow> Inl (Corrupt ''transfer_file_ledger'' (UnknownLedgerStatus (lgr_status r)))
       | Some stored_status \<Rightarrow> (case u64_of_column (lgr_bytes r) of
           None \<Rightarrow> Inl (Corrupt ''transfer_file_ledger'' (NegativeCheckpoint (lgr_bytes r)))
         | Some stored_bytes \<Rightarrow>
             if stored_status = LedgerVerified \<and>
                (status \<noteq> LedgerVerified \<or> lgr_sha256 r \<noteq> digest)
             then Inl (Conflict (VerifiedDowngrade fid))
             else if confirmed < stored_bytes
             then Inl (Conflict (MovesBackwards fid stored_bytes confirmed))
             else Inr (\<not> (stored_status = LedgerVerified \<and> lgr_sha256 r = digest \<and>
                          confirmed = stored_bytes)))))"

definition update_file_ledger ::
    "TransferStore \<Rightarrow> string \<Rightarrow> string \<Rightarrow> FileLedgerStatus \<Rightarrow> u64 \<Rightarrow> string option \<Rightarrow> string
     \<Rightarrow> PersistenceError + TransferStore" where
  "update_file_ledger s job_id fid status confirmed verified_sha256 now =
    result_bind (ok_or_else (find_file s job_id fid) (NotFound (FileNotInJob fid job_id))) (\<lambda>row.
    result_bind (ok_or_else (u64_of_column (flr_size_bytes row))
      (Corrupt ''transfer_job_files'' (NegativeSize fid (flr_size_bytes row)))) (\<lambda>expected.
    if expected < confirmed then Inl (Conflict (ExceedsExpected fid confirmed expected))
    else
    result_bind (ledger_digest status verified_sha256) (\<lambda>digest.
    result_bind (ledger_guard (find_ledger s job_id fid) fid status confirmed digest) (\<lambda>dirty.
    if \<not> dirty then Inr s
    else
    result_bind (checked_i64 confirmed ''bytes_confirmed'') (\<lambda>col.
    result_bind (sql_update ledger_check
        (\<lambda>r. lgr_job_id r = job_id \<and> lgr_file_id r = fid)
        (\<lambda>r. r\<lparr>lgr_status := ledger_as_db_str status, lgr_bytes := col, lgr_sha256 := digest,
               lgr_updated_at := now\<rparr>) (ts_ledger s)) (\<lambda>rows.
    Inr (s\<lparr>ts_ledger := rows\<rparr>)))))))"

section \<open>Reassembling a specification\<close>

datatype RecoveryBlockedReason =
    MissingSpec | MissingFiles | UnknownSpecVersion | CorruptSpec | DigestMismatch | UnknownState

text \<open>The free text of a blocked record is not represented.\<close>

record RecoveryBlocked =
  rb_job_id :: string
  rb_identity :: "JobIdentity option"
  rb_reason :: RecoveryBlockedReason

definition CURRENT_JOB_SPEC_VERSION :: int where
  "CURRENT_JOB_SPEC_VERSION = 1"

definition blocked_row :: "TransferStore \<Rightarrow> string \<Rightarrow> RecoveryBlocked" where
  "blocked_row s job_id =
    \<lparr>rb_job_id = job_id, rb_identity = None,
     rb_reason = (case find_job s job_id of
         Some r \<Rightarrow> if tag_from_db_str (jr_state r) = None then UnknownState else CorruptSpec
       | None \<Rightarrow> CorruptSpec)\<rparr>"

fun load_files ::
    "FileRow list \<Rightarrow> RecoveryBlockedReason + JobFileSpec list \<times> (int \<times> string) list" where
  "load_files [] = Inr ([], [])"
| "load_files (r # rs) =
    result_bind (ok_or_else (u64_of_column (flr_size_bytes r)) CorruptSpec) (\<lambda>n.
    result_bind (map_err (\<lambda>_. CorruptSpec)
      (JobFileSpec_new (flr_file_id r) (flr_display_path r) n (flr_sha256 r))) (\<lambda>f.
    result_bind (case flr_request_index r of
         None \<Rightarrow> Inr []
       | Some i \<Rightarrow> if i < 0 then Inl CorruptSpec else Inr [(i, flr_file_id r)]) (\<lambda>own.
    result_bind (load_files rs) (\<lambda>(fs, req). Inr (f # fs, own @ req)))))"

definition load_spec_rows ::
    "(bytes \<Rightarrow> bytes) \<Rightarrow> TransferStore \<Rightarrow> StoredJob \<Rightarrow> RecoveryBlockedReason + JobSpec" where
  "load_spec_rows sha256 s job =
    result_bind (ok_or_else (find (\<lambda>r. spr_job_id r = sj_job_id job) (ts_specs s)) MissingSpec)
      (\<lambda>row.
    if spr_version row \<noteq> CURRENT_JOB_SPEC_VERSION then Inl UnknownSpecVersion
    else
    result_bind (if spr_full_session row = 0 then Inr False
                 else if spr_full_session row = 1 then Inr True
                 else Inl CorruptSpec) (\<lambda>full_session.
    let rows = sort_key flr_inventory_index
                 (filter (\<lambda>f. flr_job_id f = sj_job_id job) (ts_files s)) in
    if rows = [] then Inl MissingFiles
    else
    result_bind (load_files rows) (\<lambda>(session_files, requested).
    if requested = [] then Inl MissingFiles
    else
    let requested_ids = map snd (sort_key fst requested) in
    result_bind (map_err (\<lambda>_. CorruptSpec) (PublicationMaterial_new (spr_revision row)
      (spr_payload row) (spr_signature row) (spr_public_key row))) (\<lambda>publication.
    result_bind (map_err (\<lambda>_. CorruptSpec) (JobSpec_new (sj_identity job) publication
      session_files requested_ids full_session (spr_date_label row))) (\<lambda>spec.
    if request_digest sha256 spec \<noteq> sj_request_digest job then Inl DigestMismatch
    else Inr spec)))))"

definition load_spec ::
    "(bytes \<Rightarrow> bytes) \<Rightarrow> TransferStore \<Rightarrow> StoredJob \<Rightarrow> RecoveryBlocked + JobSpec" where
  "load_spec sha256 s job =
    map_err (\<lambda>reason. \<lparr>rb_job_id = sj_job_id job, rb_identity = Some (sj_identity job),
                       rb_reason = reason\<rparr>) (load_spec_rows sha256 s job)"

datatype JobSpecLoadError =
    UnknownSpecJob string | SpecBlocked RecoveryBlocked | SpecPersistence PersistenceError

definition job_spec :: "(bytes \<Rightarrow> bytes) \<Rightarrow> TransferStore \<Rightarrow> string \<Rightarrow> JobSpecLoadError + JobSpec" where
  "job_spec sha256 s job_id =
    (case read_job s job_id of
       Inl e \<Rightarrow> Inl (SpecPersistence e)
     | Inr None \<Rightarrow> Inl (UnknownSpecJob job_id)
     | Inr (Some job) \<Rightarrow> map_err SpecBlocked (load_spec sha256 s job))"

section \<open>Listing\<close>

definition list_rows :: "(JobRow \<Rightarrow> bool) \<Rightarrow> TransferStore \<Rightarrow> JobRow list" where
  "list_rows sel s = sort_key created_key (filter sel (ts_jobs s))"

definition list_jobs :: "TransferStore \<Rightarrow> PersistenceError + StoredJob list" where
  "list_jobs s = result_collect (\<lambda>r. map_err (Corrupt ''transfer_jobs'') (read_job_row r))
     (list_rows (\<lambda>_. True) s)"

definition list_visible_jobs :: "TransferStore \<Rightarrow> PersistenceError + StoredJob list" where
  "list_visible_jobs s = result_collect (\<lambda>r. map_err (Corrupt ''transfer_jobs'') (read_job_row r))
     (list_rows (\<lambda>r. jr_dismissed_at r = None) s)"

record RecoverableJobDetail =
  rd_job :: StoredJob
  rd_spec :: JobSpec
  rd_ledger :: "FileLedgerEntry list"

datatype RecoverableJob = RecoverReady RecoverableJobDetail | RecoverBlocked RecoveryBlocked

fun recoverable_job_id :: "RecoverableJob \<Rightarrow> string" where
  "recoverable_job_id (RecoverReady d) = sj_job_id (rd_job d)"
| "recoverable_job_id (RecoverBlocked b) = rb_job_id b"

definition recoverable_row :: "JobRow \<Rightarrow> bool" where
  "recoverable_row r \<longleftrightarrow> jr_operation_kind r = ''download'' \<and> \<not> sql_terminal (jr_state r)"

definition recover_row ::
    "(bytes \<Rightarrow> bytes) \<Rightarrow> TransferStore \<Rightarrow> JobRow \<Rightarrow> PersistenceError + RecoverableJob" where
  "recover_row sha256 s r =
    (case read_job_row r of
       Inl _ \<Rightarrow> Inr (RecoverBlocked (blocked_row s (jr_job_id r)))
     | Inr job \<Rightarrow> (case load_spec sha256 s job of
         Inl b \<Rightarrow> Inr (RecoverBlocked b)
       | Inr spec \<Rightarrow> (case read_ledger s (sj_job_id job) of
           Inl e \<Rightarrow> Inl e
         | Inr ledger \<Rightarrow> Inr (RecoverReady \<lparr>rd_job = job, rd_spec = spec, rd_ledger = ledger\<rparr>))))"

definition list_recoverable_jobs ::
    "(bytes \<Rightarrow> bytes) \<Rightarrow> TransferStore \<Rightarrow> PersistenceError + RecoverableJob list" where
  "list_recoverable_jobs sha256 s =
    result_collect (recover_row sha256 s) (list_rows recoverable_row s)"

end
