(* ===== verification/Store_Jobs.thy ===== *)
theory Store_Jobs
  imports Transfer_Store
begin

text \<open>
  Creation and completion of a durable job (\<open>persistence/transfer_store.rs\<close>):
  \<open>create_job\<close> writes identity, specification, files and ledger in one
  transaction, \<open>complete_job\<close> the terminal state with its completion outbox row.
  The crash points the sources have inside both transactions for their tests are
  the \<open>abort\<close> argument.
\<close>

section \<open>Creating a job\<close>

datatype mismatch =
    UnusableStored RecoveryBlockedReason
  | PublicationDiffers
  | FullSessionDiffers bool bool
  | InventoryLengthDiffers nat nat
  | InventoryEntryDiffers JobFileSpec JobFileSpec
  | PlanDiffers "string list" "string list"
  | DigestsDiffer

record JobRequestConflict =
  rc_job_id :: string
  rc_identity :: JobIdentity
  rc_existing_digest :: bytes
  rc_requested_digest :: bytes
  rc_detail :: mismatch

datatype CreateJobError =
    RequestDigestMismatch JobRequestConflict
  | JobIdCollision string JobIdentity
  | CreatePersistence PersistenceError

datatype CreateJobOutcome = Created StoredJob | Existing StoredJob

fun created_job :: "CreateJobOutcome \<Rightarrow> StoredJob" where
  "created_job (Created j) = j"
| "created_job (Existing j) = j"

fun was_created :: "CreateJobOutcome \<Rightarrow> bool" where
  "was_created (Created j) = True"
| "was_created (Existing j) = False"

datatype CreateJobAbort = AfterJobRow | AfterSpecRow | AfterFiles | AfterLedger

definition abort_if :: "CreateJobAbort option \<Rightarrow> CreateJobAbort \<Rightarrow> CreateJobError + unit" where
  "abort_if abort stage =
    (if abort = Some stage then Inl (CreatePersistence (Conflict SimulatedCrash)) else Inr ())"

definition first_difference ::
    "JobFileSpec list \<Rightarrow> JobFileSpec list \<Rightarrow> (JobFileSpec \<times> JobFileSpec) option" where
  "first_difference xs ys = find (\<lambda>(x, y). x \<noteq> y) (zip xs ys)"

definition describe_digest_mismatch ::
    "(bytes \<Rightarrow> bytes) \<Rightarrow> TransferStore \<Rightarrow> StoredJob \<Rightarrow> JobSpec \<Rightarrow> mismatch" where
  "describe_digest_mismatch sha256 s existing spec =
    (case load_spec sha256 s existing of
       Inl b \<Rightarrow> UnusableStored (rb_reason b)
     | Inr stored \<Rightarrow>
         if js_publication stored \<noteq> js_publication spec then PublicationDiffers
         else if js_full_session stored \<noteq> js_full_session spec
         then FullSessionDiffers (js_full_session stored) (js_full_session spec)
         else if length (js_session_files stored) \<noteq> length (js_session_files spec)
         then InventoryLengthDiffers (length (js_session_files stored))
                (length (js_session_files spec))
         else (case first_difference (js_session_files stored) (js_session_files spec) of
             Some (a, b) \<Rightarrow> InventoryEntryDiffers a b
           | None \<Rightarrow>
               let stored_plan = map jf_file_id (requested_files stored);
                   new_plan = map jf_file_id (requested_files spec) in
               if stored_plan \<noteq> new_plan then PlanDiffers stored_plan new_plan
               else DigestsDiffer))"

definition new_job_row ::
    "string \<Rightarrow> OperationKind \<Rightarrow> string \<Rightarrow> JobIdentity \<Rightarrow> bytes \<Rightarrow> string \<Rightarrow> JobRow" where
  "new_job_row job_id kind key i digest now =
    \<lparr>jr_job_id = job_id, jr_operation_kind = kind_as_db_str kind, jr_natural_key = key,
     jr_device_id = ji_device_id i, jr_session_id = ji_session_id i,
     jr_revision = ji_revision i, jr_request_digest = RequestDigest_to_hex digest,
     jr_state = ''queued'', jr_state_version = 1, jr_desired = ''run'',
     jr_error_code = None, jr_error_retryable = None, jr_created_at = now,
     jr_updated_at = now, jr_dismissed_at = None\<rparr>"

definition new_spec_row :: "string \<Rightarrow> JobSpec \<Rightarrow> SpecRow" where
  "new_spec_row job_id spec =
    \<lparr>spr_job_id = job_id, spr_version = CURRENT_JOB_SPEC_VERSION,
     spr_full_session = (if js_full_session spec then 1 else 0),
     spr_date_label = js_date_label spec,
     spr_revision = pm_revision (js_publication spec),
     spr_payload = pm_payload (js_publication spec),
     spr_signature = pm_signature (js_publication spec),
     spr_public_key = pm_public_key (js_publication spec)\<rparr>"

definition new_file_row ::
    "string \<Rightarrow> JobSpec \<Rightarrow> nat \<times> JobFileSpec \<Rightarrow> PersistenceError + FileRow" where
  "new_file_row job_id spec p =
    result_bind (case request_position spec (jf_file_id (snd p)) of
         None \<Rightarrow> Inr None
       | Some i \<Rightarrow> result_bind (checked_i64 (of_nat i) ''request_index'') (\<lambda>c. Inr (Some c)))
      (\<lambda>request_index.
    result_bind (checked_i64 (of_nat (fst p)) ''inventory_index'') (\<lambda>inventory_index.
    result_bind (checked_i64 (jf_size_bytes (snd p)) ''size_bytes'') (\<lambda>size_bytes.
    Inr \<lparr>flr_job_id = job_id, flr_inventory_index = inventory_index,
         flr_request_index = request_index, flr_file_id = jf_file_id (snd p),
         flr_display_path = jf_display_path (snd p), flr_size_bytes = size_bytes,
         flr_sha256 = jf_sha256 (snd p)\<rparr>)))"

definition new_ledger_row :: "string \<Rightarrow> string \<Rightarrow> JobFileSpec \<Rightarrow> LedgerRow" where
  "new_ledger_row job_id now f =
    \<lparr>lgr_job_id = job_id, lgr_file_id = jf_file_id f,
     lgr_status = ledger_as_db_str LedgerMissing, lgr_bytes = 0, lgr_sha256 = None,
     lgr_updated_at = now\<rparr>"

text \<open>
  The file loop converts and inserts one file after the other; an error of either
  kind ends the transaction.
\<close>

fun insert_files ::
    "string \<Rightarrow> JobSpec \<Rightarrow> (nat \<times> JobFileSpec) list \<Rightarrow> FileRow list
     \<Rightarrow> PersistenceError + FileRow list" where
  "insert_files job_id spec [] rows = Inr rows"
| "insert_files job_id spec (p # ps) rows =
    result_bind (new_file_row job_id spec p) (\<lambda>r.
    result_bind (sql_insert file_check file_clash r rows) (insert_files job_id spec ps))"

definition insert_job_tx ::
    "(bytes \<Rightarrow> bytes) \<Rightarrow> TransferStore \<Rightarrow> string \<Rightarrow> JobSpec \<Rightarrow> string \<Rightarrow> CreateJobAbort option
     \<Rightarrow> CreateJobError + CreateJobOutcome \<times> TransferStore" where
  "insert_job_tx sha256 s job_id spec now abort =
    result_bind (map_err CreatePersistence (read_latest_job_by_identity s (js_identity spec)))
      (\<lambda>latest.
    case latest of
      Some existing \<Rightarrow>
        if sj_request_digest existing = request_digest sha256 spec then Inr (Existing existing, s)
        else Inl (RequestDigestMismatch
          \<lparr>rc_job_id = sj_job_id existing, rc_identity = sj_identity existing,
           rc_existing_digest = sj_request_digest existing,
           rc_requested_digest = request_digest sha256 spec,
           rc_detail = describe_digest_mismatch sha256 s existing spec\<rparr>)
    | None \<Rightarrow>
        result_bind (map_err CreatePersistence (read_job s job_id)) (\<lambda>taken.
        case taken of
          Some existing \<Rightarrow> Inl (JobIdCollision job_id (sj_identity existing))
        | None \<Rightarrow>
            result_bind (map_err CreatePersistence (sql_insert job_check job_clash
                (new_job_row job_id Download (natural_key (js_identity spec)) (js_identity spec)
                   (request_digest sha256 spec) now) (ts_jobs s))) (\<lambda>jobs.
            result_bind (abort_if abort AfterJobRow) (\<lambda>_.
            result_bind (map_err CreatePersistence (sql_insert spec_check spec_clash
                (new_spec_row job_id spec) (ts_specs s))) (\<lambda>specs.
            result_bind (abort_if abort AfterSpecRow) (\<lambda>_.
            result_bind (map_err CreatePersistence (insert_files job_id spec
                (zip [0..<length (js_session_files spec)] (js_session_files spec)) (ts_files s)))
              (\<lambda>files.
            result_bind (abort_if abort AfterFiles) (\<lambda>_.
            result_bind (map_err CreatePersistence (sql_insert_all ledger_check ledger_clash
                (map (new_ledger_row job_id now) (requested_files spec)) (ts_ledger s)))
              (\<lambda>ledger.
            result_bind (abort_if abort AfterLedger) (\<lambda>_.
            let s' = s\<lparr>ts_jobs := jobs, ts_specs := specs, ts_files := files,
                       ts_ledger := ledger\<rparr> in
            result_bind (map_err CreatePersistence (read_job s' job_id)) (\<lambda>row.
            case row of
              None \<Rightarrow> Inl (CreatePersistence (NotFound (Vanished job_id)))
            | Some job \<Rightarrow> Inr (Created job, s')))))))))))) "

definition create_job ::
    "(bytes \<Rightarrow> bytes) \<Rightarrow> TransferStore \<Rightarrow> string \<Rightarrow> JobSpec \<Rightarrow> string
     \<Rightarrow> CreateJobError + CreateJobOutcome \<times> TransferStore" where
  "create_job sha256 s job_id spec now = insert_job_tx sha256 s job_id spec now None"

section \<open>Completing a job\<close>

datatype CompleteJobError =
    UnknownJob string
  | CompleteAlreadyTerminal string TerminalOutcome TerminalOutcome
  | CompletePersistence PersistenceError

datatype CompleteJobOutcome = Recorded CompletionRecord | AlreadyRecorded CompletionRecord

fun completion_of :: "CompleteJobOutcome \<Rightarrow> CompletionRecord" where
  "completion_of (Recorded c) = c"
| "completion_of (AlreadyRecorded c) = c"

fun was_recorded :: "CompleteJobOutcome \<Rightarrow> bool" where
  "was_recorded (Recorded c) = True"
| "was_recorded (AlreadyRecorded c) = False"

datatype CompleteJobAbort = AfterStateUpdate | AfterOutboxRow

definition abort_completion_if ::
    "CompleteJobAbort option \<Rightarrow> CompleteJobAbort \<Rightarrow> CompleteJobError + unit" where
  "abort_completion_if abort stage =
    (if abort = Some stage then Inl (CompletePersistence (Conflict SimulatedCrash)) else Inr ())"

definition new_outbox_row ::
    "int \<Rightarrow> string \<Rightarrow> string \<Rightarrow> TerminalOutcome \<Rightarrow> int \<Rightarrow> string \<Rightarrow> OutboxRow" where
  "new_outbox_row sequence job_id kind oc version now =
    \<lparr>obr_sequence = sequence, obr_job_id = job_id, obr_operation_kind = kind,
     obr_outcome = outcome_as_db_str oc, obr_error_code = fst (error_columns oc),
     obr_error_retryable = snd (error_columns oc), obr_state_version = version,
     obr_recorded_at = now, obr_acknowledged_at = None\<rparr>"

definition insert_outbox_row ::
    "TransferStore \<Rightarrow> string \<Rightarrow> TerminalOutcome \<Rightarrow> u64 \<Rightarrow> string
     \<Rightarrow> PersistenceError + CompletionRecord \<times> TransferStore" where
  "insert_outbox_row s job_id oc version now =
    result_bind (ok_or_else (find_job s job_id) (Sqlite NoRows)) (\<lambda>job.
    result_bind (checked_i64 version ''state_version'') (\<lambda>col.
    if int i64_max < ts_next_sequence s then Inl (Sqlite Full)
    else
    result_bind (sql_insert outbox_check outbox_clash
        (new_outbox_row (ts_next_sequence s) job_id (jr_operation_kind job) oc col now)
        (ts_outbox s)) (\<lambda>rows.
    let s' = s\<lparr>ts_outbox := rows, ts_next_sequence := ts_next_sequence s + 1\<rparr> in
    result_bind (read_completion s' job_id) (\<lambda>found.
    case found of
      None \<Rightarrow> Inl (NotFound (Vanished job_id))
    | Some c \<Rightarrow> Inr (c, s')))))"

definition ended_as :: "JobStateTag \<Rightarrow> (string \<times> bool) option \<Rightarrow> TerminalOutcome option" where
  "ended_as st err =
    (case (st, err) of
       (TagSucceeded, _) \<Rightarrow> Some OutcomeSucceeded
     | (TagCancelled, _) \<Rightarrow> Some OutcomeCancelled
     | (TagFailed, Some (code, retryable)) \<Rightarrow> Some (OutcomeFailed code retryable)
     | _ \<Rightarrow> None)"

definition complete_job_inner ::
    "TransferStore \<Rightarrow> string \<Rightarrow> TerminalOutcome \<Rightarrow> string \<Rightarrow> CompleteJobAbort option
     \<Rightarrow> CompleteJobError + CompleteJobOutcome \<times> TransferStore" where
  "complete_job_inner s job_id oc now abort =
    result_bind (map_err CompletePersistence (read_job s job_id)) (\<lambda>row.
    case row of
      None \<Rightarrow> Inl (UnknownJob job_id)
    | Some job \<Rightarrow>
        result_bind (map_err CompletePersistence (read_completion s job_id)) (\<lambda>found.
        case found of
          Some existing \<Rightarrow>
            if cr_outcome existing = oc then Inr (AlreadyRecorded existing, s)
            else Inl (CompleteAlreadyTerminal job_id (cr_outcome existing) oc)
        | None \<Rightarrow>
            if tag_is_terminal (sj_state job) then
              (case ended_as (sj_state job) (sj_error job) of
                 None \<Rightarrow> Inl (CompletePersistence
                   (Corrupt ''transfer_jobs'' (TerminalWithoutError job_id (sj_state job))))
               | Some existing \<Rightarrow>
                   if existing = oc then
                     result_bind (map_err CompletePersistence
                         (insert_outbox_row s job_id oc (sj_state_version job) now))
                       (\<lambda>(c, s'). Inr (Recorded c, s'))
                   else Inl (CompleteAlreadyTerminal job_id existing oc))
            else
              result_bind (ok_or_else (checked_add (sj_state_version job) 1)
                  (CompletePersistence (Conflict (VersionExhausted job_id)))) (\<lambda>next_version.
              result_bind (map_err CompletePersistence
                  (checked_i64 next_version ''state_version'')) (\<lambda>col.
              result_bind (map_err CompletePersistence
                  (update_jobs (\<lambda>r. jr_job_id r = job_id)
                    (transition_row (outcome_as_db_str oc) col (error_columns oc) now) s)) (\<lambda>s1.
              result_bind (abort_completion_if abort AfterStateUpdate) (\<lambda>_.
              result_bind (map_err CompletePersistence
                  (insert_outbox_row s1 job_id oc next_version now)) (\<lambda>(c, s2).
              result_bind (abort_completion_if abort AfterOutboxRow) (\<lambda>_.
              Inr (Recorded c, s2)))))))))"

definition complete_job ::
    "TransferStore \<Rightarrow> string \<Rightarrow> TerminalOutcome \<Rightarrow> string
     \<Rightarrow> CompleteJobError + CompleteJobOutcome \<times> TransferStore" where
  "complete_job s job_id oc now = complete_job_inner s job_id oc now None"

definition pending_completions :: "TransferStore \<Rightarrow> PersistenceError + CompletionRecord list" where
  "pending_completions s = read_completions s True"

definition all_completions :: "TransferStore \<Rightarrow> PersistenceError + CompletionRecord list" where
  "all_completions s = read_completions s False"

datatype AckOutcome =
    Acknowledged CompletionRecord
  | AlreadyAcknowledged CompletionRecord
  | Unknown

definition acknowledge_completion ::
    "TransferStore \<Rightarrow> string \<Rightarrow> string \<Rightarrow> PersistenceError + AckOutcome \<times> TransferStore" where
  "acknowledge_completion s job_id now =
    result_bind (read_completion s job_id) (\<lambda>found.
    case found of
      None \<Rightarrow> Inr (Unknown, s)
    | Some existing \<Rightarrow>
        if is_acknowledged existing then Inr (AlreadyAcknowledged existing, s)
        else
          result_bind (sql_update outbox_check (\<lambda>r. obr_job_id r = job_id)
              (\<lambda>r. r\<lparr>obr_acknowledged_at := Some now\<rparr>) (ts_outbox s)) (\<lambda>rows.
          let s' = s\<lparr>ts_outbox := rows\<rparr> in
          result_bind (read_completion s' job_id) (\<lambda>again.
          case again of
            None \<Rightarrow> Inl (NotFound (Vanished job_id))
          | Some c \<Rightarrow> Inr (Acknowledged c, s'))))"

end
