(* ===== verification/Store_Retry.thy ===== *)
theory Store_Retry
  imports Store_Jobs
begin

text \<open>
  What happens to a job after its end (\<open>persistence/transfer_store.rs\<close>): a
  retry is a new child row with its lineage, a dismissal is a tombstone, a
  deletion cascades over the dependent tables, a retargeted job moves to a new
  identifier.  Foreign keys are checked where the sources rely on them: the
  lineage of a parent restricts its deletion, and every reference to a moved
  identifier that did not move with it fails the commit.
\<close>

section \<open>Retrying\<close>

datatype RetryJobError =
    RetryUnknownJob string
  | NotRetryable string
  | DismissedParent string
  | UnacknowledgedParent string
  | SuccessfulDescendant string string
  | RetryIdCollision string
  | RetryPersistence PersistenceError

datatype RetryJobOutcome = RetryCreated StoredJob | RetryExisting StoredJob

fun retry_job_of :: "RetryJobOutcome \<Rightarrow> StoredJob" where
  "retry_job_of (RetryCreated j) = j"
| "retry_job_of (RetryExisting j) = j"

fun retry_was_created :: "RetryJobOutcome \<Rightarrow> bool" where
  "retry_was_created (RetryCreated j) = True"
| "retry_was_created (RetryExisting j) = False"

text \<open>The joined lineage of a parent, in attempt order.\<close>

definition retry_children :: "TransferStore \<Rightarrow> string \<Rightarrow> LineageRow list" where
  "retry_children s parent_job_id =
    sort_key lnr_attempt (filter (\<lambda>l. lnr_parent l = parent_job_id \<and>
      find_job s (lnr_child l) \<noteq> None) (ts_lineage s))"

definition latest_retry_child :: "TransferStore \<Rightarrow> string \<Rightarrow> PersistenceError + StoredJob option" where
  "latest_retry_child s parent_job_id =
    (case last_option (sort_key lnr_attempt
        (filter (\<lambda>l. lnr_parent l = parent_job_id) (ts_lineage s))) of
       None \<Rightarrow> Inr None
     | Some l \<Rightarrow> read_job s (lnr_child l))"

definition successful_child :: "TransferStore \<Rightarrow> string \<Rightarrow> LineageRow option" where
  "successful_child s parent_job_id =
    last_option (filter (\<lambda>l. case find_job s (lnr_child l) of
        None \<Rightarrow> False | Some r \<Rightarrow> jr_state r = ''succeeded'') (retry_children s parent_job_id))"

definition retryable_failed :: "StoredJob \<Rightarrow> bool" where
  "retryable_failed parent \<longleftrightarrow> sj_state parent = TagFailed \<and>
    (case sj_error parent of None \<Rightarrow> False | Some (code, retryable) \<Rightarrow> retryable)"

text \<open>The guards a parent has to pass before any child is looked at.\<close>

definition retry_guard ::
    "TransferStore \<Rightarrow> string \<Rightarrow> bool \<Rightarrow> RetryJobError + StoredJob" where
  "retry_guard s parent_job_id allow_cancelled_upload =
    result_bind (map_err RetryPersistence (read_job s parent_job_id)) (\<lambda>row.
    case row of
      None \<Rightarrow> Inl (RetryUnknownJob parent_job_id)
    | Some parent \<Rightarrow>
        if sj_dismissed_at parent \<noteq> None then Inl (DismissedParent parent_job_id)
        else if \<not> retryable_failed parent \<and>
             \<not> (allow_cancelled_upload \<and> sj_operation_kind parent = Upload \<and>
                sj_state parent = TagCancelled)
        then Inl (NotRetryable parent_job_id)
        else
          result_bind (map_err RetryPersistence (read_completion s parent_job_id)) (\<lambda>found.
          case found of
            None \<Rightarrow> Inl (UnacknowledgedParent parent_job_id)
          | Some c \<Rightarrow>
              if \<not> is_acknowledged c then Inl (UnacknowledgedParent parent_job_id)
              else if sj_operation_kind parent = Upload
              then (case successful_child s parent_job_id of
                  Some l \<Rightarrow> Inl (SuccessfulDescendant parent_job_id (lnr_child l))
                | None \<Rightarrow> Inr parent)
              else Inr parent))"

definition length_prefixed_key_for_retry :: "string \<Rightarrow> string \<Rightarrow> string" where
  "length_prefixed_key_for_retry entry_key revision = key_part entry_key @ key_part revision"

text \<open>The rows a retry copies from its parent.\<close>

definition copy_specs :: "string \<Rightarrow> string \<Rightarrow> SpecRow list \<Rightarrow> SpecRow list" where
  "copy_specs parent child rows =
    map (\<lambda>r. r\<lparr>spr_job_id := child\<rparr>) (filter (\<lambda>r. spr_job_id r = parent) rows)"

definition copy_files :: "string \<Rightarrow> string \<Rightarrow> FileRow list \<Rightarrow> FileRow list" where
  "copy_files parent child rows =
    map (\<lambda>r. r\<lparr>flr_job_id := child\<rparr>) (filter (\<lambda>r. flr_job_id r = parent) rows)"

definition copy_ledger :: "string \<Rightarrow> string \<Rightarrow> string \<Rightarrow> LedgerRow list \<Rightarrow> LedgerRow list" where
  "copy_ledger parent child now rows =
    map (\<lambda>r. r\<lparr>lgr_job_id := child, lgr_updated_at := now\<rparr>)
      (filter (\<lambda>r. lgr_job_id r = parent) rows)"

definition insert_lineage ::
    "TransferStore \<Rightarrow> string \<Rightarrow> string \<Rightarrow> int \<Rightarrow> string \<Rightarrow> PersistenceError + TransferStore" where
  "insert_lineage s child parent attempt now =
    result_bind (sql_insert lineage_check lineage_clash
      \<lparr>lnr_child = child, lnr_parent = parent, lnr_attempt = attempt, lnr_created_at = now\<rparr>
      (ts_lineage s)) (\<lambda>rows. Inr (s\<lparr>ts_lineage := rows\<rparr>))"

definition spawn_download ::
    "TransferStore \<Rightarrow> StoredJob \<Rightarrow> string \<Rightarrow> string \<Rightarrow> int \<Rightarrow> string
     \<Rightarrow> PersistenceError + TransferStore" where
  "spawn_download s parent parent_job_id child attempt now =
    result_bind (sql_insert job_check job_clash
        (new_job_row child Download (natural_key (sj_identity parent) @ ''#retry:'' @ child)
           (sj_identity parent) (sj_request_digest parent) now) (ts_jobs s)) (\<lambda>jobs.
    result_bind (sql_insert_all spec_check spec_clash
        (copy_specs parent_job_id child (ts_specs s)) (ts_specs s)) (\<lambda>specs.
    result_bind (sql_insert_all file_check file_clash
        (copy_files parent_job_id child (ts_files s)) (ts_files s)) (\<lambda>files.
    result_bind (sql_insert_all ledger_check ledger_clash
        (copy_ledger parent_job_id child now (ts_ledger s)) (ts_ledger s)) (\<lambda>ledger.
    insert_lineage (s\<lparr>ts_jobs := jobs, ts_specs := specs, ts_files := files,
      ts_ledger := ledger\<rparr>) child parent_job_id attempt now))))"

definition spawn_upload ::
    "TransferStore \<Rightarrow> StoredJob \<Rightarrow> string \<Rightarrow> string \<Rightarrow> int \<Rightarrow> string
     \<Rightarrow> PersistenceError + TransferStore" where
  "spawn_upload s parent parent_job_id child attempt now =
    result_bind (ok_or_else (find (\<lambda>r. usr_job_id r = parent_job_id) (ts_upload_specs s))
      (Corrupt ''transfer_upload_job_specs'' (NoUploadSpec parent_job_id))) (\<lambda>spec.
    result_bind (sql_insert job_check job_clash
        (new_job_row child Upload (''upload:'' @
             length_prefixed_key_for_retry (usr_entry_key spec) (usr_revision spec) @
             ''#retry:'' @ child)
           (sj_identity parent) (sj_request_digest parent) now) (ts_jobs s)) (\<lambda>jobs.
    result_bind (sql_insert (\<lambda>_. True) (\<lambda>a b. usr_job_id a = usr_job_id b)
        (spec\<lparr>usr_job_id := child\<rparr>) (ts_upload_specs s)) (\<lambda>upload_specs.
    result_bind (ok_or_else (find (\<lambda>r. acr_job_id r = parent_job_id) (ts_activity s))
      (Corrupt ''transfer_upload_activity'' (NoUploadActivity parent_job_id))) (\<lambda>act.
    result_bind (sql_insert (\<lambda>_. True) (\<lambda>a b. acr_job_id a = acr_job_id b)
        (act\<lparr>acr_job_id := child, acr_confirmed_bytes := 0, acr_created_at := now,
             acr_updated_at := now\<rparr>) (ts_activity s)) (\<lambda>activity.
    insert_lineage (s\<lparr>ts_jobs := jobs, ts_upload_specs := upload_specs,
      ts_activity := activity\<rparr>) child parent_job_id attempt now)))))"

definition next_attempt :: "string \<Rightarrow> LineageRow option \<Rightarrow> RetryJobError + int" where
  "next_attempt parent_job_id previous =
    (case previous of
       None \<Rightarrow> Inr 1
     | Some l \<Rightarrow>
         if lnr_attempt l < int i64_max then Inr (lnr_attempt l + 1)
         else Inl (RetryPersistence (Conflict (AttemptExhausted parent_job_id))))"

text \<open>The newest child, when it can still run.\<close>

definition live_child ::
    "TransferStore \<Rightarrow> LineageRow option \<Rightarrow> PersistenceError + StoredJob option" where
  "live_child s previous =
    (case previous of
       None \<Rightarrow> Inr None
     | Some l \<Rightarrow> result_bind (read_job s (lnr_child l)) (\<lambda>row.
         case row of
           None \<Rightarrow> Inr None
         | Some j \<Rightarrow> Inr (if tag_is_terminal (sj_state j) then None else Some j)))"

definition spawn_retry_job_inner ::
    "TransferStore \<Rightarrow> string \<Rightarrow> string \<Rightarrow> string \<Rightarrow> bool
     \<Rightarrow> RetryJobError + RetryJobOutcome \<times> TransferStore" where
  "spawn_retry_job_inner s parent_job_id child now allow_cancelled_upload =
    result_bind (retry_guard s parent_job_id allow_cancelled_upload) (\<lambda>parent.
    result_bind (map_err RetryPersistence (read_job s child)) (\<lambda>taken.
    case taken of
      Some existing \<Rightarrow>
        if list_ex (\<lambda>l. lnr_child l = child \<and> lnr_parent l = parent_job_id) (ts_lineage s)
        then Inr (RetryExisting existing, s)
        else Inl (RetryIdCollision child)
    | None \<Rightarrow>
        let previous = last_option (retry_children s parent_job_id) in
        result_bind (map_err RetryPersistence (live_child s previous)) (\<lambda>live.
        case live of
          Some j \<Rightarrow> Inr (RetryExisting j, s)
        | None \<Rightarrow>
            result_bind (next_attempt parent_job_id previous) (\<lambda>attempt.
            result_bind (map_err RetryPersistence
              ((if sj_operation_kind parent = Upload then spawn_upload else spawn_download)
                 s parent parent_job_id child attempt now)) (\<lambda>s'.
            result_bind (map_err RetryPersistence (read_job s' child)) (\<lambda>row.
            case row of
              None \<Rightarrow> Inl (RetryPersistence (NotFound (Vanished child)))
            | Some j \<Rightarrow> Inr (RetryCreated j, s')))))))"

definition spawn_retry_job ::
    "TransferStore \<Rightarrow> string \<Rightarrow> string \<Rightarrow> string
     \<Rightarrow> RetryJobError + RetryJobOutcome \<times> TransferStore" where
  "spawn_retry_job s parent_job_id child now = spawn_retry_job_inner s parent_job_id child now False"

definition spawn_upload_retry_job ::
    "TransferStore \<Rightarrow> string \<Rightarrow> string \<Rightarrow> string
     \<Rightarrow> RetryJobError + RetryJobOutcome \<times> TransferStore" where
  "spawn_upload_retry_job s parent_job_id child now =
    spawn_retry_job_inner s parent_job_id child now True"

definition retry_parent :: "TransferStore \<Rightarrow> string \<Rightarrow> PersistenceError + RetryLineageRecord option" where
  "retry_parent s child =
    (case find (\<lambda>l. lnr_child l = child) (ts_lineage s) of
       None \<Rightarrow> Inr None
     | Some l \<Rightarrow> (case u64_of_column (lnr_attempt l) of
         None \<Rightarrow> Inl (Corrupt ''transfer_job_lineage'' (NegativeAttempt (lnr_attempt l)))
       | Some a \<Rightarrow> Inr (Some \<lparr>rl_parent = lnr_parent l, rl_child = lnr_child l, rl_attempt = a,
                             rl_created_at = lnr_created_at l\<rparr>)))"

section \<open>Dismissing\<close>

datatype DismissJobError =
    DismissUnknownJob string
  | NotTerminal string string
  | Unacknowledged string
  | PendingMultipart string
  | DismissPersistence PersistenceError

definition pending_upload :: "TransferStore \<Rightarrow> string \<Rightarrow> UploadRow \<Rightarrow> bool" where
  "pending_upload s job_id u \<longleftrightarrow>
    upr_job_id u = Some job_id \<or>
    upr_job_id u = None \<and>
      (upr_transfer_key u = job_id \<or>
       (case find (\<lambda>r. usr_job_id r = job_id) (ts_upload_specs s) of
          None \<Rightarrow> False
        | Some r \<Rightarrow> usr_entry_key r \<noteq> [] \<and> upr_entry_key u = usr_entry_key r))"

definition dismiss_job ::
    "TransferStore \<Rightarrow> string \<Rightarrow> string \<Rightarrow> DismissJobError + bool \<times> TransferStore" where
  "dismiss_job s job_id now =
    result_bind (map_err DismissPersistence (read_job s job_id)) (\<lambda>row.
    case row of
      None \<Rightarrow> Inl (DismissUnknownJob job_id)
    | Some job \<Rightarrow>
        if sj_dismissed_at job \<noteq> None then Inr (False, s)
        else if \<not> tag_is_terminal (sj_state job)
        then Inl (NotTerminal job_id (tag_as_db_str (sj_state job)))
        else
          result_bind (map_err DismissPersistence (read_completion s job_id)) (\<lambda>found.
          case found of
            None \<Rightarrow> Inl (Unacknowledged job_id)
          | Some c \<Rightarrow>
              if \<not> is_acknowledged c then Inl (Unacknowledged job_id)
              else if sj_operation_kind job = Upload \<and> list_ex (pending_upload s job_id) (ts_uploads s)
              then Inl (PendingMultipart job_id)
              else
                let sel = (\<lambda>r. jr_job_id r = job_id \<and> jr_dismissed_at r = None) in
                result_bind (map_err DismissPersistence (update_jobs sel
                    (\<lambda>r. r\<lparr>jr_dismissed_at := Some now, jr_updated_at := now\<rparr>) s)) (\<lambda>s'.
                Inr (changed_rows sel (ts_jobs s) > 0, s'))))"

section \<open>Deleting and retargeting\<close>

definition delete_rows :: "string \<Rightarrow> TransferStore \<Rightarrow> TransferStore" where
  "delete_rows job_id s =
    s\<lparr>ts_jobs := filter (\<lambda>r. jr_job_id r \<noteq> job_id) (ts_jobs s),
      ts_specs := filter (\<lambda>r. spr_job_id r \<noteq> job_id) (ts_specs s),
      ts_files := filter (\<lambda>r. flr_job_id r \<noteq> job_id) (ts_files s),
      ts_ledger := filter (\<lambda>r. lgr_job_id r \<noteq> job_id) (ts_ledger s),
      ts_outbox := filter (\<lambda>r. obr_job_id r \<noteq> job_id) (ts_outbox s),
      ts_lineage := filter (\<lambda>r. lnr_child r \<noteq> job_id) (ts_lineage s),
      ts_upload_specs := filter (\<lambda>r. usr_job_id r \<noteq> job_id) (ts_upload_specs s),
      ts_uploads := filter (\<lambda>r. upr_job_id r \<noteq> Some job_id) (ts_uploads s),
      ts_activity := filter (\<lambda>r. acr_job_id r \<noteq> job_id) (ts_activity s)\<rparr>"

definition delete_job ::
    "TransferStore \<Rightarrow> string \<Rightarrow> PersistenceError + bool \<times> TransferStore" where
  "delete_job s job_id =
    result_bind (read_completion s job_id) (\<lambda>found.
    if (case found of None \<Rightarrow> False | Some c \<Rightarrow> \<not> is_acknowledged c)
    then Inl (Conflict (UnacknowledgedOutcome job_id))
    else if find_job s job_id = None then Inr (False, s)
    else if list_ex (\<lambda>l. lnr_parent l = job_id) (ts_lineage s)
    then Inl (Sqlite ForeignKeyFailed)
    else Inr (True, delete_rows job_id s))"

text \<open>References to an identifier that \<open>retarget_job\<close> does not move.\<close>

definition still_referenced :: "TransferStore \<Rightarrow> string \<Rightarrow> bool" where
  "still_referenced s job_id \<longleftrightarrow>
    list_ex (\<lambda>l. lnr_child l = job_id \<or> lnr_parent l = job_id) (ts_lineage s) \<or>
    list_ex (\<lambda>r. usr_job_id r = job_id) (ts_upload_specs s) \<or>
    list_ex (\<lambda>r. upr_job_id r = Some job_id) (ts_uploads s) \<or>
    list_ex (\<lambda>r. acr_job_id r = job_id) (ts_activity s)"

definition retarget_row :: "string \<Rightarrow> string \<Rightarrow> JobRow \<Rightarrow> JobRow" where
  "retarget_row new_job_id now r =
    r\<lparr>jr_job_id := new_job_id, jr_state := ''queued'', jr_state_version := jr_state_version r + 1,
      jr_error_code := None, jr_error_retryable := None, jr_dismissed_at := None,
      jr_updated_at := now\<rparr>"

definition retarget_rows :: "string \<Rightarrow> string \<Rightarrow> TransferStore \<Rightarrow> TransferStore" where
  "retarget_rows old new s =
    s\<lparr>ts_specs := map (\<lambda>r. if spr_job_id r = old then r\<lparr>spr_job_id := new\<rparr> else r) (ts_specs s),
      ts_files := map (\<lambda>r. if flr_job_id r = old then r\<lparr>flr_job_id := new\<rparr> else r) (ts_files s),
      ts_ledger := map (\<lambda>r. if lgr_job_id r = old then r\<lparr>lgr_job_id := new\<rparr> else r)
        (ts_ledger s)\<rparr>"

definition retarget_job ::
    "TransferStore \<Rightarrow> string \<Rightarrow> string \<Rightarrow> string \<Rightarrow> PersistenceError + StoredJob \<times> TransferStore" where
  "retarget_job s old new now =
    result_bind (read_job s old) (\<lambda>row.
    case row of
      None \<Rightarrow> Inl (NotFound (UnknownJobId old))
    | Some job \<Rightarrow>
        result_bind (read_job s new) (\<lambda>taken.
        case taken of
          Some other \<Rightarrow> Inl (Conflict (JobIdTaken new))
        | None \<Rightarrow>
            result_bind (read_completion s old) (\<lambda>found.
            if (case found of None \<Rightarrow> False | Some c \<Rightarrow> \<not> is_acknowledged c)
            then Inl (Conflict (UnacknowledgedOutcome old))
            else
              let s0 = (case found of
                  None \<Rightarrow> s
                | Some c \<Rightarrow> s\<lparr>ts_outbox := filter (\<lambda>r. obr_job_id r \<noteq> old) (ts_outbox s)\<rparr>) in
              result_bind (update_jobs (\<lambda>r. jr_job_id r = old) (retarget_row new now) s0) (\<lambda>s1.
              let s2 = retarget_rows old new s1 in
              result_bind (read_job s2 new) (\<lambda>moved.
              case moved of
                None \<Rightarrow> Inl (NotFound (Vanished old))
              | Some j \<Rightarrow>
                  if still_referenced s2 old then Inl (Sqlite ForeignKeyFailed)
                  else Inr (j, s2))))))"

end
