(* ===== verification/Store_Invariant.thy ===== *)
theory Store_Invariant
  imports Store_Retry
begin

text \<open>
  The invariant of the transfer database and its abstract life cycle.  A job is
  live with a state and a version, or ended with an outcome, the version of its
  last transition and a flag that says whether the outcome was acknowledged.
  Every operation of the store keeps the invariant and takes one step of the life
  cycle.
\<close>

section \<open>Lookups\<close>

lemma find_append: "find P (xs @ ys) = (case find P xs of None \<Rightarrow> find P ys | Some x \<Rightarrow> Some x)"
  by (induction xs) auto

lemma find_map_same:
  "(\<And>r. P (g r) = P r) \<Longrightarrow> find P (map g xs) = map_option g (find P xs)"
  by (induction xs) auto

lemma find_filter_absent: "find (\<lambda>r. k r = a) (filter (\<lambda>r. k r \<noteq> a) xs) = None"
  by (induction xs) auto

lemma find_filter_other:
  "a \<noteq> b \<Longrightarrow> find (\<lambda>r. k r = a) (filter (\<lambda>r. k r \<noteq> b) xs) = find (\<lambda>r. k r = a) xs"
  by (induction xs) auto

lemma find_replace_other:
  "i \<noteq> k \<Longrightarrow> f r = k \<Longrightarrow>
   find (\<lambda>x. f x = i) (map (\<lambda>x. if f x = k then r else x) xs) = find (\<lambda>x. f x = i) xs"
  by (induction xs) auto

lemma find_SomeD: "find P xs = Some r \<Longrightarrow> r \<in> set xs \<and> P r"
  by (induction xs) (auto split: if_splits)

lemma find_key_iff:
  "distinct (map k xs) \<Longrightarrow> find (\<lambda>r. k r = a) xs = Some r \<longleftrightarrow> r \<in> set xs \<and> k r = a"
  by (induction xs) (auto simp: image_iff)

lemma find_key_None_iff: "find (\<lambda>r. k r = a) xs = None \<longleftrightarrow> a \<notin> k ` set xs"
  by (auto simp: find_None_iff image_iff)

section \<open>The invariant\<close>

lemma sql_terminal_tag [simp]: "sql_terminal (tag_as_db_str t) = tag_is_terminal t"
  by (cases t) (simp_all add: sql_terminal_def)

lemma tag_from_db_str_Some: "tag_from_db_str st = Some t \<Longrightarrow> st = tag_as_db_str t"
  by (auto simp: tag_from_db_str_def split: if_splits)

lemma kind_from_db_str_Some: "kind_from_db_str v = Some k \<Longrightarrow> v = kind_as_db_str k"
  by (auto simp: kind_from_db_str_def split: if_splits)

text \<open>The outbox row of a job row: the same ending, at the version it was written with.\<close>

definition outbox_of :: "JobRow \<Rightarrow> OutboxRow \<Rightarrow> bool" where
  "outbox_of r ob \<longleftrightarrow>
    obr_job_id ob = jr_job_id r \<and> obr_outcome ob = jr_state r \<and>
    obr_state_version ob = jr_state_version r \<and> obr_error_code ob = jr_error_code r \<and>
    obr_error_retryable ob = jr_error_retryable r \<and>
    obr_operation_kind ob = jr_operation_kind r \<and> sql_terminal (jr_state r)"

definition outbox_ok :: "TransferStore \<Rightarrow> OutboxRow \<Rightarrow> bool" where
  "outbox_ok s ob \<longleftrightarrow> 1 \<le> obr_sequence ob \<and> obr_sequence ob < ts_next_sequence s \<and>
    (\<exists>r\<in>set (ts_jobs s). outbox_of r ob)"

definition store_inv :: "TransferStore \<Rightarrow> bool" where
  "store_inv s \<longleftrightarrow>
    distinct (map jr_job_id (ts_jobs s)) \<and>
    (\<forall>r\<in>set (ts_jobs s). job_row_ok r) \<and>
    distinct (map obr_job_id (ts_outbox s)) \<and>
    sorted_wrt (<) (map obr_sequence (ts_outbox s)) \<and>
    1 \<le> ts_next_sequence s \<and> ts_next_sequence s \<le> int i64_max + 1 \<and>
    (\<forall>ob\<in>set (ts_outbox s). outbox_ok s ob) \<and>
    (\<forall>r\<in>set (ts_jobs s). sql_terminal (jr_state r) \<longrightarrow>
       jr_job_id r \<in> obr_job_id ` set (ts_outbox s))"

lemma store_inv_empty: "store_inv empty_store"
  by (simp add: store_inv_def empty_store_def i64_max_def)

text \<open>
  The invariant only looks at three tables; everything the other operations write
  is irrelevant to it.
\<close>

lemma store_inv_cong:
  "ts_jobs s' = ts_jobs s \<Longrightarrow> ts_outbox s' = ts_outbox s \<Longrightarrow>
   ts_next_sequence s' = ts_next_sequence s \<Longrightarrow> store_inv s' = store_inv s"
  by (simp add: store_inv_def outbox_ok_def)

subsection \<open>Rows\<close>

lemma job_row_ok_iff: "job_row_ok r \<longleftrightarrow> job_check r \<and> (\<exists>j. read_job_row r = Inr j)"
proof (cases "read_job_row r")
  case (Inr j)
  then have "int_column (jr_state_version r)" using read_job_row_Inr [of r j] by auto
  with Inr show ?thesis by (simp add: job_row_ok_def)
qed (simp add: job_row_ok_def)

lemma job_row_ok_transition:
  assumes "job_row_ok r" "job_check (transition_row st v cols now r)" "v < 2 ^ 63"
  shows "job_row_ok (transition_row st v cols now r)"
proof -
  from assms(1) obtain j where "read_job_row r = Inr j" by (auto simp: job_row_ok_iff)
  moreover from assms(2) have "tag_from_db_str st \<noteq> None" "1 \<le> v"
    by (auto simp: job_check_def transition_row_def)
  moreover from this have "int_column v" "u64_of_column v = Some (word_of_int v)"
    using assms(3) by (auto simp: int_column_def u64_of_column_def)
  ultimately have "\<exists>j'. read_job_row (transition_row st v cols now r) = Inr j'"
    by (auto simp: read_job_row_Inr transition_row_def)
  with assms(2) show ?thesis by (simp add: job_row_ok_iff)
qed

lemma job_row_ok_desired:
  assumes "job_row_ok r" "job_check (r\<lparr>jr_desired := d, jr_updated_at := now\<rparr>)"
  shows "job_row_ok (r\<lparr>jr_desired := d, jr_updated_at := now\<rparr>)"
  using assms by (auto simp: job_row_ok_iff read_job_row_Inr job_check_def)

lemma job_row_ok_dismissed:
  assumes "job_row_ok r" "job_check (r\<lparr>jr_dismissed_at := d, jr_updated_at := now\<rparr>)"
  shows "job_row_ok (r\<lparr>jr_dismissed_at := d, jr_updated_at := now\<rparr>)"
  using assms by (auto simp: job_row_ok_iff read_job_row_Inr job_check_def)

lemma read_job_Inr_Some:
  "read_job s k = Inr (Some j) \<longleftrightarrow> (\<exists>r. find_job s k = Some r \<and> read_job_row r = Inr j)"
  by (auto simp: read_job_def decode_job_def split: option.splits sum.splits)

lemma read_job_Inr_None: "read_job s k = Inr None \<longleftrightarrow> find_job s k = None"
  by (auto simp: read_job_def decode_job_def split: option.splits sum.splits)

lemma read_completion_Inr_Some:
  "read_completion s k = Inr (Some c) \<longleftrightarrow>
   (\<exists>ob. find_outbox s k = Some ob \<and> read_completion_row ob = Inr c)"
  by (auto simp: read_completion_def split: option.splits sum.splits)

lemma read_completion_Inr_None: "read_completion s k = Inr None \<longleftrightarrow> find_outbox s k = None"
  by (auto simp: read_completion_def split: option.splits sum.splits)

lemmas read_Inr = read_job_Inr_Some read_job_Inr_None read_completion_Inr_Some
  read_completion_Inr_None

subsection \<open>Reading under the invariant\<close>

lemma inv_find_job:
  assumes "store_inv s"
  shows "find_job s k = Some r \<longleftrightarrow> r \<in> set (ts_jobs s) \<and> jr_job_id r = k"
  using assms find_key_iff [of jr_job_id "ts_jobs s" k r] by (simp add: store_inv_def find_job_def)

lemma inv_find_outbox:
  assumes "store_inv s"
  shows "find_outbox s k = Some ob \<longleftrightarrow> ob \<in> set (ts_outbox s) \<and> obr_job_id ob = k"
  using assms find_key_iff [of obr_job_id "ts_outbox s" k ob]
  by (simp add: store_inv_def find_outbox_def)

lemma inv_read_job:
  assumes "store_inv s" "find_job s k = Some r"
  shows "\<exists>j. read_job_row r = Inr j"
  using assms inv_find_job [OF assms(1)] by (auto simp: store_inv_def job_row_ok_iff)

lemma inv_outbox_row:
  assumes "store_inv s" "find_outbox s k = Some ob"
  obtains r where "find_job s k = Some r" "outbox_of r ob"
proof -
  from assms have ob: "ob \<in> set (ts_outbox s)" "obr_job_id ob = k"
    using inv_find_outbox by blast+
  with assms(1) obtain r where "r \<in> set (ts_jobs s)" "outbox_of r ob"
    by (auto simp: store_inv_def outbox_ok_def)
  with ob that show ?thesis using inv_find_job [OF assms(1)] by (auto simp: outbox_of_def)
qed

lemma inv_terminal_outbox:
  assumes "store_inv s" "find_job s k = Some r"
  shows "sql_terminal (jr_state r) \<longleftrightarrow> find_outbox s k \<noteq> None"
proof
  assume "sql_terminal (jr_state r)"
  with assms have "k \<in> obr_job_id ` set (ts_outbox s)"
    using inv_find_job [OF assms(1)] by (auto simp: store_inv_def)
  then show "find_outbox s k \<noteq> None" by (simp add: find_outbox_def find_key_None_iff)
next
  assume "find_outbox s k \<noteq> None"
  then obtain ob where "find_outbox s k = Some ob" by blast
  with assms show "sql_terminal (jr_state r)"
    by (auto elim!: inv_outbox_row simp: outbox_of_def)
qed

section \<open>The abstract life cycle\<close>

datatype phase = Live JobStateTag u64 | Ended TerminalOutcome u64 bool

type_synonym lifecycle = "string \<Rightarrow> phase option"

fun settled :: "phase \<Rightarrow> bool" where
  "settled (Live t v) = True"
| "settled (Ended oc v acked) = acked"

fun phase_version :: "phase \<Rightarrow> u64" where
  "phase_version (Live t v) = v"
| "phase_version (Ended oc v acked) = v"

inductive life_step :: "lifecycle \<Rightarrow> lifecycle \<Rightarrow> bool" where
  idle: "life_step L L"
| create: "L k = None \<Longrightarrow> life_step L (L(k \<mapsto> Live TagQueued 1))"
| advance: "L k = Some (Live t v) \<Longrightarrow> unat v < i64_max \<Longrightarrow> \<not> tag_is_terminal t' \<Longrightarrow>
    life_step L (L(k \<mapsto> Live t' (v + 1)))"
| finish: "L k = Some (Live t v) \<Longrightarrow> unat v < i64_max \<Longrightarrow>
    life_step L (L(k \<mapsto> Ended oc (v + 1) False))"
| acknowledge: "L k = Some (Ended oc v False) \<Longrightarrow> life_step L (L(k \<mapsto> Ended oc v True))"
| forget: "L k = Some p \<Longrightarrow> settled p \<Longrightarrow> life_step L (L(k := None))"
| move: "L k = Some p \<Longrightarrow> settled p \<Longrightarrow> unat (phase_version p) < i64_max \<Longrightarrow> L k' = None \<Longrightarrow>
    life_step L (L(k := None, k' \<mapsto> Live TagQueued (phase_version p + 1)))"

definition phase_of_rows :: "JobRow option \<Rightarrow> OutboxRow option \<Rightarrow> phase option" where
  "phase_of_rows job ob =
    (case ob of
       Some b \<Rightarrow> (case read_completion_row b of
           Inr c \<Rightarrow> Some (Ended (cr_outcome c) (cr_state_version c) (is_acknowledged c))
         | Inl _ \<Rightarrow> None)
     | None \<Rightarrow> (case job of
           None \<Rightarrow> None
         | Some r \<Rightarrow> (case read_job_row r of
             Inr j \<Rightarrow> Some (Live (sj_state j) (sj_state_version j))
           | Inl _ \<Rightarrow> None)))"

definition lifecycle :: "TransferStore \<Rightarrow> lifecycle" where
  "lifecycle s k = phase_of_rows (find_job s k) (find_outbox s k)"

lemma lifecycle_cong:
  "ts_jobs s' = ts_jobs s \<Longrightarrow> ts_outbox s' = ts_outbox s \<Longrightarrow> lifecycle s' = lifecycle s"
  by (simp add: fun_eq_iff lifecycle_def find_job_def find_outbox_def)

lemma inv_read_completion:
  assumes "store_inv s" "find_outbox s k = Some ob"
  shows "\<exists>c. read_completion_row ob = Inr c"
proof -
  from assms obtain r where r: "find_job s k = Some r" "outbox_of r ob" by (rule inv_outbox_row)
  from inv_read_job [OF assms(1) r(1)] obtain j where j: "read_job_row r = Inr j" by blast
  note rf = read_job_row_fields [OF j]
  from r(1) assms(1) have "job_check r" using inv_find_job [OF assms(1)]
    by (auto simp: store_inv_def job_row_ok_iff)
  moreover have "0 \<le> obr_sequence ob" using assms inv_find_outbox [OF assms(1)]
    by (auto simp: store_inv_def outbox_ok_def)
  ultimately show ?thesis
    using r(2) rf
    by (auto simp: read_completion_row_def result_bind_Inr_iff outbox_of_def job_check_def
        u64_of_column_def from_columns_def sql_terminal_def)
qed

lemma lifecycle_None:
  assumes "store_inv s"
  shows "lifecycle s k = None \<longleftrightarrow> find_job s k = None"
proof (cases "find_outbox s k")
  case None
  show ?thesis
  proof (cases "find_job s k")
    case (Some r)
    with inv_read_job [OF assms] obtain j where "read_job_row r = Inr j" by blast
    with None Some show ?thesis by (simp add: lifecycle_def phase_of_rows_def)
  qed (simp add: None lifecycle_def phase_of_rows_def)
next
  case (Some ob)
  with assms obtain r where "find_job s k = Some r" by (rule inv_outbox_row)
  moreover from inv_read_completion [OF assms Some] obtain c where "read_completion_row ob = Inr c"
    by blast
  ultimately show ?thesis using Some by (simp add: lifecycle_def phase_of_rows_def)
qed

lemma lifecycle_live:
  assumes "find_job s k = Some r" "read_job_row r = Inr j" "find_outbox s k = None"
  shows "lifecycle s k = Some (Live (sj_state j) (sj_state_version j))"
  using assms by (simp add: lifecycle_def phase_of_rows_def)

lemma lifecycle_ended:
  assumes "find_outbox s k = Some ob" "read_completion_row ob = Inr c"
  shows "lifecycle s k = Some (Ended (cr_outcome c) (cr_state_version c) (is_acknowledged c))"
  using assms by (simp add: lifecycle_def phase_of_rows_def)

section \<open>Updates in place\<close>

text \<open>
  An update of job rows keeps the invariant when it keeps identifiers and
  readability, does not end a live job and leaves the columns the outbox
  repeats alone in an ended one.
\<close>

definition gentle :: "JobRow \<Rightarrow> JobRow \<Rightarrow> bool" where
  "gentle r r' \<longleftrightarrow> jr_job_id r' = jr_job_id r \<and> job_row_ok r' \<and>
    sql_terminal (jr_state r') = sql_terminal (jr_state r) \<and>
    (sql_terminal (jr_state r) \<longrightarrow> (\<forall>ob. outbox_of r ob \<longrightarrow> outbox_of r' ob))"

lemma store_inv_map:
  assumes inv: "store_inv s" and g: "\<And>r. r \<in> set (ts_jobs s) \<Longrightarrow> gentle r (g r)"
  shows "store_inv (s\<lparr>ts_jobs := map g (ts_jobs s)\<rparr>)"
proof -
  have ids: "map jr_job_id (map g (ts_jobs s)) = map jr_job_id (ts_jobs s)"
    using g by (simp add: gentle_def)
  have "outbox_ok (s\<lparr>ts_jobs := map g (ts_jobs s)\<rparr>) ob" if "outbox_ok s ob" for ob
  proof -
    from that obtain r where r: "r \<in> set (ts_jobs s)" "outbox_of r ob" by (auto simp: outbox_ok_def)
    with g [OF r(1)] have "outbox_of (g r) ob" by (auto simp: gentle_def outbox_of_def)
    with that r(1) show ?thesis by (auto simp: outbox_ok_def)
  qed
  moreover have "distinct (map jr_job_id (map g (ts_jobs s)))"
    unfolding ids using inv by (simp add: store_inv_def)
  ultimately show ?thesis
    using inv g unfolding store_inv_def by (auto simp: gentle_def)
qed

lemma find_job_map:
  "(\<And>r. jr_job_id (g r) = jr_job_id r) \<Longrightarrow>
   find_job (s\<lparr>ts_jobs := map g (ts_jobs s)\<rparr>) k = map_option g (find_job s k)"
  by (simp add: find_job_def find_map_same)

lemma update_jobs_Inr:
  "update_jobs sel f s = Inr s' \<longleftrightarrow>
   (\<forall>r\<in>set (ts_jobs s). sel r \<longrightarrow> job_check (f r)) \<and>
   s' = s\<lparr>ts_jobs := map (\<lambda>r. if sel r then f r else r) (ts_jobs s)\<rparr>"
  by (auto simp: update_jobs_def result_bind_Inr_iff sql_update_Inr)

lemma find_outbox_jobs [simp]: "find_outbox (s\<lparr>ts_jobs := rows\<rparr>) k = find_outbox s k"
  by (simp add: find_outbox_def)

lemma find_job_outbox [simp]: "find_job (s\<lparr>ts_outbox := rows\<rparr>) k = find_job s k"
  "find_job (s\<lparr>ts_next_sequence := n\<rparr>) k = find_job s k"
  by (simp_all add: find_job_def)

lemma find_job_id: "find_job s k = Some r \<Longrightarrow> jr_job_id r = k"
  unfolding find_job_def by (drule find_SomeD) simp

lemma find_outbox_id: "find_outbox s k = Some b \<Longrightarrow> obr_job_id b = k"
  unfolding find_outbox_def by (drule find_SomeD) simp

lemma gentle_refl: "job_row_ok r \<Longrightarrow> gentle r r"
  by (simp add: gentle_def)

lemma inv_row_ok: "store_inv s \<Longrightarrow> r \<in> set (ts_jobs s) \<Longrightarrow> job_row_ok r"
  by (simp add: store_inv_def)

subsection \<open>The run intent and the tombstone\<close>

text \<open>An update that leaves identity, state, version, error and kind alone.\<close>

definition quiet :: "(JobRow \<Rightarrow> JobRow) \<Rightarrow> bool" where
  "quiet f \<longleftrightarrow> (\<forall>r. jr_job_id (f r) = jr_job_id r \<and> jr_state (f r) = jr_state r \<and>
    jr_state_version (f r) = jr_state_version r \<and> jr_error_code (f r) = jr_error_code r \<and>
    jr_error_retryable (f r) = jr_error_retryable r \<and>
    jr_operation_kind (f r) = jr_operation_kind r \<and>
    (job_row_ok r \<longrightarrow> job_check (f r) \<longrightarrow> job_row_ok (f r)))"

lemma quiet_phase:
  assumes "quiet f" "job_row_ok r" "job_row_ok (f r)"
  shows "phase_of_rows (Some (f r)) ob = phase_of_rows (Some r) ob"
proof -
  from assms(2,3) obtain j j' where j: "read_job_row r = Inr j" "read_job_row (f r) = Inr j'"
    by (auto simp: job_row_ok_iff)
  have "tag_as_db_str (sj_state j') = tag_as_db_str (sj_state j)"
    "uint (sj_state_version j') = uint (sj_state_version j)"
    using read_job_row_fields [OF j(1)] read_job_row_fields [OF j(2)] assms(1)
    by (metis quiet_def)+
  then have "sj_state j' = sj_state j" "sj_state_version j' = sj_state_version j"
    by (simp, metis word_of_int_uint)
  with j show ?thesis by (simp add: phase_of_rows_def split: option.splits)
qed

lemma quiet_update:
  assumes inv: "store_inv s" and up: "update_jobs sel f s = Inr s'" and f: "quiet f"
  shows "store_inv s' \<and> lifecycle s' = lifecycle s"
proof -
  let ?g = "\<lambda>r. if sel r then f r else r"
  have s': "s' = s\<lparr>ts_jobs := map ?g (ts_jobs s)\<rparr>" using up by (simp add: update_jobs_Inr)
  have ok: "job_row_ok (?g r)" if "r \<in> set (ts_jobs s)" for r
    using that up f inv_row_ok [OF inv that] by (auto simp: update_jobs_Inr quiet_def)
  have gentle: "gentle r (?g r)" if "r \<in> set (ts_jobs s)" for r
    using f ok [OF that] by (auto simp: gentle_def outbox_of_def quiet_def)
  have "lifecycle s' k = lifecycle s k" for k
  proof (cases "find_job s k")
    case None
    then show ?thesis using f by (simp add: lifecycle_def s' find_job_map quiet_def)
  next
    case (Some r)
    then have "r \<in> set (ts_jobs s)" using inv_find_job [OF inv] by blast
    then have "phase_of_rows (Some (?g r)) ob = phase_of_rows (Some r) ob" for ob
      using quiet_phase [OF f inv_row_ok [OF inv], of r] ok [of r] by (cases "sel r") simp_all
    with Some f show ?thesis by (simp add: lifecycle_def s' find_job_map quiet_def)
  qed
  with store_inv_map [OF inv gentle] s' show ?thesis by (auto simp: fun_eq_iff)
qed

lemma set_desired_inv:
  assumes "store_inv s" "set_desired_run_state s k d now ev = Inr s'"
  shows "store_inv s' \<and> lifecycle s' = lifecycle s"
proof -
  let ?f = "\<lambda>r. r\<lparr>jr_desired := desired_run_state_db d, jr_updated_at := now\<rparr>"
  from assms(2) obtain sel where "update_jobs sel ?f s = Inr s'"
    unfolding set_desired_run_state_def Let_def
    by (auto simp: result_bind_Inr_iff split: if_splits)
  moreover have "quiet ?f" by (simp add: quiet_def job_row_ok_desired)
  ultimately show ?thesis using quiet_update [OF assms(1)] by blast
qed

lemma dismiss_inv:
  assumes "store_inv s" "dismiss_job s k now = Inr (b, s')"
  shows "store_inv s' \<and> lifecycle s' = lifecycle s"
proof -
  let ?f = "\<lambda>r. r\<lparr>jr_dismissed_at := Some now, jr_updated_at := now\<rparr>"
  from assms(2) consider "s' = s" | sel where "update_jobs sel ?f s = Inr s'"
    unfolding dismiss_job_def Let_def
    by (auto simp: result_Inr_iffs split: if_splits)
  then show ?thesis
  proof cases
    case 2
    moreover have "quiet ?f" by (simp add: quiet_def job_row_ok_dismissed)
    ultimately show ?thesis using quiet_update [OF assms(1)] by blast
  qed (simp add: assms(1))
qed

lemma ledger_inv:
  assumes "store_inv s" "update_file_ledger s k fid st n d now = Inr s'"
  shows "store_inv s' \<and> lifecycle s' = lifecycle s"
proof -
  from assms(2) obtain rows where "s' = s \<or> s' = s\<lparr>ts_ledger := rows\<rparr>"
    unfolding update_file_ledger_def by (auto simp: result_bind_Inr_iff split: if_splits)
  with assms(1) store_inv_cong [of s' s] lifecycle_cong [of s' s] show ?thesis by auto
qed

subsection \<open>Transitions\<close>

lemma transition_job_Inr:
  assumes "transition_job s k v to err now = Inr (v', s')"
  shows "\<not> tag_is_terminal to" "err = None" "unat v < i64_max" "v' = v + 1"
    "\<exists>r\<in>set (ts_jobs s). jr_job_id r = k \<and> jr_state_version r = uint v \<and>
       \<not> sql_terminal (jr_state r)"
    "update_jobs (\<lambda>r. jr_job_id r = k \<and> jr_state_version r = uint v \<and>
         \<not> sql_terminal (jr_state r))
       (transition_row (tag_as_db_str to) (uint (v + 1)) (None, None) now) s = Inr s'"
proof -
  from assms have nt: "\<not> tag_is_terminal to" and e: "(to = TagFailed) = (err \<noteq> None)"
    and rest: "checked_add v 1 = Some v'" "unat v' \<le> i64_max" "unat v \<le> i64_max"
    and ex: "\<not> (\<forall>r\<in>set (ts_jobs s). \<not> (jr_job_id r = k \<and> jr_state_version r = uint v \<and>
       \<not> sql_terminal (jr_state r)))"
    and up: "update_jobs (\<lambda>r. jr_job_id r = k \<and> jr_state_version r = uint v \<and>
         \<not> sql_terminal (jr_state r))
       (transition_row (tag_as_db_str to) (uint v') (transition_columns err) now) s = Inr s'"
    unfolding transition_job_def Let_def
    by (auto simp: result_bind_Inr_iff split: if_splits)
  show "\<not> tag_is_terminal to" by (rule nt)
  show err: "err = None" using nt e by (cases err) auto
  show v': "v' = v + 1" using rest(1) by (auto simp: checked_add_def split: if_splits)
  show "unat v < i64_max" using rest checked_add_Some [OF rest(1)] by simp
  show "\<exists>r\<in>set (ts_jobs s). jr_job_id r = k \<and> jr_state_version r = uint v \<and>
       \<not> sql_terminal (jr_state r)" using ex by blast
  show "update_jobs (\<lambda>r. jr_job_id r = k \<and> jr_state_version r = uint v \<and>
         \<not> sql_terminal (jr_state r))
       (transition_row (tag_as_db_str to) (uint (v + 1)) (None, None) now) s = Inr s'"
    using up v' err by (simp add: transition_columns_def)
qed

lemma read_transition_row:
  assumes "read_job_row r = Inr j" "unat v < i64_max"
  shows "read_job_row (transition_row (tag_as_db_str t) (uint (v + 1 :: u64)) cols now r) =
    Inr (j\<lparr>sj_state := t, sj_state_version := v + 1, sj_error := error_of_columns (fst cols) (snd cols),
           sj_updated_at := now\<rparr>)"
proof -
  have "unat (v + 1) = Suc (unat v)"
    using assms(2) by (intro unat_succ_u64) (simp add: i64_max_def u64_max_def)
  moreover have "n < i64_max \<Longrightarrow> int (Suc n) < 2 ^ 63" for n
    by (simp add: i64_max_def)
  ultimately have "uint (v + 1) < 2 ^ 63"
    using assms(2) by (metis uint_nat)
  moreover have "0 \<le> uint (v + 1)" by simp
  ultimately have "int_column (uint (v + 1))" unfolding int_column_def by linarith
  with assms(1) show ?thesis
    unfolding read_job_row_Inr by (elim exE conjE) (simp add: transition_row_def)
qed

lemma transition_inv:
  assumes inv: "store_inv s" and tr: "transition_job s k v to err now = Inr (v', s')"
  shows "store_inv s'" "\<exists>t. lifecycle s k = Some (Live t v)"
    "lifecycle s' = (lifecycle s)(k \<mapsto> Live to (v + 1))"
proof -
  note T = transition_job_Inr [OF tr]
  let ?sel = "\<lambda>r. jr_job_id r = k \<and> jr_state_version r = uint v \<and> \<not> sql_terminal (jr_state r)"
  let ?f = "transition_row (tag_as_db_str to) (uint (v + 1)) (None, None) now"
  let ?g = "\<lambda>r. if ?sel r then ?f r else r"
  have s': "s' = s\<lparr>ts_jobs := map ?g (ts_jobs s)\<rparr>" using T(6) by (simp add: update_jobs_Inr)
  obtain r where r: "r \<in> set (ts_jobs s)" "?sel r" using T(5) by blast
  then have fr: "find_job s k = Some r" using inv_find_job [OF inv] by blast
  then have no: "find_outbox s k = None" using inv_terminal_outbox [OF inv fr] r(2) by auto
  obtain j where j: "read_job_row r = Inr j" using inv_read_job [OF inv fr] by blast
  have "uint (sj_state_version j) = uint v" using read_job_row_fields [OF j] r(2) by simp
  then have jv: "sj_state_version j = v" by (metis word_of_int_uint)
  from lifecycle_live [OF fr j no] jv show "\<exists>t. lifecycle s k = Some (Live t v)" by blast
  have gentle: "gentle x (?g x)" if "x \<in> set (ts_jobs s)" for x
  proof (cases "?sel x")
    case True
    with that inv have "find_job s k = Some x" using inv_find_job by blast
    with fr have x: "x = r" by simp
    have "job_check (?f r)" using T(6) r by (auto simp: update_jobs_Inr)
    then have "job_row_ok (?f r)"
      using read_transition_row [OF j T(3)] by (auto simp: job_row_ok_iff)
    with x r(2) T(1) show ?thesis by (auto simp: gentle_def transition_row_def)
  next
    case False
    then show ?thesis using inv_row_ok [OF inv that] by (simp only: if_False gentle_refl)
  qed
  from store_inv_map [OF inv gentle] s' show "store_inv s'" by simp
  have id: "jr_job_id (?g x) = jr_job_id x" for x by (simp add: transition_row_def)
  show "lifecycle s' = (lifecycle s)(k \<mapsto> Live to (v + 1))"
  proof
    fix i
    show "lifecycle s' i = ((lifecycle s)(k \<mapsto> Live to (v + 1))) i"
    proof (cases "i = k")
      case True
      have "find_job s' k = Some (?f r)" using fr r(2) by (simp add: s' find_job_map id)
      moreover note read_transition_row [OF j T(3), of to "(None, None)" now]
      moreover have "find_outbox s' k = None" using no by (simp add: s')
      ultimately show ?thesis using True lifecycle_live [of s' k] by simp
    next
      case False
      then have "map_option ?g (find_job s i) = find_job s i"
        by (cases "find_job s i") (auto dest: find_job_id)
      with False show ?thesis by (simp add: lifecycle_def s' find_job_map id)
    qed
  qed
qed

subsection \<open>Acknowledgement\<close>

lemma store_inv_map_outbox:
  assumes inv: "store_inv s"
    and g: "\<And>b. obr_job_id (g b) = obr_job_id b" "\<And>b. obr_sequence (g b) = obr_sequence b"
      "\<And>r b. outbox_of r b \<Longrightarrow> outbox_of r (g b)"
  shows "store_inv (s\<lparr>ts_outbox := map g (ts_outbox s)\<rparr>)"
proof -
  have ids: "map (obr_job_id \<circ> g) (ts_outbox s) = map obr_job_id (ts_outbox s)"
    "map (obr_sequence \<circ> g) (ts_outbox s) = map obr_sequence (ts_outbox s)"
    "obr_job_id ` g ` set (ts_outbox s) = obr_job_id ` set (ts_outbox s)"
    using g by (simp_all add: image_image)
  have "outbox_ok (s\<lparr>ts_outbox := map g (ts_outbox s)\<rparr>) (g b)" if "outbox_ok s b" for b
    using that g by (fastforce simp: outbox_ok_def)
  with inv show ?thesis by (simp add: store_inv_def ids)
qed

lemma find_outbox_map:
  "(\<And>b. obr_job_id (g b) = obr_job_id b) \<Longrightarrow>
   find_outbox (s\<lparr>ts_outbox := map g (ts_outbox s)\<rparr>) k = map_option g (find_outbox s k)"
  by (simp add: find_outbox_def find_map_same)

lemma acknowledge_inv:
  assumes inv: "store_inv s" and ack: "acknowledge_completion s k now = Inr (res, s')"
  shows "store_inv s' \<and> life_step (lifecycle s) (lifecycle s')"
proof -
  let ?g = "\<lambda>r. if obr_job_id r = k then r\<lparr>obr_acknowledged_at := Some now\<rparr> else r"
  from ack consider "s' = s" |
    c where "read_completion s k = Inr (Some c)" "\<not> is_acknowledged c"
      "s' = s\<lparr>ts_outbox := map ?g (ts_outbox s)\<rparr>"
    unfolding acknowledge_completion_def Let_def
    by (auto simp: result_Inr_iffs sql_update_Inr split: if_splits)
  then show ?thesis
  proof cases
    case 1
    then show ?thesis using inv by (simp add: life_step.idle)
  next
    case 2
    then obtain ob where ob: "find_outbox s k = Some ob" "read_completion_row ob = Inr c"
      by (auto simp: read_Inr)
    have "store_inv s'"
      unfolding 2(3) by (rule store_inv_map_outbox [OF inv]) (auto simp: outbox_of_def)
    moreover have fo: "find_outbox s' i = map_option ?g (find_outbox s i)" for i
      unfolding 2(3) by (rule find_outbox_map) simp
    have rc: "read_completion_row (?g ob) = Inr (c\<lparr>cr_acknowledged_at := Some now\<rparr>)"
      using ob 2(1) inv_find_outbox [OF inv] ob(1)
      by (auto simp: read_completion_row_def result_bind_Inr_iff)
    have "lifecycle s' = (lifecycle s)(k \<mapsto> Ended (cr_outcome c) (cr_state_version c) True)"
    proof
      fix i
      show "lifecycle s' i = ((lifecycle s)(k \<mapsto> Ended (cr_outcome c) (cr_state_version c) True)) i"
      proof (cases "i = k")
        case True
        have "find_outbox s' k = Some (?g ob)" using ob(1) fo by simp
        from lifecycle_ended [OF this rc] True show ?thesis by (simp add: is_acknowledged_def)
      next
        case False
        then have "find_outbox s' i = find_outbox s i"
          using fo [of i] by (cases "find_outbox s i") (auto dest: find_outbox_id)
        moreover have "find_job s' i = find_job s i" by (simp add: find_job_def 2(3))
        ultimately show ?thesis using False by (simp add: lifecycle_def)
      qed
    qed
    moreover have "lifecycle s k = Some (Ended (cr_outcome c) (cr_state_version c) False)"
      using lifecycle_ended [OF ob] 2(2) by simp
    ultimately show ?thesis using life_step.acknowledge by auto
  qed
qed

section \<open>Completion\<close>

lemma insert_outbox_row_Inr:
  assumes "insert_outbox_row s k oc v now = Inr (c, s')"
  obtains job where "find_job s k = Some job" "unat v \<le> i64_max"
    "ts_next_sequence s \<le> int i64_max"
    "\<forall>b\<in>set (ts_outbox s). obr_job_id b \<noteq> k"
    "s' = s\<lparr>ts_outbox := ts_outbox s @ [new_outbox_row (ts_next_sequence s) k
        (jr_operation_kind job) oc (uint v) now],
      ts_next_sequence := ts_next_sequence s + 1\<rparr>"
    "read_completion s' k = Inr (Some c)"
  using assms unfolding insert_outbox_row_def Let_def
  by (auto simp: result_Inr_iffs sql_insert_Inr outbox_clash_def new_outbox_row_def not_less)

lemma read_new_outbox_row:
  assumes "kind_from_db_str kind = Some q" "0 \<le> n"
  shows "read_completion_row (new_outbox_row n k kind oc (uint v) now) =
    Inr \<lparr>cr_sequence = word_of_int n, cr_job_id = k, cr_operation_kind = q, cr_outcome = oc,
         cr_state_version = v, cr_recorded_at = now, cr_acknowledged_at = None\<rparr>"
  using assms by (simp add: read_completion_row_def new_outbox_row_def ok_or_else_def
      u64_of_column_def not_less)

lemma complete_job_Inr:
  assumes inv: "store_inv s" and ok: "complete_job s k oc now = Inr (res, s')"
  obtains (replay) c where "read_completion s k = Inr (Some c)" "cr_outcome c = oc" "s' = s"
      "res = AlreadyRecorded c"
  | (fresh) r j c s1 where "find_job s k = Some r" "read_job_row r = Inr j"
      "find_outbox s k = None" "unat (sj_state_version j) < i64_max"
      "update_jobs (\<lambda>r. jr_job_id r = k) (transition_row (outcome_as_db_str oc)
         (uint (sj_state_version j + 1)) (error_columns oc) now) s = Inr s1"
      "insert_outbox_row s1 k oc (sj_state_version j + 1) now = Inr (c, s')"
      "res = Recorded c"
proof -
  from ok obtain r j found where r: "find_job s k = Some r" "read_job_row r = Inr j"
    and f: "read_completion s k = Inr found"
    unfolding complete_job_def complete_job_inner_def
    by (auto simp: result_Inr_iffs read_job_Inr_Some)
  then have rj: "read_job s k = Inr (Some j)" by (simp add: read_job_Inr_Some)
  show ?thesis
  proof (cases found)
    case (Some c)
    with ok rj f show ?thesis
      by (intro replay [of c])
        (auto simp: complete_job_def complete_job_inner_def split: if_splits)
  next
    case None
    with f have no: "find_outbox s k = None" by (simp add: read_Inr)
    have live: "\<not> tag_is_terminal (sj_state j)"
      using inv_terminal_outbox [OF inv r(1)] no read_job_row_fields [OF r(2)] by auto
    from ok rj f None live obtain n s1 c where
      n: "checked_add (sj_state_version j) 1 = Some n" "unat n \<le> i64_max"
      and up: "update_jobs (\<lambda>r. jr_job_id r = k) (transition_row (outcome_as_db_str oc)
         (uint n) (error_columns oc) now) s = Inr s1"
      and ins: "insert_outbox_row s1 k oc n now = Inr (c, s')" "res = Recorded c"
      by (auto simp: complete_job_def complete_job_inner_def result_Inr_iffs
          abort_completion_if_def split: prod.splits)
    have "n = sj_state_version j + 1" "unat (sj_state_version j) < i64_max"
      using n checked_add_Some [OF n(1)] by (auto simp: checked_add_def split: if_splits)
    with r no up ins show ?thesis using fresh by metis
  qed
qed

lemma store_inv_finish:
  assumes inv: "store_inv s" and r: "find_job s k = Some r" and no: "find_outbox s k = None"
    and r': "jr_job_id r' = k" "job_row_ok r'" and b: "outbox_of r' b"
    and sq: "obr_sequence b = ts_next_sequence s" "ts_next_sequence s \<le> int i64_max"
  shows "store_inv (s\<lparr>ts_jobs := map (\<lambda>x. if jr_job_id x = k then r' else x) (ts_jobs s),
      ts_outbox := ts_outbox s @ [b], ts_next_sequence := ts_next_sequence s + 1\<rparr>)"
    (is "store_inv ?s")
proof -
  let ?g = "\<lambda>x. if jr_job_id x = k then r' else x"
  have rin: "r \<in> set (ts_jobs s)" "jr_job_id r = k" using r inv_find_job [OF inv] by auto
  have bk: "obr_job_id b = k" using b r' by (simp add: outbox_of_def)
  have fresh: "k \<notin> obr_job_id ` set (ts_outbox s)"
    using no by (simp add: find_outbox_def find_key_None_iff)
  have ids: "map jr_job_id (map ?g (ts_jobs s)) = map jr_job_id (ts_jobs s)"
    using r' by simp
  have old: "outbox_ok ?s x" if x: "x \<in> set (ts_outbox s)" for x
  proof -
    from inv x have ok: "outbox_ok s x" by (simp add: store_inv_def)
    then obtain q where q: "q \<in> set (ts_jobs s)" "outbox_of q x" by (auto simp: outbox_ok_def)
    have "jr_job_id q \<noteq> k" using fresh x q(2) by (metis image_eqI outbox_of_def)
    then have "q \<in> ?g ` set (ts_jobs s)" using q(1) by force
    with ok q(2) show ?thesis by (auto simp: outbox_ok_def)
  qed
  have "r' \<in> ?g ` set (ts_jobs s)" using rin by force
  then have new: "outbox_ok ?s b" using b sq inv by (auto simp: outbox_ok_def store_inv_def)
  have seqs: "\<forall>x\<in>set (ts_outbox s). obr_sequence x < ts_next_sequence s"
    using inv by (simp add: store_inv_def outbox_ok_def)
  have "distinct (map jr_job_id (map ?g (ts_jobs s)))"
    unfolding ids using inv by (simp add: store_inv_def)
  then show ?thesis
    using inv fresh bk old new seqs sq r' by (auto simp: store_inv_def sorted_wrt_append)
qed

lemma outbox_of_outcome:
  assumes "jr_operation_kind r = kind"
  shows "outbox_of (transition_row (outcome_as_db_str oc) v (error_columns oc) now r)
    (new_outbox_row n (jr_job_id r) kind oc v now)"
  using assms
  by (simp add: outbox_of_def transition_row_def new_outbox_row_def outcome_as_db_str_def)

lemma complete_fresh:
  assumes inv: "store_inv s" and r: "find_job s k = Some r" "read_job_row r = Inr j"
    and no: "find_outbox s k = None" and bound: "unat (sj_state_version j) < i64_max"
    and up: "update_jobs (\<lambda>r. jr_job_id r = k) (transition_row (outcome_as_db_str oc)
         (uint (sj_state_version j + 1)) (error_columns oc) now) s = Inr s1"
    and ins: "insert_outbox_row s1 k oc (sj_state_version j + 1) now = Inr (c, s')"
  shows "store_inv s'"
    "lifecycle s' = (lifecycle s)(k \<mapsto> Ended oc (sj_state_version j + 1) False)"
    "cr_outcome c = oc \<and> cr_state_version c = sj_state_version j + 1 \<and> \<not> is_acknowledged c"
proof -
  let ?v = "sj_state_version j + 1"
  let ?f = "transition_row (outcome_as_db_str oc) (uint ?v) (error_columns oc) now"
  have rk: "jr_job_id r = k" using r(1) by (rule find_job_id)
  have rin: "r \<in> set (ts_jobs s)" using r(1) inv_find_job [OF inv] by blast
  have s1: "s1 = s\<lparr>ts_jobs := map (\<lambda>x. if jr_job_id x = k then ?f r else x) (ts_jobs s)\<rparr>"
  proof -
    have "(if jr_job_id x = k then ?f x else x) = (if jr_job_id x = k then ?f r else x)"
      if "x \<in> set (ts_jobs s)" for x
      using that r(1) inv_find_job [OF inv, of k x] by auto
    with up show ?thesis by (simp add: update_jobs_Inr cong: map_cong)
  qed
  have "job_check (?f r)" using up rin rk by (auto simp: update_jobs_Inr)
  then have ok': "job_row_ok (?f r)"
    using read_transition_row [OF r(2) bound] by (auto simp: job_row_ok_iff outcome_as_db_str_def)
  have "find_job s1 k = Some (?f r)"
    unfolding s1 find_job_def using r(1) [unfolded find_job_def] rk
    by (simp, subst find_map_same) (auto simp: transition_row_def)
  moreover from ins obtain job where job: "find_job s1 k = Some job"
    and nx: "ts_next_sequence s1 \<le> int i64_max"
    and s'0: "s' = s1\<lparr>ts_outbox := ts_outbox s1 @ [new_outbox_row (ts_next_sequence s1) k
        (jr_operation_kind job) oc (uint ?v) now],
      ts_next_sequence := ts_next_sequence s1 + 1\<rparr>"
    and c: "read_completion s' k = Inr (Some c)"
    by (rule insert_outbox_row_Inr)
  ultimately have kind: "jr_operation_kind job = jr_operation_kind r"
    by (simp add: transition_row_def)
  let ?b = "new_outbox_row (ts_next_sequence s) k (jr_operation_kind r) oc (uint ?v) now"
  have s': "s' = s\<lparr>ts_jobs := map (\<lambda>x. if jr_job_id x = k then ?f r else x) (ts_jobs s),
      ts_outbox := ts_outbox s @ [?b], ts_next_sequence := ts_next_sequence s + 1\<rparr>"
    using s'0 kind by (simp add: s1)
  have fk: "jr_job_id (?f r) = k" using rk by (simp add: transition_row_def)
  show inv': "store_inv s'"
    unfolding s' using outbox_of_outcome [of r _ oc "uint ?v" now] rk nx
    by (intro store_inv_finish [OF inv r(1) no fk ok']) (auto simp: new_outbox_row_def s1)
  have fo: "find_outbox s' i = (if i = k then Some ?b else find_outbox s i)" for i
    using no by (auto simp: find_outbox_def s' find_append new_outbox_row_def split: option.splits)
  have "0 \<le> ts_next_sequence s" using inv by (simp add: store_inv_def)
  moreover have "kind_from_db_str (jr_operation_kind r) = Some (sj_operation_kind j)"
    using read_job_row_fields [OF r(2)] by simp
  ultimately have rc: "read_completion_row ?b = Inr \<lparr>cr_sequence = word_of_int (ts_next_sequence s),
      cr_job_id = k, cr_operation_kind = sj_operation_kind j, cr_outcome = oc,
      cr_state_version = ?v, cr_recorded_at = now, cr_acknowledged_at = None\<rparr>"
    by (intro read_new_outbox_row)
  with c fo show "cr_outcome c = oc \<and> cr_state_version c = ?v \<and> \<not> is_acknowledged c"
    by (auto simp: read_Inr is_acknowledged_def)
  show "lifecycle s' = (lifecycle s)(k \<mapsto> Ended oc ?v False)"
  proof
    fix i
    show "lifecycle s' i = ((lifecycle s)(k \<mapsto> Ended oc ?v False)) i"
    proof (cases "i = k")
      case True
      with fo rc show ?thesis by (simp add: lifecycle_def phase_of_rows_def is_acknowledged_def)
    next
      case False
      have "find_job s' i = find_job s i"
        unfolding find_job_def s' using False fk by (simp add: find_replace_other)
      with False fo show ?thesis by (simp add: lifecycle_def)
    qed
  qed
qed

lemma complete_inv:
  assumes inv: "store_inv s" and ok: "complete_job s k oc now = Inr (res, s')"
  shows "store_inv s' \<and> life_step (lifecycle s) (lifecycle s')"
  using inv ok
proof (cases rule: complete_job_Inr)
  case (replay c)
  with inv show ?thesis by (simp add: life_step.idle)
next
  case (fresh r j c s1)
  note F = complete_fresh [OF inv fresh(1,2,3,4,5,6)]
  show ?thesis
    using F(1) life_step.finish [where L = "lifecycle s", OF lifecycle_live [OF fresh(1,2,3)] fresh(4)]
    by (simp add: F(2))
qed

section \<open>New rows\<close>

lemma add_job_row:
  assumes inv: "store_inv s" and fresh: "find_job s (jr_job_id r) = None"
    and ok: "job_row_ok r" "jr_state r = ''queued''" "jr_state_version r = 1"
    and s': "ts_jobs s' = ts_jobs s @ [r]" "ts_outbox s' = ts_outbox s"
      "ts_next_sequence s' = ts_next_sequence s"
  shows "store_inv s'" "lifecycle s' = (lifecycle s)(jr_job_id r \<mapsto> Live TagQueued 1)"
proof -
  have new: "jr_job_id r \<notin> jr_job_id ` set (ts_jobs s)"
    using fresh by (simp add: find_job_def find_key_None_iff)
  have "outbox_ok s' b" if "outbox_ok s b" for b
    using that by (auto simp: outbox_ok_def s')
  with inv ok new show "store_inv s'"
    by (auto simp: store_inv_def s' sql_terminal_def)
  have no: "find_outbox s (jr_job_id r) = None"
  proof (cases "find_outbox s (jr_job_id r)")
    case (Some b)
    with inv obtain q where "find_job s (jr_job_id r) = Some q" by (rule inv_outbox_row)
    with fresh show ?thesis by simp
  qed
  from ok(1) obtain j where j: "read_job_row r = Inr j" by (auto simp: job_row_ok_iff)
  have "tag_as_db_str (sj_state j) = tag_as_db_str TagQueued"
    and one: "uint (sj_state_version j) = 1"
    using read_job_row_fields [OF j] ok by simp_all
  then have "sj_state j = TagQueued" by (simp only: tag_as_db_str_inj)
  moreover have "sj_state_version j = 1"
    using word_of_int_uint [of "sj_state_version j"] unfolding one by simp
  ultimately have jf: "sj_state j = TagQueued" "sj_state_version j = 1" by simp_all
  show "lifecycle s' = (lifecycle s)(jr_job_id r \<mapsto> Live TagQueued 1)"
  proof
    fix i
    have "find_job s' i = (if i = jr_job_id r then Some r else find_job s i)"
      using fresh by (auto simp: find_job_def s' find_append split: option.splits)
    moreover have "find_outbox s' i = find_outbox s i" by (simp add: find_outbox_def s')
    ultimately show "lifecycle s' i = ((lifecycle s)(jr_job_id r \<mapsto> Live TagQueued 1)) i"
      using no j jf by (simp add: lifecycle_def phase_of_rows_def)
  qed
qed

lemma new_job_row_fields [simp]:
  "jr_job_id (new_job_row k kind key i d now) = k"
  "jr_state (new_job_row k kind key i d now) = ''queued''"
  "jr_state_version (new_job_row k kind key i d now) = 1"
  by (simp_all add: new_job_row_def)

lemma abort_if_None [simp]: "abort_if None st = Inr ()" "abort_completion_if None st' = Inr ()"
  by (simp_all add: abort_if_def abort_completion_if_def)

lemma create_job_Inr:
  assumes "create_job sha256 s k spec now = Inr (res, s')"
  obtains (existing) j where "read_latest_job_by_identity s (js_identity spec) = Inr (Some j)"
      "sj_request_digest j = request_digest sha256 spec" "s' = s" "res = Existing j"
  | (fresh) j jobs specs files ledger where
      "read_latest_job_by_identity s (js_identity spec) = Inr None" "find_job s k = None"
      "sql_insert job_check job_clash (new_job_row k Download (natural_key (js_identity spec))
         (js_identity spec) (request_digest sha256 spec) now) (ts_jobs s) = Inr jobs"
      "sql_insert spec_check spec_clash (new_spec_row k spec) (ts_specs s) = Inr specs"
      "insert_files k spec (zip [0..<length (js_session_files spec)] (js_session_files spec))
         (ts_files s) = Inr files"
      "sql_insert_all ledger_check ledger_clash (map (new_ledger_row k now) (requested_files spec))
         (ts_ledger s) = Inr ledger"
      "s' = s\<lparr>ts_jobs := jobs, ts_specs := specs, ts_files := files, ts_ledger := ledger\<rparr>"
      "read_job s' k = Inr (Some j)" "res = Created j"
proof -
  from assms obtain latest where l: "read_latest_job_by_identity s (js_identity spec) = Inr latest"
    unfolding create_job_def insert_job_tx_def by (auto simp: result_bind_Inr_iff)
  show ?thesis
  proof (cases latest)
    case (Some j)
    with assms l existing show ?thesis
      by (auto simp: create_job_def insert_job_tx_def split: if_splits)
  next
    case None
    with assms l fresh show ?thesis
      by (auto simp: create_job_def insert_job_tx_def result_Inr_iffs Let_def
          read_job_Inr_None)
  qed
qed

lemma create_inv:
  assumes inv: "store_inv s" and ok: "create_job sha256 s k spec now = Inr (res, s')"
  shows "store_inv s' \<and> life_step (lifecycle s) (lifecycle s')"
  using ok
proof (cases rule: create_job_Inr)
  case (existing j)
  with inv show ?thesis by (simp add: life_step.idle)
next
  case (fresh j jobs specs files ledger)
  let ?r = "new_job_row k Download (natural_key (js_identity spec)) (js_identity spec)
    (request_digest sha256 spec) now"
  have jobs: "jobs = ts_jobs s @ [?r]" "job_check ?r" using fresh(3) by (simp_all add: sql_insert_Inr)
  have "find_job s' k = Some ?r"
    using fresh(2) by (simp add: fresh(7) find_job_def jobs find_append)
  with fresh(8) have "job_row_ok ?r" using jobs(2) by (auto simp: read_Inr job_row_ok_iff)
  with fresh(2) jobs add_job_row [OF inv, of ?r s']
  have "store_inv s'" "lifecycle s' = (lifecycle s)(k \<mapsto> Live TagQueued 1)"
    by (simp_all add: fresh(7))
  moreover have "lifecycle s k = None" using fresh(2) lifecycle_None [OF inv] by simp
  ultimately show ?thesis using life_step.create by metis
qed

lemma spawn_rows:
  assumes "(if up then spawn_upload else spawn_download) s parent p child attempt now = Inr s'"
  obtains kind key i d where
    "ts_jobs s' = ts_jobs s @ [new_job_row child kind key i d now]"
    "job_check (new_job_row child kind key i d now)"
    "ts_outbox s' = ts_outbox s" "ts_next_sequence s' = ts_next_sequence s"
proof (cases up)
  case True
  with assms that show ?thesis
    by (auto simp: spawn_upload_def insert_lineage_def result_bind_Inr_iff sql_insert_Inr)
next
  case False
  with assms that show ?thesis
    by (auto simp: spawn_download_def insert_lineage_def result_bind_Inr_iff sql_insert_Inr)
qed

lemma spawn_retry_Inr:
  assumes "spawn_retry_job_inner s p child now allow = Inr (res, s')"
  obtains (existing) j where "s' = s" "res = RetryExisting j"
  | (created) parent attempt j where "retry_guard s p allow = Inr parent" "find_job s child = None"
      "live_child s (last_option (retry_children s p)) = Inr None"
      "next_attempt p (last_option (retry_children s p)) = Inr attempt"
      "(if sj_operation_kind parent = Upload then spawn_upload else spawn_download)
         s parent p child attempt now = Inr s'"
      "read_job s' child = Inr (Some j)" "res = RetryCreated j"
proof -
  from assms obtain parent taken where g: "retry_guard s p allow = Inr parent"
    and t: "read_job s child = Inr taken"
    unfolding spawn_retry_job_inner_def by (auto simp: result_bind_Inr_iff)
  show ?thesis
  proof (cases taken)
    case (Some j)
    with assms g t existing show ?thesis
      by (auto simp: spawn_retry_job_inner_def split: if_splits)
  next
    case None
    then have free: "find_job s child = None" using t by (simp add: read_Inr)
    from assms g t None obtain live where
      l: "live_child s (last_option (retry_children s p)) = Inr live"
      by (auto simp: spawn_retry_job_inner_def Let_def result_bind_Inr_iff)
    show ?thesis
    proof (cases live)
      case (Some j)
      with assms g t None l existing show ?thesis by (auto simp: spawn_retry_job_inner_def Let_def)
    next
      case N: None
      from assms g t None l N obtain attempt j where
        "next_attempt p (last_option (retry_children s p)) = Inr attempt"
        "(if sj_operation_kind parent = Upload then spawn_upload else spawn_download)
           s parent p child attempt now = Inr s'"
        "read_job s' child = Inr (Some j)" "res = RetryCreated j"
        by (simp add: spawn_retry_job_inner_def Let_def result_Inr_iffs) blast
      with g free l N show ?thesis using created by blast
    qed
  qed
qed

lemma spawn_created:
  assumes inv: "store_inv s" and fresh: "find_job s child = None"
    and sp: "(if up then spawn_upload else spawn_download) s parent p child attempt now = Inr s'"
    and rd: "read_job s' child = Inr (Some j)"
  shows "store_inv s'" "lifecycle s' = (lifecycle s)(child \<mapsto> Live TagQueued 1)"
proof -
  from sp obtain kind key i d where rows:
    "ts_jobs s' = ts_jobs s @ [new_job_row child kind key i d now]"
    "job_check (new_job_row child kind key i d now)"
    "ts_outbox s' = ts_outbox s" "ts_next_sequence s' = ts_next_sequence s"
    by (rule spawn_rows)
  let ?r = "new_job_row child kind key i d now"
  have "find_job s' child = Some ?r"
    using fresh by (simp add: find_job_def rows find_append)
  with rd have "job_row_ok ?r" using rows(2) by (auto simp: read_Inr job_row_ok_iff)
  with fresh rows add_job_row [OF inv, of ?r s']
  show "store_inv s'" "lifecycle s' = (lifecycle s)(child \<mapsto> Live TagQueued 1)" by simp_all
qed

lemma spawn_inv:
  assumes inv: "store_inv s" and ok: "spawn_retry_job_inner s p child now allow = Inr (res, s')"
  shows "store_inv s' \<and> life_step (lifecycle s) (lifecycle s')"
  using ok
proof (cases rule: spawn_retry_Inr)
  case (existing j)
  with inv show ?thesis by (simp add: life_step.idle)
next
  case (created parent attempt j)
  have "lifecycle s child = None" using created(2) lifecycle_None [OF inv] by simp
  with spawn_created [OF inv created(2,5,6)] show ?thesis using life_step.create by metis
qed

section \<open>Removed and moved rows\<close>

lemma settled_iff:
  assumes inv: "store_inv s" and r: "find_job s k = Some r"
    and c: "read_completion s k = Inr found"
    and ok: "\<not> (case found of None \<Rightarrow> False | Some c \<Rightarrow> \<not> is_acknowledged c)"
  obtains p where "lifecycle s k = Some p" "settled p"
    "uint (phase_version p) = jr_state_version r"
proof -
  obtain j where j: "read_job_row r = Inr j" using inv_read_job [OF inv r] by blast
  note jf = read_job_row_fields [OF j]
  show ?thesis
  proof (cases found)
    case None
    then have "find_outbox s k = None" using c by (simp add: read_Inr)
    with that lifecycle_live [OF r j] jf show ?thesis by simp
  next
    case (Some x)
    with c obtain b where b: "find_outbox s k = Some b" "read_completion_row b = Inr x"
      by (auto simp: read_Inr)
    from inv b(1) obtain q where "find_job s k = Some q" "outbox_of q b" by (rule inv_outbox_row)
    with r have "obr_state_version b = jr_state_version r" by (simp add: outbox_of_def)
    moreover have "u64_of_column (obr_state_version b) = Some (cr_state_version x)"
      using b(2) by (auto simp: read_completion_row_def result_bind_Inr_iff)
    ultimately have "cr_state_version x = sj_state_version j" using jf by simp
    with that lifecycle_ended [OF b] ok Some jf show ?thesis by simp
  qed
qed

lemma delete_rows_inv:
  assumes inv: "store_inv s"
  shows "store_inv (delete_rows k s)" "lifecycle (delete_rows k s) = (lifecycle s)(k := None)"
proof -
  have "outbox_ok (delete_rows k s) b" if "outbox_ok s b" "obr_job_id b \<noteq> k" for b
    using that by (force simp: outbox_ok_def delete_rows_def outbox_of_def)
  moreover have "jr_job_id r \<in> obr_job_id ` {b \<in> set (ts_outbox s). obr_job_id b \<noteq> k}"
    if "jr_job_id r \<in> obr_job_id ` set (ts_outbox s)" "jr_job_id r \<noteq> k" for r
    using that by force
  ultimately show "store_inv (delete_rows k s)"
    using inv by (auto simp: store_inv_def delete_rows_def distinct_map_filter sorted_wrt_map
        sorted_wrt_filter)
  show "lifecycle (delete_rows k s) = (lifecycle s)(k := None)"
  proof
    fix i
    show "lifecycle (delete_rows k s) i = ((lifecycle s)(k := None)) i"
      by (cases "i = k") (simp_all add: lifecycle_def find_job_def find_outbox_def delete_rows_def
          find_filter_absent find_filter_other phase_of_rows_def)
  qed
qed

lemma delete_inv:
  assumes inv: "store_inv s" and ok: "delete_job s k = Inr (b, s')"
  shows "store_inv s' \<and> life_step (lifecycle s) (lifecycle s')"
proof -
  from ok consider "s' = s" | found r where "read_completion s k = Inr found"
      "\<not> (case found of None \<Rightarrow> False | Some c \<Rightarrow> \<not> is_acknowledged c)"
      "find_job s k = Some r" "s' = delete_rows k s"
    unfolding delete_job_def by (auto simp: result_bind_Inr_iff split: if_splits)
  then show ?thesis
  proof cases
    case 1
    then show ?thesis using inv by (simp add: life_step.idle)
  next
    case 2
    from settled_iff [OF inv 2(3,1,2)] obtain p where "lifecycle s k = Some p" "settled p" by blast
    with 2(4) show ?thesis using delete_rows_inv [OF inv] life_step.forget by metis
  qed
qed

lemma retarget_job_Inr:
  assumes "retarget_job s old new now = Inr (j, s')"
  obtains r found s1 where "find_job s old = Some r" "find_job s new = None"
    "read_completion s old = Inr found"
    "\<not> (case found of None \<Rightarrow> False | Some c \<Rightarrow> \<not> is_acknowledged c)"
    "ts_jobs s' = map (\<lambda>x. if jr_job_id x = old then retarget_row new now x else x) (ts_jobs s)"
    "\<forall>x\<in>set (ts_jobs s). jr_job_id x = old \<longrightarrow> job_check (retarget_row new now x)"
    "ts_outbox s' = filter (\<lambda>b. obr_job_id b \<noteq> old) (ts_outbox s)"
    "ts_next_sequence s' = ts_next_sequence s" "read_job s' new = Inr (Some j)"
proof -
  let ?s0 = "\<lambda>found. case found of None \<Rightarrow> s
    | Some c \<Rightarrow> s\<lparr>ts_outbox := filter (\<lambda>r. obr_job_id r \<noteq> old) (ts_outbox s)\<rparr>"
  from assms obtain r found s1 where A: "find_job s old = Some r" "find_job s new = None"
    "read_completion s old = Inr found"
    "\<not> (case found of None \<Rightarrow> False | Some c \<Rightarrow> \<not> is_acknowledged c)"
    "update_jobs (\<lambda>r. jr_job_id r = old) (retarget_row new now) (?s0 found) = Inr s1"
    "s' = retarget_rows old new s1" "read_job s' new = Inr (Some j)"
    unfolding retarget_job_def Let_def
    by (auto simp: result_Inr_iffs read_job_Inr_Some read_job_Inr_None)
  have "find_outbox s old = None \<Longrightarrow> filter (\<lambda>b. obr_job_id b \<noteq> old) (ts_outbox s) = ts_outbox s"
    by (auto simp: find_outbox_def find_None_iff intro!: filter_True)
  then have "ts_outbox (?s0 found) = filter (\<lambda>b. obr_job_id b \<noteq> old) (ts_outbox s)"
    using A(3) by (cases found) (simp_all add: read_Inr)
  moreover have "ts_jobs (?s0 found) = ts_jobs s" "ts_next_sequence (?s0 found) = ts_next_sequence s"
    by (cases found; simp)+
  ultimately show ?thesis using A that [of r found]
    by (simp add: update_jobs_Inr retarget_rows_def)
qed

text \<open>The row of one job replaced by a live row under a new identifier.\<close>

definition moved :: "TransferStore \<Rightarrow> string \<Rightarrow> JobRow \<Rightarrow> TransferStore \<Rightarrow> bool" where
  "moved s old r' s' \<longleftrightarrow>
    ts_jobs s' = map (\<lambda>x. if jr_job_id x = old then r' else x) (ts_jobs s) \<and>
    ts_outbox s' = filter (\<lambda>b. obr_job_id b \<noteq> old) (ts_outbox s) \<and>
    ts_next_sequence s' = ts_next_sequence s"

lemma moved_find_job:
  assumes "find_job s old = Some r" "find_job s (jr_job_id r') = None" "moved s old r' s'"
  shows "find_job s' i =
    (if i = jr_job_id r' then Some r' else if i = old then None else find_job s i)"
proof -
  have "find (\<lambda>x. jr_job_id x = i) (map (\<lambda>x. if jr_job_id x = old then r' else x) xs) =
    (if i = jr_job_id r' then Some r' else if i = old then None
     else find (\<lambda>x. jr_job_id x = i) xs)"
    if "jr_job_id r' \<notin> jr_job_id ` set xs" "i = jr_job_id r' \<longrightarrow> old \<in> jr_job_id ` set xs" for xs
    using that by (induction xs) auto
  moreover have "old \<in> jr_job_id ` set (ts_jobs s)"
    using assms(1) find_SomeD unfolding find_job_def by fast
  ultimately show ?thesis
    using assms(2,3) by (simp add: find_job_def find_key_None_iff moved_def)
qed

lemma moved_find_outbox:
  assumes inv: "store_inv s" and "find_job s new = None" "moved s old r' s'"
  shows "find_outbox s' i = (if i = old \<or> i = new then None else find_outbox s i)"
proof -
  have "find_outbox s new = None"
    using assms(2) inv_outbox_row [OF inv, of new] by (cases "find_outbox s new") auto
  then show ?thesis
    using assms(3) by (cases "i = old")
      (simp_all add: find_outbox_def moved_def find_filter_absent find_filter_other)
qed

lemma moved_inv:
  assumes inv: "store_inv s" and new: "find_job s (jr_job_id r') = None"
    and r': "job_row_ok r'" "\<not> sql_terminal (jr_state r')" and mv: "moved s old r' s'"
  shows "store_inv s'"
proof -
  have jobs: "ts_jobs s' = map (\<lambda>x. if jr_job_id x = old then r' else x) (ts_jobs s)"
    and ob: "ts_outbox s' = filter (\<lambda>b. obr_job_id b \<noteq> old) (ts_outbox s)"
    and nx: "ts_next_sequence s' = ts_next_sequence s" using mv by (simp_all add: moved_def)
  have fresh: "jr_job_id r' \<notin> jr_job_id ` set (ts_jobs s)"
    using new by (simp add: find_job_def find_key_None_iff)
  have "map jr_job_id (ts_jobs s') =
      map (\<lambda>i. if i = old then jr_job_id r' else i) (map jr_job_id (ts_jobs s))"
    by (simp add: jobs)
  moreover have "inj_on (\<lambda>i. if i = old then jr_job_id r' else i) (jr_job_id ` set (ts_jobs s))"
    using fresh by (auto simp: inj_on_def image_iff)
  ultimately have dist: "distinct (map jr_job_id (ts_jobs s'))"
    using inv by (simp add: store_inv_def distinct_map comp_inj_on)
  have keep: "x \<in> set (ts_jobs s')" if "x \<in> set (ts_jobs s)" "jr_job_id x \<noteq> old" for x
    using that by (force simp: jobs)
  have from_old: "x = r' \<or> x \<in> set (ts_jobs s) \<and> jr_job_id x \<noteq> old" if "x \<in> set (ts_jobs s')" for x
    using that by (auto simp: jobs split: if_splits)
  have "outbox_ok s' b" if "outbox_ok s b" "obr_job_id b \<noteq> old" for b
    using that keep by (fastforce simp: outbox_ok_def nx outbox_of_def)
  moreover have "jr_job_id x \<in> obr_job_id ` set (ts_outbox s')"
    if "x \<in> set (ts_jobs s')" "sql_terminal (jr_state x)" for x
    using from_old [OF that(1)] inv that(2) r'(2) by (force simp: store_inv_def ob)
  moreover have "job_row_ok x" if "x \<in> set (ts_jobs s')" for x
    using from_old [OF that] r'(1) inv by (auto simp: store_inv_def)
  ultimately show ?thesis
    using inv dist by (auto simp: store_inv_def ob nx distinct_map_filter sorted_wrt_map
        sorted_wrt_filter)
qed

lemma retarget_moved:
  assumes inv: "store_inv s" and ok: "retarget_job s old new now = Inr (j, s')"
  obtains r found where "find_job s old = Some r" "find_job s new = None"
    "read_completion s old = Inr found"
    "\<not> (case found of None \<Rightarrow> False | Some c \<Rightarrow> \<not> is_acknowledged c)"
    "moved s old (retarget_row new now r) s'" "read_job_row (retarget_row new now r) = Inr j"
    "job_row_ok (retarget_row new now r)"
proof -
  from ok obtain r found where R: "find_job s old = Some r" "find_job s new = None"
    "read_completion s old = Inr found"
    "\<not> (case found of None \<Rightarrow> False | Some c \<Rightarrow> \<not> is_acknowledged c)"
    and rows: "ts_jobs s' = map (\<lambda>x. if jr_job_id x = old then retarget_row new now x else x)
       (ts_jobs s)" "ts_outbox s' = filter (\<lambda>b. obr_job_id b \<noteq> old) (ts_outbox s)"
      "ts_next_sequence s' = ts_next_sequence s"
    and chk: "\<forall>x\<in>set (ts_jobs s). jr_job_id x = old \<longrightarrow> job_check (retarget_row new now x)"
    and rj: "read_job s' new = Inr (Some j)"
    by (rule retarget_job_Inr)
  let ?r = "retarget_row new now r"
  have "(if jr_job_id x = old then retarget_row new now x else x) =
      (if jr_job_id x = old then ?r else x)" if "x \<in> set (ts_jobs s)" for x
    using that R(1) inv_find_job [OF inv, of old x] by (cases "jr_job_id x = old") simp_all
  with rows have mv: "moved s old ?r s'" by (simp add: moved_def cong: map_cong)
  have "find_job s' new = Some ?r"
    using moved_find_job [OF R(1) _ mv, of new] R(2) by (simp add: retarget_row_def)
  with rj have rd: "read_job_row ?r = Inr j" by (auto simp: read_Inr)
  moreover have "job_check ?r" using chk R(1) inv_find_job [OF inv] by auto
  ultimately show ?thesis using that [OF R mv] by (auto simp: job_row_ok_iff)
qed

lemma retarget_inv:
  assumes inv: "store_inv s" and ok: "retarget_job s old new now = Inr (j, s')"
  shows "store_inv s' \<and> life_step (lifecycle s) (lifecycle s')"
proof -
  from inv ok obtain r found where R: "find_job s old = Some r" "find_job s new = None"
    "read_completion s old = Inr found"
    "\<not> (case found of None \<Rightarrow> False | Some c \<Rightarrow> \<not> is_acknowledged c)"
    and mv: "moved s old (retarget_row new now r) s'"
    and rd: "read_job_row (retarget_row new now r) = Inr j"
    and rok: "job_row_ok (retarget_row new now r)"
    by (rule retarget_moved)
  let ?r = "retarget_row new now r"
  have rid: "jr_job_id ?r = new" "\<not> sql_terminal (jr_state ?r)"
    by (simp_all add: retarget_row_def sql_terminal_def)
  have inv': "store_inv s'" using moved_inv [OF inv _ rok _ mv] R(2) rid by simp
  from settled_iff [OF inv R(1,3,4)] obtain p where
    p: "lifecycle s old = Some p" "settled p" "uint (phase_version p) = jr_state_version r" .
  have col: "jr_state_version ?r = uint (phase_version p) + 1" by (simp add: retarget_row_def p)
  moreover have "int_column (jr_state_version ?r)" using rok by (simp add: job_row_ok_def)
  moreover have "int n + 1 < 2 ^ 63 \<Longrightarrow> n < i64_max" for n by (simp add: i64_max_def)
  ultimately have bound: "unat (phase_version p) < i64_max"
    by (metis int_column_def uint_nat)
  note jf = read_job_row_fields [OF rd]
  have "tag_as_db_str (sj_state j) = tag_as_db_str TagQueued"
    using jf by (simp add: retarget_row_def)
  then have jq: "sj_state j = TagQueued" by (simp only: tag_as_db_str_inj)
  have "uint (sj_state_version j) = uint (phase_version p) + 1" using jf col by simp
  then have "sj_state_version j = word_of_int (uint (phase_version p) + 1)"
    by (metis word_of_int_uint)
  then have jv: "sj_state_version j = phase_version p + 1" by simp
  have "lifecycle s' = (lifecycle s)(old := None, new \<mapsto> Live TagQueued (phase_version p + 1))"
    using moved_find_job [OF R(1) _ mv] moved_find_outbox [OF inv R(2) mv] R rid rd jq jv
    by (auto simp: fun_eq_iff lifecycle_def phase_of_rows_def)
  moreover have "lifecycle s new = None" using R(2) lifecycle_None [OF inv] by simp
  ultimately show ?thesis
    using inv' life_step.move [where L = "lifecycle s", OF p(1,2) bound] by simp
qed

end
