(* ===== verification/Store_Lifecycle.thy ===== *)
theory Store_Lifecycle
  imports Store_Invariant
begin

text \<open>
  Runs of the transfer store.  A run is a list of operations, each one a
  transaction that commits or leaves the database alone.  The interface
  \<open>lifecycle_store\<close> says what a client of the store relies on (an invariant and
  a life cycle every operation steps); what follows for the consumers of the
  completion outbox is proved in it once and for all and reaches the code's model
  through the interpretation \<open>durable\<close>.
\<close>

section \<open>Operations as data\<close>

datatype store_op =
    OpTransition string u64 JobStateTag "(string \<times> bool) option" string
  | OpDesired string DesiredRunState string "u64 option"
  | OpLedger string string FileLedgerStatus u64 "string option" string
  | OpCreate string JobSpec string
  | OpComplete string TerminalOutcome string
  | OpAcknowledge string string
  | OpRetry string string string bool
  | OpDismiss string string
  | OpDelete string
  | OpRetarget string string string

definition settle :: "TransferStore \<Rightarrow> 'e + TransferStore \<Rightarrow> TransferStore" where
  "settle s r = (case r of Inl _ \<Rightarrow> s | Inr s' \<Rightarrow> s')"

definition settle_snd :: "TransferStore \<Rightarrow> 'e + 'a \<times> TransferStore \<Rightarrow> TransferStore" where
  "settle_snd s r = (case r of Inl _ \<Rightarrow> s | Inr (x, s') \<Rightarrow> s')"

fun apply_op :: "(bytes \<Rightarrow> bytes) \<Rightarrow> store_op \<Rightarrow> TransferStore \<Rightarrow> TransferStore" where
  "apply_op sha256 (OpTransition k v to err now) s = settle_snd s (transition_job s k v to err now)"
| "apply_op sha256 (OpDesired k d now ev) s = settle s (set_desired_run_state s k d now ev)"
| "apply_op sha256 (OpLedger k fid st n d now) s = settle s (update_file_ledger s k fid st n d now)"
| "apply_op sha256 (OpCreate k spec now) s = settle_snd s (create_job sha256 s k spec now)"
| "apply_op sha256 (OpComplete k oc now) s = settle_snd s (complete_job s k oc now)"
| "apply_op sha256 (OpAcknowledge k now) s = settle_snd s (acknowledge_completion s k now)"
| "apply_op sha256 (OpRetry p child now up) s =
     settle_snd s (spawn_retry_job_inner s p child now up)"
| "apply_op sha256 (OpDismiss k now) s = settle_snd s (dismiss_job s k now)"
| "apply_op sha256 (OpDelete k) s = settle_snd s (delete_job s k)"
| "apply_op sha256 (OpRetarget old new now) s = settle_snd s (retarget_job s old new now)"

lemma settle_sndI:
  "\<lbrakk>P s; \<And>x s'. r = Inr (x, s') \<Longrightarrow> P s'\<rbrakk> \<Longrightarrow> P (settle_snd s r)"
  by (auto simp: settle_snd_def split: sum.splits)

lemma settleI: "\<lbrakk>P s; \<And>s'. r = Inr s' \<Longrightarrow> P s'\<rbrakk> \<Longrightarrow> P (settle s r)"
  by (auto simp: settle_def split: sum.splits)

lemma transition_step:
  assumes inv: "store_inv s" and tr: "transition_job s k v to err now = Inr (v', s')"
  shows "store_inv s' \<and> life_step (lifecycle s) (lifecycle s')"
proof -
  obtain t where "lifecycle s k = Some (Live t v)" using transition_inv(2) [OF inv tr] by blast
  from life_step.advance [where L = "lifecycle s", OF this] show ?thesis
    using transition_inv(1,3) [OF inv tr] transition_job_Inr(1,3) [OF tr] by simp
qed

lemmas op_invs = transition_step set_desired_inv ledger_inv create_inv complete_inv
  acknowledge_inv spawn_inv dismiss_inv delete_inv retarget_inv

lemma apply_op_step:
  assumes inv: "store_inv s"
  shows "store_inv (apply_op sha256 op s) \<and> life_step (lifecycle s) (lifecycle (apply_op sha256 op s))"
proof -
  have same: "store_inv s' \<and> lifecycle s' = lifecycle s \<Longrightarrow>
      store_inv s' \<and> life_step (lifecycle s) (lifecycle s')" for s'
    by (simp add: life_step.idle)
  let ?P = "\<lambda>s'. store_inv s' \<and> life_step (lifecycle s) (lifecycle s')"
  have "?P s" using inv by (simp add: life_step.idle)
  note I = settle_sndI [where P = ?P, OF this] settleI [where P = ?P, OF this]
  show ?thesis
    by (cases op; simp only: apply_op.simps; rule I)
      (rule op_invs [OF inv] same [OF set_desired_inv [OF inv]] same [OF ledger_inv [OF inv]]
         same [OF dismiss_inv [OF inv]], assumption)+
qed

section \<open>The interface of a durable job log\<close>

inductive_cases life_stepE: "life_step L L'"

lemma life_step_unacknowledged:
  assumes "life_step L L'" "L k = Some (Ended oc v False)"
  shows "L' k = Some (Ended oc v False) \<or> L' k = Some (Ended oc v True)"
  using assms by (elim life_stepE) auto

lemma life_step_version:
  assumes "life_step L L'" "L k = Some p" "L' k = Some p'"
  shows "p' = p \<or> phase_version p < phase_version p' \<or>
    (\<exists>oc v. p = Ended oc v False \<and> p' = Ended oc v True)"
proof -
  have "v < v + 1" if "unat v < i64_max" for v :: u64
    using that by (intro u64_succ_greater) (simp add: i64_max_def u64_max_def)
  with assms show ?thesis by (elim life_stepE) (auto split: if_splits)
qed

lemma life_step_live:
  assumes "life_step L L'" "L' k = Some (Live t v)"
  shows "L k = None \<or> (\<exists>t' v'. L k = Some (Live t' v'))"
  using assms by (elim life_stepE) (auto split: if_splits)

lemma life_step_ended:
  assumes "life_step L L'" "L k = Some (Ended oc v a)" "L' k = Some p'"
  shows "\<exists>a'. p' = Ended oc v a' \<and> (a \<longrightarrow> a')"
  using assms by (elim life_stepE) (auto split: if_splits)

locale lifecycle_store =
  fixes step :: "'op \<Rightarrow> 's \<Rightarrow> 's"
    and view :: "'s \<Rightarrow> lifecycle"
    and inv :: "'s \<Rightarrow> bool"
    and init :: 's
  assumes init_inv: "inv init"
    and step_inv: "inv s \<Longrightarrow> inv (step op s)"
    and step_life: "inv s \<Longrightarrow> life_step (view s) (view (step op s))"
begin

lemma run_inv: "inv s \<Longrightarrow> inv (fold step ops s)"
  by (induction ops arbitrary: s) (simp_all add: step_inv)

lemmas reachable_inv = run_inv [OF init_inv]

lemma outcome_survives:
  assumes "inv s" "view s k = Some (Ended oc v False)"
  shows "view (fold step ops s) k = Some (Ended oc v False) \<or>
    (\<exists>pre post. ops = pre @ post \<and> view (fold step pre s) k = Some (Ended oc v True))"
  using assms
proof (induction ops arbitrary: s)
  case (Cons op ops)
  consider "view (step op s) k = Some (Ended oc v False)"
    | "view (step op s) k = Some (Ended oc v True)"
    using life_step_unacknowledged [OF step_life [OF Cons.prems(1)] Cons.prems(2)] by blast
  then show ?case
  proof cases
    case 1
    from Cons.IH [OF step_inv [OF Cons.prems(1)] 1] show ?thesis
    proof
      assume "\<exists>pre post. ops = pre @ post \<and>
        view (fold step pre (step op s)) k = Some (Ended oc v True)"
      then obtain pre post where "ops = pre @ post"
        "view (fold step (op # pre) s) k = Some (Ended oc v True)" by auto
      then show ?thesis by (metis append_Cons)
    qed simp
  next
    case 2
    then have "view (fold step [op] s) k = Some (Ended oc v True)" by simp
    then show ?thesis by (metis append_Cons append_Nil)
  qed
qed simp

lemma ended_stays_ended:
  assumes "inv s" "view s k = Some (Ended oc v a)" "view (step op s) k = Some p"
  shows "\<exists>a'. p = Ended oc v a' \<and> (a \<longrightarrow> a')"
  using life_step_ended [OF step_life [OF assms(1)] assms(2,3)] .

lemma version_never_back:
  assumes "inv s" "view s k = Some p" "view (step op s) k = Some p'"
  shows "phase_version p \<le> phase_version p'"
  using life_step_version [OF step_life [OF assms(1)] assms(2,3)] by auto

end

interpretation durable: lifecycle_store "apply_op sha256" lifecycle store_inv empty_store
  for sha256
  by unfold_locales (simp_all add: store_inv_empty apply_op_step)

definition run_store :: "(bytes \<Rightarrow> bytes) \<Rightarrow> store_op list \<Rightarrow> TransferStore" where
  "run_store sha256 ops = fold (apply_op sha256) ops empty_store"

lemma run_store_inv: "store_inv (run_store sha256 ops)"
  unfolding run_store_def by (rule durable.reachable_inv)

lemma run_store_snoc: "run_store sha256 (ops @ [op]) = apply_op sha256 op (run_store sha256 ops)"
  by (simp add: run_store_def)

end
