(* ===== verification/Coordinator.thy ===== *)
theory Coordinator
  imports Fault Leases Progress Download_Engine Store_Lifecycle
begin

text \<open>
  The transfer coordinator (\<open>transfer/coordinator.rs\<close>, \<open>transfer/recovery.rs\<close>).
  Its state \<open>Inner\<close> is a record of the shared maps, the durable store, the ready
  queue and the leases.  A command runs inside the critical section of its job; the
  one place that releases the section is the wait for a worker, where the argument
  \<open>others\<close> stands for what the other threads do meanwhile.

  Every operation returns its result together with the state it leaves, because an
  error keeps the effects that were performed before it.  The collaborators the
  coordinator is built with (device status, publication verifier, evidence on disk)
  are the record \<open>Ports\<close>, the clock is the argument \<open>clock\<close> and the identifier
  \<open>uuid\<close> mints is an argument too.  An error whose text the coordinator composes
  into a persistence conflict is \<open>ErrConflict\<close> with the facts the text shows.
\<close>

section \<open>State\<close>

record JobCell =
  cl_version :: u64
  cl_observed :: u64

definition JobCell_new :: JobCell where
  "JobCell_new = \<lparr>cl_version = 1, cl_observed = 0\<rparr>"

record ManagedJob =
  mj_job_id :: job_id
  mj_request :: TransferRequest
  mj_state :: TransferJobState
  mj_scope :: PublicationScope
  mj_desired :: DesiredRunState
  mj_verified :: "VerifiedFile list"

record Inner =
  in_store :: TransferStore
  in_jobs :: "job_id \<rightharpoonup> ManagedJob"
  in_controls :: "job_id \<rightharpoonup> JobControl"
  in_cells :: "job_id \<rightharpoonup> JobCell"
  in_leases :: TargetLeases
  in_queue :: WorkQueue
  in_faults :: "CoordinatorFault list"
  in_progress :: "job_id \<rightharpoonup> JobProgressTracker"
  in_library_root :: path
  in_shutdown :: bool
  in_observation :: u64

record Ports =
  po_device :: "u64 \<Rightarrow> string \<Rightarrow> DeviceSnapshot"
  po_verify :: "bytes \<Rightarrow> bytes \<Rightarrow> bytes \<Rightarrow> string + unit"
  po_baseline :: "path \<Rightarrow> TransferRequest \<Rightarrow> DiskBaseline"

datatype coordinator_conflict =
    DigestConflict JobRequestConflict
  | IdCollides string JobIdentity
  | IllegalMove job_id TransferJobState TransferJobState
  | RetryOfUnacknowledged string
  | RetryOfDismissed string
  | RetryAfterSuccess string string
  | RetryIdTaken string
  | CompletionRefused CompleteJobError
  | NoUsableSpec JobSpecLoadError
  | TerminalUnacknowledged job_id
  | TerminalWithoutCompletion job_id
  | IdentityDiffers
  | MaterialDiffers
  | FilesDiffer PublicationScope
  | SpecNotBuilt JobSpecError

datatype CoordinatorError =
    ErrPersistence PersistenceError
  | ErrConflict coordinator_conflict
  | ErrNotFound job_id
  | ErrAlreadyTerminal job_id
  | ErrNotTerminal job_id
  | ErrNotFailed job_id
  | ErrTimeout job_id
  | ErrStale job_id u64 u64
  | ErrVerification string
  | ErrShuttingDown
  | ErrPanic job_id

text \<open>\<open>ErrPanic\<close> is the panic of \<open>tag_to_state\<close> and of \<open>expect\<close>, not a value of the sources.\<close>

type_synonym 'a co = "Inner \<Rightarrow> (CoordinatorError + 'a) \<times> Inner"

definition co_return :: "'a \<Rightarrow> 'a co" where
  "co_return x s = (Inr x, s)"

definition co_fail :: "CoordinatorError \<Rightarrow> 'a co" where
  "co_fail e s = (Inl e, s)"

definition co_bind :: "'a co \<Rightarrow> ('a \<Rightarrow> 'b co) \<Rightarrow> 'b co" where
  "co_bind m f s = (case m s of (Inl e, s') \<Rightarrow> (Inl e, s') | (Inr x, s') \<Rightarrow> f x s')"

section \<open>Small operations\<close>

definition record_fault :: "CoordinatorFault \<Rightarrow> Inner \<Rightarrow> Inner" where
  "record_fault f s = s\<lparr>in_faults := in_faults s @ [f]\<rparr>"

definition job_fault :: "job_id \<Rightarrow> FaultKind \<Rightarrow> FailureClass \<Rightarrow> Inner \<Rightarrow> Inner" where
  "job_fault j kind cls = record_fault (CoordinatorFault_new (Some j) kind cls)"

definition device_snapshot :: "Ports \<Rightarrow> string \<Rightarrow> Inner \<Rightarrow> DeviceSnapshot \<times> Inner" where
  "device_snapshot ports dev s =
    (let version = in_observation s + 1 in
     ((po_device ports version dev)\<lparr>snap_version := version\<rparr>, s\<lparr>in_observation := version\<rparr>))"

definition update_control :: "job_id \<Rightarrow> (JobControl \<Rightarrow> JobControl) \<Rightarrow> Inner \<Rightarrow> Inner" where
  "update_control j f s =
    (case in_controls s j of
       None \<Rightarrow> s
     | Some c \<Rightarrow> s\<lparr>in_controls := (in_controls s)(j \<mapsto> f c)\<rparr>)"

definition update_job :: "job_id \<Rightarrow> (ManagedJob \<Rightarrow> ManagedJob) \<Rightarrow> Inner \<Rightarrow> Inner" where
  "update_job j f s =
    (case in_jobs s j of
       None \<Rightarrow> s
     | Some m \<Rightarrow> s\<lparr>in_jobs := (in_jobs s)(j \<mapsto> f m)\<rparr>)"

definition update_cell :: "job_id \<Rightarrow> (JobCell \<Rightarrow> JobCell) \<Rightarrow> Inner \<Rightarrow> Inner" where
  "update_cell j f s =
    (case in_cells s j of
       None \<Rightarrow> s
     | Some c \<Rightarrow> s\<lparr>in_cells := (in_cells s)(j \<mapsto> f c)\<rparr>)"

definition set_verified_files :: "job_id \<Rightarrow> VerifiedFile list \<Rightarrow> Inner \<Rightarrow> Inner" where
  "set_verified_files j files = update_job j (\<lambda>m. m\<lparr>mj_verified := files\<rparr>)"

definition schedule_job :: "job_id \<Rightarrow> Inner \<Rightarrow> Inner \<times> ScheduleOutcome" where
  "schedule_job j s =
    (case schedule (in_queue s) j of
       (q, out) \<Rightarrow>
         (let s' = s\<lparr>in_queue := q\<rparr> in
          case out of
            ScheduleOutcome.Full \<Rightarrow> (job_fault j FaultSend LocalIo s', out)
          | ScheduleOutcome.Stopped \<Rightarrow> (job_fault j FaultSend ClassCancelled s', out)
          | _ \<Rightarrow> (s', out)))"

definition offer_job :: "job_id \<Rightarrow> Inner \<Rightarrow> Inner" where
  "offer_job j s = fst (schedule_job j s)"

definition install_progress :: "Ports \<Rightarrow> job_id \<Rightarrow> TransferRequest \<Rightarrow> Inner \<Rightarrow> Inner" where
  "install_progress ports j request s =
    s\<lparr>in_progress := (in_progress s)(j \<mapsto>
        with_baseline (sum_list (map expected_size (tr_files request)))
          (of_nat (length (tr_files request))) (po_baseline ports (in_library_root s) request))\<rparr>"

definition verify_request_publication :: "Ports \<Rightarrow> TransferRequest \<Rightarrow> string + unit" where
  "verify_request_publication ports request =
    po_verify ports (tr_manifest_bytes request) (tr_signature request)
      (tr_publication_public_key request)"

section \<open>Error mappings\<close>

fun reject_error :: "job_id \<Rightarrow> RejectReason \<Rightarrow> CoordinatorError" where
  "reject_error j AlreadyTerminal = ErrAlreadyTerminal j"
| "reject_error j RejectReason.NotTerminal = ErrNotTerminal j"
| "reject_error j NotFailed = ErrNotFailed j"
| "reject_error j (IllegalTransition from to) = ErrConflict (IllegalMove j from to)"

fun retry_error :: "RetryJobError \<Rightarrow> CoordinatorError" where
  "retry_error (RetryUnknownJob j) = ErrNotFound j"
| "retry_error (NotRetryable j) = ErrNotFailed j"
| "retry_error (UnacknowledgedParent j) = ErrConflict (RetryOfUnacknowledged j)"
| "retry_error (DismissedParent j) = ErrConflict (RetryOfDismissed j)"
| "retry_error (SuccessfulDescendant p c) = ErrConflict (RetryAfterSuccess p c)"
| "retry_error (RetryIdCollision j) = ErrConflict (RetryIdTaken j)"
| "retry_error (RetryPersistence e) = ErrPersistence e"

fun map_complete_job_error :: "CompleteJobError \<Rightarrow> CoordinatorError" where
  "map_complete_job_error (CompletePersistence e) = ErrPersistence e"
| "map_complete_job_error other = ErrConflict (CompletionRefused other)"

fun create_error :: "CreateJobError \<Rightarrow> CoordinatorError" where
  "create_error (RequestDigestMismatch c) = ErrConflict (DigestConflict c)"
| "create_error (JobIdCollision j i) = ErrConflict (IdCollides j i)"
| "create_error (CreatePersistence e) = ErrPersistence e"

section \<open>The serialized command\<close>

fun terminal_outcome_of :: "JobStateTag \<Rightarrow> (string \<times> bool) option \<Rightarrow> TerminalOutcome option" where
  "terminal_outcome_of TagSucceeded err = Some OutcomeSucceeded"
| "terminal_outcome_of TagCancelled err = Some OutcomeCancelled"
| "terminal_outcome_of TagFailed (Some (code, retryable)) = Some (OutcomeFailed code retryable)"
| "terminal_outcome_of _ _ = None"

definition commit_durably ::
    "string \<Rightarrow> job_id \<Rightarrow> u64 \<Rightarrow> TransferJobState \<Rightarrow> TransferStore
     \<Rightarrow> CoordinatorError + TransferStore" where
  "commit_durably now j expected to s =
    (case state_to_tag to of
       (tag, err) \<Rightarrow>
         if is_terminal to then
           (case read_job s j of
              Inl e \<Rightarrow> Inl (ErrPersistence e)
            | Inr None \<Rightarrow> Inl (ErrNotFound j)
            | Inr (Some current) \<Rightarrow>
                if sj_state_version current \<noteq> expected
                then Inl (ErrStale j expected (sj_state_version current))
                else (case terminal_outcome_of tag err of
                    None \<Rightarrow> Inl (ErrPanic j)
                  | Some oc \<Rightarrow> map_err map_complete_job_error
                      (result_bind (complete_job s j oc now) (\<lambda>(res, s'). Inr s'))))
         else map_err ErrPersistence
           (result_bind (transition_job s j expected tag err now) (\<lambda>(v, s'). Inr s')))"

definition commit_transition :: "string \<Rightarrow> job_id \<Rightarrow> u64 \<Rightarrow> TransferJobState \<Rightarrow> unit co" where
  "commit_transition now j expected to s =
    (case commit_durably now j expected to (in_store s) of
       Inl e \<Rightarrow> (Inl e, s)
     | Inr st \<Rightarrow> (Inr (), update_job j (\<lambda>m. m\<lparr>mj_state := to\<rparr>) (s\<lparr>in_store := st\<rparr>)))"

fun perform :: "string \<Rightarrow> job_id \<Rightarrow> Effect \<Rightarrow> unit co" where
  "perform now j (Commit expected to) s =
    (case in_cells s j of
       None \<Rightarrow> (Inl (ErrNotFound j), s)
     | Some cell \<Rightarrow>
         if cl_version cell \<noteq> expected then (Inl (ErrStale j expected (cl_version cell)), s)
         else (case commit_transition now j expected to s of
             (Inl e, s') \<Rightarrow> (Inl e, job_fault j FaultTransition LocalIo s')
           | (Inr _, s') \<Rightarrow>
               (Inr (), update_cell j (\<lambda>c. c\<lparr>cl_version := expected + 1\<rparr>) s')))"
| "perform now j (SetDesiredRunState desired) s =
    (case in_cells s j of
       None \<Rightarrow> (Inl (ErrNotFound j), s)
     | Some cell \<Rightarrow>
         (case set_desired_run_state (in_store s) j desired now (Some (cl_version cell)) of
            Inl e \<Rightarrow> (Inl (ErrPersistence e), job_fault j FaultDesiredRunState LocalIo s)
          | Inr st \<Rightarrow>
              (Inr (), update_job j (\<lambda>m. m\<lparr>mj_desired := desired\<rparr>) (s\<lparr>in_store := st\<rparr>))))"
| "perform now j (RequestInterrupt reason) s =
    (Inr (), update_control j (\<lambda>c. request_interrupt c reason) s)"
| "perform now j ClearInterrupt s = (Inr (), update_control j clear_interrupt s)"
| "perform now j Dispatch s = (Inr (), offer_job j s)"
| "perform now j (RecordDeviceVersion version) s =
    (Inr (), update_cell j (\<lambda>c. if cl_observed c < version then c\<lparr>cl_observed := version\<rparr> else c) s)"
| "perform now j AwaitWorkerRelease s = (Inr (), s)"
| "perform now j SpawnRetryJob s = (Inr (), s)"
| "perform now j RemoveJob s = (Inr (), s)"

fun perform_all :: "(nat \<Rightarrow> string) \<Rightarrow> job_id \<Rightarrow> nat \<Rightarrow> Effect list \<Rightarrow> unit co" where
  "perform_all clock j i [] = co_return ()"
| "perform_all clock j i (e # es) =
    co_bind (perform (clock i) j e) (\<lambda>_. perform_all clock j (Suc i) es)"

definition load_aggregate :: "job_id \<Rightarrow> JobCell \<Rightarrow> Inner \<Rightarrow> CoordinatorError + JobAggregate" where
  "load_aggregate j cell s =
    (case in_jobs s j of
       None \<Rightarrow> Inl (ErrNotFound j)
     | Some m \<Rightarrow> Inr \<lparr>agg_state = mj_state m, agg_version = cl_version cell,
                      agg_desired = mj_desired m, agg_observed = cl_observed cell\<rparr>)"

definition wait_for_inactive :: "job_id \<Rightarrow> Inner \<Rightarrow> bool" where
  "wait_for_inactive j s \<longleftrightarrow>
    (case in_controls s j of None \<Rightarrow> True | Some c \<Rightarrow> \<not> jc_active c)"

definition await_and_finish ::
    "(Inner \<Rightarrow> Inner) \<Rightarrow> (nat \<Rightarrow> string) \<Rightarrow> job_id \<Rightarrow> nat \<Rightarrow> Effect list \<Rightarrow> unit co" where
  "await_and_finish others clock j i rest s =
    (let s' = others s in
     if \<not> wait_for_inactive j s' then (Inl (ErrTimeout j), s')
     else perform_all clock j i rest s')"

text \<open>The part of \<open>apply_checked\<close> after the decision.\<close>

definition apply_decision ::
    "(Inner \<Rightarrow> Inner) \<Rightarrow> (nat \<Rightarrow> string) \<Rightarrow> job_id \<Rightarrow> Decision \<Rightarrow> CommandOutcome co" where
  "apply_decision others clock j d =
    (case outcome d of
       Rejected reason \<Rightarrow> co_fail (reject_error j reason)
     | out \<Rightarrow>
         (let first = takeWhile (\<lambda>e. e \<noteq> AwaitWorkerRelease) (effects d);
              rest = dropWhile (\<lambda>e. e \<noteq> AwaitWorkerRelease) (effects d) in
          co_bind (perform_all clock j 0 first) (\<lambda>_.
          co_bind (if rest = [] then co_return ()
                   else await_and_finish others clock j (length first) (tl rest)) (\<lambda>_.
          co_return out))))"

definition apply_checked ::
    "(Inner \<Rightarrow> Inner) \<Rightarrow> (nat \<Rightarrow> string) \<Rightarrow> job_id \<Rightarrow> JobCommand \<Rightarrow> u64 option
     \<Rightarrow> CommandOutcome co" where
  "apply_checked others clock j cmd expected_version s =
    (case in_cells s j of
       None \<Rightarrow> (Inl (ErrNotFound j), s)
     | Some cell \<Rightarrow>
       (case in_controls s j of
          None \<Rightarrow> (Inl (ErrNotFound j), s)
        | Some control \<Rightarrow>
          (case load_aggregate j cell s of
             Inl e \<Rightarrow> (Inl e, s)
           | Inr agg \<Rightarrow>
             (case expected_version of
                Some v \<Rightarrow> if v \<noteq> agg_version agg then (Inl (ErrStale j v (agg_version agg)), s)
                          else apply_decision others clock j (decide agg cmd) s
              | None \<Rightarrow> apply_decision others clock j (decide agg cmd) s))))"

definition apply_command ::
    "(Inner \<Rightarrow> Inner) \<Rightarrow> (nat \<Rightarrow> string) \<Rightarrow> job_id \<Rightarrow> JobCommand \<Rightarrow> CommandOutcome co" where
  "apply_command others clock j cmd = apply_checked others clock j cmd None"

definition worker_report :: "(nat \<Rightarrow> string) \<Rightarrow> job_id \<Rightarrow> WorkerReport \<Rightarrow> CommandOutcome co" where
  "worker_report clock j report s =
    (case apply_command id clock j (Worker report) s of
       (Inl e, s') \<Rightarrow> (Inl e, job_fault j FaultTransition LocalIo s')
     | ok \<Rightarrow> ok)"

definition observe_device :: "Ports \<Rightarrow> (nat \<Rightarrow> string) \<Rightarrow> job_id \<Rightarrow> string \<Rightarrow> DeviceReadiness co" where
  "observe_device ports clock j dev s =
    (case device_snapshot ports dev s of
       (snap, s') \<Rightarrow>
         co_bind (apply_command id clock j (DeviceObserved snap))
           (\<lambda>_. co_return (readiness snap)) s')"

section \<open>Admission and recovery\<close>

definition file_matches :: "JobFileSpec \<Rightarrow> JobFile \<Rightarrow> bool" where
  "file_matches expected actual \<longleftrightarrow>
    jf_file_id expected = file_id actual \<and> jf_display_path expected = target_path_or_id actual \<and>
    jf_size_bytes expected = expected_size actual \<and> jf_sha256 expected = expected_sha256_hex actual"

definition validate_request_against_spec ::
    "TransferRequest \<Rightarrow> JobSpec \<Rightarrow> CoordinatorError + unit" where
  "validate_request_against_spec request spec =
    (if ji_device_id (js_identity spec) \<noteq> tr_device_id request \<or>
        ji_session_id (js_identity spec) \<noteq> tr_session_id request \<or>
        ji_revision (js_identity spec) \<noteq> tr_revision request
     then Inl (ErrConflict IdentityDiffers)
     else if pm_payload (js_publication spec) \<noteq> tr_manifest_bytes request \<or>
        pm_signature (js_publication spec) \<noteq> tr_signature request \<or>
        pm_public_key (js_publication spec) \<noteq> tr_publication_public_key request
     then Inl (ErrConflict MaterialDiffers)
     else if length (requested_files spec) \<noteq> length (tr_files request) \<or>
        \<not> list_all (\<lambda>(e, a). file_matches e a) (zip (requested_files spec) (tr_files request))
     then Inl (ErrConflict (FilesDiffer (publication_scope spec)))
     else Inr ())"

definition rehydrate ::
    "Ports \<Rightarrow> job_id \<Rightarrow> TransferRequest \<Rightarrow> TransferJobState \<Rightarrow> PublicationScope \<Rightarrow> DesiredRunState
     \<Rightarrow> u64 \<Rightarrow> Inner \<Rightarrow> Inner" where
  "rehydrate ports j request state scope desired version s =
    (let s1 = install_progress ports j request s;
         s2 = s1\<lparr>in_jobs := (in_jobs s1)(j \<mapsto>
           \<lparr>mj_job_id = j, mj_request = request, mj_state = state, mj_scope = scope,
            mj_desired = desired, mj_verified = []\<rparr>)\<rparr>;
         s3 = (if in_controls s2 j = None
           then s2\<lparr>in_controls := (in_controls s2)(j \<mapsto> JobControl_default)\<rparr> else s2);
         s4 = (if in_cells s3 j = None
           then s3\<lparr>in_cells := (in_cells s3)(j \<mapsto> JobCell_new\<lparr>cl_version := version\<rparr>)\<rparr> else s3) in
     if \<not> is_terminal state \<and> desired = Run then offer_job j s4 else s4)"

definition rehydrate_row ::
    "Ports \<Rightarrow> StoredJob \<Rightarrow> TransferRequest \<Rightarrow> PublicationScope \<Rightarrow> unit co" where
  "rehydrate_row ports row request scope s =
    (case tag_to_state (sj_state row) (sj_error row) of
       None \<Rightarrow> (Inl (ErrPanic (sj_job_id row)), s)
     | Some state \<Rightarrow>
         (Inr (), rehydrate ports (sj_job_id row) request state scope (sj_desired row)
           (sj_state_version row) s))"

definition install_new :: "Ports \<Rightarrow> job_id \<Rightarrow> TransferRequest \<Rightarrow> PublicationScope \<Rightarrow> Inner \<Rightarrow> Inner" where
  "install_new ports j request scope s =
    (let s1 = install_progress ports j request s in
     offer_job j (s1
       \<lparr>in_jobs := (in_jobs s1)(j \<mapsto>
          \<lparr>mj_job_id = j, mj_request = request, mj_state = Queued, mj_scope = scope,
           mj_desired = Run, mj_verified = []\<rparr>),
        in_controls := (in_controls s1)(j \<mapsto> JobControl_default),
        in_cells := (in_cells s1)(j \<mapsto> JobCell_new)\<rparr>))"

definition enqueue_inner ::
    "(bytes \<Rightarrow> bytes) \<Rightarrow> Ports \<Rightarrow> string \<Rightarrow> job_id \<Rightarrow> TransferRequest \<Rightarrow> JobSpec \<Rightarrow> job_id co" where
  "enqueue_inner sha256 ports now fresh request spec s =
    (if in_shutdown s then (Inl ErrShuttingDown, s)
     else (case verify_request_publication ports request of
       Inl e \<Rightarrow> (Inl (ErrVerification e), s)
     | Inr _ \<Rightarrow>
       (case create_job sha256 (in_store s) fresh spec now of
          Inl e \<Rightarrow> (Inl (create_error e), s)
        | Inr (Existing stored, st) \<Rightarrow>
            (let s' = s\<lparr>in_store := st\<rparr> in
             if in_jobs s' (sj_job_id stored) \<noteq> None then (Inr (sj_job_id stored), s')
             else if \<not> tag_is_terminal (sj_state stored) \<or> sj_state stored = TagFailed
             then co_bind (rehydrate_row ports stored (request_from_spec spec)
                    (publication_scope spec)) (\<lambda>_. co_return (sj_job_id stored)) s'
             else (Inr (sj_job_id stored), s'))
        | Inr (Created stored, st) \<Rightarrow>
            (Inr (sj_job_id stored),
             install_new ports (sj_job_id stored) request (publication_scope spec)
               (s\<lparr>in_store := st\<rparr>)))))"

definition enqueue ::
    "(bytes \<Rightarrow> bytes) \<Rightarrow> Ports \<Rightarrow> string \<Rightarrow> job_id \<Rightarrow> TransferRequest \<Rightarrow> job_id co" where
  "enqueue sha256 ports now fresh request s =
    (case to_job_spec request True [] of
       Inl e \<Rightarrow> (Inl (ErrConflict (SpecNotBuilt e)), s)
     | Inr spec \<Rightarrow> enqueue_inner sha256 ports now fresh request spec s)"

definition enqueue_with_spec ::
    "(bytes \<Rightarrow> bytes) \<Rightarrow> Ports \<Rightarrow> string \<Rightarrow> job_id \<Rightarrow> TransferRequest \<Rightarrow> JobSpec \<Rightarrow> job_id co" where
  "enqueue_with_spec sha256 ports now fresh request spec s =
    (case validate_request_against_spec request spec of
       Inl e \<Rightarrow> (Inl e, s)
     | Inr _ \<Rightarrow> enqueue_inner sha256 ports now fresh request spec s)"

fun recover_jobs :: "Ports \<Rightarrow> RecoverableJob list \<Rightarrow> job_id list co" where
  "recover_jobs ports [] = co_return []"
| "recover_jobs ports (RecoverReady d # rest) =
    co_bind (rehydrate_row ports (rd_job d) (request_from_spec (rd_spec d))
      (publication_scope (rd_spec d))) (\<lambda>_.
    co_bind (recover_jobs ports rest) (\<lambda>ids. co_return (sj_job_id (rd_job d) # ids)))"
| "recover_jobs ports (RecoverBlocked b # rest) =
    (\<lambda>s. recover_jobs ports rest (job_fault (rb_job_id b) FaultTransition LocalIo s))"

definition recover_on_startup :: "(bytes \<Rightarrow> bytes) \<Rightarrow> Ports \<Rightarrow> job_id list co" where
  "recover_on_startup sha256 ports s =
    (case list_recoverable_jobs sha256 (in_store s) of
       Inl e \<Rightarrow> (Inl (ErrPersistence e), s)
     | Inr rows \<Rightarrow> recover_jobs ports rows s)"

section \<open>User commands\<close>

definition pause :: "(Inner \<Rightarrow> Inner) \<Rightarrow> (nat \<Rightarrow> string) \<Rightarrow> job_id \<Rightarrow> unit co" where
  "pause others clock j = co_bind (apply_command others clock j Pause) (\<lambda>_. co_return ())"

definition resume :: "(nat \<Rightarrow> string) \<Rightarrow> job_id \<Rightarrow> unit co" where
  "resume clock j = co_bind (apply_command id clock j Resume) (\<lambda>_. co_return ())"

definition memory_cancelled :: "job_id \<Rightarrow> Inner \<Rightarrow> bool" where
  "memory_cancelled j s \<longleftrightarrow>
    (case in_jobs s j of None \<Rightarrow> False | Some m \<Rightarrow> mj_state m = Cancelled)"

fun is_already_terminal :: "CoordinatorError \<Rightarrow> bool" where
  "is_already_terminal (ErrAlreadyTerminal _) = True"
| "is_already_terminal _ = False"

text \<open>
  \<open>between\<close> is what the other threads do between the two phases.
\<close>

definition finalize_cancel :: "(nat \<Rightarrow> string) \<Rightarrow> job_id \<Rightarrow> unit co" where
  "finalize_cancel clock j s =
    (case apply_command id clock j FinalizeCancel s of
       (Inr _, s') \<Rightarrow> (Inr (), s')
     | (Inl e, s') \<Rightarrow>
         if is_already_terminal e \<and> memory_cancelled j s' then (Inr (), s') else (Inl e, s'))"

definition cancel ::
    "(Inner \<Rightarrow> Inner) \<Rightarrow> (Inner \<Rightarrow> Inner) \<Rightarrow> (nat \<Rightarrow> string) \<Rightarrow> job_id \<Rightarrow> unit co" where
  "cancel others between clock j s =
    (case apply_command others clock j Cancel s of
       (Inr _, s') \<Rightarrow> finalize_cancel clock j (between s')
     | (Inl e, s') \<Rightarrow>
         if is_already_terminal e \<and> memory_cancelled j s' then (Inr (), s') else (Inl e, s'))"

definition forget_job :: "job_id \<Rightarrow> Inner \<Rightarrow> Inner" where
  "forget_job j s =
    s\<lparr>in_jobs := (in_jobs s)(j := None), in_controls := (in_controls s)(j := None),
      in_cells := (in_cells s)(j := None), in_progress := (in_progress s)(j := None)\<rparr>"

definition retry ::
    "(bytes \<Rightarrow> bytes) \<Rightarrow> Ports \<Rightarrow> (nat \<Rightarrow> string) \<Rightarrow> string \<Rightarrow> job_id \<Rightarrow> job_id \<Rightarrow> job_id co" where
  "retry sha256 ports clock now child_id j s =
    (let request = map_option mj_request (in_jobs s j) in
     co_bind (apply_command id clock j Retry) (\<lambda>_ s1.
     case spawn_retry_job (in_store s1) j child_id now of
       Inl e \<Rightarrow> (Inl (retry_error e), s1)
     | Inr (res, st) \<Rightarrow>
         (let row = retry_job_of res; child = sj_job_id row; s2 = s1\<lparr>in_store := st\<rparr> in
          if in_jobs s2 child \<noteq> None then (Inr child, s2)
          else (case job_spec sha256 st child of
              Inl e \<Rightarrow> (Inl (ErrConflict (NoUsableSpec e)), s2)
            | Inr spec \<Rightarrow>
                co_bind (rehydrate_row ports row
                  (case request of None \<Rightarrow> request_from_spec spec | Some r \<Rightarrow> r)
                  (publication_scope spec)) (\<lambda>_. co_return child) s2))) s)"

definition dismiss :: "(Inner \<Rightarrow> Inner) \<Rightarrow> (nat \<Rightarrow> string) \<Rightarrow> job_id \<Rightarrow> unit co" where
  "dismiss others clock j s =
    (if in_jobs s j = None then (Inl (ErrNotFound j), s)
     else co_bind (apply_command others clock j Dismiss) (\<lambda>_ s1.
       case delete_job (in_store s1) j of
         Inl e \<Rightarrow> (Inl (ErrPersistence e), s1)
       | Inr (removed, st) \<Rightarrow> (Inr (), forget_job j (s1\<lparr>in_store := st\<rparr>))) s)"

definition validate_dismissal :: "job_id \<Rightarrow> Inner \<Rightarrow> CoordinatorError + unit" where
  "validate_dismissal j s =
    (case in_jobs s j of
       None \<Rightarrow> Inl (ErrNotFound j)
     | Some m \<Rightarrow>
         if \<not> is_terminal (mj_state m) then Inl (ErrNotTerminal j)
         else (case read_completion (in_store s) j of
             Inl e \<Rightarrow> Inl (ErrPersistence e)
           | Inr None \<Rightarrow> Inl (ErrConflict (TerminalWithoutCompletion j))
           | Inr (Some c) \<Rightarrow> if is_acknowledged c then Inr ()
               else Inl (ErrConflict (TerminalUnacknowledged j))))"

definition dismiss_runtime :: "(Inner \<Rightarrow> Inner) \<Rightarrow> (nat \<Rightarrow> string) \<Rightarrow> job_id \<Rightarrow> unit co" where
  "dismiss_runtime others clock j s =
    (case validate_dismissal j s of
       Inl e \<Rightarrow> (Inl e, s)
     | Inr _ \<Rightarrow> co_bind (apply_command others clock j Dismiss)
         (\<lambda>_ s1. (Inr (), forget_job j s1)) s)"

end
