(* ===== verification/Coherence.thy ===== *)
theory Coherence
  imports Coordinator
begin

text \<open>
  Memory and database agree.  The coordinator keeps the state, the version and the
  run intent of a job in memory beside the durable row; this theory shows that no
  command, whether it succeeds, is refused or fails half way, lets the two
  disagree.

  The interface \<open>versioned_rows\<close> is what the coordinator relies on in the store: a
  commit succeeds only at the current version and moves one row, an intent write
  changes only the intent.
\<close>

section \<open>Rows as the coordinator sees them\<close>

type_synonym row_view = "job_id \<rightharpoonup> TransferJobState \<times> u64 \<times> DesiredRunState"

definition row_of :: "StoredJob \<Rightarrow> (TransferJobState \<times> u64 \<times> DesiredRunState) option" where
  "row_of j = map_option (\<lambda>st. (st, sj_state_version j, sj_desired j))
     (tag_to_state (sj_state j) (sj_error j))"

definition job_view :: "TransferStore \<Rightarrow> row_view" where
  "job_view s k =
    (case read_job s k of Inr (Some j) \<Rightarrow> row_of j | _ \<Rightarrow> None)"

locale versioned_rows =
  fixes view :: "'s \<Rightarrow> row_view"
    and ok :: "'s \<Rightarrow> bool"
    and advance :: "string \<Rightarrow> job_id \<Rightarrow> u64 \<Rightarrow> TransferJobState \<Rightarrow> 's \<Rightarrow> 'e + 's"
    and intend :: "'s \<Rightarrow> job_id \<Rightarrow> DesiredRunState \<Rightarrow> string \<Rightarrow> u64 option \<Rightarrow> 'p + 's"
  assumes advance_law:
      "\<lbrakk>ok s; view s k = Some (st, w, d); \<not> is_terminal st; advance now k v to s = Inr s'\<rbrakk>
       \<Longrightarrow> ok s' \<and> w = v \<and> view s' = (view s)(k \<mapsto> (to, v + 1, d))"
    and intend_law:
      "\<lbrakk>ok s; view s k = Some (st, w, d0); intend s k d now (Some v) = Inr s'\<rbrakk>
       \<Longrightarrow> ok s' \<and> w = v \<and> view s' = (view s)(k \<mapsto> (st, v, d))"
begin

fun advance_all ::
    "(nat \<Rightarrow> string) \<Rightarrow> nat \<Rightarrow> job_id \<Rightarrow> (u64 \<times> TransferJobState) list \<Rightarrow> 's \<Rightarrow> 'e + 's" where
  "advance_all clock i k [] s = Inr s"
| "advance_all clock i k ((v, t) # cs) s =
    result_bind (advance (clock i) k v t s) (advance_all clock (Suc i) k cs)"

lemma chain_advances:
  assumes "commit_chain v st cs" "ok s" "view s k = Some (st, v, d)"
    "advance_all clock i k cs s = Inr s'"
  shows "ok s' \<and> view s' = (view s)(k \<mapsto> (last (st # map snd cs), v + of_nat (length cs), d))"
  using assms
proof (induction v st cs arbitrary: s i rule: commit_chain.induct)
  case (1 v st)
  then show ?case by (auto simp: fun_upd_idem)
next
  case (2 v st w t cs)
  then have nt: "\<not> is_terminal st" using domain_graph.terminal_stuck by auto
  from 2 obtain s1 where s1: "advance (clock i) k v t s = Inr s1"
    "advance_all clock (Suc i) k cs s1 = Inr s'" by (auto simp: result_bind_Inr_iff)
  note A = advance_law [OF 2(3,4) nt s1(1)]
  from 2(1) [of s1 "Suc i"] A 2(2) s1(2)
  have "ok s'" "view s' = (view s1)(k \<mapsto> (last (t # map snd cs), v + 1 + of_nat (length cs), d))"
    by auto
  with A show ?case by (simp add: algebra_simps)
qed

end

section \<open>The store keeps the laws\<close>

lemma tag_state_roundtrip: "tag_to_state (fst (state_to_tag s)) (snd (state_to_tag s)) = Some s"
  by (cases s) (simp_all add: state_to_tag_def tag_to_state_def)

lemma find_update_jobs:
  assumes "update_jobs sel f s = Inr s'" "\<And>r. jr_job_id (f r) = jr_job_id r"
  shows "find_job s' i = map_option (\<lambda>r. if sel r then f r else r) (find_job s i)"
  using assms by (auto simp: update_jobs_Inr find_job_map)

lemma view_of_row:
  assumes "find_job s k = Some r" "read_job_row r = Inr j"
  shows "job_view s k = row_of j"
  using assms by (simp add: job_view_def read_job_def decode_job_def)

lemma view_row:
  assumes "store_inv s" "job_view s k = Some (st, v, d)"
  obtains r j where "find_job s k = Some r" "read_job_row r = Inr j"
    "tag_to_state (sj_state j) (sj_error j) = Some st" "sj_state_version j = v" "sj_desired j = d"
proof -
  from assms(2) obtain j where j: "read_job s k = Inr (Some j)" "row_of j = Some (st, v, d)"
    by (auto simp: job_view_def split: sum.splits option.splits)
  then obtain r where "find_job s k = Some r" "read_job_row r = Inr j" by (auto simp: read_Inr)
  with that j(2) show ?thesis by (auto simp: row_of_def)
qed

lemma view_other: "find_job s' i = find_job s i \<Longrightarrow> job_view s' i = job_view s i"
  by (simp add: job_view_def read_job_def)

lemma tag_to_state_terminal:
  "tag_to_state t err = Some st \<Longrightarrow> is_terminal st = tag_is_terminal t"
  by (cases t) (auto simp: tag_to_state_def split: option.splits)

lemma error_of_error_columns:
  "terminal_outcome_of t err = Some oc \<Longrightarrow> (t = TagFailed \<or> err = None) \<Longrightarrow>
   outcome_state_tag oc = t \<and> error_of_columns (fst (error_columns oc)) (snd (error_columns oc)) = err"
  by (cases t; cases err) (auto simp: error_of_columns_def)

lemma view_transition_row:
  assumes "find_job s k = Some r" "read_job_row r = Inr j" "unat v < i64_max"
    "find_job s' k = Some (transition_row (tag_as_db_str t) (uint (v + 1 :: u64)) cols now r)"
  shows "job_view s' k = map_option (\<lambda>st. (st, v + 1, sj_desired j))
    (tag_to_state t (error_of_columns (fst cols) (snd cols)))"
  using view_of_row [OF assms(4) read_transition_row [OF assms(2,3)]] by (simp add: row_of_def)

lemma transition_view:
  assumes inv: "store_inv s" and view: "job_view s k = Some (st, w, d)"
    and tr: "transition_job s k v (fst (state_to_tag to)) (snd (state_to_tag to)) now = Inr (v', s')"
  shows "w = v \<and> job_view s' = (job_view s)(k \<mapsto> (to, v + 1, d))"
proof -
  note T = transition_job_Inr [OF tr]
  from inv view obtain r j where r: "find_job s k = Some r" "read_job_row r = Inr j"
    "sj_state_version j = w" "sj_desired j = d" by (rule view_row)
  note up = find_update_jobs [OF T(6), unfolded transition_row_def, simplified, folded transition_row_def]
  from T(5) obtain r0 where r0: "r0 \<in> set (ts_jobs s)" "jr_job_id r0 = k" "jr_state_version r0 = uint v"
    "\<not> sql_terminal (jr_state r0)" by blast
  then have "r0 = r" using r(1) inv_find_job [OF inv, of k r0] by simp
  then have v: "w = v" using r0(3) read_job_row_fields [OF r(2)] r(3) by (simp add: word_uint_eq_iff)
  have "find_job s' k = Some (transition_row (tag_as_db_str (fst (state_to_tag to))) (uint (v + 1)) (None, None) now r)"
    using up [of k] r(1) r0 \<open>r0 = r\<close> by simp
  from view_transition_row [OF r(1,2) T(3) this] T(2)
  have "job_view s' k = Some (to, v + 1, d)"
    using tag_state_roundtrip [of to] r(4) by (simp add: error_of_columns_def)
  moreover have "job_view s' i = job_view s i" if "i \<noteq> k" for i
  proof (rule view_other)
    show "find_job s' i = find_job s i"
      using up [of i] that by (cases "find_job s i") (auto dest: find_job_id)
  qed
  ultimately show ?thesis using v by (auto simp: fun_eq_iff)
qed

lemma complete_view:
  assumes inv: "store_inv s" and view: "job_view s k = Some (st, v, d)" "\<not> is_terminal st"
    and oc: "terminal_outcome_of (fst (state_to_tag to)) (snd (state_to_tag to)) = Some oc"
    and ok: "complete_job s k oc now = Inr (res, s')"
  shows "store_inv s' \<and> job_view s' = (job_view s)(k \<mapsto> (to, v + 1, d))"
proof -
  from inv view(1) obtain r j where r: "find_job s k = Some r" "read_job_row r = Inr j"
    "tag_to_state (sj_state j) (sj_error j) = Some st" "sj_state_version j = v" "sj_desired j = d"
    by (rule view_row)
  have "\<not> sql_terminal (jr_state r)"
    using tag_to_state_terminal [OF r(3)] view(2) read_job_row_fields [OF r(2)] by simp
  then have no: "find_outbox s k = None" using inv_terminal_outbox [OF inv r(1)] by simp
  have e: "outcome_state_tag oc = fst (state_to_tag to) \<and>
      error_of_columns (fst (error_columns oc)) (snd (error_columns oc)) = snd (state_to_tag to)"
    using state_to_tag_error_iff [of to] by (intro error_of_error_columns [OF oc]) auto
  show ?thesis
    using inv ok
  proof (cases rule: complete_job_Inr)
    case (replay c)
    then show ?thesis using no by (simp add: read_Inr)
  next
    case (fresh r' j' c s1)
    note F = complete_fresh [OF inv fresh(1-6)]
    have same: "r' = r" "j' = j" using fresh(1,2) r(1,2) by simp_all
    note up = find_update_jobs [OF fresh(5), unfolded transition_row_def, simplified,
        folded transition_row_def]
    from fresh(6) obtain rows n where "s' = s1\<lparr>ts_outbox := rows, ts_next_sequence := n\<rparr>"
      by (rule insert_outbox_row_Inr)
    then have find: "find_job s' i = find_job s1 i" for i by simp
    have "find_job s' k = Some (transition_row (tag_as_db_str (outcome_state_tag oc)) (uint (v + 1))
        (error_columns oc) now r)"
      using up [of k] find r find_job_id [OF r(1)] same by (simp add: outcome_as_db_str_def)
    from view_transition_row [OF r(1,2) _ this] fresh(4) same r(4,5) e tag_state_roundtrip [of to]
    have "job_view s' k = Some (to, v + 1, d)" by simp
    moreover have "job_view s' i = job_view s i" if "i \<noteq> k" for i
    proof (rule view_other)
      show "find_job s' i = find_job s i"
        using up [of i] find that by (cases "find_job s i") (auto dest: find_job_id)
    qed
    ultimately show ?thesis using F(1) by (auto simp: fun_eq_iff)
  qed
qed

lemma commit_durably_view:
  assumes inv: "store_inv s" and view: "job_view s k = Some (st, w, d)" "\<not> is_terminal st"
    and ok: "commit_durably now k v to s = Inr s'"
  shows "store_inv s' \<and> w = v \<and> job_view s' = (job_view s)(k \<mapsto> (to, v + 1, d))"
proof (cases "is_terminal to")
  case True
  from inv view(1) obtain r j where r: "find_job s k = Some r" "read_job_row r = Inr j"
    "sj_state_version j = w" by (rule view_row)
  then have rd: "read_job s k = Inr (Some j)" by (simp add: read_Inr)
  from ok True rd obtain oc res where
    v: "sj_state_version j = v"
    and oc: "terminal_outcome_of (fst (state_to_tag to)) (snd (state_to_tag to)) = Some oc"
    and c: "complete_job s k oc now = Inr (res, s')"
    by (auto simp: commit_durably_def result_bind_Inr_iff split: prod.splits if_splits option.splits)
  from complete_view [OF inv _ view(2) oc c] view(1) r(3) v show ?thesis by simp
next
  case False
  with ok obtain v' where
    tr: "transition_job s k v (fst (state_to_tag to)) (snd (state_to_tag to)) now = Inr (v', s')"
    by (auto simp: commit_durably_def result_bind_Inr_iff split: prod.splits)
  show ?thesis using transition_inv(1) [OF inv tr] transition_view [OF inv view(1) tr] by simp
qed

lemma desired_view:
  assumes inv: "store_inv s" and view: "job_view s k = Some (st, w, d0)"
    and ok: "set_desired_run_state s k d now (Some v) = Inr s'"
  shows "store_inv s' \<and> w = v \<and> job_view s' = (job_view s)(k \<mapsto> (st, v, d))"
proof -
  let ?sel = "\<lambda>r. jr_job_id r = k \<and> jr_state_version r = uint v"
  let ?f = "\<lambda>r. r\<lparr>jr_desired := desired_run_state_db d, jr_updated_at := now\<rparr>"
  from ok have up: "update_jobs ?sel ?f s = Inr s'" and ch: "changed_rows ?sel (ts_jobs s) \<noteq> 0"
    by (auto simp: set_desired_run_state_def result_bind_Inr_iff Let_def split: if_splits)
  from inv view obtain r j where r: "find_job s k = Some r" "read_job_row r = Inr j"
    "tag_to_state (sj_state j) (sj_error j) = Some st" "sj_state_version j = w" by (rule view_row)
  note find = find_update_jobs [OF up, simplified]
  from ch obtain r0 where r0: "r0 \<in> set (ts_jobs s)" "jr_job_id r0 = k" "jr_state_version r0 = uint v"
    by auto
  then have "r0 = r" using r(1) inv_find_job [OF inv, of k r0] by simp
  then have v: "w = v" using r0(3) read_job_row_fields [OF r(2)] r(4) by (simp add: word_uint_eq_iff)
  have "find_job s' k = Some (?f r)" using find [of k] r(1) r0 \<open>r0 = r\<close> by simp
  moreover have "read_job_row (?f r) = Inr (j\<lparr>sj_desired := d, sj_updated_at := now\<rparr>)"
    using r(2) by (auto simp: read_job_row_Inr)
  ultimately have "job_view s' k = Some (st, v, d)"
    using view_of_row [of s' k] r(3,4) v by (simp add: row_of_def)
  moreover have "job_view s' i = job_view s i" if "i \<noteq> k" for i
  proof (rule view_other)
    show "find_job s' i = find_job s i"
      using find [of i] that by (cases "find_job s i") (auto dest: find_job_id)
  qed
  ultimately show ?thesis using v set_desired_inv [OF inv ok] by (auto simp: fun_eq_iff)
qed

interpretation store_rows: versioned_rows job_view store_inv commit_durably set_desired_run_state
  by unfold_locales (fact commit_durably_view desired_view)+


section \<open>Coherent states\<close>

definition mem_view :: "Inner \<Rightarrow> row_view" where
  "mem_view s k =
    (case (in_jobs s k, in_cells s k) of
       (Some m, Some c) \<Rightarrow> Some (mj_state m, cl_version c, mj_desired m)
     | _ \<Rightarrow> None)"

definition coherent :: "Inner \<Rightarrow> bool" where
  "coherent s \<longleftrightarrow> store_inv (in_store s) \<and> dom (in_cells s) = dom (in_jobs s) \<and>
    dom (in_controls s) = dom (in_jobs s) \<and> mem_view s \<subseteq>\<^sub>m job_view (in_store s)"

text \<open>Steps that leave the store and the three maps' views alone.\<close>

definition quiet_step :: "Inner \<Rightarrow> Inner \<Rightarrow> bool" where
  "quiet_step s s' \<longleftrightarrow> in_store s' = in_store s \<and> mem_view s' = mem_view s \<and>
    dom (in_jobs s') = dom (in_jobs s) \<and> dom (in_cells s') = dom (in_cells s) \<and>
    dom (in_controls s') = dom (in_controls s)"

lemma coherent_quiet: "quiet_step s s' \<Longrightarrow> coherent s' = coherent s"
  by (simp add: quiet_step_def coherent_def)

lemma quiet_trans: "quiet_step s s' \<Longrightarrow> quiet_step s' s'' \<Longrightarrow> quiet_step s s''"
  by (simp add: quiet_step_def)

lemma quiet_refl [simp]: "quiet_step s s"
  by (simp add: quiet_step_def)

lemma mem_view_simps [simp]:
  "mem_view (s\<lparr>in_store := x1\<rparr>) = mem_view s" "mem_view (s\<lparr>in_controls := x2\<rparr>) = mem_view s"
  "mem_view (s\<lparr>in_leases := x3\<rparr>) = mem_view s" "mem_view (s\<lparr>in_queue := x4\<rparr>) = mem_view s"
  "mem_view (s\<lparr>in_faults := x5\<rparr>) = mem_view s" "mem_view (s\<lparr>in_progress := x6\<rparr>) = mem_view s"
  "mem_view (s\<lparr>in_library_root := x7\<rparr>) = mem_view s"
  "mem_view (s\<lparr>in_shutdown := x8\<rparr>) = mem_view s" "mem_view (s\<lparr>in_observation := x9\<rparr>) = mem_view s"
  by (simp_all add: fun_eq_iff mem_view_def)

lemma quiet_record_fault [simp]: "quiet_step s (record_fault f s)"
  by (simp add: quiet_step_def record_fault_def)

lemma quiet_job_fault [simp]: "quiet_step s (job_fault j k c s)"
  by (simp add: job_fault_def)

lemma quiet_queue: "quiet_step s (s\<lparr>in_queue := q\<rparr>)"
  by (simp add: quiet_step_def)

lemma quiet_offer [simp]: "quiet_step s (offer_job j s)"
proof -
  obtain q out where q: "schedule (in_queue s) j = (q, out)" by fastforce
  have "offer_job j s = s\<lparr>in_queue := q\<rparr> \<or> (\<exists>c. offer_job j s = job_fault j FaultSend c (s\<lparr>in_queue := q\<rparr>))"
    by (cases out) (auto simp: offer_job_def schedule_job_def q Let_def)
  then show ?thesis using quiet_queue quiet_job_fault quiet_trans by metis
qed

lemma quiet_control [simp]: "quiet_step s (update_control j f s)"
  by (auto simp: quiet_step_def update_control_def split: option.splits)

lemma quiet_cell:
  assumes "\<And>c. cl_version (f c) = cl_version c"
  shows "quiet_step s (update_cell j f s)"
proof (cases "in_cells s j")
  case (Some c)
  then have "mem_view (update_cell j f s) k = mem_view s k" for k
    using assms by (simp add: mem_view_def update_cell_def split: option.splits)
  with Some show ?thesis by (auto simp: quiet_step_def update_cell_def)
qed (simp add: update_cell_def)

lemma quiet_progress [simp]: "quiet_step s (install_progress ports j r s)"
  by (simp add: quiet_step_def install_progress_def)

lemma quiet_observation [simp]: "quiet_step s (s\<lparr>in_observation := n\<rparr>)"
  by (simp add: quiet_step_def)

section \<open>Effects\<close>

lemma coherent_view:
  assumes "coherent s" "mem_view s k = Some row"
  shows "store_inv (in_store s)" "job_view (in_store s) k = Some row"
  using assms by (auto simp: coherent_def map_le_def dest!: bspec [of _ _ k] intro: domI)

text \<open>A store that moved one row, published in memory, is coherent again.\<close>

lemma coherent_publish:
  assumes co: "coherent s" and st: "store_inv st" "job_view st = (job_view (in_store s))(k \<mapsto> row)"
    and s': "in_store s' = st" "mem_view s' = (mem_view s)(k \<mapsto> row)"
      "dom (in_jobs s') = dom (in_jobs s)" "dom (in_cells s') = dom (in_cells s)"
      "dom (in_controls s') = dom (in_controls s)"
  shows "coherent s'"
  using co st s' by (auto simp: coherent_def map_le_def)

lemma perform_commit:
  assumes co: "coherent s" and m: "mem_view s k = Some (st, v, d)" and nt: "\<not> is_terminal st"
    and p: "perform now k (Commit v to) s = (res, s')"
  shows "coherent s' \<and> (isl res \<or> mem_view s' = (mem_view s)(k \<mapsto> (to, v + 1, d)))"
proof -
  from m obtain mj c where mc: "in_jobs s k = Some mj" "in_cells s k = Some c" "cl_version c = v"
    "mj_state mj = st" "mj_desired mj = d" by (auto simp: mem_view_def split: option.splits)
  note V = coherent_view [OF co m]
  show ?thesis
  proof (cases "commit_durably now k v to (in_store s)")
    case (Inl e)
    then have "s' = job_fault k FaultTransition LocalIo s" "isl res"
      using p mc by (auto simp: commit_transition_def)
    then show ?thesis using co coherent_quiet [OF quiet_job_fault] by simp
  next
    case (Inr t)
    note A = store_rows.advance_law [OF V nt Inr]
    have s': "s' = update_cell k (\<lambda>c. c\<lparr>cl_version := v + 1\<rparr>)
        (update_job k (\<lambda>m. m\<lparr>mj_state := to\<rparr>) (s\<lparr>in_store := t\<rparr>))" "\<not> isl res"
      using p mc Inr by (auto simp: commit_transition_def)
    have mem: "mem_view s' = (mem_view s)(k \<mapsto> (to, v + 1, d))"
      using mc by (simp add: fun_eq_iff mem_view_def s' update_cell_def update_job_def)
    moreover have "coherent s'"
      by (rule coherent_publish [OF co _ _ _ mem])
        (use A mc in \<open>auto simp: s' update_cell_def update_job_def\<close>)
    ultimately show ?thesis using s'(2) by simp
  qed
qed

lemma perform_desired:
  assumes co: "coherent s" and m: "mem_view s k = Some (st, v, d0)"
    and p: "perform now k (SetDesiredRunState d) s = (res, s')"
  shows "coherent s' \<and> (isl res \<or> mem_view s' = (mem_view s)(k \<mapsto> (st, v, d)))"
proof -
  from m obtain mj c where mc: "in_jobs s k = Some mj" "in_cells s k = Some c" "cl_version c = v"
    "mj_state mj = st" by (auto simp: mem_view_def split: option.splits)
  note V = coherent_view [OF co m]
  show ?thesis
  proof (cases "set_desired_run_state (in_store s) k d now (Some v)")
    case (Inl e)
    then have "s' = job_fault k FaultDesiredRunState LocalIo s" "isl res" using p mc by auto
    then show ?thesis using co coherent_quiet [OF quiet_job_fault] by simp
  next
    case (Inr t)
    note A = store_rows.intend_law [OF V Inr]
    have s': "s' = update_job k (\<lambda>m. m\<lparr>mj_desired := d\<rparr>) (s\<lparr>in_store := t\<rparr>)" "\<not> isl res"
      using p mc Inr by auto
    have mem: "mem_view s' = (mem_view s)(k \<mapsto> (st, v, d))"
      using mc by (simp add: fun_eq_iff mem_view_def s' update_job_def)
    moreover have "coherent s'"
      by (rule coherent_publish [OF co _ _ _ mem]) (use A mc in \<open>auto simp: s' update_job_def\<close>)
    ultimately show ?thesis using s'(2) by simp
  qed
qed

lemma perform_quiet:
  assumes "\<forall>v t. e \<noteq> Commit v t" "\<forall>d. e \<noteq> SetDesiredRunState d"
    and p: "perform now k e s = (res, s')"
  shows "quiet_step s s' \<and> res = Inr ()"
  using assms
proof (cases e)
  case (RecordDeviceVersion version)
  let ?f = "\<lambda>c. if cl_observed c < version then c\<lparr>cl_observed := version\<rparr> else c"
  have "quiet_step s (update_cell k ?f s)" by (rule quiet_cell) simp
  then show ?thesis using p RecordDeviceVersion by simp
qed auto

text \<open>
  A list of effects whose commits continue the chain of the job keeps the state
  coherent; without an error, the state after it is the last commit's.
\<close>

lemma perform_all_coherent:
  assumes "coherent s" "mem_view s k = Some (st, v, d)" "commit_chain v st (commits es)"
    and "perform_all clock k i es s = (res, s')"
  shows "coherent s' \<and> (isl res \<or>
    (\<exists>d'. mem_view s' k = Some (last (st # map snd (commits es)), v + of_nat (length (commits es)), d')))"
  using assms
proof (induction es arbitrary: s st v d i)
  case Nil
  then show ?case by (auto simp: co_return_def)
next
  case (Cons e es)
  obtain r1 s1 where p1: "perform (clock i) k e s = (r1, s1)" by fastforce
  consider (commit) t where "e = Commit v t" "is_legal_transition st t" "commit_chain (v + 1) t (commits es)"
    | (desired) d' where "e = SetDesiredRunState d'" "commit_chain v st (commits es)"
    | (other) "\<forall>v t. e \<noteq> Commit v t" "\<forall>d. e \<noteq> SetDesiredRunState d" "commit_chain v st (commits es)"
      "commits (e # es) = commits es"
    using Cons.prems(3) by (cases e) auto
  then show ?case
  proof cases
    case commit
    have nt: "\<not> is_terminal st" using commit(2) domain_graph.terminal_stuck by auto
    note P = perform_commit [OF Cons.prems(1,2) nt p1 [unfolded commit(1)]]
    show ?thesis
    proof (cases r1)
      case (Inl err)
      then show ?thesis using Cons.prems(4) p1 P by (auto simp: co_bind_def)
    next
      case (Inr u)
      then have "mem_view s1 k = Some (t, v + 1, d)" using P by simp
      from Cons.IH [OF _ this commit(3), of "Suc i"] P Cons.prems(4) p1 Inr
      have "coherent s' \<and> (isl res \<or> (\<exists>d'. mem_view s' k = Some (last (t # map snd (commits es)),
          v + 1 + of_nat (length (commits es)), d')))" by (simp add: co_bind_def)
      then show ?thesis using commit(1) by (simp add: algebra_simps)
    qed
  next
    case (desired d')
    note P = perform_desired [OF Cons.prems(1,2) p1 [unfolded desired(1)]]
    show ?thesis
    proof (cases r1)
      case (Inl err)
      then show ?thesis using Cons.prems(4) p1 P by (auto simp: co_bind_def)
    next
      case (Inr u)
      then have "mem_view s1 k = Some (st, v, d')" using P by simp
      from Cons.IH [OF _ this desired(2), of "Suc i"] P Cons.prems(4) p1 Inr desired(1)
      show ?thesis by (simp add: co_bind_def)
    qed
  next
    case other
    note P = perform_quiet [OF other(1,2) p1]
    have "coherent s1" using P Cons.prems(1) coherent_quiet [of s s1] by blast
    moreover have "mem_view s1 k = Some (st, v, d)" using P Cons.prems(2) by (simp add: quiet_step_def)
    moreover note Cons.IH [OF calculation other(3), of "Suc i"]
    ultimately show ?thesis using Cons.prems(4) p1 P other(4) by (simp add: co_bind_def)
  qed
qed

section \<open>Commands\<close>

lemma towards_no_await: "commits_towards a t = Some es \<Longrightarrow> AwaitWorkerRelease \<notin> set es"
  by (auto simp: commits_towards_def split: option.splits)

lemma no_await_finalize: "AwaitWorkerRelease \<notin> set (effects (decide_finalize_cancel a))"
  by (simp add: decide_finalize_cancel_def commit_def)

lemma no_await_panic: "AwaitWorkerRelease \<notin> set (effects (decide_worker_panic a d))"
  by (auto simp: decide_worker_panic_def commit_def Let_def dest: towards_no_await
      split: option.splits)

lemma no_await_interrupted: "AwaitWorkerRelease \<notin> set (effects (decide_interrupted a r))"
  by (auto simp: decide_interrupted_def no_await_finalize Let_def dest: towards_no_await
      split: option.splits InterruptReason.splits)

lemma no_await_observed: "AwaitWorkerRelease \<notin> set (effects (decide_device_observed a s))"
  by (auto simp: decide_device_observed_def Let_def dest: towards_no_await
      split: option.splits sum.splits bind_splits)

lemma no_await_worker: "AwaitWorkerRelease \<notin> set (effects (decide_worker a r))"
  by (cases r) (auto simp: decide_worker_def no_await_panic no_await_interrupted commit_def)

lemma no_await_simple:
  "AwaitWorkerRelease \<notin> set (effects (decide_transition a t))"
  "AwaitWorkerRelease \<notin> set (effects (decide_resume a))"
  "AwaitWorkerRelease \<notin> set (effects (decide_retry a))"
  by (simp_all add: decide_transition_def decide_resume_def decide_retry_def commit_def
      split: TransferJobState.splits)

lemmas no_await = no_await_finalize no_await_observed no_await_worker no_await_simple

text \<open>What follows the wait for a worker touches neither the row nor its copy.\<close>

lemma after_await:
  "dropWhile (\<lambda>e. e \<noteq> AwaitWorkerRelease) (effects (decide a c)) = x # rest \<Longrightarrow>
   set rest \<subseteq> {ClearInterrupt, RemoveJob}"
proof -
  have none: "dropWhile (\<lambda>e. e \<noteq> AwaitWorkerRelease) es = []"
    if "AwaitWorkerRelease \<notin> set es" for es using that by (induction es) auto
  assume "dropWhile (\<lambda>e. e \<noteq> AwaitWorkerRelease) (effects (decide a c)) = x # rest"
  then show ?thesis
  proof (cases c)
    case Pause
    with \<open>dropWhile _ _ = _\<close> show ?thesis by (auto simp: decide_pause_def split: if_splits)
  next
    case Cancel
    with \<open>dropWhile _ _ = _\<close> show ?thesis
      by (auto simp: decide_cancel_def commit_def split: if_splits)
  next
    case Dismiss
    with \<open>dropWhile _ _ = _\<close> show ?thesis by (auto simp: decide_dismiss_def split: if_splits)
  qed (simp_all add: none no_await)
qed

lemma perform_all_quiet:
  assumes "set es \<subseteq> {ClearInterrupt, RemoveJob}" "perform_all clock k i es s = (res, s')"
  shows "quiet_step s s' \<and> res = Inr ()"
  using assms
proof (induction es arbitrary: s i)
  case (Cons e es)
  obtain r1 s1 where p1: "perform (clock i) k e s = (r1, s1)" by fastforce
  have P: "quiet_step s s1 \<and> r1 = Inr ()" using Cons.prems(1) by (intro perform_quiet [OF _ _ p1]) auto
  with Cons.IH [of "Suc i" s1] Cons.prems p1 show ?case
    by (auto simp: co_bind_def intro: quiet_trans)
qed (simp add: co_return_def)

lemma commits_takeWhile:
  "commit_chain v st (commits es) \<Longrightarrow> commit_chain v st (commits (takeWhile P es))"
proof (induction es arbitrary: v st)
  case (Cons e es)
  then show ?case by (cases e) auto
qed simp

definition keeps :: "(Inner \<Rightarrow> bool) \<Rightarrow> (Inner \<Rightarrow> Inner) \<Rightarrow> bool" where
  "keeps P f \<longleftrightarrow> (\<forall>s. P s \<longrightarrow> P (f s))"

lemma keeps_id [simp]: "keeps P id"
  by (simp add: keeps_def)

lemma apply_decision_coherent:
  assumes co: "coherent s" and others: "keeps coherent others"
    and m: "mem_view s k = Some (agg_state a, agg_version a, d)"
    and ap: "apply_decision others clock k (decide a cmd) s = (res, s')"
  shows "coherent s'"
proof (cases "is_rejected (outcome (decide a cmd))")
  case True
  with co ap show ?thesis
    by (cases "outcome (decide a cmd)") (simp_all add: apply_decision_def co_fail_def)
next
  case False
  let ?P = "\<lambda>e. e \<noteq> AwaitWorkerRelease"
  let ?first = "takeWhile ?P (effects (decide a cmd))"
  let ?rest = "dropWhile ?P (effects (decide a cmd))"
  obtain r1 s1 where p1: "perform_all clock k 0 ?first s = (r1, s1)" by fastforce
  have co1: "coherent s1"
    using perform_all_coherent [OF co m commits_takeWhile [OF decide_chain] p1] by blast
  have fin: "coherent s2" if af: "await_and_finish others clock k i (tl ?rest) s1 = (r2, s2)"
    and ne: "?rest \<noteq> []" for i r2 s2
  proof -
    have "coherent (others s1)" using co1 others by (simp add: keeps_def)
    moreover obtain x rest where "?rest = x # rest" using ne by (cases ?rest) auto
    moreover from this have "set (tl ?rest) \<subseteq> {ClearInterrupt, RemoveJob}" using after_await by auto
    ultimately show ?thesis
      using af perform_all_quiet [of "tl ?rest" clock k i "others s1" r2 s2]
        coherent_quiet [of "others s1" s2]
      by (auto simp: await_and_finish_def Let_def split: if_splits)
  qed
  from False show ?thesis
    using ap p1 co1 fin
    by (cases "outcome (decide a cmd)")
      (auto simp: apply_decision_def co_bind_def co_return_def Let_def
        split: if_splits sum.splits prod.splits)
qed

lemma apply_checked_coherent:
  assumes co: "coherent s" and others: "keeps coherent others"
    and ap: "apply_checked others clock k cmd expected s = (res, s')"
  shows "coherent s'"
proof -
  from ap consider "s' = s" | c m where "in_cells s k = Some c" "in_jobs s k = Some m"
      "apply_decision others clock k (decide \<lparr>agg_state = mj_state m, agg_version = cl_version c,
         agg_desired = mj_desired m, agg_observed = cl_observed c\<rparr> cmd) s = (res, s')"
    by (auto simp: apply_checked_def load_aggregate_def split: option.splits if_splits)
  then show ?thesis
  proof cases
    case (2 c m)
    then have "mem_view s k = Some (mj_state m, cl_version c, mj_desired m)" by (simp add: mem_view_def)
    then show ?thesis using apply_decision_coherent [OF co others _ 2(3)] by simp
  qed (use co in simp)
qed


section \<open>Rows that appear and disappear\<close>

lemma find_job_append:
  "ts_jobs s' = ts_jobs s @ [r] \<Longrightarrow> find_job s (jr_job_id r) = None \<Longrightarrow>
   find_job s' i = (if i = jr_job_id r then Some r else find_job s i)"
  by (auto simp: find_job_def find_append split: option.splits)

lemma new_row_view:
  assumes "read_job_row (new_job_row k kind key i d now) = Inr j"
  shows "row_of j = Some (Queued, 1, Run) \<and> sj_job_id j = k"
  using assms
  by (auto simp: read_job_row_Inr new_job_row_def row_of_def tag_from_db_str_def u64_of_column_def
      desired_run_state_from_db_def tag_to_state_def)

lemma appended_view:
  assumes fresh: "find_job s k = None" and jobs: "ts_jobs s' = ts_jobs s @ [new_job_row k kind key i d now]"
    and rd: "read_job s' k = Inr (Some j)"
  shows "job_view s' = (job_view s)(k \<mapsto> (Queued, 1, Run)) \<and> sj_job_id j = k \<and> job_view s k = None"
proof -
  note find = find_job_append [OF jobs, simplified, OF fresh]
  then have "read_job_row (new_job_row k kind key i d now) = Inr j" using rd by (simp add: read_Inr)
  note row = new_row_view [OF this]
  have "job_view s' q = ((job_view s)(k \<mapsto> (Queued, 1, Run))) q" for q
    using row view_other [of s' q s] find rd by (cases "q = k") (simp_all add: job_view_def)
  moreover have "job_view s k = None" using fresh by (simp add: job_view_def read_job_def decode_job_def)
  ultimately show ?thesis using row by (auto simp: fun_eq_iff)
qed

lemma create_view:
  assumes inv: "store_inv s" and ok: "create_job sha256 s k spec now = Inr (Created j, s')"
  shows "store_inv s' \<and> job_view s' = (job_view s)(k \<mapsto> (Queued, 1, Run)) \<and> sj_job_id j = k \<and>
    job_view s k = None"
proof -
  from ok obtain jobs where "find_job s k = None" "ts_jobs s' = ts_jobs s @
      [new_job_row k Download (natural_key (js_identity spec)) (js_identity spec) (request_digest sha256 spec) now]"
    "read_job s' k = Inr (Some j)"
    by (cases rule: create_job_Inr) (auto simp: sql_insert_Inr)
  from appended_view [OF this] create_inv [OF inv ok] show ?thesis by simp
qed

lemma row_current:
  assumes "store_inv s" "r \<in> set (ts_jobs s)" "read_job_row r = Inr j"
  shows "read_job s (sj_job_id j) = Inr (Some j)"
  using assms inv_find_job [OF assms(1), of "jr_job_id r" r] read_job_row_fields [OF assms(3)]
  by (auto simp: read_Inr)

lemma existing_current:
  assumes inv: "store_inv s" and ok: "create_job sha256 s k spec now = Inr (Existing j, s')"
  shows "s' = s \<and> read_job s (sj_job_id j) = Inr (Some j)"
proof -
  from ok have "s' = s" and l: "read_latest_job_by_identity s (js_identity spec) = Inr (Some j)"
    by (cases rule: create_job_Inr; simp)+
  let ?rows = "sort_key created_key (filter (same_identity (js_identity spec)) (ts_jobs s))"
  from l obtain r where r: "last_option ?rows = Some r" "read_job_row r = Inr j"
    by (auto simp: read_latest_job_by_identity_def decode_job_def split: option.splits sum.splits)
  then have "r \<in> set ?rows" by (auto simp: last_option_def split: if_splits dest!: last_in_set)
  then have "r \<in> set (ts_jobs s)" by simp
  with \<open>s' = s\<close> row_current [OF inv _ r(2)] show ?thesis by simp
qed

lemma spawn_existing_current:
  assumes inv: "store_inv s" and ok: "spawn_retry_job_inner s p child now allow = Inr (res, s')"
    and res: "res = RetryExisting j"
  shows "s' = s" "read_job s (sj_job_id j) = Inr (Some j)"
proof -
  have "s' = s \<and> (\<exists>q. read_job s q = Inr (Some j))"
    using ok res unfolding spawn_retry_job_inner_def live_child_def
    by (auto simp: result_Inr_iffs Let_def split: if_splits)
  moreover have "sj_job_id j = q" if "read_job s q = Inr (Some j)" for q
    using that read_job_row_fields find_job_id by (fastforce simp: read_Inr)
  ultimately show "s' = s" "read_job s (sj_job_id j) = Inr (Some j)" by auto
qed

lemma spawn_view:
  assumes inv: "store_inv s" and ok: "spawn_retry_job s p child now = Inr (res, s')"
  shows "store_inv s' \<and> (s' = s \<or> job_view s child = None \<and>
      job_view s' = (job_view s)(child \<mapsto> (Queued, 1, Run))) \<and>
    read_job s' (sj_job_id (retry_job_of res)) = Inr (Some (retry_job_of res))"
proof -
  note ok' = ok [unfolded spawn_retry_job_def]
  note si = spawn_inv [OF inv ok']
  show ?thesis
  proof (cases res)
    case (RetryCreated j)
    with ok' obtain parent attempt where c: "find_job s child = None"
      "(if sj_operation_kind parent = Upload then spawn_upload else spawn_download)
         s parent p child attempt now = Inr s'" "read_job s' child = Inr (Some j)"
      by (cases rule: spawn_retry_Inr) auto
    from c(2) obtain kind key i d where
      "ts_jobs s' = ts_jobs s @ [new_job_row child kind key i d now]" by (rule spawn_rows)
    from appended_view [OF c(1) this c(3)] si c(3) RetryCreated show ?thesis by simp
  next
    case (RetryExisting j)
    from ok' this have "s' = s" "read_job s (sj_job_id j) = Inr (Some j)"
      by (rule spawn_existing_current [OF inv])+
    then show ?thesis using si RetryExisting by simp
  qed
qed
end
