(* ===== verification/Dispatcher.thy ===== *)
theory Dispatcher
  imports Coordinator
begin

text \<open>
  The dispatcher and the workers of \<open>transfer/coordinator.rs\<close>: \<open>tick\<close>, the loop
  \<open>process_job\<close> a worker runs while it owns a job, one turn of \<open>worker_loop\<close>,
  shutdown and the read-only views.

  The data plane of a worker is the argument \<open>plane\<close>: \<open>run_transfer\<close> (staging
  and the downloads of \<open>Download_Engine\<close>) and \<open>do_commit\<close> (publication of the
  staged session).  A panic inside a worker is the argument \<open>panics\<close>.
\<close>

section \<open>Interrupts\<close>

datatype TransferOutcome =
    AllDone "VerifiedFile list"
  | NotReady
  | OutCapturePaused
  | OutUserPaused
  | OutCancelled
  | OutShutdown
  | OutFailed FailureCode bool

definition interrupt_outcome :: "JobControl \<Rightarrow> TransferOutcome" where
  "interrupt_outcome c =
    (case current_interrupt_reason c of
       Some IrCancel \<Rightarrow> OutCancelled
     | Some IrCapturePause \<Rightarrow> OutCapturePaused
     | Some IrUserPause \<Rightarrow> OutUserPaused
     | Some IrDeviceLost \<Rightarrow> NotReady
     | Some IrShutdown \<Rightarrow> OutShutdown
     | None \<Rightarrow> OutCancelled)"

definition device_readiness :: "Ports \<Rightarrow> string \<Rightarrow> Inner \<Rightarrow> DeviceReadiness \<times> Inner" where
  "device_readiness ports dev s =
    (case device_snapshot ports dev s of (snap, s') \<Rightarrow> (readiness snap, s'))"

definition pre_file_interrupt_check ::
    "Ports \<Rightarrow> job_id \<Rightarrow> JobControl \<Rightarrow> string \<Rightarrow> Inner \<Rightarrow> TransferOutcome option \<times> Inner" where
  "pre_file_interrupt_check ports j control dev s =
    (if jc_interrupt_flag control then (Some (interrupt_outcome control), s)
     else if map_option mj_desired (in_jobs s j) = Some Paused then (Some OutUserPaused, s)
     else (case device_readiness ports dev s of
         (Ready, s') \<Rightarrow> (None, s')
       | (CapturePaused, s') \<Rightarrow> (Some OutCapturePaused, s')
       | (_, s') \<Rightarrow> (Some NotReady, s')))"

section \<open>The dispatcher\<close>

definition has_target_conflict :: "job_id \<Rightarrow> ManagedJob \<Rightarrow> Inner \<Rightarrow> bool" where
  "has_target_conflict j m s \<longleftrightarrow>
    (case holder (in_leases s)
        (TargetKey_new (tr_device_id (mj_request m)) (tr_session_id (mj_request m))) of
       None \<Rightarrow> False | Some h \<Rightarrow> h \<noteq> j)"

definition observe_or_fault ::
    "Ports \<Rightarrow> (nat \<Rightarrow> string) \<Rightarrow> job_id \<Rightarrow> string \<Rightarrow> Inner \<Rightarrow> DeviceReadiness option \<times> Inner" where
  "observe_or_fault ports clock j dev s =
    (case observe_device ports clock j dev s of
       (Inl e, s') \<Rightarrow> (None, job_fault j FaultTransition LocalIo s')
     | (Inr r, s') \<Rightarrow> (Some r, s'))"

definition tick_job :: "Ports \<Rightarrow> (nat \<Rightarrow> string) \<Rightarrow> job_id \<Rightarrow> Inner \<Rightarrow> Inner" where
  "tick_job ports clock j s =
    (case in_jobs s j of
       None \<Rightarrow> s
     | Some m \<Rightarrow>
       if is_terminal (mj_state m) then s
       else if has_target_conflict j m s then s
       else (case in_controls s j of
         None \<Rightarrow> s
       | Some control \<Rightarrow>
         if mj_state m = Queued \<and> (is_scheduled (in_queue s) j \<or> jc_active control) then s
         else if jc_active control then
           snd (observe_or_fault ports clock j (tr_device_id (mj_request m)) s)
         else if mj_desired m = Paused then s
         else if parked (mj_state m) then
           (case observe_or_fault ports clock j (tr_device_id (mj_request m)) s of
              (Some Ready, s') \<Rightarrow> offer_job j s'
            | (_, s') \<Rightarrow> s')
         else offer_job j s))"

text \<open>The hash map is visited in the order \<open>ids\<close>.\<close>

fun tick :: "Ports \<Rightarrow> (nat \<Rightarrow> string) \<Rightarrow> job_id list \<Rightarrow> Inner \<Rightarrow> Inner" where
  "tick ports clock [] s = s"
| "tick ports clock (j # ids) s = tick ports clock ids (tick_job ports clock j s)"

section \<open>A worker\<close>

record Plane =
  pl_transfer :: "job_id \<Rightarrow> Inner \<Rightarrow> TransferOutcome \<times> Inner"
  pl_commit :: "job_id \<Rightarrow> Inner \<Rightarrow> (FailureCode \<times> bool) option \<times> Inner"

definition drain_checkpoint_fault :: "job_id \<Rightarrow> Inner \<Rightarrow> Inner" where
  "drain_checkpoint_fault j s =
    (case in_controls s j of
       None \<Rightarrow> s
     | Some c \<Rightarrow>
         (case take_checkpoint_fault c of
            (c', detail) \<Rightarrow>
              (let s' = s\<lparr>in_controls := (in_controls s)(j \<mapsto> c')\<rparr> in
               if detail = None then s' else job_fault j FaultCheckpoint LocalIo s')))"

definition report_interrupted :: "(nat \<Rightarrow> string) \<Rightarrow> job_id \<Rightarrow> InterruptReason \<Rightarrow> Inner \<Rightarrow> Inner" where
  "report_interrupted clock j reason s =
    snd (worker_report clock j (Interrupted reason) (update_control j clear_interrupt s))"

text \<open>
  One pass of the worker's loop: \<open>Inl\<close> the state in which the worker returns,
  \<open>Inr\<close> the state with which it goes round again.
\<close>

definition continue_unless_error :: "(CoordinatorError + 'a) \<times> Inner \<Rightarrow> Inner + Inner" where
  "continue_unless_error r = (case r of (Inl e, s) \<Rightarrow> Inl s | (Inr x, s) \<Rightarrow> Inr s)"

definition after_transfer ::
    "Ports \<Rightarrow> (nat \<Rightarrow> string) \<Rightarrow> job_id \<Rightarrow> string \<Rightarrow> TransferOutcome \<Rightarrow> Inner \<Rightarrow> Inner + Inner" where
  "after_transfer ports clock j dev out s =
    (case out of
       AllDone files \<Rightarrow>
         continue_unless_error (worker_report clock j TransferComplete (set_verified_files j files s))
     | OutCapturePaused \<Rightarrow> Inl (report_interrupted clock j IrCapturePause s)
     | OutUserPaused \<Rightarrow> Inl (report_interrupted clock j IrUserPause s)
     | NotReady \<Rightarrow>
         (case device_readiness ports dev (update_control j clear_interrupt s) of
            (r, s') \<Rightarrow> Inl (snd (worker_report clock j
              (Interrupted (if r = CapturePaused then IrCapturePause else IrDeviceLost)) s')))
     | OutCancelled \<Rightarrow> Inl (report_interrupted clock j IrCancel s)
     | OutShutdown \<Rightarrow> Inl (report_interrupted clock j IrShutdown s)
     | OutFailed code retryable \<Rightarrow>
         Inl (snd (worker_report clock j (TransferFailed code retryable) s)))"

definition process_pass ::
    "Plane \<Rightarrow> Ports \<Rightarrow> (nat \<Rightarrow> string) \<Rightarrow> (string \<Rightarrow> string) \<Rightarrow> job_id \<Rightarrow> Inner \<Rightarrow> Inner + Inner" where
  "process_pass plane ports clock shown j s =
    (case in_jobs s j of
       None \<Rightarrow> Inl s
     | Some m \<Rightarrow>
       (let dev = tr_device_id (mj_request m) in
        if parked (mj_state m) then
          (if mj_desired m = Paused then Inl s
           else (case observe_or_fault ports clock j dev s of
               (None, s') \<Rightarrow> Inl s'
             | (Some Ready, s') \<Rightarrow> Inr s'
             | (Some CapturePaused, s') \<Rightarrow> Inl s'
             | (Some _, s') \<Rightarrow>
                 Inl (if mj_state m = Queued \<or> mj_state m = RetryWait then offer_job j s' else s')))
        else (case mj_state m of
            Preparing \<Rightarrow>
              (case verify_request_publication ports (mj_request m) of
                 Inl e \<Rightarrow> Inl (snd (worker_report clock j (PreparationFailed (Other (shown e)) False) s))
               | Inr _ \<Rightarrow> continue_unless_error (worker_report clock j Prepared s))
          | Transferring \<Rightarrow>
              (case pl_transfer plane j s of
                 (out, s') \<Rightarrow> after_transfer ports clock j dev out (drain_checkpoint_fault j s'))
          | Verifying \<Rightarrow> continue_unless_error (worker_report clock j WorkerReport.Verified s)
          | Committing \<Rightarrow>
              (case pl_commit plane j s of
                 (None, s') \<Rightarrow> Inl (snd (worker_report clock j CommitComplete s'))
               | (Some (code, retryable), s') \<Rightarrow>
                   Inl (snd (worker_report clock j (CommitFailed code retryable) s')))
          | Cancelling \<Rightarrow> Inl (report_interrupted clock j IrCancel s)
          | _ \<Rightarrow> Inl s)))"

text \<open>
  \<open>process_job\<close>: the target lease, then the loop with \<open>fuel\<close> passes; \<^const>\<open>None\<close>
  when the passes run out.  Other threads act between two passes (\<open>between\<close>), where
  no lock is held.
\<close>

fun process_loop ::
    "nat \<Rightarrow> (nat \<Rightarrow> Inner \<Rightarrow> Inner) \<Rightarrow> Plane \<Rightarrow> Ports \<Rightarrow> (nat \<Rightarrow> string) \<Rightarrow> (string \<Rightarrow> string) \<Rightarrow> job_id
     \<Rightarrow> Inner \<Rightarrow> Inner option" where
  "process_loop 0 between plane ports clock shown j s = None"
| "process_loop (Suc n) between plane ports clock shown j s =
    (case process_pass plane ports clock shown j (between n s) of
       Inl s' \<Rightarrow> Some s'
     | Inr s' \<Rightarrow> process_loop n between plane ports clock shown j s')"

definition process_job ::
    "nat \<Rightarrow> (nat \<Rightarrow> Inner \<Rightarrow> Inner) \<Rightarrow> Plane \<Rightarrow> Ports \<Rightarrow> (nat \<Rightarrow> string) \<Rightarrow> (string \<Rightarrow> string) \<Rightarrow> job_id
     \<Rightarrow> Inner \<Rightarrow> Inner option" where
  "process_job fuel between plane ports clock shown j s =
    (case in_jobs s j of
       None \<Rightarrow> Some s
     | Some m \<Rightarrow>
         (case try_acquire (in_leases s)
             (TargetKey_new (tr_device_id (mj_request m)) (tr_session_id (mj_request m))) j of
            None \<Rightarrow> Some s
          | Some (held, target) \<Rightarrow>
              map_option (\<lambda>s'. s'\<lparr>in_leases := release (in_leases s') target\<rparr>)
                (process_loop fuel between plane ports clock shown j (s\<lparr>in_leases := held\<rparr>))))"

definition converge_panic :: "(nat \<Rightarrow> string) \<Rightarrow> job_id \<Rightarrow> string \<Rightarrow> Inner \<Rightarrow> Inner" where
  "converge_panic clock j detail s =
    update_control j clear_interrupt
      (case worker_report clock j (WorkerPanicked detail)
              (job_fault j FaultWorkerPanic LocalIo s) of
         (Inl e, s') \<Rightarrow> job_fault j FaultTransition LocalIo s'
       | (Inr _, s') \<Rightarrow> s')"

text \<open>
  One turn of \<open>worker_loop\<close> for a claimed job.  \<open>work\<close> is the call of
  \<open>process_job\<close>: it returns, or panics in some state with a message.
\<close>

definition worker_turn ::
    "(Inner \<Rightarrow> Inner \<times> string option) \<Rightarrow> (nat \<Rightarrow> string) \<Rightarrow> job_id \<Rightarrow> Inner \<Rightarrow> Inner" where
  "worker_turn work clock j s =
    (case in_controls s j of
       None \<Rightarrow> s
     | Some control \<Rightarrow>
         (case try_claim control of
            None \<Rightarrow> s
          | Some c \<Rightarrow>
              (let s1 = s\<lparr>in_controls := (in_controls s)(j \<mapsto> c)\<rparr> in
               if in_shutdown s1 then
                 update_control j drop_active_lease
                   (update_control j (\<lambda>c. request_interrupt c IrShutdown) s1)
               else (case work s1 of
                   (s2, panicked) \<Rightarrow>
                     update_control j drop_active_lease
                       (case panicked of None \<Rightarrow> s2 | Some detail \<Rightarrow> converge_panic clock j detail s2)))))"

section \<open>Shutdown and views\<close>

definition begin_shutdown :: "Inner \<Rightarrow> Inner" where
  "begin_shutdown s =
    s\<lparr>in_shutdown := True,
      in_controls := (\<lambda>j. map_option (\<lambda>c. if jc_active c then request_interrupt c IrShutdown else c)
        (in_controls s j)),
      in_queue := stop (in_queue s)\<rparr>"

record ShutdownReport =
  sr_completed :: bool
  sr_workers_remaining :: nat
  sr_dispatcher_remaining :: bool
  sr_faults :: "CoordinatorFault list"

text \<open>Which threads are still running at the deadline is an argument.\<close>

definition shutdown :: "bool \<Rightarrow> nat \<Rightarrow> Inner \<Rightarrow> ShutdownReport \<times> Inner" where
  "shutdown dispatcher_alive workers_alive s =
    (let s1 = begin_shutdown s;
         s2 = (if dispatcher_alive
               then record_fault (CoordinatorFault_new None FaultShutdown LocalIo) s1 else s1) in
     (\<lparr>sr_completed = (workers_alive = 0 \<and> \<not> dispatcher_alive),
       sr_workers_remaining = workers_alive, sr_dispatcher_remaining = dispatcher_alive,
       sr_faults = in_faults s2\<rparr>, s2))"

record JobSnapshot =
  sn_job_id :: job_id
  sn_version :: u64
  sn_device_id :: string
  sn_session_id :: string
  sn_error :: "JobFailure option"
  sn_state :: TransferJobState
  sn_desired :: DesiredRunState
  sn_progress :: JobProgress
  sn_active :: bool

definition JobProgress_default :: JobProgress where
  "JobProgress_default =
    \<lparr>jp_total_bytes = 0, jp_transferred_bytes = 0, jp_files_total = 0, jp_files_done = 0\<rparr>"

definition job_snapshot :: "job_id \<Rightarrow> Inner \<Rightarrow> JobSnapshot option" where
  "job_snapshot j s =
    (case in_cells s j of
       None \<Rightarrow> None
     | Some cell \<Rightarrow>
         (case in_jobs s j of
            None \<Rightarrow> None
          | Some m \<Rightarrow> Some
              \<lparr>sn_job_id = j, sn_version = cl_version cell,
               sn_device_id = tr_device_id (mj_request m), sn_session_id = tr_session_id (mj_request m),
               sn_error = failure_of (mj_state m), sn_state = mj_state m, sn_desired = mj_desired m,
               sn_progress = (case in_progress s j of
                   None \<Rightarrow> JobProgress_default | Some t \<Rightarrow> snapshot t),
               sn_active = (case in_controls s j of None \<Rightarrow> False | Some c \<Rightarrow> jc_active c)\<rparr>))"

definition has_non_terminal_jobs :: "job_id list \<Rightarrow> Inner \<Rightarrow> bool" where
  "has_non_terminal_jobs ids s \<longleftrightarrow>
    list_ex (\<lambda>j. case in_jobs s j of None \<Rightarrow> False | Some m \<Rightarrow> \<not> is_terminal (mj_state m)) ids"

definition set_library_root_if_idle :: "job_id list \<Rightarrow> path \<Rightarrow> Inner \<Rightarrow> (unit option) \<times> Inner" where
  "set_library_root_if_idle ids root s =
    (if has_non_terminal_jobs ids s then (None, s) else (Some (), s\<lparr>in_library_root := root\<rparr>))"

end
