(* ===== verification/Store_References.thy ===== *)
theory Store_References
  imports Store_Lifecycle
begin

text \<open>
  Referential integrity of the transfer database and the retry lineage: dependent
  rows belong to a job that exists, and a parent has at most one retry child that
  can still run.
\<close>

section \<open>Foreign keys\<close>

abbreviation job_ids :: "TransferStore \<Rightarrow> string set" where
  "job_ids s \<equiv> jr_job_id ` set (ts_jobs s)"

definition refs_inv :: "TransferStore \<Rightarrow> bool" where
  "refs_inv s \<longleftrightarrow>
    spr_job_id ` set (ts_specs s) \<subseteq> job_ids s \<and>
    flr_job_id ` set (ts_files s) \<subseteq> job_ids s \<and>
    lgr_job_id ` set (ts_ledger s) \<subseteq> job_ids s \<and>
    lnr_child ` set (ts_lineage s) \<subseteq> job_ids s \<and>
    lnr_parent ` set (ts_lineage s) \<subseteq> job_ids s"

lemma refs_inv_empty: "refs_inv empty_store"
  by (simp add: refs_inv_def empty_store_def)

lemma refs_mono:
  assumes "refs_inv s" and sub: "job_ids s \<subseteq> job_ids s'"
    and tables: "spr_job_id ` set (ts_specs s') \<subseteq> spr_job_id ` set (ts_specs s) \<union> job_ids s'"
    "flr_job_id ` set (ts_files s') \<subseteq> flr_job_id ` set (ts_files s) \<union> job_ids s'"
    "lgr_job_id ` set (ts_ledger s') \<subseteq> lgr_job_id ` set (ts_ledger s) \<union> job_ids s'"
    "lnr_child ` set (ts_lineage s') \<subseteq> lnr_child ` set (ts_lineage s) \<union> job_ids s'"
    "lnr_parent ` set (ts_lineage s') \<subseteq> lnr_parent ` set (ts_lineage s) \<union> job_ids s'"
  shows "refs_inv s'"
proof -
  have grow: "B \<subseteq> job_ids s'" if "A \<subseteq> job_ids s" "B \<subseteq> A \<union> job_ids s'" for A B
    using that sub by blast
  from assms(1) have old: "spr_job_id ` set (ts_specs s) \<subseteq> job_ids s"
    "flr_job_id ` set (ts_files s) \<subseteq> job_ids s" "lgr_job_id ` set (ts_ledger s) \<subseteq> job_ids s"
    "lnr_child ` set (ts_lineage s) \<subseteq> job_ids s" "lnr_parent ` set (ts_lineage s) \<subseteq> job_ids s"
    by (simp_all only: refs_inv_def)
  show ?thesis
    unfolding refs_inv_def
    by (intro conjI grow [OF old(1) tables(1)] grow [OF old(2) tables(2)]
        grow [OF old(3) tables(3)] grow [OF old(4) tables(4)] grow [OF old(5) tables(5)])
qed

lemma sql_insert_all_Inr:
  "sql_insert_all check clash rs rows = Inr out \<Longrightarrow> out = rows @ rs \<and> (\<forall>r\<in>set rs. check r)"
  by (induction rs arbitrary: rows) (fastforce simp: result_bind_Inr_iff sql_insert_Inr)+

definition file_row :: "string \<Rightarrow> JobSpec \<Rightarrow> nat \<times> JobFileSpec \<Rightarrow> FileRow" where
  "file_row k spec p =
    \<lparr>flr_job_id = k, flr_inventory_index = uint (of_nat (fst p) :: u64),
     flr_request_index = map_option (\<lambda>i. uint (of_nat i :: u64))
       (request_position spec (jf_file_id (snd p))),
     flr_file_id = jf_file_id (snd p), flr_display_path = jf_display_path (snd p),
     flr_size_bytes = uint (jf_size_bytes (snd p)), flr_sha256 = jf_sha256 (snd p)\<rparr>"

lemma new_file_row_Inr:
  "new_file_row k spec p = Inr r \<Longrightarrow> r = file_row k spec p"
  by (auto simp: new_file_row_def result_bind_Inr_iff file_row_def split: option.splits)

lemma insert_files_Inr:
  "insert_files k spec ps rows = Inr out \<Longrightarrow> out = rows @ map (file_row k spec) ps"
  by (induction ps arbitrary: rows)
    (fastforce simp: result_bind_Inr_iff sql_insert_Inr dest!: new_file_row_Inr)+

lemma update_jobs_ids:
  assumes "update_jobs sel f s = Inr s'" "\<And>r. jr_job_id (f r) = jr_job_id r"
  shows "job_ids s' = job_ids s" "ts_specs s' = ts_specs s" "ts_files s' = ts_files s"
    "ts_ledger s' = ts_ledger s" "ts_lineage s' = ts_lineage s"
proof -
  have "jr_job_id (if sel r then f r else r) = jr_job_id r" for r using assms(2) by simp
  then have "map jr_job_id (ts_jobs s') = map jr_job_id (ts_jobs s)"
    using assms(1) by (simp add: update_jobs_Inr)
  then show "job_ids s' = job_ids s" by (metis list.set_map)
qed (use assms(1) in \<open>simp_all add: update_jobs_Inr\<close>)

lemma refs_same_ids:
  assumes "refs_inv s" "job_ids s' = job_ids s" "ts_specs s' = ts_specs s"
    "ts_files s' = ts_files s" "lgr_job_id ` set (ts_ledger s') = lgr_job_id ` set (ts_ledger s)"
    "ts_lineage s' = ts_lineage s"
  shows "refs_inv s'"
  using assms by (simp add: refs_inv_def)

lemma refs_update_jobs:
  assumes "refs_inv s" "update_jobs sel f s = Inr s'" "\<And>r. jr_job_id (f r) = jr_job_id r"
  shows "refs_inv s' \<and> ts_lineage s' = ts_lineage s"
  using refs_same_ids [OF assms(1) update_jobs_ids(1-3) [OF assms(2,3)]]
    update_jobs_ids(4,5) [OF assms(2,3)] by simp

section \<open>The retry lineage\<close>

definition live :: "TransferStore \<Rightarrow> string \<Rightarrow> bool" where
  "live s k \<longleftrightarrow> (case lifecycle s k of Some (Live t v) \<Rightarrow> True | _ \<Rightarrow> False)"

text \<open>A child that can still run is the newest attempt of its parent.\<close>

definition lineage_inv :: "TransferStore \<Rightarrow> bool" where
  "lineage_inv s \<longleftrightarrow>
    (\<forall>l\<in>set (ts_lineage s). \<forall>l'\<in>set (ts_lineage s).
      (lineage_clash l l' \<longrightarrow> l = l') \<and>
      (lnr_parent l' = lnr_parent l \<and> live s (lnr_child l) \<longrightarrow> lnr_attempt l' \<le> lnr_attempt l))"

lemma live_iff: "live s k \<longleftrightarrow> (\<exists>t v. lifecycle s k = Some (Live t v))"
  by (auto simp: live_def split: option.splits phase.splits)

lemma lineage_keep:
  assumes "store_inv s" "refs_inv s" "lineage_inv s" "set (ts_lineage s') \<subseteq> set (ts_lineage s)"
    and ls: "life_step (lifecycle s) (lifecycle s')"
  shows "lineage_inv s'"
proof -
  have "live s (lnr_child l)" if l: "l \<in> set (ts_lineage s)" and lv: "live s' (lnr_child l)" for l
  proof -
    have "lnr_child l \<in> job_ids s" using assms(2) l by (auto simp: refs_inv_def)
    then have "find_job s (lnr_child l) \<noteq> None" by (simp add: find_job_def find_key_None_iff)
    then have "lifecycle s (lnr_child l) \<noteq> None" using lifecycle_None [OF assms(1)] by simp
    moreover obtain t v where "lifecycle s' (lnr_child l) = Some (Live t v)"
      using lv by (auto simp: live_iff)
    ultimately show ?thesis using life_step_live [OF ls] by (metis live_iff)
  qed
  with assms(3,4) show ?thesis unfolding lineage_inv_def by (meson subsetD)
qed

lemma sort_key_last_max:
  assumes "last_option (sort_key f xs) = Some m"
  shows "m \<in> set xs" "x \<in> set xs \<Longrightarrow> f x \<le> f m"
proof -
  let ?ys = "sort_key f xs"
  from assms have ne: "?ys \<noteq> []" and m: "m = last ?ys" by (auto simp: last_option_def split: if_splits)
  then have "m \<in> set ?ys" using last_in_set by metis
  then show "m \<in> set xs" by simp
  assume "x \<in> set xs"
  then have "x \<in> set ?ys" by simp
  then obtain i where i: "i < length ?ys" "x = ?ys ! i" unfolding in_set_conv_nth by blast
  have "map f ?ys ! i \<le> map f ?ys ! (length ?ys - 1)"
    using i(1) by (intro sorted_nth_mono) (auto simp: sorted_sort_key)
  with i m ne show "f x \<le> f m" by (simp add: last_conv_nth del: length_sort)
qed

lemma last_option_None [simp]: "last_option xs = None \<longleftrightarrow> xs = []"
  by (simp add: last_option_def)

lemma spawn_lineage:
  assumes "(if up then spawn_upload else spawn_download) s parent p child attempt now = Inr s'"
  shows "ts_lineage s' = ts_lineage s @
    [\<lparr>lnr_child = child, lnr_parent = p, lnr_attempt = attempt, lnr_created_at = now\<rparr>]"
    "\<forall>l\<in>set (ts_lineage s). \<not> lineage_clash \<lparr>lnr_child = child, lnr_parent = p,
       lnr_attempt = attempt, lnr_created_at = now\<rparr> l"
  using assms
  by (cases up; auto simp: spawn_upload_def spawn_download_def insert_lineage_def
      result_bind_Inr_iff sql_insert_Inr)+

lemma children_listed:
  assumes "refs_inv s"
  shows "set (retry_children s p) = {l \<in> set (ts_lineage s). lnr_parent l = p}"
proof -
  have "find_job s (lnr_child l) \<noteq> None" if "l \<in> set (ts_lineage s)" for l
    using that assms by (auto simp: refs_inv_def find_job_def find_key_None_iff)
  then show ?thesis by (auto simp: retry_children_def)
qed

lemma newest_child:
  assumes "last_option (retry_children s p) = Some m"
  shows "m \<in> set (retry_children s p)"
    "x \<in> set (retry_children s p) \<Longrightarrow> lnr_attempt x \<le> lnr_attempt m"
  using sort_key_last_max [OF assms [unfolded retry_children_def]]
  by (simp_all add: retry_children_def)

lemma not_live_child:
  assumes inv: "store_inv s" and "live_child s (Some m) = Inr None"
  shows "\<not> live s (lnr_child m)"
proof (cases "find_job s (lnr_child m)")
  case None
  then have "lifecycle s (lnr_child m) = None" using lifecycle_None [OF inv] by simp
  then show ?thesis by (simp add: live_iff)
next
  case (Some q)
  then obtain jm where jm: "read_job_row q = Inr jm" using inv_read_job [OF inv] by blast
  have "tag_is_terminal (sj_state jm)"
    using assms(2) Some jm
    by (auto simp: live_child_def result_bind_Inr_iff read_job_def decode_job_def split: if_splits)
  then have "find_outbox s (lnr_child m) \<noteq> None"
    using inv_terminal_outbox [OF inv Some] read_job_row_fields [OF jm] by simp
  then show ?thesis by (auto simp: live_iff lifecycle_def phase_of_rows_def split: sum.splits)
qed

text \<open>When a new child is about to be written, every earlier one is over.\<close>

lemma earlier_children_over:
  assumes inv: "store_inv s" "refs_inv s" "lineage_inv s"
    and "live_child s (last_option (retry_children s p)) = Inr None"
    and "next_attempt p (last_option (retry_children s p)) = Inr attempt"
    and l: "l \<in> set (ts_lineage s)" "lnr_parent l = p"
  shows "\<not> live s (lnr_child l) \<and> lnr_attempt l < attempt"
proof -
  have lc: "l \<in> set (retry_children s p)" using l children_listed [OF inv(2)] by simp
  then obtain m where m: "last_option (retry_children s p) = Some m"
    by (cases "last_option (retry_children s p)") auto
  note nm = newest_child [OF m]
  have mm: "m \<in> set (ts_lineage s)" "lnr_parent m = p"
    using nm(1) children_listed [OF inv(2)] by auto
  have le: "lnr_attempt l \<le> lnr_attempt m" using nm(2) lc by blast
  have "attempt = lnr_attempt m + 1"
    using assms(5) m by (auto simp: next_attempt_def split: if_splits)
  moreover have "\<not> live s (lnr_child m)" using not_live_child [OF inv(1)] assms(4) m by simp
  moreover have "l = m" if "live s (lnr_child l)"
  proof -
    have "lnr_attempt m \<le> lnr_attempt l" using inv(3) mm l that by (auto simp: lineage_inv_def)
    then have "lineage_clash l m" using le l mm by (simp add: lineage_clash_def)
    then show ?thesis using inv(3) mm l by (auto simp: lineage_inv_def)
  qed
  ultimately show ?thesis using le by auto
qed

lemma lineage_spawn:
  assumes inv: "store_inv s" "refs_inv s" "lineage_inv s"
    and ok: "spawn_retry_job_inner s p child now allow = Inr (res, s')"
  shows "lineage_inv s'"
  using ok
proof (cases rule: spawn_retry_Inr)
  case (existing j)
  with inv show ?thesis by simp
next
  case (created parent attempt j)
  note L = spawn_lineage [OF created(5)]
  note over = earlier_children_over [OF inv created(3,4)]
  have old: "live s' (lnr_child l) = live s (lnr_child l)" if "l \<in> set (ts_lineage s)" for l
  proof -
    have "lnr_child l \<noteq> child"
      using that inv(2) created(2) by (auto simp: refs_inv_def find_job_def find_key_None_iff)
    then show ?thesis using spawn_created(2) [OF inv(1) created(2,5,6)] by (simp add: live_def)
  qed
  have sym: "lineage_clash a b = lineage_clash b a" for a b by (auto simp: lineage_clash_def)
  let ?l = "\<lparr>lnr_child = child, lnr_parent = p, lnr_attempt = attempt, lnr_created_at = now\<rparr>"
  let ?ok = "\<lambda>a b. (lineage_clash a b \<longrightarrow> a = b) \<and>
    (lnr_parent b = lnr_parent a \<and> live s' (lnr_child a) \<longrightarrow> lnr_attempt b \<le> lnr_attempt a)"
  have "?ok a b" if "a \<in> set (ts_lineage s)" "b \<in> set (ts_lineage s)" for a b
    using inv(3) that old [OF that(1)] by (simp add: lineage_inv_def)
  moreover have "?ok ?l b" if "b \<in> set (ts_lineage s)" for b
    using L(2) that over [OF that] by auto
  moreover have "?ok a ?l" if "a \<in> set (ts_lineage s)" for a
    using L(2) that over [OF that] old [OF that] sym [of a ?l] by auto
  moreover have "?ok ?l ?l" by simp
  ultimately show ?thesis unfolding lineage_inv_def L(1) by auto
qed

section \<open>Every operation keeps the references\<close>

lemma transition_row_id [simp]: "jr_job_id (transition_row st v cols now r) = jr_job_id r"
  by (simp add: transition_row_def)

text \<open>An operation that does not add or remove jobs leaves the lineage as it is.\<close>

lemma refs_transition:
  "refs_inv s \<Longrightarrow> transition_job s k v to err now = Inr (v', s') \<Longrightarrow>
   refs_inv s' \<and> ts_lineage s' = ts_lineage s"
  using transition_job_Inr(6) refs_update_jobs transition_row_id by blast

lemma refs_desired:
  assumes "refs_inv s" "set_desired_run_state s k d now ev = Inr s'"
  shows "refs_inv s' \<and> ts_lineage s' = ts_lineage s"
proof -
  from assms(2) obtain sel where "update_jobs sel
      (\<lambda>r. r\<lparr>jr_desired := desired_run_state_db d, jr_updated_at := now\<rparr>) s = Inr s'"
    unfolding set_desired_run_state_def Let_def by (auto simp: result_bind_Inr_iff split: if_splits)
  from refs_update_jobs [OF assms(1) this] show ?thesis by simp
qed

lemma refs_dismiss:
  assumes "refs_inv s" "dismiss_job s k now = Inr (b, s')"
  shows "refs_inv s' \<and> ts_lineage s' = ts_lineage s"
proof -
  from assms(2) consider "s' = s" | sel where "update_jobs sel
      (\<lambda>r. r\<lparr>jr_dismissed_at := Some now, jr_updated_at := now\<rparr>) s = Inr s'"
    unfolding dismiss_job_def Let_def by (auto simp: result_Inr_iffs split: if_splits)
  then show ?thesis
  proof cases
    case 2
    from refs_update_jobs [OF assms(1) this] show ?thesis by simp
  qed (use assms(1) in simp)
qed

lemma refs_ledger:
  assumes "refs_inv s" "update_file_ledger s k fid st n d now = Inr s'"
  shows "refs_inv s' \<and> ts_lineage s' = ts_lineage s"
proof -
  from assms(2) consider "s' = s" | col dg where
    "s' = s\<lparr>ts_ledger := map (\<lambda>r. if lgr_job_id r = k \<and> lgr_file_id r = fid
       then r\<lparr>lgr_status := ledger_as_db_str st, lgr_bytes := col, lgr_sha256 := dg,
              lgr_updated_at := now\<rparr> else r) (ts_ledger s)\<rparr>"
    unfolding update_file_ledger_def
    by (auto simp: result_bind_Inr_iff sql_update_Inr split: if_splits)
  then show ?thesis
  proof cases
    case 2
    then have "map lgr_job_id (ts_ledger s') = map lgr_job_id (ts_ledger s)" by simp
    then have "lgr_job_id ` set (ts_ledger s') = lgr_job_id ` set (ts_ledger s)"
      by (metis list.set_map)
    with 2 assms(1) show ?thesis by (simp add: refs_inv_def)
  qed (use assms(1) in simp)
qed

lemma refs_acknowledge:
  assumes "refs_inv s" "acknowledge_completion s k now = Inr (x, s')"
  shows "refs_inv s' \<and> ts_lineage s' = ts_lineage s"
proof -
  from assms(2) obtain rows where "s' = s \<or> s' = s\<lparr>ts_outbox := rows\<rparr>"
    unfolding acknowledge_completion_def Let_def
    by (auto simp: result_Inr_iffs split: if_splits)
  with assms(1) show ?thesis by (elim disjE) (simp_all add: refs_inv_def)
qed

lemma refs_complete:
  assumes inv: "store_inv s" "refs_inv s" and ok: "complete_job s k oc now = Inr (res, s')"
  shows "refs_inv s' \<and> ts_lineage s' = ts_lineage s"
  using inv(1) ok
proof (cases rule: complete_job_Inr)
  case (replay c)
  with inv show ?thesis by simp
next
  case (fresh r j c s1)
  have "refs_inv s1" "ts_lineage s1 = ts_lineage s"
    using refs_update_jobs [OF inv(2) fresh(5)] by simp_all
  moreover from fresh(6) obtain rows n where
    "s' = s1\<lparr>ts_outbox := rows, ts_next_sequence := n\<rparr>" by (rule insert_outbox_row_Inr)
  ultimately show ?thesis by (simp add: refs_inv_def)
qed

lemma refs_create:
  assumes inv: "refs_inv s" and ok: "create_job sha256 s k spec now = Inr (res, s')"
  shows "refs_inv s' \<and> ts_lineage s' = ts_lineage s"
  using ok
proof (cases rule: create_job_Inr)
  case (existing j)
  with inv show ?thesis by simp
next
  case (fresh j jobs specs files ledger)
  have "refs_inv s'"
    using fresh(3,4) insert_files_Inr [OF fresh(5)] sql_insert_all_Inr [OF fresh(6)]
    by (intro refs_mono [OF inv]) (auto simp: fresh(7) sql_insert_Inr new_spec_row_def
        file_row_def new_ledger_row_def)
  then show ?thesis by (simp add: fresh(7))
qed

lemma refs_spawn:
  assumes inv: "store_inv s" "refs_inv s"
    and ok: "spawn_retry_job_inner s p child now allow = Inr (res, s')"
  shows "refs_inv s'"
  using ok
proof (cases rule: spawn_retry_Inr)
  case (existing j)
  with inv show ?thesis by simp
next
  case (created parent attempt j)
  have "p \<in> job_ids s"
    using created(1) find_SomeD
    by (fastforce simp: retry_guard_def result_Inr_iffs read_job_Inr_Some find_job_def)
  with created(5) show ?thesis
    by (intro refs_mono [OF inv(2)]; cases "sj_operation_kind parent = Upload")
      (auto simp: spawn_upload_def spawn_download_def insert_lineage_def result_bind_Inr_iff
        sql_insert_Inr copy_specs_def copy_files_def copy_ledger_def dest!: sql_insert_all_Inr)
qed

lemma refs_delete:
  assumes inv: "refs_inv s" and ok: "delete_job s k = Inr (b, s')"
  shows "refs_inv s' \<and> set (ts_lineage s') \<subseteq> set (ts_lineage s)"
proof -
  from ok consider "s' = s" | "s' = delete_rows k s" "\<forall>l\<in>set (ts_lineage s). lnr_parent l \<noteq> k"
    unfolding delete_job_def by (auto simp: result_bind_Inr_iff list_ex_iff split: if_splits)
  then show ?thesis
  proof cases
    case 2
    have keep: "f ` {x \<in> A. f x \<noteq> k} \<subseteq> jr_job_id ` {x \<in> set (ts_jobs s). jr_job_id x \<noteq> k}"
      if "f ` A \<subseteq> job_ids s" for f :: "'x \<Rightarrow> string" and A
      using that by (auto 4 3)
    have "lnr_parent ` {x \<in> set (ts_lineage s). lnr_child x \<noteq> k}
        \<subseteq> jr_job_id ` {x \<in> set (ts_jobs s). jr_job_id x \<noteq> k}"
      using inv 2(2) by (auto 4 3 simp: refs_inv_def)
    with inv 2(1) show ?thesis by (simp add: refs_inv_def delete_rows_def keep)
  qed (use inv in simp)
qed

lemma refs_retarget:
  assumes inv: "store_inv s" "refs_inv s" and ok: "retarget_job s old new now = Inr (j, s')"
  shows "refs_inv s' \<and> ts_lineage s' = ts_lineage s"
proof -
  from ok obtain s1 where s': "s' = retarget_rows old new s1" "\<not> still_referenced s' old"
    and s1: "ts_specs s1 = ts_specs s" "ts_files s1 = ts_files s" "ts_ledger s1 = ts_ledger s"
      "ts_lineage s1 = ts_lineage s"
    unfolding retarget_job_def Let_def
    by (auto simp: result_Inr_iffs update_jobs_Inr split: if_splits option.splits)
  from inv(1) ok obtain r where mv: "find_job s old = Some r"
    "moved s old (retarget_row new now r) s'"
    by (rule retarget_moved)
  have ids: "job_ids s - {old} \<subseteq> job_ids s'" "new \<in> job_ids s'"
    using mv find_SomeD [of _ "ts_jobs s" r]
    by (force simp: moved_def find_job_def retarget_row_def)+
  have move: "set ys \<subseteq> job_ids s'"
    if "set xs \<subseteq> job_ids s" "ys = map (\<lambda>i. if i = old then new else i) xs" for xs ys
    using that ids by auto
  have same: "ts_lineage s' = ts_lineage s" by (simp add: s'(1) retarget_rows_def s1)
  then have "\<forall>l\<in>set (ts_lineage s). lnr_child l \<noteq> old \<and> lnr_parent l \<noteq> old"
    using s'(2) by (auto simp: still_referenced_def list_ex_iff)
  then have "lnr_child ` set (ts_lineage s) \<subseteq> job_ids s - {old}"
    "lnr_parent ` set (ts_lineage s) \<subseteq> job_ids s - {old}"
    using inv(2) unfolding refs_inv_def image_subset_iff by simp_all
  then have lin: "lnr_child ` set (ts_lineage s') \<subseteq> job_ids s'"
    "lnr_parent ` set (ts_lineage s') \<subseteq> job_ids s'"
    using ids(1) unfolding same by blast+
  have tabs:
    "map spr_job_id (ts_specs s') = map (\<lambda>i. if i = old then new else i) (map spr_job_id (ts_specs s))"
    "map flr_job_id (ts_files s') = map (\<lambda>i. if i = old then new else i) (map flr_job_id (ts_files s))"
    "map lgr_job_id (ts_ledger s') = map (\<lambda>i. if i = old then new else i) (map lgr_job_id (ts_ledger s))"
    by (simp_all add: s'(1) retarget_rows_def s1)
  have "set (map spr_job_id (ts_specs s)) \<subseteq> job_ids s"
    "set (map flr_job_id (ts_files s)) \<subseteq> job_ids s" "set (map lgr_job_id (ts_ledger s)) \<subseteq> job_ids s"
    using inv(2) by (simp_all add: refs_inv_def)
  note sets = move [OF this(1) tabs(1)] move [OF this(2) tabs(2)] move [OF this(3) tabs(3)]
  from lin sets [unfolded set_map] same show ?thesis by (simp only: refs_inv_def)
qed

section \<open>Reachable databases\<close>

definition full_inv :: "TransferStore \<Rightarrow> bool" where
  "full_inv s \<longleftrightarrow> store_inv s \<and> refs_inv s \<and> lineage_inv s"

lemma full_inv_step:
  assumes "full_inv s"
  shows "full_inv (apply_op sha256 op s)"
proof -
  from assms have inv: "store_inv s" "refs_inv s" "lineage_inv s" by (simp_all add: full_inv_def)
  let ?s = "apply_op sha256 op s"
  note step = apply_op_step [OF inv(1), of sha256 op]
  let ?P = "\<lambda>s'. refs_inv s' \<and> set (ts_lineage s') \<subseteq> set (ts_lineage s)"
  have base: "?P s" using inv by simp
  note I = settle_sndI [where P = ?P, OF base] settleI [where P = ?P, OF base]
  show ?thesis
  proof (cases "\<exists>p child now up. op = OpRetry p child now up")
    case True
    then obtain p child now up where op: "op = OpRetry p child now up" by blast
    have "refs_inv ?s \<and> lineage_inv ?s"
      unfolding op apply_op.simps
      by (rule settle_sndI [where P = "\<lambda>s'. refs_inv s' \<and> lineage_inv s'"])
        (use inv refs_spawn lineage_spawn in blast)+
    with step show ?thesis by (simp add: full_inv_def)
  next
    case False
    then have "?P ?s"
      by (cases op; simp only: apply_op.simps)
        (intro I; (drule refs_transition [OF inv(2)] refs_desired [OF inv(2)]
            refs_ledger [OF inv(2)] refs_create [OF inv(2)] refs_complete [OF inv(1,2)]
            refs_acknowledge [OF inv(2)] refs_dismiss [OF inv(2)] refs_delete [OF inv(2)]
            refs_retarget [OF inv(1,2)]); simp; fail | blast)+
    then show ?thesis
      using step lineage_keep [OF inv, of ?s] by (simp add: full_inv_def)
  qed
qed

end
