(* ===== verification/Store_Creation.thy ===== *)
theory Store_Creation
  imports Store_References
begin

text \<open>
  Creating a job succeeds for every constructed specification and loses nothing of
  it: the specification reassembled from the rows is the one that was stored.
\<close>

section \<open>Constructed specifications\<close>

text \<open>What the constructors of \<open>domain/mod.rs\<close> guarantee, part by part.\<close>

definition spec_valid :: "JobSpec \<Rightarrow> bool" where
  "spec_valid spec \<longleftrightarrow> spec_wf spec \<and>
    JobIdentity_new (ji_device_id (js_identity spec)) (ji_session_id (js_identity spec))
      (ji_revision (js_identity spec)) = Inr (js_identity spec) \<and>
    PublicationMaterial_new (pm_revision (js_publication spec)) (pm_payload (js_publication spec))
      (pm_signature (js_publication spec)) (pm_public_key (js_publication spec)) =
      Inr (js_publication spec) \<and>
    list_all (\<lambda>f. JobFileSpec_new (jf_file_id f) (jf_display_path f) (jf_size_bytes f) (jf_sha256 f)
      = Inr f) (js_session_files spec)"

text \<open>The counts and sizes fit SQLite's integers.\<close>

definition spec_storable :: "JobSpec \<Rightarrow> bool" where
  "spec_storable spec \<longleftrightarrow> int (length (js_session_files spec)) \<le> 9223372036854775807 \<and>
    list_all (\<lambda>f. uint (jf_size_bytes f) \<le> 9223372036854775807) (js_session_files spec)"

lemma storable_iff:
  "spec_storable spec \<longleftrightarrow> length (js_session_files spec) \<le> i64_max \<and>
   (\<forall>f\<in>set (js_session_files spec). unat (jf_size_bytes f) \<le> i64_max)"
  by (simp add: spec_storable_def list_all_iff flip: int_i64_max uint_le_nat)

lemma unat_of_nat_small: "n \<le> i64_max \<Longrightarrow> unat (of_nat n :: u64) = n"
  by (simp add: unat_of_nat i64_max_def)

lemma uint_of_nat_small: "n \<le> i64_max \<Longrightarrow> uint (of_nat n :: u64) = int n"
  unfolding uint_nat by (simp only: unat_of_nat_small)

subsection \<open>Positions\<close>

lemma position_of_Some:
  "position_of P xs = Some i \<Longrightarrow> i < length xs \<and> P (xs ! i)"
  by (induction xs arbitrary: i) (auto split: if_splits simp: nth_Cons')

lemma position_of_None: "position_of P xs = None \<longleftrightarrow> (\<forall>x\<in>set xs. \<not> P x)"
  by (induction xs) auto

lemma position_of_unique:
  assumes "i < length xs" "P (xs ! i)" "\<And>j. j < length xs \<Longrightarrow> P (xs ! j) \<Longrightarrow> j = i"
  shows "position_of P xs = Some i"
proof (cases "position_of P xs")
  case None
  with assms(1,2) show ?thesis by (auto simp: position_of_None)
next
  case (Some j)
  with position_of_Some [OF Some] assms(3) show ?thesis by auto
qed

lemma length_requested [simp]: "length (requested_files spec) = length (js_requested spec)"
  by (simp add: requested_files_def)

lemma request_position_iff:
  assumes "spec_wf spec"
  shows "request_position spec fid = Some i \<longleftrightarrow>
    i < length (js_requested spec) \<and> jf_file_id (requested_files spec ! i) = fid"
proof -
  have eq: "requested_files spec ! j = js_session_files spec ! (js_requested spec ! j)"
    if "j < length (js_requested spec)" for j
    using that by (simp add: requested_files_def)
  have dist: "distinct (map jf_file_id (requested_files spec))"
    using assms by (auto simp: spec_wf_def requested_files_def distinct_conv_nth nth_eq_iff_index_eq)
  show ?thesis
  proof
    assume "request_position spec fid = Some i"
    then show "i < length (js_requested spec) \<and> jf_file_id (requested_files spec ! i) = fid"
      unfolding request_position_def using position_of_Some eq by fastforce
  next
    assume i: "i < length (js_requested spec) \<and> jf_file_id (requested_files spec ! i) = fid"
    show "request_position spec fid = Some i"
      unfolding request_position_def
    proof (rule position_of_unique)
      fix j assume "j < length (js_requested spec)"
        "jf_file_id (js_session_files spec ! (js_requested spec ! j)) = fid"
      with i eq [of i] eq [of j] have "jf_file_id (requested_files spec ! j) = jf_file_id (requested_files spec ! i)"
        "j < length (requested_files spec)" "i < length (requested_files spec)" by simp_all
      then show "j = i" using nth_eq_of_distinct_map [OF dist] by blast
    qed (use i eq in auto)
  qed
qed

lemma requested_le_inventory:
  assumes "spec_wf spec"
  shows "length (js_requested spec) \<le> length (js_session_files spec)"
proof -
  have "length (js_requested spec) = card (set (js_requested spec))"
    using assms by (simp add: spec_wf_def distinct_card)
  also have "\<dots> \<le> card {..<length (js_session_files spec)}"
    using assms by (intro card_mono) (auto simp: spec_wf_def)
  finally show ?thesis by simp
qed

section \<open>Reassembling the files\<close>

definition request_pairs :: "JobSpec \<Rightarrow> JobFileSpec list \<Rightarrow> (int \<times> string) list" where
  "request_pairs spec fs = concat (map (\<lambda>f. case request_position spec (jf_file_id f) of
     None \<Rightarrow> [] | Some i \<Rightarrow> [(int i, jf_file_id f)]) fs)"

lemma load_file_rows:
  assumes "spec_wf spec" "spec_storable spec"
    and "\<forall>p\<in>set ps. JobFileSpec_new (jf_file_id (snd p)) (jf_display_path (snd p))
        (jf_size_bytes (snd p)) (jf_sha256 (snd p)) = Inr (snd p)"
  shows "load_files (map (file_row k spec) ps) = Inr (map snd ps, request_pairs spec (map snd ps))"
  using assms(3)
proof (induction ps)
  case Nil
  then show ?case by (simp add: request_pairs_def)
next
  case (Cons p ps)
  have small: "uint (of_nat i :: u64) = int i"
    if "request_position spec (jf_file_id (snd p)) = Some i" for i
    using that assms requested_le_inventory [OF assms(1)]
    by (intro uint_of_nat_small) (auto simp: request_position_iff storable_iff)
  have own: "(case flr_request_index (file_row k spec p) of None \<Rightarrow> Inr []
       | Some i \<Rightarrow> if i < 0 then Inl CorruptSpec else Inr [(i, flr_file_id (file_row k spec p))]) =
     Inr (case request_position spec (jf_file_id (snd p)) of
       None \<Rightarrow> [] | Some i \<Rightarrow> [(int i, jf_file_id (snd p))])"
    using small by (simp add: file_row_def split: option.splits)
  have rest: "load_files (map (file_row k spec) ps) =
      Inr (map snd ps, request_pairs spec (map snd ps))"
    using Cons by simp
  show ?case
    using Cons.prems
    by (simp only: list.map load_files.simps own rest)
      (simp add: file_row_def ok_or_else_def request_pairs_def)
qed

lemma sort_key_fst_unique:
  assumes "distinct (map fst xs)" "distinct (map fst ys)" "sorted (map fst ys)" "set xs = set ys"
  shows "sort_key fst xs = ys"
proof -
  have dist: "distinct (map fst (sort_key fst xs))"
    using assms(1) by (simp add: distinct_map)
  have "map fst (sort_key fst xs) = map fst ys"
    using dist assms by (intro sorted_distinct_set_unique) (auto simp: sorted_sort_key)
  moreover have "inj_on fst (set (sort_key fst xs) \<union> set ys)"
    using assms(2,4) by (simp add: distinct_map)
  ultimately show ?thesis by (metis map_inj_on)
qed

lemma in_request_pairs:
  "q \<in> set (request_pairs spec fs) \<longleftrightarrow>
   (\<exists>f\<in>set fs. \<exists>i. request_position spec (jf_file_id f) = Some i \<and> q = (int i, jf_file_id f))"
proof -
  have "q \<in> set (case m of None \<Rightarrow> [] | Some i \<Rightarrow> [(int i, y)]) \<longleftrightarrow>
    (\<exists>i. m = Some i \<and> q = (int i, y))" for m :: "nat option" and y :: string
    by (cases m) auto
  then show ?thesis by (auto simp: request_pairs_def)
qed

lemma request_pairs_set:
  assumes "spec_wf spec"
  shows "set (request_pairs spec (js_session_files spec)) =
    (\<lambda>i. (int i, jf_file_id (requested_files spec ! i))) ` {..<length (js_requested spec)}"
proof (intro subset_antisym subsetI)
  fix q assume "q \<in> set (request_pairs spec (js_session_files spec))"
  then show "q \<in> (\<lambda>i. (int i, jf_file_id (requested_files spec ! i))) ` {..<length (js_requested spec)}"
    unfolding in_request_pairs request_position_iff [OF assms] by auto
next
  fix q assume "q \<in> (\<lambda>i. (int i, jf_file_id (requested_files spec ! i))) ` {..<length (js_requested spec)}"
  then obtain i where i: "i < length (js_requested spec)"
    "q = (int i, jf_file_id (requested_files spec ! i))" by auto
  then have "requested_files spec ! i \<in> set (js_session_files spec)"
    using requested_files_subset [OF assms] nth_mem [of i "requested_files spec"] by auto
  with i show "q \<in> set (request_pairs spec (js_session_files spec))"
    unfolding in_request_pairs request_position_iff [OF assms] by auto
qed

lemma request_pairs_distinct:
  assumes "spec_wf spec"
  shows "distinct (map fst (request_pairs spec (js_session_files spec)))"
proof -
  have "distinct (map fst (request_pairs spec fs))" if "distinct (map jf_file_id fs)" for fs
    using that
  proof (induction fs)
    case (Cons f fs)
    have "int i \<notin> fst ` set (request_pairs spec fs)"
      if i: "request_position spec (jf_file_id f) = Some i" for i
    proof
      assume "int i \<in> fst ` set (request_pairs spec fs)"
      then obtain g where "g \<in> set fs" "request_position spec (jf_file_id g) = Some i"
        unfolding image_iff Bex_def in_request_pairs by auto
      with i Cons.prems request_position_iff [OF assms] show False by force
    qed
    moreover have "request_pairs spec (f # fs) = (case request_position spec (jf_file_id f) of
       None \<Rightarrow> [] | Some i \<Rightarrow> [(int i, jf_file_id f)]) @ request_pairs spec fs"
      by (simp add: request_pairs_def)
    ultimately show ?case using Cons by (auto split: option.splits)
  qed (simp add: request_pairs_def)
  then show ?thesis using assms by (simp add: spec_wf_def)
qed

lemma request_pairs_sorted:
  assumes "spec_wf spec"
  shows "map snd (sort_key fst (request_pairs spec (js_session_files spec))) =
    map jf_file_id (requested_files spec)"
proof -
  let ?n = "length (js_requested spec)"
  let ?ys = "map (\<lambda>i. (int i, jf_file_id (requested_files spec ! i))) [0..<?n]"
  have "sort_key fst (request_pairs spec (js_session_files spec)) = ?ys"
  proof (rule sort_key_fst_unique)
    have "map fst ?ys = map int [0..<?n]" by simp
    then show "distinct (map fst ?ys)" "sorted (map fst ?ys)"
      by (simp_all only:, simp_all add: distinct_map sorted_map)
  qed (auto simp: request_pairs_distinct [OF assms] request_pairs_set [OF assms] image_image)
  then have "map snd (sort_key fst (request_pairs spec (js_session_files spec))) =
      map (\<lambda>i. jf_file_id (requested_files spec ! i)) [0..<?n]" by simp
  also have "\<dots> = map jf_file_id (requested_files spec)"
    by (rule nth_equalityI) simp_all
  finally show ?thesis .
qed

section \<open>Natural keys\<close>

text \<open>
  Only the first job of an identity carries the bare natural key; a retry appends
  its own identifier and an upload has a prefix no natural key has.
\<close>

definition good_key :: "JobRow \<Rightarrow> bool" where
  "good_key r \<longleftrightarrow> (\<forall>i. jr_natural_key r = natural_key i \<longrightarrow> same_identity i r)"

definition key_inv :: "TransferStore \<Rightarrow> bool" where
  "key_inv s \<longleftrightarrow> (\<forall>r\<in>set (ts_jobs s). good_key r)"

lemma good_key_cong:
  "jr_natural_key r' = jr_natural_key r \<Longrightarrow> jr_device_id r' = jr_device_id r \<Longrightarrow>
   jr_session_id r' = jr_session_id r \<Longrightarrow> jr_revision r' = jr_revision r \<Longrightarrow>
   good_key r' = good_key r"
  by (simp add: good_key_def same_identity_def)

lemma natural_key_digit: "natural_key i \<noteq> CHR ''u'' # x"
proof
  assume "natural_key i = CHR ''u'' # x"
  moreover obtain d ds where d: "decimal (length (ji_device_id i)) = d # ds"
    using decimal_nonempty by (cases "decimal (length (ji_device_id i))") auto
  ultimately have "d = CHR ''u''" by (simp add: natural_key_def key_part_def)
  moreover have "CHR ''u'' \<notin> set (decimal n)" for n by (rule decimal_no_char) simp
  ultimately show False using d by (metis list.set_intros(1))
qed

lemma good_key_create:
  "good_key (new_job_row k kind (natural_key i) i d now)"
proof -
  have "natural_key i = natural_key j \<Longrightarrow> i = j" for j
    using natural_key_cancel [of i "[]" j "[]"] by simp
  then show ?thesis by (auto simp: good_key_def new_job_row_def same_identity_def)
qed

lemma good_key_retry: "good_key (new_job_row k kind (natural_key i @ ''#retry:'' @ c) i' d now)"
proof -
  have "natural_key i @ ''#retry:'' @ c \<noteq> natural_key j" for j
    using natural_key_cancel [of i "''#retry:'' @ c" j "[]"] by auto
  then show ?thesis by (simp add: good_key_def new_job_row_def)
qed

lemma good_key_upload: "good_key (new_job_row k kind (''upload:'' @ x) i' d now)"
  using natural_key_digit [of _ "''pload:'' @ x"]
  by (auto simp: good_key_def new_job_row_def dest: sym)

lemma key_update_jobs:
  assumes "key_inv s" "update_jobs sel f s = Inr s'" "\<And>r. good_key (f r) = good_key r"
  shows "key_inv s'"
  using assms by (auto simp: key_inv_def update_jobs_Inr)

lemma key_inv_jobs: "ts_jobs s' = ts_jobs s \<Longrightarrow> key_inv s' = key_inv s"
  by (simp add: key_inv_def)

lemma good_key_updates [simp]:
  "good_key (transition_row st v cols now r) = good_key r"
  "good_key (retarget_row new now r) = good_key r"
  "good_key (r\<lparr>jr_desired := d, jr_updated_at := now\<rparr>) = good_key r"
  "good_key (r\<lparr>jr_dismissed_at := x, jr_updated_at := now\<rparr>) = good_key r"
  by (rule good_key_cong; simp add: transition_row_def retarget_row_def)+

lemma key_inv_complete:
  assumes inv: "store_inv s" "key_inv s" and ok: "complete_job s k oc now = Inr (res, s')"
  shows "key_inv s'"
  using inv(1) ok
proof (cases rule: complete_job_Inr)
  case (fresh r j c s1)
  have "key_inv s1" by (rule key_update_jobs [OF inv(2) fresh(5)]) simp
  moreover from fresh(6) have "ts_jobs s' = ts_jobs s1" by (rule insert_outbox_row_Inr) simp
  ultimately show ?thesis by (simp add: key_inv_def)
qed (use inv in simp)

lemma key_inv_create:
  assumes "key_inv s" "create_job sha256 s k spec now = Inr (res, s')"
  shows "key_inv s'"
  using assms(2)
proof (cases rule: create_job_Inr)
  case (fresh j jobs specs files ledger)
  then show ?thesis using assms(1) good_key_create by (auto simp: key_inv_def sql_insert_Inr)
qed (use assms in simp)

lemma key_inv_spawn:
  assumes "key_inv s" "spawn_retry_job_inner s p child now allow = Inr (res, s')"
  shows "key_inv s'"
  using assms(2)
proof (cases rule: spawn_retry_Inr)
  case (created parent attempt j)
  then show ?thesis
    using assms(1) good_key_retry good_key_upload
    by (cases "sj_operation_kind parent = Upload")
      (auto simp: key_inv_def spawn_upload_def spawn_download_def insert_lineage_def
        result_bind_Inr_iff sql_insert_Inr)
qed (use assms in simp)

lemma key_inv_step:
  assumes inv: "store_inv s" "key_inv s"
  shows "key_inv (apply_op sha256 op s)"
proof (cases op)
  case (OpTransition k v to err now)
  have "key_inv s'" if "transition_job s k v to err now = Inr (v', s')" for v' s'
    by (rule key_update_jobs [OF inv(2) transition_job_Inr(6) [OF that]]) simp
  with OpTransition inv(2) show ?thesis by (auto intro!: settle_sndI [where P = key_inv])
next
  case (OpDesired k d now ev)
  then show ?thesis
    using inv(2) key_update_jobs [OF inv(2)]
    by (auto simp: set_desired_run_state_def Let_def result_bind_Inr_iff intro!: settleI [where P = key_inv]
        split: if_splits)
next
  case (OpLedger k fid st n d now)
  show ?thesis
    unfolding OpLedger apply_op.simps
    by (rule settleI [where P = key_inv])
      (use inv(2) in \<open>auto simp: update_file_ledger_def result_bind_Inr_iff key_inv_def
         split: if_splits\<close>)
next
  case (OpCreate k spec now)
  then show ?thesis using inv(2) key_inv_create by (auto intro!: settle_sndI [where P = key_inv])
next
  case (OpComplete k oc now)
  then show ?thesis using inv key_inv_complete by (auto intro!: settle_sndI [where P = key_inv])
next
  case (OpAcknowledge k now)
  show ?thesis
    unfolding OpAcknowledge apply_op.simps
    by (rule settle_sndI [where P = key_inv])
      (use inv(2) in \<open>auto simp: acknowledge_completion_def Let_def result_Inr_iffs key_inv_def
         split: if_splits\<close>)
next
  case (OpRetry p child now up)
  then show ?thesis using inv(2) key_inv_spawn by (auto intro!: settle_sndI [where P = key_inv])
next
  case (OpDismiss k now)
  then show ?thesis
    using inv(2) key_update_jobs [OF inv(2)]
    by (auto simp: dismiss_job_def Let_def result_Inr_iffs intro!: settle_sndI [where P = key_inv] split: if_splits)
next
  case (OpDelete k)
  show ?thesis
    unfolding OpDelete apply_op.simps
    by (rule settle_sndI [where P = key_inv])
      (use inv(2) in \<open>auto simp: delete_job_def result_bind_Inr_iff key_inv_def delete_rows_def
         split: if_splits\<close>)
next
  case (OpRetarget old new now)
  show ?thesis
    unfolding OpRetarget apply_op.simps
    by (rule settle_sndI [where P = key_inv])
      (use inv(2) in \<open>auto elim!: retarget_job_Inr simp: key_inv_def\<close>)
qed

lemma run_store_invs:
  "full_inv (run_store sha256 ops) \<and> key_inv (run_store sha256 ops)"
proof (induction ops rule: rev_induct)
  case Nil
  have "lineage_inv empty_store" "key_inv empty_store"
    by (simp_all add: lineage_inv_def key_inv_def empty_store_def)
  then show ?case by (simp add: run_store_def full_inv_def store_inv_empty refs_inv_empty)
next
  case (snoc op ops)
  then show ?case
    using full_inv_step key_inv_step by (simp add: run_store_snoc full_inv_def)
qed

section \<open>Creation succeeds\<close>

lemma sql_insert_all_ok:
  assumes "\<forall>r\<in>set rs. check r" "\<forall>r\<in>set rs. \<forall>x\<in>set rows. \<not> clash r x"
    "sorted_wrt (\<lambda>a b. \<not> clash b a) rs"
  shows "sql_insert_all check clash rs rows = Inr (rows @ rs)"
  using assms by (induction rs arbitrary: rows) (auto simp: sql_insert_def list_ex_iff)

lemma insert_files_ok:
  "(\<And>p. p \<in> set ps \<Longrightarrow> new_file_row k spec p = Inr (file_row k spec p)) \<Longrightarrow>
   insert_files k spec ps = sql_insert_all file_check file_clash (map (file_row k spec) ps)"
proof (induction ps)
  case (Cons p ps)
  then have "insert_files k spec ps = sql_insert_all file_check file_clash (map (file_row k spec) ps)"
    "new_file_row k spec p = Inr (file_row k spec p)" by simp_all
  then show ?case by (intro ext) simp
qed (simp add: fun_eq_iff)

lemma indexed_files:
  "p \<in> set (zip [0..<length fs] fs) \<longleftrightarrow> fst p < length fs \<and> snd p = fs ! fst p"
  by (auto simp: in_set_zip) (metis add_0 nth_upt prod.collapse)

lemma new_file_row_ok:
  assumes "spec_wf spec" "spec_storable spec"
    "p \<in> set (zip [0..<length (js_session_files spec)] (js_session_files spec))"
  shows "new_file_row k spec p = Inr (file_row k spec p)"
proof -
  have p: "fst p \<le> i64_max" "unat (jf_size_bytes (snd p)) \<le> i64_max"
    using assms(2,3) by (auto simp: storable_iff indexed_files)
  have "i \<le> i64_max" if "request_position spec (jf_file_id (snd p)) = Some i" for i
    using that assms requested_le_inventory [OF assms(1)]
    by (auto simp: request_position_iff storable_iff)
  with p show ?thesis
    by (auto simp: new_file_row_def file_row_def checked_i64_def unat_of_nat_small
        split: option.splits)
qed

lemma file_rows_ok:
  assumes "spec_valid spec" "spec_storable spec"
    "p \<in> set (zip [0..<length (js_session_files spec)] (js_session_files spec))"
  shows "file_check (file_row k spec p)"
proof -
  have "snd p \<in> set (js_session_files spec)" using assms(3) by (auto simp: indexed_files)
  then have "length (jf_sha256 (snd p)) = 64"
    using assms(1) JobFileSpec_new_Inr [of "jf_file_id (snd p)"]
    by (fastforce simp: spec_valid_def list_all_iff sha256_hex_ok_def)
  then show ?thesis by (simp add: file_check_def file_row_def split: option.splits)
qed

lemma file_rows_apart:
  assumes "spec_wf spec" "spec_storable spec" "i < j" "j < length (js_session_files spec)"
  shows "\<not> file_clash (file_row k spec (j, js_session_files spec ! j))
    (file_row k spec (i, js_session_files spec ! i))"
proof -
  let ?fs = "js_session_files spec"
  have ids: "jf_file_id (?fs ! j) \<noteq> jf_file_id (?fs ! i)"
    using assms nth_eq_of_distinct_map [of jf_file_id ?fs j i] by (auto simp: spec_wf_def)
  have "j \<le> i64_max" "i \<le> i64_max" using assms by (auto simp: storable_iff)
  then have "uint (of_nat j :: u64) \<noteq> uint (of_nat i :: u64)"
    using assms(3) by (simp add: uint_of_nat_small)
  moreover have "request_position spec (jf_file_id (?fs ! j)) = Some n \<Longrightarrow>
      request_position spec (jf_file_id (?fs ! i)) = Some m \<Longrightarrow>
      uint (of_nat n :: u64) \<noteq> uint (of_nat m :: u64)" for n m
    using ids assms(1,2) requested_le_inventory [OF assms(1)]
    by (auto simp: request_position_iff storable_iff uint_of_nat_small)
  ultimately show ?thesis
    using ids by (cases "request_position spec (jf_file_id (?fs ! i))")
      (auto simp: file_clash_def file_row_def)
qed

lemma files_inserted:
  assumes "spec_valid spec" "spec_storable spec" "\<forall>r\<in>set rows. flr_job_id r \<noteq> k"
  shows "insert_files k spec (zip [0..<length (js_session_files spec)] (js_session_files spec)) rows =
    Inr (rows @ map (file_row k spec)
      (zip [0..<length (js_session_files spec)] (js_session_files spec)))"
proof -
  let ?ps = "zip [0..<length (js_session_files spec)] (js_session_files spec)"
  have wf: "spec_wf spec" using assms(1) by (simp add: spec_valid_def)
  have "sorted_wrt (\<lambda>a b. \<not> file_clash b a) (map (file_row k spec) ?ps)"
    using file_rows_apart [OF wf assms(2)] by (auto simp: sorted_wrt_iff_nth_less)
  moreover have "\<forall>p\<in>set ?ps. file_check (file_row k spec p)"
    using file_rows_ok [OF assms(1,2)] by blast
  moreover have "\<forall>p\<in>set ?ps. \<forall>r\<in>set rows. \<not> file_clash (file_row k spec p) r"
    using assms(3) by (auto simp: file_clash_def file_row_def)
  ultimately have "sql_insert_all file_check file_clash (map (file_row k spec) ?ps) rows =
      Inr (rows @ map (file_row k spec) ?ps)"
    by (intro sql_insert_all_ok) auto
  then show ?thesis using insert_files_ok new_file_row_ok [OF wf assms(2)] by simp
qed

lemma ledger_inserted:
  assumes "spec_wf spec" "\<forall>r\<in>set rows. lgr_job_id r \<noteq> k"
  shows "sql_insert_all ledger_check ledger_clash (map (new_ledger_row k now) (requested_files spec))
    rows = Inr (rows @ map (new_ledger_row k now) (requested_files spec))"
proof (rule sql_insert_all_ok)
  have "jf_file_id (requested_files spec ! j) \<noteq> jf_file_id (requested_files spec ! i)"
    if "i < j" "j < length (js_requested spec)" for i j
  proof
    assume eq: "jf_file_id (requested_files spec ! j) = jf_file_id (requested_files spec ! i)"
    have "request_position spec (jf_file_id (requested_files spec ! j)) = Some i"
      "request_position spec (jf_file_id (requested_files spec ! j)) = Some j"
      using that eq request_position_iff [OF assms(1)] by auto
    with that show False by simp
  qed
  then show "sorted_wrt (\<lambda>a b. \<not> ledger_clash b a)
      (map (new_ledger_row k now) (requested_files spec))"
    by (auto simp: sorted_wrt_iff_nth_less ledger_clash_def new_ledger_row_def)
qed (use assms(2) in \<open>auto simp: ledger_check_def new_ledger_row_def ledger_clash_def
    ledger_from_db_str_def\<close>)

lemma latest_identity:
  assumes "store_inv s"
  shows "read_latest_job_by_identity s i = Inr None \<longleftrightarrow>
    (\<forall>r\<in>set (ts_jobs s). \<not> same_identity i r)"
proof -
  have "sort_key f xs = [] \<longleftrightarrow> xs = []" for f :: "JobRow \<Rightarrow> string \<times> string" and xs
    by (metis set_empty set_sort)
  moreover have "decode_job m = Inr None \<longleftrightarrow> m = None" for m
    by (auto simp: decode_job_def split: option.splits sum.splits)
  ultimately show ?thesis
    by (simp add: read_latest_job_by_identity_def filter_empty_conv)
qed

lemma created_row_ok:
  assumes "spec_valid spec" "length d = 32"
  shows "job_row_ok (new_job_row k Download key (js_identity spec) d now)"
    "job_check (new_job_row k Download key (js_identity spec) d now)"
    "\<exists>j. read_job_row (new_job_row k Download key (js_identity spec) d now) = Inr j \<and>
       sj_job_id j = k \<and> sj_identity j = js_identity spec \<and> sj_request_digest j = d \<and>
       sj_state j = TagQueued \<and> sj_state_version j = 1"
proof -
  let ?r = "new_job_row k Download key (js_identity spec) d now"
  show chk: "job_check ?r"
    using assms(2) by (simp add: job_check_def new_job_row_def tag_from_db_str_def
        desired_run_state_from_db_def kind_from_db_str_def)
  show ex: "\<exists>j. read_job_row ?r = Inr j \<and>
       sj_job_id j = k \<and> sj_identity j = js_identity spec \<and> sj_request_digest j = d \<and>
       sj_state j = TagQueued \<and> sj_state_version j = 1"
    using assms from_hex_ok [OF to_hex_ok] by (auto simp: read_job_row_Inr new_job_row_def
        spec_valid_def tag_from_db_str_def desired_run_state_from_db_def int_column_def
        u64_of_column_def kind_from_db_str_def)
  from chk ex show "job_row_ok ?r" by (auto simp: job_row_ok_iff)
qed

text \<open>The rows a creation writes.\<close>

definition created_store ::
    "(bytes \<Rightarrow> bytes) \<Rightarrow> TransferStore \<Rightarrow> string \<Rightarrow> JobSpec \<Rightarrow> string \<Rightarrow> TransferStore" where
  "created_store sha256 s k spec now =
    s\<lparr>ts_jobs := ts_jobs s @ [new_job_row k Download (natural_key (js_identity spec))
        (js_identity spec) (request_digest sha256 spec) now],
      ts_specs := ts_specs s @ [new_spec_row k spec],
      ts_files := ts_files s @ map (file_row k spec)
        (zip [0..<length (js_session_files spec)] (js_session_files spec)),
      ts_ledger := ts_ledger s @ map (new_ledger_row k now) (requested_files spec)\<rparr>"

lemma create_succeeds:
  assumes inv: "full_inv s" "key_inv s" and spec: "spec_valid spec" "spec_storable spec"
    and sha: "length (request_digest sha256 spec) = 32"
    and fresh: "find_job s k = None" "\<forall>r\<in>set (ts_jobs s). \<not> same_identity (js_identity spec) r"
  shows "\<exists>j. create_job sha256 s k spec now = Inr (Created j, created_store sha256 s k spec now) \<and>
    sj_job_id j = k \<and> sj_identity j = js_identity spec \<and>
    sj_request_digest j = request_digest sha256 spec"
proof -
  let ?s = "created_store sha256 s k spec now"
  let ?r = "new_job_row k Download (natural_key (js_identity spec)) (js_identity spec)
    (request_digest sha256 spec) now"
  have st: "store_inv s" "refs_inv s" using inv(1) by (simp_all add: full_inv_def)
  have ids: "k \<notin> job_ids s" using fresh(1) by (simp add: find_job_def find_key_None_iff)
  note row = created_row_ok [OF spec(1) sha]
  from row(3) obtain j where j: "read_job_row ?r = Inr j" "sj_job_id j = k"
    "sj_identity j = js_identity spec" "sj_request_digest j = request_digest sha256 spec" by blast
  have "\<not> job_clash ?r x" if x: "x \<in> set (ts_jobs s)" for x
  proof -
    have "jr_natural_key x \<noteq> natural_key (js_identity spec)"
      using x fresh(2) inv(2) by (auto simp: key_inv_def good_key_def)
    moreover have "jr_job_id x \<noteq> k" using x ids by auto
    ultimately show ?thesis by (auto simp: job_clash_def new_job_row_def)
  qed
  then have "sql_insert job_check job_clash ?r (ts_jobs s) = Inr (ts_jobs s @ [?r])"
    using row(2) by (simp add: sql_insert_Inr)
  moreover have "spec_check (new_spec_row k spec)"
    using spec(1) PublicationMaterial_new_Inr
    by (fastforce simp: spec_valid_def spec_check_def new_spec_row_def CURRENT_JOB_SPEC_VERSION_def)
  then have "sql_insert spec_check spec_clash (new_spec_row k spec) (ts_specs s) =
      Inr (ts_specs s @ [new_spec_row k spec])"
    using st(2) ids by (auto simp: sql_insert_Inr spec_clash_def new_spec_row_def refs_inv_def)
  moreover note files_inserted [OF spec, of "ts_files s" k]
    ledger_inserted [of spec "ts_ledger s" k now]
  moreover have "\<forall>r\<in>set (ts_files s). flr_job_id r \<noteq> k" "\<forall>r\<in>set (ts_ledger s). lgr_job_id r \<noteq> k"
    "spec_wf spec" using st(2) ids spec(1) by (auto simp: refs_inv_def spec_valid_def)
  moreover have "read_job ?s k = Inr (Some j)"
    using fresh(1) j(1) by (simp add: read_Inr find_job_def created_store_def find_append)
  moreover have "read_job s k = Inr None" using fresh(1) by (simp add: read_Inr)
  moreover have "read_latest_job_by_identity s (js_identity spec) = Inr None"
    using fresh(2) latest_identity [OF st(1)] by blast
  ultimately have "create_job sha256 s k spec now = Inr (Created j, ?s)"
    by (simp add: create_job_def insert_job_tx_def Let_def created_store_def)
  with j show ?thesis by blast
qed

section \<open>The stored specification\<close>

lemma created_file_rows:
  assumes "spec_storable spec" "\<forall>r\<in>set (ts_files s). flr_job_id r \<noteq> k"
  shows "sort_key flr_inventory_index
      (filter (\<lambda>f. flr_job_id f = k) (ts_files (created_store sha256 s k spec now))) =
    map (file_row k spec) (zip [0..<length (js_session_files spec)] (js_session_files spec))"
proof -
  let ?n = "length (js_session_files spec)"
  let ?rows = "map (file_row k spec) (zip [0..<?n] (js_session_files spec))"
  have "filter (\<lambda>f. flr_job_id f = k) (ts_files s) = []"
    using assms(2) by (simp add: filter_empty_conv)
  moreover have "filter (\<lambda>f. flr_job_id f = k) ?rows = ?rows"
    by (rule filter_True) (auto simp: file_row_def)
  moreover have "map flr_inventory_index ?rows = map int [0..<?n]"
    using assms(1) by (intro nth_equalityI)
      (simp_all add: file_row_def storable_iff uint_of_nat_small)
  then have "sort_key flr_inventory_index ?rows = ?rows"
    by (intro sort_key_id_if_sorted) (simp only: sorted_map, simp add: sorted_wrt_upt)
  ultimately show ?thesis by (simp add: created_store_def)
qed

lemma created_files_loaded:
  assumes "spec_valid spec" "spec_storable spec"
  shows "load_files (map (file_row k spec)
      (zip [0..<length (js_session_files spec)] (js_session_files spec))) =
    Inr (js_session_files spec, request_pairs spec (js_session_files spec))"
proof -
  let ?ps = "zip [0..<length (js_session_files spec)] (js_session_files spec)"
  have "spec_wf spec" using assms(1) by (simp add: spec_valid_def)
  moreover have "\<forall>p\<in>set ?ps. JobFileSpec_new (jf_file_id (snd p)) (jf_display_path (snd p))
        (jf_size_bytes (snd p)) (jf_sha256 (snd p)) = Inr (snd p)"
    using assms(1) by (auto simp: spec_valid_def list_all_iff indexed_files)
  ultimately show ?thesis
    using load_file_rows [of spec ?ps k] assms(2) by simp
qed

lemma created_spec_loads:
  assumes inv: "refs_inv s" "k \<notin> job_ids s" and spec: "spec_valid spec" "spec_storable spec"
    and j: "sj_job_id j = k" "sj_identity j = js_identity spec"
      "sj_request_digest j = request_digest sha256 spec"
  shows "load_spec sha256 (created_store sha256 s k spec now) j = Inr spec"
proof -
  let ?s = "created_store sha256 s k spec now"
  have wf: "spec_wf spec" using spec(1) by (simp add: spec_valid_def)
  have "\<forall>r\<in>set (ts_specs s). spr_job_id r \<noteq> k" and files: "\<forall>r\<in>set (ts_files s). flr_job_id r \<noteq> k"
    using inv by (auto simp: refs_inv_def)
  then have "find (\<lambda>r. spr_job_id r = k) (ts_specs s) = None" by (auto simp: find_None_iff)
  then have row: "find (\<lambda>r. spr_job_id r = k) (ts_specs ?s) = Some (new_spec_row k spec)"
    by (simp add: created_store_def find_append new_spec_row_def)
  have ne: "js_session_files spec \<noteq> []" "request_pairs spec (js_session_files spec) \<noteq> []"
    using wf request_pairs_set [OF wf] by (auto simp: spec_wf_def lessThan_empty_iff)
  have "JobSpec_new (js_identity spec) (js_publication spec) (js_session_files spec)
      (map jf_file_id (requested_files spec)) (js_full_session spec) (js_date_label spec) = Inr spec"
    using wf unfolding JobSpec_new_ok
    by (auto simp: spec_wf_def resolves_def requested_files_def
        intro!: exI [of _ "js_requested spec"])
  then show ?thesis
    using row ne spec(1) created_file_rows [OF spec(2) files] created_files_loaded [OF spec]
      request_pairs_sorted [OF wf]
    by (cases "js_full_session spec") (simp_all add: load_spec_def load_spec_rows_def j
        new_spec_row_def spec_valid_def Let_def CURRENT_JOB_SPEC_VERSION_def ok_or_else_def)
qed

end
