(* ===== verification/Store_Ledger.thy ===== *)
theory Store_Ledger
  imports Store_Creation
begin

text \<open>
  The file ledger of the transfer store over whole runs: what each operation may do
  to it, that no operation takes back a confirmed byte or a verified file, and that
  start-up recovery can always read it.
\<close>

section \<open>Steps of the ledger\<close>

definition ledger_write ::
    "string \<Rightarrow> string \<Rightarrow> string \<Rightarrow> int \<Rightarrow> string option \<Rightarrow> string \<Rightarrow> LedgerRow \<Rightarrow> LedgerRow" where
  "ledger_write k fid st col dg now r =
    (if lgr_job_id r = k \<and> lgr_file_id r = fid
     then r\<lparr>lgr_status := st, lgr_bytes := col, lgr_sha256 := dg, lgr_updated_at := now\<rparr>
     else r)"

definition ledger_move :: "string \<Rightarrow> string \<Rightarrow> LedgerRow \<Rightarrow> LedgerRow" where
  "ledger_move old new r = (if lgr_job_id r = old then r\<lparr>lgr_job_id := new\<rparr> else r)"

text \<open>A later row of the same file: it keeps what was confirmed and verified.\<close>

definition ledger_forward :: "LedgerRow \<Rightarrow> LedgerRow \<Rightarrow> bool" where
  "ledger_forward r r' \<longleftrightarrow> lgr_bytes r \<le> lgr_bytes r' \<and>
    (lgr_status r = ''verified'' \<longrightarrow> lgr_status r' = ''verified'' \<and> lgr_sha256 r' = lgr_sha256 r)"

text \<open>A row the store can read: it passes the table's checks and its count fits the column.\<close>

definition ledger_ok :: "LedgerRow \<Rightarrow> bool" where
  "ledger_ok r \<longleftrightarrow> ledger_check r \<and> lgr_bytes r < 2 ^ 63"

inductive ledger_step :: "TransferStore \<Rightarrow> LedgerRow list \<Rightarrow> bool" for s where
  same: "ledger_step s (ts_ledger s)"
| rewrite: "(\<And>r. find_ledger s k fid = Some r \<Longrightarrow>
      ledger_forward r (ledger_write k fid st col dg now r)) \<Longrightarrow>
    (\<And>r. r \<in> set (ts_ledger s) \<Longrightarrow> lgr_job_id r = k \<Longrightarrow> lgr_file_id r = fid \<Longrightarrow>
      ledger_ok (ledger_write k fid st col dg now r)) \<Longrightarrow>
    ledger_step s (map (ledger_write k fid st col dg now) (ts_ledger s))"
| append: "(\<And>r. r \<in> set rows \<Longrightarrow> lgr_job_id r \<notin> job_ids s \<and> ledger_ok r) \<Longrightarrow>
    ledger_step s (ts_ledger s @ rows)"
| remove: "ledger_step s (filter (\<lambda>r. lgr_job_id r \<noteq> k) (ts_ledger s))"
| move: "new \<notin> job_ids s \<Longrightarrow> ledger_step s (map (ledger_move old new) (ts_ledger s))"

lemma ledger_status_inj [simp]: "ledger_as_db_str a = ledger_as_db_str b \<longleftrightarrow> a = b"
  by (cases a; cases b) simp_all

lemma ledger_from_db_str_Some:
  "ledger_from_db_str v = Some st \<Longrightarrow> v = ledger_as_db_str st"
  by (auto simp: ledger_from_db_str_def split: if_splits)

lemma guard_forward:
  assumes g: "ledger_guard (Some r) fid st n dg = Inr True" and ok: "ledger_ok r"
    and i: "lgr_job_id r = k" "lgr_file_id r = fid"
  shows "ledger_forward r (ledger_write k fid (ledger_as_db_str st) (uint n) dg now r)"
proof -
  from g obtain st0 b0 where
    st0: "ledger_from_db_str (lgr_status r) = Some st0" and b0: "u64_of_column (lgr_bytes r) = Some b0"
    and cond: "\<not> (st0 = LedgerVerified \<and> (st \<noteq> LedgerVerified \<or> lgr_sha256 r \<noteq> dg))" "\<not> n < b0"
    by (auto simp: ledger_guard_def split: option.splits if_splits)
  have "0 \<le> lgr_bytes r" "lgr_bytes r < 2 ^ 64"
    using ok by (auto simp: ledger_ok_def ledger_check_def)
  then have "uint b0 = lgr_bytes r"
    using b0 by (auto simp: u64_of_column_def intro!: word_of_int_inverse [OF refl])
  then have "lgr_bytes r \<le> uint n" using cond(2) by (simp add: word_less_def)
  moreover have "lgr_status r = ''verified'' \<longleftrightarrow> st0 = LedgerVerified"
    using ledger_from_db_str_Some [OF st0] by (cases st0) simp_all
  ultimately show ?thesis using cond(1) i by (auto simp: ledger_forward_def ledger_write_def)
qed

lemma ledger_update_step:
  assumes ok: "\<And>r. r \<in> set (ts_ledger s) \<Longrightarrow> ledger_ok r"
    and up: "update_file_ledger s k fid st n d now = Inr s'"
  shows "ledger_step s (ts_ledger s')"
proof -
  from up consider "s' = s" | dg where "unat n \<le> i64_max"
      "ledger_guard (find_ledger s k fid) fid st n dg = Inr True"
      "\<forall>r\<in>set (ts_ledger s). lgr_job_id r = k \<and> lgr_file_id r = fid \<longrightarrow>
         ledger_check (r\<lparr>lgr_status := ledger_as_db_str st, lgr_bytes := uint n, lgr_sha256 := dg,
           lgr_updated_at := now\<rparr>)"
      "ts_ledger s' = map (ledger_write k fid (ledger_as_db_str st) (uint n) dg now) (ts_ledger s)"
    unfolding update_file_ledger_def ledger_write_def
    by (auto simp: result_bind_Inr_iff sql_update_Inr split: if_splits)
  then show ?thesis
  proof cases
    case (2 dg)
    have n: "uint n < 2 ^ 63" using 2(1) by (simp add: int_i64_max flip: uint_le_nat)
    show ?thesis unfolding 2(4)
    proof (rule ledger_step.rewrite)
      fix r assume r: "find_ledger s k fid = Some r"
      then have "r \<in> set (ts_ledger s) \<and> lgr_job_id r = k \<and> lgr_file_id r = fid"
        unfolding find_ledger_def by (rule find_SomeD)
      with 2(2) r guard_forward [of r fid st n dg k now] ok
      show "ledger_forward r (ledger_write k fid (ledger_as_db_str st) (uint n) dg now r)" by simp
    qed (use 2(3) n in \<open>simp add: ledger_ok_def ledger_write_def\<close>)
  qed (simp add: ledger_step.same)
qed

lemma ledger_create_step:
  assumes "create_job sha256 s k spec now = Inr (res, s')"
  shows "ledger_step s (ts_ledger s')"
  using assms
proof (cases rule: create_job_Inr)
  case (fresh j jobs specs files ledger)
  have "k \<notin> job_ids s" using fresh(2) by (simp add: find_job_def find_key_None_iff)
  moreover have "ledger = ts_ledger s @ map (new_ledger_row k now) (requested_files spec)"
    using sql_insert_all_Inr [OF fresh(6)] by simp
  moreover have "ledger_ok (new_ledger_row k now f)" for f
    by (simp add: ledger_ok_def ledger_check_def new_ledger_row_def ledger_from_db_str_def)
  ultimately show ?thesis
    unfolding fresh(7) by (auto intro!: ledger_step.append simp: new_ledger_row_def)
qed (simp add: ledger_step.same)

lemma ledger_spawn_step:
  assumes ok: "\<And>r. r \<in> set (ts_ledger s) \<Longrightarrow> ledger_ok r"
    and sp: "spawn_retry_job_inner s p child now allow = Inr (res, s')"
  shows "ledger_step s (ts_ledger s')"
  using sp
proof (cases rule: spawn_retry_Inr)
  case (created parent attempt j)
  have "child \<notin> job_ids s" using created(2) by (simp add: find_job_def find_key_None_iff)
  moreover have "ts_ledger s' = ts_ledger s \<or> ts_ledger s' = ts_ledger s @ copy_ledger p child now (ts_ledger s)"
    using created(5)
    by (auto simp: spawn_upload_def spawn_download_def insert_lineage_def result_bind_Inr_iff
        dest!: sql_insert_all_Inr split: if_splits)
  ultimately show ?thesis
    using ok by (auto simp: copy_ledger_def ledger_ok_def ledger_check_def
        intro: ledger_step.same intro!: ledger_step.append)
qed (simp add: ledger_step.same)

lemma ledger_retarget_step:
  assumes "retarget_job s old new now = Inr (j, s')"
  shows "ledger_step s (ts_ledger s')"
proof -
  have "find_job s new = None" using assms by (rule retarget_job_Inr)
  then have "new \<notin> job_ids s" by (simp add: find_job_def find_key_None_iff)
  moreover have "ts_ledger s' = map (ledger_move old new) (ts_ledger s)"
    using assms unfolding retarget_job_def Let_def ledger_move_def
    by (auto simp: result_Inr_iffs update_jobs_Inr retarget_rows_def split: if_splits option.splits)
  ultimately show ?thesis using ledger_step.move by metis
qed

lemma ledger_op_step:
  assumes inv: "store_inv s" and ok: "\<And>r. r \<in> set (ts_ledger s) \<Longrightarrow> ledger_ok r"
  shows "ledger_step s (ts_ledger (apply_op sha256 op s))"
proof -
  let ?P = "\<lambda>s'. ledger_step s (ts_ledger s')"
  note I = settle_sndI [where P = ?P, OF ledger_step.same] settleI [where P = ?P, OF ledger_step.same]
  have same: "?P s'" if "ts_ledger s' = ts_ledger s" for s' using that ledger_step.same [of s] by simp
  show ?thesis
  proof (cases op)
    case (OpTransition k v to err now)
    show ?thesis unfolding OpTransition apply_op.simps
      by (rule I) (rule same, drule transition_job_Inr(6), simp add: update_jobs_Inr)
  next
    case (OpDesired k d now ev)
    show ?thesis unfolding OpDesired apply_op.simps
      by (rule I, rule same) (auto simp: set_desired_run_state_def Let_def update_jobs_Inr
          result_bind_Inr_iff split: if_splits)
  next
    case (OpComplete k oc now)
    have "ts_ledger s' = ts_ledger s" if "complete_job s k oc now = Inr (res, s')" for res s'
      using inv that
    proof (cases rule: complete_job_Inr)
      case (fresh r j c s1)
      from fresh(6) show ?thesis
        by (rule insert_outbox_row_Inr) (use fresh(5) in \<open>simp add: update_jobs_Inr\<close>)
    qed simp
    then show ?thesis unfolding OpComplete apply_op.simps by (intro I same)
  next
    case (OpAcknowledge k now)
    show ?thesis unfolding OpAcknowledge apply_op.simps
      by (rule I, rule same) (auto simp: acknowledge_completion_def Let_def result_Inr_iffs
          split: if_splits)
  next
    case (OpDismiss k now)
    show ?thesis unfolding OpDismiss apply_op.simps
      by (rule I, rule same) (auto simp: dismiss_job_def Let_def update_jobs_Inr
          result_Inr_iffs split: if_splits)
  next
    case (OpDelete k)
    have "?P s'" if "delete_job s k = Inr (b, s')" for b s'
      using that ledger_step.same [of s] ledger_step.remove [of s k]
      by (auto simp: delete_job_def delete_rows_def result_bind_Inr_iff split: if_splits)
    then show ?thesis unfolding OpDelete apply_op.simps by (intro I)
  next
    case (OpLedger k fid st n d now)
    show ?thesis unfolding OpLedger apply_op.simps
      by (rule I) (rule ledger_update_step [OF ok])
  next
    case (OpCreate k spec now)
    show ?thesis unfolding OpCreate apply_op.simps by (rule I) (rule ledger_create_step)
  next
    case (OpRetry p child now up)
    show ?thesis unfolding OpRetry apply_op.simps by (rule I) (rule ledger_spawn_step [OF ok])
  next
    case (OpRetarget old new now)
    show ?thesis unfolding OpRetarget apply_op.simps by (rule I) (rule ledger_retarget_step)
  qed
qed


section \<open>Consequences over runs\<close>

lemma ledger_step_ok:
  assumes "ledger_step s rows" and ok: "\<And>r. r \<in> set (ts_ledger s) \<Longrightarrow> ledger_ok r" and "r \<in> set rows"
  shows "ledger_ok r"
  using assms(1,3)
proof (cases rule: ledger_step.cases)
  case (rewrite k fid st col dg now)
  then obtain q where q: "q \<in> set (ts_ledger s)" "r = ledger_write k fid st col dg now q"
    using assms(3) by auto
  show ?thesis
  proof (cases "lgr_job_id q = k \<and> lgr_file_id q = fid")
    case False
    then have "r = q" unfolding q(2) ledger_write_def by (rule if_not_P)
    then show ?thesis using ok q(1) by simp
  qed (use q rewrite(3) in simp)
next
  case (move new old)
  then obtain q where "q \<in> set (ts_ledger s)" "r = ledger_move old new q" using assms(3) by auto
  with ok [of q] show ?thesis by (simp add: ledger_move_def ledger_ok_def ledger_check_def)
qed (use ok in auto)

lemma run_ledger_ok: "r \<in> set (ts_ledger (run_store sha256 ops)) \<Longrightarrow> ledger_ok r"
proof (induction ops arbitrary: r rule: rev_induct)
  case Nil
  then show ?case by (simp add: run_store_def empty_store_def)
next
  case (snoc op ops)
  have "ledger_step (run_store sha256 ops) (ts_ledger (run_store sha256 (ops @ [op])))"
    unfolding run_store_snoc by (rule ledger_op_step [OF run_store_inv snoc.IH])
  from ledger_step_ok [OF this snoc.IH snoc.prems] show ?case .
qed

lemma ledger_forward_refl: "ledger_forward r r"
  by (simp add: ledger_forward_def)

lemma ledger_step_forward:
  assumes "ledger_step s rows" and old: "find_ledger s k fid = Some r"
    and refs: "refs_inv s"
    and new: "find (\<lambda>r. lgr_job_id r = k \<and> lgr_file_id r = fid) rows = Some r'"
  shows "ledger_forward r r'"
proof -
  let ?P = "\<lambda>r. lgr_job_id r = k \<and> lgr_file_id r = fid"
  note old' = old [unfolded find_ledger_def]
  have r: "r \<in> set (ts_ledger s)" "lgr_job_id r = k" "lgr_file_id r = fid"
    using find_SomeD [OF old'] by auto
  show ?thesis
    using assms(1)
  proof (cases rule: ledger_step.cases)
    case same
    with old' new show ?thesis by (simp add: ledger_forward_refl)
  next
    case (rewrite k' fid' st col dg now)
    have "find ?P rows = Some (ledger_write k' fid' st col dg now r)"
      unfolding rewrite(1) by (subst find_map_same) (auto simp: ledger_write_def old')
    with new have r': "r' = ledger_write k' fid' st col dg now r" by simp
    show ?thesis
    proof (cases "k = k' \<and> fid = fid'")
      case True
      with rewrite(2) old r' show ?thesis by simp
    qed (use r r' in \<open>auto simp: ledger_write_def ledger_forward_refl\<close>)
  next
    case (append extra)
    with old' new show ?thesis by (simp add: find_append ledger_forward_refl)
  next
    case (remove k')
    have "find ?P (filter (\<lambda>r. lgr_job_id r \<noteq> k') xs) = (if k = k' then None else find ?P xs)" for xs
      by (induction xs) auto
    from this [of "ts_ledger s"] remove old' new show ?thesis
      by (auto simp: ledger_forward_refl split: if_splits)
  next
    case (move new_id old_id)
    have "k \<in> job_ids s" using r refs by (auto simp: refs_inv_def)
    then have ne: "new_id \<noteq> k" using move(2) by auto
    have "find ?P (map (ledger_move old_id new_id) xs) = (if k = old_id then None else find ?P xs)" for xs
      using ne by (induction xs) (auto simp: ledger_move_def)
    from this [of "ts_ledger s"] move(1) old' new show ?thesis
      by (auto simp: ledger_forward_refl split: if_splits)
  qed
qed

text \<open>
  C24.  The ledger of a file never moves backwards: whatever operation comes next, a
  row that is still there afterwards confirms at least as many bytes, and a file
  recorded as verified stays verified with the same digest.
\<close>

theorem file_ledger_monotone:
  "case (find_ledger (run_store sha256 ops) k fid, find_ledger (run_store sha256 (ops @ [op])) k fid) of
     (Some r, Some r') \<Rightarrow> ledger_forward r r'
   | _ \<Rightarrow> True"
proof -
  have "refs_inv (run_store sha256 ops)" using run_store_invs by (simp add: full_inv_def)
  from ledger_step_forward [OF ledger_op_step [OF run_store_inv run_ledger_ok] _ this]
  show ?thesis by (auto simp: run_store_snoc find_ledger_def split: option.splits)
qed

lemma ledger_readable: "\<exists>xs. read_ledger (run_store sha256 ops) k = Inr xs"
proof -
  have "\<exists>e. read_ledger_row l = Inr e" if "l \<in> set (ts_ledger (run_store sha256 ops))" for l
    using run_ledger_ok [OF that]
    by (auto simp: read_ledger_row_def ok_or_else_def ledger_ok_def ledger_check_def u64_of_column_def)
  then have "\<exists>e. read_ledger_row (snd p) = Inr e" if "p \<in> set (ledger_join (run_store sha256 ops) k)" for p
    using that by (auto simp: ledger_join_def)
  then obtain g where "read_ledger_row (snd p) = Inr (g p)"
    if "p \<in> set (ledger_join (run_store sha256 ops) k)" for p by metis
  then have "read_ledger (run_store sha256 ops) k =
      Inr (map g (sort_key (\<lambda>p. request_key (fst p)) (ledger_join (run_store sha256 ops) k)))"
    unfolding read_ledger_def by (intro result_collect_ok) simp
  then show ?thesis ..
qed

lemma recover_row_listed:
  assumes "r \<in> set (ts_jobs (run_store sha256 ops))"
  shows "\<exists>x. recover_row sha256 (run_store sha256 ops) r = Inr x \<and> recoverable_job_id x = jr_job_id r"
proof -
  let ?s = "run_store sha256 ops"
  have "job_row_ok r" using assms run_store_inv inv_row_ok by blast
  then obtain j where j: "read_job_row r = Inr j" by (auto simp: job_row_ok_iff)
  have id: "sj_job_id j = jr_job_id r" using j by (auto simp: read_job_row_Inr)
  obtain xs where xs: "read_ledger ?s (jr_job_id r) = Inr xs" using ledger_readable by blast
  show ?thesis
  proof (cases "load_spec_rows sha256 ?s j")
    case (Inl e)
    then show ?thesis using j id by (simp add: recover_row_def load_spec_def)
  next
    case (Inr sp)
    then show ?thesis using j id xs by (simp add: recover_row_def load_spec_def)
  qed
qed

lemma recover_row_ready:
  "recover_row sha256 s r = Inr (RecoverReady d) \<Longrightarrow> read_job_row r = Inr (rd_job d)"
  by (auto simp: recover_row_def split: sum.splits)

text \<open>
  Start-up recovery misses nothing: listing the recoverable jobs of a reachable
  database succeeds, one entry per job, and the entries are exactly the downloads
  that are still live.
\<close>

lemma recovery_lists_every_live_download:
  "\<exists>xs. list_recoverable_jobs sha256 (run_store sha256 ops) = Inr xs \<and>
     distinct (map recoverable_job_id xs) \<and>
     set (map recoverable_job_id xs) =
       {k. \<exists>j. read_job (run_store sha256 ops) k = Inr (Some j) \<and>
          sj_operation_kind j = Download \<and> \<not> tag_is_terminal (sj_state j)} \<and>
     (\<forall>d. RecoverReady d \<in> set xs \<longrightarrow> \<not> tag_is_terminal (sj_state (rd_job d)))"
proof -
  let ?s = "run_store sha256 ops"
  note inv = run_store_inv [of sha256 ops]
  let ?rows = "list_rows recoverable_row ?s"
  have sub: "set ?rows = {r \<in> set (ts_jobs ?s). recoverable_row r}" by (simp add: list_rows_def)
  have row: "recoverable_row r \<longleftrightarrow> sj_operation_kind j = Download \<and> \<not> tag_is_terminal (sj_state j)"
    if "read_job_row r = Inr j" for r j
    using read_job_row_fields [OF that] by (cases "sj_operation_kind j") (auto simp: recoverable_row_def)
  define g where "g r = (case recover_row sha256 ?s r of Inr x \<Rightarrow> x)" for r
  have g: "recover_row sha256 ?s r = Inr (g r)" "recoverable_job_id (g r) = jr_job_id r"
    if "r \<in> set (ts_jobs ?s)" for r using recover_row_listed [OF that] by (auto simp: g_def)
  have "list_recoverable_jobs sha256 ?s = Inr (map g ?rows)"
    unfolding list_recoverable_jobs_def by (rule result_collect_ok) (use sub g in auto)
  moreover have ids: "map recoverable_job_id (map g ?rows) = map jr_job_id ?rows"
    using sub g(2) by auto
  moreover have "distinct (map jr_job_id ?rows)"
    using inv unfolding list_rows_def
    by (auto simp: store_inv_def distinct_map distinct_sort inj_on_def)
  moreover have "set (map jr_job_id ?rows) = {k. \<exists>j. read_job ?s k = Inr (Some j) \<and>
          sj_operation_kind j = Download \<and> \<not> tag_is_terminal (sj_state j)}" (is "?L = ?R")
  proof -
    have "k \<in> ?L \<longleftrightarrow> (\<exists>r. find_job ?s k = Some r \<and> recoverable_row r)" for k
      using sub inv_find_job [OF inv, of k] by auto
    then show ?thesis using row inv_read_job [OF inv] by (fastforce simp: read_Inr)
  qed
  moreover have "\<not> tag_is_terminal (sj_state (rd_job d))" if "RecoverReady d \<in> set (map g ?rows)" for d
  proof -
    from that obtain r where r: "r \<in> set ?rows" "g r = RecoverReady d" by auto
    then have "read_job_row r = Inr (rd_job d)" using recover_row_ready g(1) sub by (metis mem_Collect_eq)
    with row r(1) sub show ?thesis by simp
  qed
  ultimately show ?thesis by metis
qed

end
