(* ===== verification/Coordinator_Runs.thy ===== *)
theory Coordinator_Runs
  imports Coherence Dispatcher Store_Ledger
begin

text \<open>
  Runs of the coordinator: every entry point of \<open>TransferCoordinator\<close> as an
  operation, other threads as operations that run while a command waits for its
  worker, and what holds in every state such a run reaches.
\<close>

section \<open>Every entry point keeps memory and database together\<close>

lemma coherent_store:
  assumes "coherent s" "store_inv st" "mem_view s \<subseteq>\<^sub>m job_view st"
  shows "coherent (s\<lparr>in_store := st\<rparr>)"
  using assms by (simp add: coherent_def)

lemma coherent_same_view:
  "coherent s \<Longrightarrow> store_inv st \<Longrightarrow> job_view st = job_view (in_store s) \<Longrightarrow> coherent (s\<lparr>in_store := st\<rparr>)"
  by (simp add: coherent_def)

lemma coherent_rehydrate:
  assumes co: "coherent s" and rd: "read_job (in_store s) (sj_job_id row) = Inr (Some row)"
    and p: "rehydrate_row ports row request scope s = (res, s')"
  shows "coherent s' \<and> in_store s' = in_store s"
proof (cases "tag_to_state (sj_state row) (sj_error row)")
  case None
  with p co show ?thesis by (auto simp: rehydrate_row_def)
next
  case (Some st)
  let ?j = "sj_job_id row"
  have view: "job_view (in_store s) ?j = Some (st, sj_state_version row, sj_desired row)"
    using rd Some by (simp add: job_view_def row_of_def)
  define s4 where "s4 = (let s1 = install_progress ports ?j request s;
         s2 = s1\<lparr>in_jobs := (in_jobs s1)(?j \<mapsto>
           \<lparr>mj_job_id = ?j, mj_request = request, mj_state = st, mj_scope = scope,
            mj_desired = sj_desired row, mj_verified = []\<rparr>)\<rparr>;
         s3 = (if in_controls s2 ?j = None
           then s2\<lparr>in_controls := (in_controls s2)(?j \<mapsto> JobControl_default)\<rparr> else s2) in
         if in_cells s3 ?j = None
           then s3\<lparr>in_cells := (in_cells s3)(?j \<mapsto> JobCell_new\<lparr>cl_version := sj_state_version row\<rparr>)\<rparr> else s3)"
  have maps: "in_jobs s4 = (in_jobs s)(?j \<mapsto> \<lparr>mj_job_id = ?j, mj_request = request, mj_state = st,
      mj_scope = scope, mj_desired = sj_desired row, mj_verified = []\<rparr>)"
    "in_cells s4 = (if in_cells s ?j = None
      then (in_cells s)(?j \<mapsto> JobCell_new\<lparr>cl_version := sj_state_version row\<rparr>) else in_cells s)"
    by (auto simp: s4_def Let_def install_progress_def)
  have fields: "in_store s4 = in_store s" "dom (in_jobs s4) = insert ?j (dom (in_jobs s))"
    "dom (in_cells s4) = insert ?j (dom (in_cells s))"
    "dom (in_controls s4) = insert ?j (dom (in_controls s))"
    by (auto simp: s4_def Let_def install_progress_def)
  have "mem_view s4 i = (if i = ?j then Some (st, sj_state_version row, sj_desired row) else mem_view s i)" for i
  proof (cases "in_cells s ?j")
    case None
    then show ?thesis by (simp add: mem_view_def maps)
  next
    case (Some c)
    then have "?j \<in> dom (in_jobs s)" using co by (auto simp: coherent_def)
    then obtain m where "in_jobs s ?j = Some m" by blast
    with Some have "mem_view s ?j = Some (mj_state m, cl_version c, mj_desired m)"
      by (simp add: mem_view_def)
    then have "cl_version c = sj_state_version row" using coherent_view(2) [OF co] view by simp
    then show ?thesis using Some by (simp add: mem_view_def maps)
  qed
  then have "mem_view s4 \<subseteq>\<^sub>m job_view (in_store s)"
    using co view by (auto simp: coherent_def map_le_def dom_def split: if_splits)
  then have c4: "coherent s4" using co fields by (auto simp: coherent_def)
  have "s' = s4 \<or> s' = offer_job ?j s4"
    using p Some by (auto simp: rehydrate_row_def rehydrate_def s4_def Let_def)
  moreover have "in_store (offer_job ?j s4) = in_store s4" using quiet_offer by (simp add: quiet_step_def)
  ultimately show ?thesis using c4 coherent_quiet [OF quiet_offer] fields(1) by auto
qed

lemma coherent_install_new:
  assumes co: "coherent s" and view: "job_view (in_store s) k = Some (Queued, 1, Run)"
  shows "coherent (install_new ports k request scope s)"
proof -
  define s2 where "s2 = (let s1 = install_progress ports k request s in s1
       \<lparr>in_jobs := (in_jobs s1)(k \<mapsto>
          \<lparr>mj_job_id = k, mj_request = request, mj_state = Queued, mj_scope = scope,
           mj_desired = Run, mj_verified = []\<rparr>),
        in_controls := (in_controls s1)(k \<mapsto> JobControl_default),
        in_cells := (in_cells s1)(k \<mapsto> JobCell_new)\<rparr>)"
  have fields: "in_store s2 = in_store s" "dom (in_jobs s2) = insert k (dom (in_jobs s))"
    "dom (in_cells s2) = insert k (dom (in_cells s))"
    "dom (in_controls s2) = insert k (dom (in_controls s))"
    by (auto simp: s2_def Let_def install_progress_def)
  have maps: "in_jobs s2 = (in_jobs s)(k \<mapsto> \<lparr>mj_job_id = k, mj_request = request, mj_state = Queued,
      mj_scope = scope, mj_desired = Run, mj_verified = []\<rparr>)"
    "in_cells s2 = (in_cells s)(k \<mapsto> JobCell_new)"
    by (simp_all add: s2_def Let_def install_progress_def)
  have "mem_view s2 i = (if i = k then Some (Queued, 1, Run) else mem_view s i)" for i
    by (simp add: mem_view_def maps JobCell_new_def)
  then have "mem_view s2 \<subseteq>\<^sub>m job_view (in_store s)"
    using co view by (auto simp: coherent_def map_le_def dom_def split: if_splits)
  then have "coherent s2" using co fields by (auto simp: coherent_def)
  moreover have "install_new ports k request scope s = offer_job k s2"
    by (simp add: install_new_def s2_def Let_def)
  ultimately show ?thesis using coherent_quiet [OF quiet_offer] by simp
qed

lemma enqueue_inner_coherent:
  assumes co: "coherent s" and e: "enqueue_inner sha256 ports now fresh request spec s = (res, s')"
  shows "coherent s'"
proof -
  have inv: "store_inv (in_store s)" using co by (simp add: coherent_def)
  show ?thesis
  proof (cases "create_job sha256 (in_store s) fresh spec now")
    case (Inl err)
    then show ?thesis using e co by (auto simp: enqueue_inner_def split: if_splits sum.splits)
  next
    case (Inr p)
    show ?thesis
    proof (cases p)
      case (Pair out st)
      show ?thesis
      proof (cases out)
        case (Created j)
        note V = create_view [OF inv Inr [unfolded Pair Created]]
        have "mem_view s \<subseteq>\<^sub>m job_view st"
          using co V by (auto simp: coherent_def map_le_def dom_def split: if_splits)
        then have "coherent (s\<lparr>in_store := st\<rparr>)" using coherent_store [OF co] V by blast
        from coherent_install_new [OF this] V e Inr Pair Created co show ?thesis
          by (auto simp: enqueue_inner_def split: if_splits sum.splits)
      next
        case (Existing j)
        note X = existing_current [OF inv Inr [unfolded Pair Existing]]
        have s: "s\<lparr>in_store := st\<rparr> = s" using X by simp
        have "coherent s''" if "rehydrate_row ports j (request_from_spec spec) (publication_scope spec) s = (r, s'')"
          for r s'' using coherent_rehydrate [OF co _ that] X by blast
        then show ?thesis using e Inr Pair Existing co X
          by (auto simp: enqueue_inner_def s co_bind_def co_return_def Let_def
              split: if_splits sum.splits prod.splits)
      qed
    qed
  qed
qed

lemma enqueue_coherent:
  assumes "coherent s"
  shows "coherent (snd (enqueue sha256 ports now fresh request s))"
    "coherent (snd (enqueue_with_spec sha256 ports now fresh request spec s))"
proof -
  have "coherent (snd (enqueue_inner sha256 ports now fresh request sp s))" for sp
    using enqueue_inner_coherent [OF assms] by (metis prod.collapse)
  then show "coherent (snd (enqueue sha256 ports now fresh request s))"
    "coherent (snd (enqueue_with_spec sha256 ports now fresh request spec s))"
    using assms by (simp_all add: enqueue_def enqueue_with_spec_def split: sum.splits)
qed

lemma recover_jobs_coherent:
  assumes "coherent s" "\<And>d. RecoverReady d \<in> set rows \<Longrightarrow>
      read_job (in_store s) (sj_job_id (rd_job d)) = Inr (Some (rd_job d))"
  shows "coherent (snd (recover_jobs ports rows s))"
  using assms
proof (induction rows arbitrary: s rule: recover_jobs.induct)
  case (2 ports d rest)
  obtain r1 s1 where p1: "rehydrate_row ports (rd_job d) (request_from_spec (rd_spec d))
      (publication_scope (rd_spec d)) s = (r1, s1)" by fastforce
  have c1: "coherent s1 \<and> in_store s1 = in_store s" using coherent_rehydrate [OF 2(2) _ p1] 2(3) by simp
  then have "coherent (snd (recover_jobs ports rest s1))" using 2(1) 2(3) by simp
  then show ?case using c1 p1 by (auto simp: co_bind_def co_return_def split: sum.splits prod.splits)
next
  case (3 ports b rest)
  let ?s = "job_fault (rb_job_id b) FaultTransition LocalIo s"
  have "quiet_step s ?s" by simp
  then have "coherent ?s" using 3(2) coherent_quiet [of s ?s] by blast
  moreover have "in_store ?s = in_store s" by (simp add: job_fault_def record_fault_def)
  ultimately show ?case using 3(1) [of ?s] 3(3) by simp
qed (simp add: co_return_def)

lemma recovered_current:
  assumes inv: "store_inv st" and l: "list_recoverable_jobs sha256 st = Inr rows"
    and d: "RecoverReady d \<in> set rows"
  shows "read_job st (sj_job_id (rd_job d)) = Inr (Some (rd_job d))"
proof -
  have "list_all2 (\<lambda>r x. recover_row sha256 st r = Inr x) (list_rows recoverable_row st) rows"
    using l by (simp add: list_recoverable_jobs_def result_collect_Inr_iff)
  moreover obtain i where "i < length rows" "rows ! i = RecoverReady d"
    using d by (auto simp: in_set_conv_nth)
  ultimately have r: "list_rows recoverable_row st ! i \<in> set (list_rows recoverable_row st)"
    "recover_row sha256 st (list_rows recoverable_row st ! i) = Inr (RecoverReady d)"
    by (auto simp: list_all2_conv_all_nth)
  let ?r = "list_rows recoverable_row st ! i"
  from r(2) have "read_job_row ?r = Inr (rd_job d)" by (auto simp: recover_row_def split: sum.splits)
  moreover from r(1) have "?r \<in> set (ts_jobs st)" by (simp only: list_rows_def) simp
  ultimately show ?thesis using row_current [OF inv] by blast
qed

lemma recover_coherent:
  assumes co: "coherent s"
  shows "coherent (snd (recover_on_startup sha256 ports s))"
proof (cases "list_recoverable_jobs sha256 (in_store s)")
  case (Inr rows)
  then show ?thesis
    using recover_jobs_coherent [OF co] recovered_current [of "in_store s"] co
    by (simp add: recover_on_startup_def coherent_def)
qed (use co in \<open>simp add: recover_on_startup_def\<close>)

lemma apply_command_coherent:
  assumes "coherent s" "keeps coherent others" "apply_command others clock k cmd s = (res, s')"
  shows "coherent s'"
  using apply_checked_coherent [OF assms(1,2)] assms(3) by (simp add: apply_command_def)

lemma co_bind_keeps:
  assumes "\<And>r s1. m s = (r, s1) \<Longrightarrow> P s1" "\<And>x s1. P s1 \<Longrightarrow> P (snd (f x s1))"
  shows "P (snd (co_bind m f s))"
  using assms by (auto simp: co_bind_def split: prod.splits sum.splits)

lemma pause_resume_coherent:
  assumes "coherent s" "keeps coherent others"
  shows "coherent (snd (pause others clock k s))" "coherent (snd (resume clock k s))"
  unfolding pause_def resume_def
  by (rule co_bind_keeps, erule apply_command_coherent [OF assms] apply_command_coherent [OF assms(1) keeps_id],
      simp add: co_return_def)+

lemma finalize_coherent:
  assumes "coherent s" shows "coherent (snd (finalize_cancel clock k s))"
proof -
  obtain r s1 where a: "apply_command id clock k FinalizeCancel s = (r, s1)" by fastforce
  have "coherent s1" by (rule apply_command_coherent [OF assms keeps_id a])
  then show ?thesis using a by (cases r) (simp_all add: finalize_cancel_def)
qed

lemma cancel_coherent:
  assumes "coherent s" "keeps coherent others" "keeps coherent between"
  shows "coherent (snd (cancel others between clock k s))"
proof -
  obtain r s1 where a: "apply_command others clock k Cancel s = (r, s1)" by fastforce
  have "coherent s1" by (rule apply_command_coherent [OF assms(1,2) a])
  moreover from this have "coherent (between s1)" using assms(3) by (simp add: keeps_def)
  ultimately show ?thesis using a finalize_coherent by (cases r) (simp_all add: cancel_def)
qed

lemma retry_coherent:
  assumes co: "coherent s"
  shows "coherent (snd (retry sha256 ports clock now child_id k s))"
  unfolding retry_def Let_def
proof (rule co_bind_keeps)
  fix r s1 assume "apply_command id clock k Retry s = (r, s1)"
  then show "coherent s1" by (rule apply_command_coherent [OF co keeps_id])
next
  fix x s1 assume c1: "coherent s1"
  show "coherent (snd (case spawn_retry_job (in_store s1) k child_id now of
       Inl e \<Rightarrow> (Inl (retry_error e), s1)
     | Inr (res, st) \<Rightarrow>
          if in_jobs (s1\<lparr>in_store := st\<rparr>) (sj_job_id (retry_job_of res)) \<noteq> None
          then (Inr (sj_job_id (retry_job_of res)), s1\<lparr>in_store := st\<rparr>)
          else (case job_spec sha256 st (sj_job_id (retry_job_of res)) of
              Inl e \<Rightarrow> (Inl (ErrConflict (NoUsableSpec e)), s1\<lparr>in_store := st\<rparr>)
            | Inr spec \<Rightarrow>
                co_bind (rehydrate_row ports (retry_job_of res)
                  (case map_option mj_request (in_jobs s k) of None \<Rightarrow> request_from_spec spec | Some r \<Rightarrow> r)
                  (publication_scope spec)) (\<lambda>_. co_return (sj_job_id (retry_job_of res))) (s1\<lparr>in_store := st\<rparr>))))"
  proof (cases "spawn_retry_job (in_store s1) k child_id now")
    case (Inr p)
    obtain res st where p: "p = (res, st)" by (cases p)
    have inv: "store_inv (in_store s1)" using c1 by (simp add: coherent_def)
    note V = spawn_view [OF inv Inr [unfolded p]]
    have "mem_view s1 \<subseteq>\<^sub>m job_view st"
      using c1 V by (auto simp: coherent_def map_le_def dom_def)
    then have c2: "coherent (s1\<lparr>in_store := st\<rparr>)" using coherent_store [OF c1] V by blast
    have "coherent s''" if "rehydrate_row ports (retry_job_of res) rq sc (s1\<lparr>in_store := st\<rparr>) = (r, s'')"
      for r s'' rq sc using coherent_rehydrate [OF c2 _ that] V by simp
    then show ?thesis using Inr p c2
      by (auto simp: co_bind_def co_return_def split: sum.splits prod.splits)
  qed (use c1 in simp)
qed

lemma delete_view:
  assumes inv: "store_inv s" and ok: "delete_job s k = Inr (b, s')"
  shows "store_inv s' \<and> (\<forall>i. i \<noteq> k \<longrightarrow> job_view s' i = job_view s i)"
proof -
  have "find_job s' i = find_job s i" if "i \<noteq> k" for i
    using ok that unfolding delete_job_def
    by (auto simp: result_bind_Inr_iff find_job_def delete_rows_def find_filter_other split: if_splits)
  then show ?thesis using delete_inv [OF inv ok] view_other by blast
qed

lemma forget_views:
  "mem_view (forget_job k s) i = (if i = k then None else mem_view s i)"
  "in_store (forget_job k s) = in_store s" "dom (in_jobs (forget_job k s)) = dom (in_jobs s) - {k}"
  "dom (in_cells (forget_job k s)) = dom (in_cells s) - {k}"
  "dom (in_controls (forget_job k s)) = dom (in_controls s) - {k}"
  by (auto simp: forget_job_def mem_view_def)

lemma coherent_forget:
  assumes co: "coherent s" and st: "store_inv st" "\<forall>i. i \<noteq> k \<longrightarrow> job_view st i = job_view (in_store s) i"
  shows "coherent (forget_job k (s\<lparr>in_store := st\<rparr>))"
proof -
  have "mem_view (forget_job k (s\<lparr>in_store := st\<rparr>)) \<subseteq>\<^sub>m job_view st"
    using co st(2) by (auto simp: coherent_def map_le_def dom_def forget_views split: if_splits)
  then show ?thesis using co st(1) by (simp add: coherent_def forget_views)
qed

lemma dismiss_coherent:
  assumes co: "coherent s" and others: "keeps coherent others"
  shows "coherent (snd (dismiss others clock k s))" "coherent (snd (dismiss_runtime others clock k s))"
proof -
  have del: "coherent (snd (case delete_job (in_store s1) k of
         Inl e \<Rightarrow> (Inl (ErrPersistence e), s1)
       | Inr (removed, st) \<Rightarrow> (Inr (), forget_job k (s1\<lparr>in_store := st\<rparr>))))" if c: "coherent s1" for s1
  proof (cases "delete_job (in_store s1) k")
    case (Inr p)
    obtain b st where p: "p = (b, st)" by (cases p)
    have "store_inv (in_store s1)" using c by (simp add: coherent_def)
    from delete_view [OF this Inr [unfolded p]] coherent_forget [OF c] Inr p show ?thesis by simp
  qed (use c in simp)
  have "coherent (snd (co_bind (apply_command others clock k Dismiss) (\<lambda>_ s1.
       case delete_job (in_store s1) k of
         Inl e \<Rightarrow> (Inl (ErrPersistence e), s1)
       | Inr (removed, st) \<Rightarrow> (Inr (), forget_job k (s1\<lparr>in_store := st\<rparr>))) s))"
    by (rule co_bind_keeps) (erule apply_command_coherent [OF co others], erule del)
  then show "coherent (snd (dismiss others clock k s))" using co by (simp add: dismiss_def)
  have fg: "coherent (snd (Inr (), forget_job k s1))" if c: "coherent s1" for s1
    using coherent_forget [OF c, of "in_store s1" k] c by (simp add: coherent_def)
  have "coherent (snd (co_bind (apply_command others clock k Dismiss) (\<lambda>_ s1. (Inr (), forget_job k s1)) s))"
    by (rule co_bind_keeps, erule apply_command_coherent [OF co others], erule fg)
  then show "coherent (snd (dismiss_runtime others clock k s))"
    using co by (simp add: dismiss_runtime_def split: sum.splits)
qed

section \<open>Dispatcher and workers\<close>

lemma worker_report_coherent:
  assumes "coherent s" shows "coherent (snd (worker_report clock k r s))"
proof -
  obtain res s1 where a: "apply_command id clock k (Worker r) s = (res, s1)" by fastforce
  have "coherent s1" by (rule apply_command_coherent [OF assms keeps_id a])
  then show ?thesis using a coherent_quiet [OF quiet_job_fault]
    by (cases res) (simp_all add: worker_report_def)
qed

lemma device_snapshot_quiet: "quiet_step s (snd (device_snapshot ports dev s))"
  by (simp add: device_snapshot_def Let_def)

lemma observe_coherent:
  assumes "coherent s" shows "coherent (snd (observe_device ports clock k dev s))"
proof -
  obtain snap s1 where d: "device_snapshot ports dev s = (snap, s1)" by fastforce
  have "quiet_step s s1" using device_snapshot_quiet [of s ports dev] d by simp
  then have c1: "coherent s1" using assms coherent_quiet [of s s1] by blast
  have "coherent (snd (co_bind (apply_command id clock k (DeviceObserved snap))
           (\<lambda>_. co_return (readiness snap)) s1))"
    by (rule co_bind_keeps, erule apply_command_coherent [OF c1 keeps_id]) (simp add: co_return_def)
  then show ?thesis by (simp add: observe_device_def d)
qed

lemma observe_or_fault_coherent:
  assumes "coherent s" shows "coherent (snd (observe_or_fault ports clock k dev s))"
  using observe_coherent [OF assms, of ports clock k dev] coherent_quiet [OF quiet_job_fault]
  by (auto simp: observe_or_fault_def split: prod.splits sum.splits)

lemma offer_coherent: "coherent s \<Longrightarrow> coherent (offer_job k s)"
  using coherent_quiet [OF quiet_offer] by simp

lemma control_coherent: "coherent s \<Longrightarrow> coherent (update_control k f s)"
  using coherent_quiet [OF quiet_control] by simp

lemma tick_job_coherent:
  assumes "coherent s" shows "coherent (tick_job ports clock k s)"
proof -
  have "coherent s'" if "observe_or_fault ports clock k dev s = (r, s')" for dev r s'
    using observe_or_fault_coherent [OF assms, of ports clock k dev] that by simp
  then show ?thesis
    using assms
    by (auto simp: tick_job_def offer_coherent observe_or_fault_coherent
        split: option.splits prod.splits DeviceReadiness.splits)
qed

lemma tick_coherent: "coherent s \<Longrightarrow> coherent (tick ports clock ids s)"
  by (induction ids arbitrary: s) (simp_all add: tick_job_coherent)

lemma quiet_update_job:
  assumes "\<And>m. mj_state (f m) = mj_state m" "\<And>m. mj_desired (f m) = mj_desired m"
  shows "quiet_step s (update_job k f s)"
proof (cases "in_jobs s k")
  case (Some m)
  then have "mem_view (update_job k f s) i = mem_view s i" for i
    using assms by (simp add: mem_view_def update_job_def split: option.splits)
  with Some show ?thesis by (auto simp: quiet_step_def update_job_def)
qed (simp add: update_job_def)

lemma drain_quiet: "quiet_step s (drain_checkpoint_fault k s)"
proof (cases "in_controls s k")
  case (Some c)
  let ?s = "s\<lparr>in_controls := (in_controls s)(k \<mapsto> c\<lparr>jc_checkpoint_fault := None\<rparr>)\<rparr>"
  have "quiet_step s ?s" using Some by (auto simp: quiet_step_def)
  then show ?thesis
    using Some quiet_trans [OF _ quiet_job_fault]
    by (simp add: drain_checkpoint_fault_def take_checkpoint_fault_def Let_def)
qed (simp add: drain_checkpoint_fault_def)

definition plane_keeps :: "Plane \<Rightarrow> job_id \<Rightarrow> bool" where
  "plane_keeps plane k \<longleftrightarrow>
    keeps coherent (\<lambda>s. snd (pl_transfer plane k s)) \<and> keeps coherent (\<lambda>s. snd (pl_commit plane k s))"

fun either :: "'a + 'a \<Rightarrow> 'a" where
  "either (Inl x) = x"
| "either (Inr x) = x"

lemma continue_coherent: "coherent (snd r) \<Longrightarrow> coherent (either (continue_unless_error r))"
  by (auto simp: continue_unless_error_def split: prod.splits sum.splits)

lemma report_interrupted_coherent:
  "coherent s \<Longrightarrow> coherent (report_interrupted clock k r s)"
  by (simp add: report_interrupted_def worker_report_coherent control_coherent)

lemma after_transfer_coherent:
  assumes "coherent s" shows "coherent (either (after_transfer ports clock k dev out s))"
proof -
  have "quiet_step s (set_verified_files k files s)" for files
    unfolding set_verified_files_def by (rule quiet_update_job) simp_all
  then have 1: "coherent (set_verified_files k files s)" for files
    using assms coherent_quiet by blast
  have "quiet_step (update_control k clear_interrupt s)
      (snd (device_readiness ports dev (update_control k clear_interrupt s)))"
    using device_snapshot_quiet by (simp add: device_readiness_def split: prod.splits) (metis snd_conv)
  then have 2: "coherent (snd (device_readiness ports dev (update_control k clear_interrupt s)))"
    using control_coherent [OF assms] coherent_quiet by blast
  show ?thesis
    using assms 1 2
    by (cases out) (auto simp: after_transfer_def report_interrupted_coherent worker_report_coherent
        intro: continue_coherent split: prod.splits)
qed

lemma process_pass_coherent:
  assumes co: "coherent s" and pl: "plane_keeps plane k"
  shows "coherent (either (process_pass plane ports clock shown k s))"
proof -
  have ob: "coherent s'" if "observe_or_fault ports clock k dev s = (r, s')" for dev r s'
    using observe_or_fault_coherent [OF co, of ports clock k dev] that by simp
  have tr: "coherent (drain_checkpoint_fault k s')" if "pl_transfer plane k s = (out, s')" for out s'
    using pl co that coherent_quiet [OF drain_quiet] by (auto simp: plane_keeps_def keeps_def)
  have cm: "coherent s'" if "pl_commit plane k s = (out, s')" for out s'
    using pl co that by (auto simp: plane_keeps_def keeps_def)
  show ?thesis
    using co
    by (auto simp: process_pass_def Let_def offer_coherent report_interrupted_coherent
        worker_report_coherent after_transfer_coherent tr dest: ob cm intro!: continue_coherent
        split: option.splits prod.splits sum.splits DeviceReadiness.splits TransferJobState.splits)
qed

lemma process_loop_coherent:
  assumes "coherent s" "plane_keeps plane k" "\<And>n. keeps coherent (between n)"
    "process_loop fuel between plane ports clock shown k s = Some s'"
  shows "coherent s'"
  using assms(1,4)
proof (induction fuel arbitrary: s)
  case (Suc n)
  have "coherent (between n s)" using Suc.prems(1) assms(3) by (simp add: keeps_def)
  then have "coherent (either (process_pass plane ports clock shown k (between n s)))"
    by (rule process_pass_coherent [OF _ assms(2)])
  then show ?case using Suc.IH Suc.prems(2)
    by (cases "process_pass plane ports clock shown k (between n s)") simp_all
qed simp

lemma coherent_leases [simp]: "coherent (s\<lparr>in_leases := l\<rparr>) = coherent s"
  by (simp add: coherent_def)

lemma process_job_coherent:
  assumes "coherent s" "plane_keeps plane k" "\<And>n. keeps coherent (between n)"
    "process_job fuel between plane ports clock shown k s = Some s'"
  shows "coherent s'"
proof -
  from assms(4) consider "s' = s" | held target s1 where
      "process_loop fuel between plane ports clock shown k (s\<lparr>in_leases := held\<rparr>) = Some s1"
      "s' = s1\<lparr>in_leases := release (in_leases s1) target\<rparr>"
    by (auto simp: process_job_def split: option.splits prod.splits)
  then show ?thesis
  proof cases
    case 2
    have "coherent s1" by (rule process_loop_coherent [OF _ assms(2,3) 2(1)]) (simp add: assms(1))
    then show ?thesis using 2(2) by simp
  qed (use assms(1) in simp)
qed

lemma worker_turn_coherent:
  assumes co: "coherent s" and work: "keeps coherent (\<lambda>s. fst (work s))"
  shows "coherent (worker_turn work clock k s)"
proof (cases "in_controls s k")
  case (Some c)
  let ?s1 = "s\<lparr>in_controls := (in_controls s)(k \<mapsto> c\<lparr>jc_active := True\<rparr>)\<rparr>"
  have "quiet_step s ?s1" using Some by (auto simp: quiet_step_def)
  then have c1: "coherent ?s1" using co coherent_quiet by blast
  have c2: "coherent (fst (work ?s1))" using c1 work by (simp add: keeps_def)
  have "coherent (converge_panic clock k detail t)" if t: "coherent t" for detail t
  proof -
    have "coherent (job_fault k FaultWorkerPanic LocalIo t)"
      using t coherent_quiet [OF quiet_job_fault] by simp
    from worker_report_coherent [OF this] show ?thesis
      using coherent_quiet [OF quiet_job_fault]
      by (auto simp: converge_panic_def intro!: control_coherent split: prod.splits sum.splits)
        (metis snd_conv)+
  qed
  then show ?thesis
    using Some co c1 c2
    by (auto simp: worker_turn_def try_claim_def Let_def intro!: control_coherent
        split: option.splits prod.splits if_splits)
qed (use co in \<open>simp add: worker_turn_def\<close>)

lemma shutdown_coherent: "coherent s \<Longrightarrow> coherent (snd (shutdown d w s))"
proof -
  assume co: "coherent s"
  have "quiet_step s (begin_shutdown s)"
    by (auto simp: quiet_step_def begin_shutdown_def mem_view_def fun_eq_iff)
  then have "coherent (begin_shutdown s)" using co coherent_quiet by blast
  then show ?thesis using coherent_quiet [OF quiet_record_fault] by (simp add: shutdown_def Let_def)
qed
end
