(* ===== verification/Store_Properties.thy ===== *)
theory Store_Properties
  imports Store_Creation
begin

text \<open>
  What the transfer store promises to the rest of the program, over every database
  a run of its operations reaches: exactly-once completion, the compare-and-swap of
  transitions, idempotent creation, a monotone file ledger, complete recovery
  listings and a retry lineage without siblings.
\<close>

section \<open>Enabled operations\<close>

lemma live_row:
  assumes "store_inv s" "lifecycle s k = Some (Live t v)"
  obtains r j where "find_job s k = Some r" "read_job_row r = Inr j" "find_outbox s k = None"
    "sj_state j = t" "sj_state_version j = v" "jr_state_version r = uint v"
    "\<not> sql_terminal (jr_state r)" "job_row_ok r"
proof -
  obtain r where r: "find_job s k = Some r"
    using assms(2) lifecycle_None [OF assms(1), of k] by auto
  obtain j where j: "read_job_row r = Inr j" using inv_read_job [OF assms(1) r] by blast
  have no: "find_outbox s k = None"
    using assms(2) by (auto simp: lifecycle_def phase_of_rows_def split: option.splits sum.splits)
  then have "\<not> sql_terminal (jr_state r)" using inv_terminal_outbox [OF assms(1) r] by simp
  moreover have "job_row_ok r"
    using r inv_find_job [OF assms(1)] inv_row_ok [OF assms(1)] by blast
  ultimately show ?thesis
    using that [OF r j no] lifecycle_live [OF r j no] assms(2) read_job_row_fields [OF j] by simp
qed

lemma job_check_transition:
  assumes "job_row_ok r" "1 \<le> v" "(t = TagFailed) = (fst cols \<noteq> None)"
    "(t = TagFailed) = (snd cols \<noteq> None)"
  shows "job_check (transition_row (tag_as_db_str t) v cols now r)"
proof -
  have "(tag_as_db_str t = ''failed'') = (t = TagFailed)"
    using tag_as_db_str_inj [of t TagFailed] by simp
  with assms show ?thesis by (simp add: job_check_def transition_row_def job_row_ok_iff)
qed

lemma succ_positive: "unat v < i64_max \<Longrightarrow> 1 \<le> uint (v + 1 :: u64)"
proof -
  assume "unat v < i64_max"
  then have "unat (v + 1) = Suc (unat v)"
    by (intro unat_succ_u64) (simp add: i64_max_def u64_max_def)
  then show ?thesis unfolding uint_nat by linarith
qed

lemma checked_succ:
  assumes "unat v < i64_max"
  shows "checked_add v 1 = Some (v + 1)" "unat (v + 1 :: u64) \<le> i64_max" "unat v \<le> i64_max"
proof -
  have "unat (v + 1) = Suc (unat v)"
    using assms by (intro unat_succ_u64) (simp add: i64_max_def u64_max_def)
  then show "unat (v + 1) \<le> i64_max" "unat v \<le> i64_max" using assms by simp_all
  show "checked_add v 1 = Some (v + 1)"
    using assms by (simp add: checked_add_def i64_max_def u64_max_def)
qed

lemma transition_enabled:
  assumes inv: "store_inv s" and live: "lifecycle s k = Some (Live t v)"
    and b: "unat v < i64_max" "\<not> tag_is_terminal to"
  shows "\<exists>s'. transition_job s k v to None now = Inr (v + 1, s')"
proof -
  from inv live obtain r where r: "find_job s k = Some r" "jr_state_version r = uint v"
    "\<not> sql_terminal (jr_state r)" "job_row_ok r"
    by (rule live_row)
  let ?sel = "\<lambda>r. jr_job_id r = k \<and> jr_state_version r = uint v \<and> \<not> sql_terminal (jr_state r)"
  let ?f = "transition_row (tag_as_db_str to) (uint (v + 1)) (None, None) now"
  have rin: "r \<in> set (ts_jobs s)" "jr_job_id r = k" using r(1) inv_find_job [OF inv] by auto
  have nf: "to \<noteq> TagFailed" using b(2) by auto
  have "job_check (?f x)" if "x \<in> set (ts_jobs s)" for x
    using job_check_transition [OF inv_row_ok [OF inv that] succ_positive [OF b(1)]] nf by simp
  then obtain s' where up: "update_jobs ?sel ?f s = Inr s'" by (auto simp: update_jobs_Inr)
  have "changed_rows ?sel (ts_jobs s) \<noteq> 0" using rin r by auto
  with up b(2) nf show ?thesis
    by (simp add: transition_job_def checked_succ [OF b(1)] ok_or_else_def checked_i64_def
        transition_columns_def del: changed_rows_0)
qed

lemma complete_enabled:
  assumes inv: "store_inv s" and live: "lifecycle s k = Some (Live t v)"
    and b: "unat v < i64_max" "ts_next_sequence s \<le> int i64_max"
  shows "\<exists>c s'. complete_job s k oc now = Inr (Recorded c, s')"
proof -
  from inv live obtain r j where r: "find_job s k = Some r" "read_job_row r = Inr j"
    "find_outbox s k = None" "sj_state j = t" "sj_state_version j = v"
    "\<not> sql_terminal (jr_state r)" "job_row_ok r"
    by (rule live_row)
  let ?f = "transition_row (outcome_as_db_str oc) (uint (v + 1)) (error_columns oc) now"
  have chk: "job_check (?f x)" if "x \<in> set (ts_jobs s)" for x
    unfolding outcome_as_db_str_def
    by (rule job_check_transition [OF inv_row_ok [OF inv that] succ_positive [OF b(1)]])
      (cases oc; simp)+
  let ?s1 = "s\<lparr>ts_jobs := map (\<lambda>r. if jr_job_id r = k then ?f r else r) (ts_jobs s)\<rparr>"
  have up: "update_jobs (\<lambda>r. jr_job_id r = k) ?f s = Inr ?s1"
    using chk by (simp add: update_jobs_Inr)
  have f1: "find_job ?s1 k = Some (?f r)"
    using r(1) find_job_id [OF r(1)] by (subst find_job_map) (auto simp: transition_row_def)
  let ?b = "new_outbox_row (ts_next_sequence s) k (jr_operation_kind r) oc (uint (v + 1)) now"
  have kind: "kind_from_db_str (jr_operation_kind r) = Some (sj_operation_kind j)"
    using read_job_row_fields [OF r(2)] by simp
  have "outbox_check ?b"
    using kind succ_positive [OF b(1)]
    by (cases oc) (simp_all add: outbox_check_def new_outbox_row_def outcome_as_db_str_def)
  moreover have "\<not> outbox_clash ?b x" if "x \<in> set (ts_outbox s)" for x
  proof -
    have "obr_sequence x < ts_next_sequence s"
      using inv that by (simp add: store_inv_def outbox_ok_def)
    moreover have "obr_job_id x \<noteq> k"
      using r(3) that by (auto simp: find_outbox_def find_None_iff)
    ultimately show ?thesis by (auto simp: outbox_clash_def new_outbox_row_def)
  qed
  ultimately have ins: "sql_insert outbox_check outbox_clash ?b (ts_outbox ?s1) =
      Inr (ts_outbox s @ [?b])" by (simp add: sql_insert_Inr)
  let ?s2 = "?s1\<lparr>ts_outbox := ts_outbox s @ [?b], ts_next_sequence := ts_next_sequence s + 1\<rparr>"
  have "find_outbox ?s2 k = Some ?b"
    using r(3) by (simp add: find_outbox_def find_append new_outbox_row_def)
  moreover have "0 \<le> ts_next_sequence s" using inv by (simp add: store_inv_def)
  ultimately obtain c where "read_completion ?s2 k = Inr (Some c)"
    using read_new_outbox_row [OF kind] by (auto simp: read_Inr)
  then have "insert_outbox_row ?s1 k oc (v + 1) now = Inr (c, ?s2)"
    using f1 b(2) ins by (simp add: insert_outbox_row_def ok_or_else_def checked_i64_def
        checked_succ [OF b(1)] Let_def transition_row_def)
  moreover have "read_job s k = Inr (Some j)" "read_completion s k = Inr None"
    using r by (simp_all add: read_Inr)
  moreover have "\<not> tag_is_terminal (sj_state j)"
    using r(6) read_job_row_fields [OF r(2)] by simp
  ultimately have "complete_job s k oc now = Inr (Recorded c, ?s2)"
    using up r(5) by (simp add: complete_job_def complete_job_inner_def checked_succ [OF b(1)]
        ok_or_else_def checked_i64_def)
  then show ?thesis by blast
qed


section \<open>Reading the phase of a job\<close>

lemma ended_row:
  assumes inv: "store_inv s" and e: "lifecycle s k = Some (Ended oc v a)"
  obtains r j c where "find_job s k = Some r" "read_job s k = Inr (Some j)"
    "read_completion s k = Inr (Some c)" "cr_outcome c = oc" "cr_state_version c = v"
    "is_acknowledged c = a"
proof -
  obtain b where b: "find_outbox s k = Some b"
    using e by (auto simp: lifecycle_def phase_of_rows_def split: option.splits sum.splits)
  obtain c where c: "read_completion_row b = Inr c" using inv_read_completion [OF inv b] by blast
  from inv b obtain r where r: "find_job s k = Some r" by (rule inv_outbox_row)
  obtain j where "read_job_row r = Inr j" using inv_read_job [OF inv r] by blast
  with r b c that [of r j c] show ?thesis
    using lifecycle_ended [OF b c] e by (simp add: read_Inr)
qed

lemma reads_agree:
  assumes inv: "store_inv s" and j: "read_job s k = Inr (Some j)"
    and c: "read_completion s k = Inr (Some c)"
  shows "ended_as (sj_state j) (sj_error j) = Some (cr_outcome c) \<and>
    cr_state_version c = sj_state_version j \<and> cr_operation_kind c = sj_operation_kind j"
proof -
  from j obtain r where r: "find_job s k = Some r" "read_job_row r = Inr j" by (auto simp: read_Inr)
  from c obtain b where b: "find_outbox s k = Some b" "read_completion_row b = Inr c"
    by (auto simp: read_Inr)
  from inv b(1) obtain r' where "find_job s k = Some r'" "outbox_of r' b" by (rule inv_outbox_row)
  with r have of: "outbox_of r b" by simp
  note rf = read_job_row_fields [OF r(2)]
  have chk: "job_check r"
    using r(1) inv_find_job [OF inv] inv_row_ok [OF inv] by (auto simp: job_row_ok_iff)
  have err: "sj_error j = error_of_columns (jr_error_code r) (jr_error_retryable r)"
    using r(2) by (auto simp: read_job_row_Inr)
  show ?thesis
    using of b(2) rf chk err
    by (cases "sj_state j") (auto simp: read_completion_row_def result_bind_Inr_iff outbox_of_def
        from_columns_def ended_as_def job_check_def sql_terminal_def error_of_columns_def
        split: if_splits option.splits)
qed

lemma live_completion:
  assumes "store_inv s" "lifecycle s k = Some (Live t v)"
  shows "\<exists>j. read_job s k = Inr (Some j) \<and> read_completion s k = Inr None \<and>
    sj_state j = t \<and> sj_state_version j = v \<and> \<not> tag_is_terminal t"
proof -
  from assms obtain r j where "find_job s k = Some r" "read_job_row r = Inr j"
    "find_outbox s k = None" "sj_state j = t" "sj_state_version j = v"
    "\<not> sql_terminal (jr_state r)" by (rule live_row)
  then show ?thesis using read_job_row_fields [of r j] by (auto simp: read_Inr)
qed

section \<open>The life cycle\<close>

text \<open>
  C3.  Every run of the store refines the abstract life cycle of its jobs: the
  database invariant holds after any sequence of operations, and the next
  operation, whatever it is and whether it commits or fails, takes one step of the
  life cycle (create, advance by one version, finish, acknowledge, forget, move)
  or none.
\<close>

theorem store_run_refines_lifecycle:
  "store_inv (run_store sha256 ops) \<and>
   life_step (lifecycle (run_store sha256 ops)) (lifecycle (run_store sha256 (ops @ [op])))"
  using apply_op_step [OF run_store_inv] run_store_inv by (simp add: run_store_snoc)

text \<open>
  The job table and the completion outbox agree in every reachable database:
  reading them never fails, a live job has no completion, and the completion of an
  ended job carries its outcome, its state version and its kind.
\<close>

theorem terminal_iff_completion:
  "case (read_job (run_store sha256 ops) k, read_completion (run_store sha256 ops) k) of
     (Inr None, Inr None) \<Rightarrow> True
   | (Inr (Some j), Inr None) \<Rightarrow> \<not> tag_is_terminal (sj_state j)
   | (Inr (Some j), Inr (Some c)) \<Rightarrow>
       ended_as (sj_state j) (sj_error j) = Some (cr_outcome c) \<and>
       cr_state_version c = sj_state_version j \<and> cr_operation_kind c = sj_operation_kind j
   | _ \<Rightarrow> False"
proof -
  let ?s = "run_store sha256 ops"
  note inv = run_store_inv [of sha256 ops]
  show ?thesis
  proof (cases "lifecycle ?s k")
    case None
    then have "find_job ?s k = None" using lifecycle_None [OF inv] by simp
    moreover from this have "find_outbox ?s k = None"
      using inv_outbox_row [OF inv, of k] by fastforce
    ultimately have "read_job ?s k = Inr None" "read_completion ?s k = Inr None"
      by (simp_all add: read_Inr)
    then show ?thesis by simp
  next
    case (Some p)
    show ?thesis
    proof (cases p)
      case (Live t v)
      with Some live_completion [OF inv] show ?thesis by fastforce
    next
      case (Ended oc v a)
      with Some obtain j c where "read_job ?s k = Inr (Some j)"
        "read_completion ?s k = Inr (Some c)" using ended_row [OF inv] by metis
      with reads_agree [OF inv this] show ?thesis by simp
    qed
  qed
qed

text \<open>
  A transition is a compare-and-swap on the version: it commits exactly when
  the target is not terminal, no error is attached, the version has a successor in
  its column and the job is live at the expected version.  It then moves that job
  alone, to the target at the next version, and every other writer that still holds
  the old version is refused.
\<close>

theorem transition_job_cas:
  "(case transition_job (run_store sha256 ops) k v to err now of
      Inl e \<Rightarrow> \<not> (\<not> tag_is_terminal to \<and> err = None \<and> unat v < i64_max \<and>
        (\<exists>t. lifecycle (run_store sha256 ops) k = Some (Live t v)))
    | Inr (v', s') \<Rightarrow> \<not> tag_is_terminal to \<and> err = None \<and> unat v < i64_max \<and>
        (\<exists>t. lifecycle (run_store sha256 ops) k = Some (Live t v)) \<and> v' = v + 1 \<and>
        lifecycle s' = (lifecycle (run_store sha256 ops))(k \<mapsto> Live to v') \<and>
        (\<forall>to' err' now'. isl (transition_job s' k v to' err' now')))"
proof -
  let ?s = "run_store sha256 ops"
  note inv = run_store_inv [of sha256 ops]
  show ?thesis
  proof (cases "transition_job ?s k v to err now")
    case (Inl e)
    have "\<not> (\<not> tag_is_terminal to \<and> err = None \<and> unat v < i64_max \<and>
        (\<exists>t. lifecycle ?s k = Some (Live t v)))"
    proof
      assume "\<not> tag_is_terminal to \<and> err = None \<and> unat v < i64_max \<and>
        (\<exists>t. lifecycle ?s k = Some (Live t v))"
      with transition_enabled [OF inv, of k _ v to now] Inl show False by auto
    qed
    with Inl show ?thesis by simp
  next
    case (Inr p)
    obtain v' s' where p: "p = (v', s')" by (cases p)
    note T = transition_job_Inr [OF Inr [unfolded p]] and I = transition_inv [OF inv Inr [unfolded p]]
    have "isl (transition_job s' k v to' err' now')" for to' err' now'
    proof (rule ccontr)
      assume "\<not> isl (transition_job s' k v to' err' now')"
      then obtain w s'' where "transition_job s' k v to' err' now' = Inr (w, s'')"
        by (cases "transition_job s' k v to' err' now'") auto
      from transition_inv(2) [OF I(1) this] I(3) have "v + 1 = v" by auto
      then show False by simp
    qed
    with Inr p T I show ?thesis by simp
  qed
qed

section \<open>Completion\<close>

lemma complete_unknown:
  assumes "store_inv s" "lifecycle s k = None"
  shows "complete_job s k oc now = Inl (UnknownJob k)"
proof -
  have "read_job s k = Inr None" using assms lifecycle_None [OF assms(1)] by (simp add: read_Inr)
  then show ?thesis by (simp add: complete_job_def complete_job_inner_def)
qed

lemma complete_replay:
  assumes "read_job s k = Inr (Some j)" "read_completion s k = Inr (Some c)"
  shows "complete_job s k oc now =
    (if cr_outcome c = oc then Inr (AlreadyRecorded c, s)
     else Inl (CompleteAlreadyTerminal k (cr_outcome c) oc))"
  using assms by (simp add: complete_job_def complete_job_inner_def)

lemma complete_live:
  assumes inv: "store_inv s" and live: "lifecycle s k = Some (Live t v)"
    and ok: "complete_job s k oc now = Inr (res, s')"
  shows "was_recorded res \<and> lifecycle s' = (lifecycle s)(k \<mapsto> Ended oc (v + 1) False) \<and>
    complete_job s' k oc now' = Inr (AlreadyRecorded (completion_of res), s')"
  using inv ok
proof (cases rule: complete_job_Inr)
  case (replay c)
  then show ?thesis using live_completion [OF inv live] by auto
next
  case (fresh r j c s1)
  note F = complete_fresh [OF inv fresh(1,2,3,4,5,6)]
  have v: "sj_state_version j = v" using lifecycle_live [OF fresh(1,2,3)] live by simp
  have c: "read_completion s' k = Inr (Some c)" using fresh(6) by (rule insert_outbox_row_Inr)
  have "lifecycle s' k \<noteq> None" using F(2) by simp
  then obtain r' where "find_job s' k = Some r'" using lifecycle_None [OF F(1)] by auto
  then obtain j' where "read_job s' k = Inr (Some j')"
    using inv_read_job [OF F(1)] by (auto simp: read_Inr)
  from complete_replay [OF this c] F(2,3) fresh(7) v show ?thesis by simp
qed

text \<open>
  C4.  A job completes exactly once.  An unknown job is refused; a job that already
  ended gives its recorded completion back for the same outcome, changing nothing,
  and a typed conflict for any other outcome; a live job ends with the requested
  outcome at the next version (unless its version or the outbox sequence is
  exhausted), and repeating the call then returns the same record.
\<close>

theorem complete_job_exactly_once:
  "case lifecycle (run_store sha256 ops) k of
     None \<Rightarrow> complete_job (run_store sha256 ops) k oc now = Inl (UnknownJob k)
   | Some (Ended oc' v a) \<Rightarrow>
       (if oc' = oc
        then \<exists>c. complete_job (run_store sha256 ops) k oc now =
               Inr (AlreadyRecorded c, run_store sha256 ops) \<and>
               cr_outcome c = oc \<and> cr_state_version c = v \<and> is_acknowledged c = a
        else complete_job (run_store sha256 ops) k oc now =
               Inl (CompleteAlreadyTerminal k oc' oc))
   | Some (Live t v) \<Rightarrow>
       (case complete_job (run_store sha256 ops) k oc now of
          Inl e \<Rightarrow> i64_max \<le> unat v \<or> int i64_max < ts_next_sequence (run_store sha256 ops)
        | Inr (res, s') \<Rightarrow> was_recorded res \<and>
            lifecycle s' = (lifecycle (run_store sha256 ops))(k \<mapsto> Ended oc (v + 1) False) \<and>
            complete_job s' k oc now' = Inr (AlreadyRecorded (completion_of res), s'))"
proof -
  let ?s = "run_store sha256 ops"
  note inv = run_store_inv [of sha256 ops]
  show ?thesis
  proof (cases "lifecycle ?s k")
    case None
    with complete_unknown [OF inv] show ?thesis by simp
  next
    case (Some p)
    show ?thesis
    proof (cases p)
      case (Live t v)
      with Some have l: "lifecycle ?s k = Some (Live t v)" by simp
      have "i64_max \<le> unat v \<or> int i64_max < ts_next_sequence ?s"
        if "complete_job ?s k oc now = Inl e" for e
        using complete_enabled [OF inv l, of oc now] that by force
      with l complete_live [OF inv l, of oc now _ _ now'] show ?thesis
        by (auto split: sum.splits)
    next
      case (Ended oc' v a)
      with Some obtain j c where "read_job ?s k = Inr (Some j)"
        "read_completion ?s k = Inr (Some c)" "cr_outcome c = oc'" "cr_state_version c = v"
        "is_acknowledged c = a" using ended_row [OF inv, of k oc' v a] by metis
      with complete_replay [of ?s k j c oc now] Some Ended show ?thesis by simp
    qed
  qed
qed

subsection \<open>The outbox as a queue of deliveries\<close>

lemma outbox_row_phase:
  assumes inv: "store_inv s" and b: "b \<in> set (ts_outbox s)"
  obtains c where "read_completion_row b = Inr c" "cr_job_id c = obr_job_id b"
    "uint (cr_sequence c) = obr_sequence b" "cr_acknowledged_at c = obr_acknowledged_at b"
    "lifecycle s (obr_job_id b) =
       Some (Ended (cr_outcome c) (cr_state_version c) (is_acknowledged c))"
proof -
  have fb: "find_outbox s (obr_job_id b) = Some b" using b inv_find_outbox [OF inv] by simp
  obtain c where c: "read_completion_row b = Inr c" using inv_read_completion [OF inv fb] by blast
  have "1 \<le> obr_sequence b" "obr_sequence b < ts_next_sequence s"
    using inv b by (auto simp: store_inv_def outbox_ok_def)
  moreover have "ts_next_sequence s \<le> 2 ^ 63" using inv by (simp add: store_inv_def i64_max_def)
  ultimately have "uint (word_of_int (obr_sequence b) :: u64) = obr_sequence b"
    by (intro word_of_int_inverse [OF refl]) auto
  moreover have "cr_sequence c = word_of_int (obr_sequence b)" "cr_job_id c = obr_job_id b"
    "cr_acknowledged_at c = obr_acknowledged_at b"
    using c by (auto simp: read_completion_row_def result_bind_Inr_iff u64_of_column_def
        split: if_splits)
  ultimately show ?thesis using that [OF c] lifecycle_ended [OF fb c] by simp
qed

lemma pending_rows:
  assumes "store_inv s"
  shows "sort_key obr_sequence
     (filter (\<lambda>r. \<not> True \<or> obr_acknowledged_at r = None) (ts_outbox s)) =
   filter (\<lambda>r. obr_acknowledged_at r = None) (ts_outbox s)"
proof -
  have "sorted_wrt (<) (map obr_sequence (ts_outbox s))" using assms by (simp add: store_inv_def)
  then have "sorted (map obr_sequence (ts_outbox s))" by (rule strict_sorted_imp_sorted)
  then show ?thesis by (simp add: sorted_filter sort_key_id_if_sorted)
qed

text \<open>
  The pending completions are exactly the outcomes that were not acknowledged
  yet: listing them never fails, they come in the order in which the outcomes were
  recorded, one per job, each with the outcome and the version its job ended with.
\<close>

theorem pending_exactly_unacknowledged:
  "\<exists>cs. pending_completions (run_store sha256 ops) = Inr cs \<and>
     sorted_wrt (<) (map cr_sequence cs) \<and> distinct (map cr_job_id cs) \<and>
     (\<lambda>c. (cr_job_id c, cr_outcome c, cr_state_version c)) ` set cs =
       {(k, oc, v). lifecycle (run_store sha256 ops) k = Some (Ended oc v False)}"
proof -
  let ?s = "run_store sha256 ops"
  note inv = run_store_inv [of sha256 ops]
  let ?rows = "filter (\<lambda>r. obr_acknowledged_at r = None) (ts_outbox ?s)"
  define g where "g b = (case read_completion_row b of Inr c \<Rightarrow> c)" for b
  have g: "read_completion_row b = Inr (g b)" "cr_job_id (g b) = obr_job_id b"
    "uint (cr_sequence (g b)) = obr_sequence b" "is_acknowledged (g b) = (obr_acknowledged_at b \<noteq> None)"
    "lifecycle ?s (obr_job_id b) =
       Some (Ended (cr_outcome (g b)) (cr_state_version (g b)) (is_acknowledged (g b)))"
    if b: "b \<in> set (ts_outbox ?s)" for b
    by (rule outbox_row_phase [OF inv b], simp add: g_def is_acknowledged_def)+
  have "pending_completions ?s = Inr (map g ?rows)"
    unfolding pending_completions_def read_completions_def pending_rows [OF inv]
    by (rule result_collect_ok) (simp add: g(1))
  moreover have "sorted_wrt (<) (map cr_sequence (map g ?rows))"
  proof -
    have "sorted_wrt (<) (map obr_sequence ?rows)"
      using inv sorted_wrt_filter [of "\<lambda>a b. obr_sequence a < obr_sequence b" "ts_outbox ?s"]
      by (simp add: store_inv_def sorted_wrt_map)
    then show ?thesis
      unfolding sorted_wrt_map
      by (rule sorted_wrt_mono_rel [rotated]) (auto simp: word_less_def g(3))
  qed
  moreover have "map cr_job_id (map g ?rows) = map obr_job_id ?rows" by (simp add: g(2))
  then have "distinct (map cr_job_id (map g ?rows))"
    using inv by (simp only:) (simp add: store_inv_def distinct_map_filter)
  moreover have "(\<lambda>c. (cr_job_id c, cr_outcome c, cr_state_version c)) ` set (map g ?rows) =
      {(k, oc, v). lifecycle ?s k = Some (Ended oc v False)}" (is "?L = ?R")
  proof (intro subset_antisym subsetI)
    fix q assume "q \<in> ?L"
    then obtain b where "b \<in> set (ts_outbox ?s)" "obr_acknowledged_at b = None"
      "q = (cr_job_id (g b), cr_outcome (g b), cr_state_version (g b))" by auto
    then show "q \<in> ?R" using g(2,4,5) [of b] by simp
  next
    fix q assume "q \<in> ?R"
    then obtain k oc v where q: "q = (k, oc, v)" "lifecycle ?s k = Some (Ended oc v False)" by auto
    then obtain b where "find_outbox ?s k = Some b"
      by (auto simp: lifecycle_def phase_of_rows_def split: option.splits sum.splits)
    then have b: "b \<in> set (ts_outbox ?s)" "obr_job_id b = k" using inv_find_outbox [OF inv] by auto
    then have "obr_acknowledged_at b = None" using g(4,5) [of b] q by auto
    then have "g b \<in> set (map g ?rows)" using b(1) by simp
    then show "q \<in> ?L" by (rule image_eqI [rotated]) (use b q g(2,5) [OF b(1)] in simp)
  qed
  ultimately show ?thesis by blast
qed

text \<open>
  C22.  An outcome is not lost before its consumer saw it: once a job has ended and
  is not acknowledged, it keeps its outcome and its version through every later
  operation (deletion, retargeting and retries included) until an acknowledgement
  of it is recorded.
\<close>

theorem unacknowledged_outcome_survives:
  assumes "lifecycle (run_store sha256 ops) k = Some (Ended oc v False)"
  shows "lifecycle (run_store sha256 (ops @ later)) k = Some (Ended oc v False) \<or>
    (\<exists>pre post. later = pre @ post \<and>
       lifecycle (run_store sha256 (ops @ pre)) k = Some (Ended oc v True))"
  using durable.outcome_survives [OF run_store_inv assms, of sha256 later]
  by (simp add: run_store_def)

section \<open>Retries\<close>

text \<open>
  A failed job never has two retries at work: in every reachable database at
  most one retry child of a parent is live.
\<close>

theorem retry_single_live_child:
  "\<exists>c. set (filter (live (run_store sha256 ops))
     (map lnr_child (filter (\<lambda>l. lnr_parent l = p) (ts_lineage (run_store sha256 ops))))) \<subseteq> {c}"
  (is "\<exists>c. ?S \<subseteq> {c}")
proof -
  let ?s = "run_store sha256 ops"
  have li: "lineage_inv ?s" using run_store_invs [of sha256 ops] by (simp add: full_inv_def)
  have "l = l'" if "l \<in> set (ts_lineage ?s)" "l' \<in> set (ts_lineage ?s)" "lnr_parent l = p"
    "lnr_parent l' = p" "live ?s (lnr_child l)" "live ?s (lnr_child l')" for l l'
  proof -
    have "lnr_attempt l' \<le> lnr_attempt l" "lnr_attempt l \<le> lnr_attempt l'"
      using li that unfolding lineage_inv_def by metis+
    then have "lineage_clash l l'" using that(3,4) by (simp add: lineage_clash_def)
    then show ?thesis using li that(1,2) unfolding lineage_inv_def by blast
  qed
  then have "x = y" if "x \<in> ?S" "y \<in> ?S" for x y using that by fastforce
  then show ?thesis by blast
qed

section \<open>Creation\<close>

lemma create_fresh:
  assumes spec: "spec_valid spec" "spec_storable spec"
    and sha: "length (request_digest sha256 spec) = 32"
    and fresh: "find_job (run_store sha256 ops) k = None"
      "read_latest_job_by_identity (run_store sha256 ops) (js_identity spec) = Inr None"
  shows "\<exists>j s'. create_job sha256 (run_store sha256 ops) k spec now = Inr (Created j, s') \<and>
    lifecycle s' = (lifecycle (run_store sha256 ops))(k \<mapsto> Live TagQueued 1) \<and>
    job_spec sha256 s' k = Inr spec \<and> s' = run_store sha256 (ops @ [OpCreate k spec now]) \<and>
    ts_next_sequence s' = ts_next_sequence (run_store sha256 ops)"
proof -
  let ?s = "run_store sha256 ops" and ?s' = "created_store sha256 (run_store sha256 ops) k spec now"
  have inv: "full_inv ?s" "key_inv ?s" "store_inv ?s" "refs_inv ?s"
    using run_store_invs [of sha256 ops] by (simp_all add: full_inv_def)
  have "\<forall>r\<in>set (ts_jobs ?s). \<not> same_identity (js_identity spec) r"
    using fresh(2) latest_identity [OF inv(3)] by blast
  from create_succeeds [OF inv(1,2) spec sha fresh(1) this] obtain j where
    j: "create_job sha256 ?s k spec now = Inr (Created j, ?s')" "sj_job_id j = k"
      "sj_identity j = js_identity spec" "sj_request_digest j = request_digest sha256 spec" by blast
  have ids: "k \<notin> job_ids ?s" using fresh(1) by (simp add: find_job_def find_key_None_iff)
  have row: "read_job ?s' k = Inr (Some j)"
    using j(1) by (cases rule: create_job_Inr) (auto simp: read_Inr)
  have "job_spec sha256 ?s' k = Inr spec"
    using created_spec_loads [OF inv(4) ids spec j(2-4), of now] row by (simp add: job_spec_def)
  moreover have "lifecycle ?s' = (lifecycle ?s)(k \<mapsto> Live TagQueued 1)"
    by (subst add_job_row(2) [OF inv(3), of "new_job_row k Download (natural_key (js_identity spec))
        (js_identity spec) (request_digest sha256 spec) now" ?s'])
      (use fresh(1) created_row_ok(1) [OF spec(1) sha] in \<open>simp_all add: created_store_def\<close>)
  moreover have "?s' = run_store sha256 (ops @ [OpCreate k spec now])"
    using j(1) by (simp add: run_store_snoc settle_snd_def)
  moreover have "ts_next_sequence ?s' = ts_next_sequence ?s" by (simp add: created_store_def)
  ultimately show ?thesis using j(1) by blast
qed

text \<open>
  C23.  Creating a job for a new identity succeeds and the specification can be
  rebuilt from the rows it wrote: the same identity, publication material,
  inventory and selection in the same order, confirmed by the stored digest.
\<close>

theorem create_job_spec_roundtrip:
  assumes "spec_valid spec" "spec_storable spec" "length (request_digest sha256 spec) = 32"
    and "find_job (run_store sha256 ops) k = None"
    and "read_latest_job_by_identity (run_store sha256 ops) (js_identity spec) = Inr None"
  shows "\<exists>j s'. create_job sha256 (run_store sha256 ops) k spec now = Inr (Created j, s') \<and>
    lifecycle s' = (lifecycle (run_store sha256 ops))(k \<mapsto> Live TagQueued 1) \<and>
    job_spec sha256 s' k = Inr spec"
  using create_fresh [OF assms, of now] by blast

lemma latest_after_create:
  assumes inv: "store_inv s" and ok: "create_job sha256 s k spec now = Inr (res, s')"
  shows "read_latest_job_by_identity s' (js_identity spec) = Inr (Some (created_job res)) \<and>
    sj_request_digest (created_job res) = request_digest sha256 spec"
  using ok
proof (cases rule: create_job_Inr)
  case (fresh j jobs specs files ledger)
  let ?r = "new_job_row k Download (natural_key (js_identity spec)) (js_identity spec)
    (request_digest sha256 spec) now"
  have "\<not> same_identity (js_identity spec) r" if "r \<in> set (ts_jobs s)" for r
    using that fresh(1) latest_identity [OF inv] by blast
  then have none: "filter (same_identity (js_identity spec)) (ts_jobs s) = []"
    by (simp add: filter_empty_conv)
  have jobs: "ts_jobs s' = ts_jobs s @ [?r]" using fresh(3) by (simp add: fresh(7) sql_insert_Inr)
  have "same_identity (js_identity spec) ?r" by (simp add: same_identity_def new_job_row_def)
  moreover have "find_job s' k = Some ?r"
    using fresh(2) by (simp add: find_job_def jobs find_append)
  then have "read_job_row ?r = Inr j" using fresh(8) by (simp add: read_Inr)
  moreover from this have "sj_request_digest j = request_digest sha256 spec"
    by (auto simp: read_job_row_Inr new_job_row_def RequestDigest_from_hex_def result_bind_Inr_iff)
  ultimately show ?thesis
    using none jobs fresh(9)
    by (simp add: read_latest_job_by_identity_def decode_job_def last_option_def)
qed simp

lemma read_latest_ok:
  assumes "store_inv s"
  shows "\<exists>latest. read_latest_job_by_identity s i = Inr latest"
proof (cases "last_option (sort_key created_key (filter (same_identity i) (ts_jobs s)))")
  case None
  then show ?thesis by (simp add: read_latest_job_by_identity_def decode_job_def last_option_def)
next
  case (Some r)
  then have "job_row_ok r" using sort_key_last_max(1) [OF Some] inv_row_ok [OF assms] by simp
  with Some show ?thesis
    by (auto simp: read_latest_job_by_identity_def decode_job_def job_row_ok_iff)
qed

lemma result_bind_Inl_iff:
  "result_bind m f = Inl e \<longleftrightarrow> m = Inl e \<or> (\<exists>x. m = Inr x \<and> f x = Inl e)"
  by (cases m) auto

lemma map_err_Inl_iff [simp]: "map_err g m = Inl e \<longleftrightarrow> (\<exists>q. m = Inl q \<and> e = g q)"
  by (cases m) auto

lemma create_error_kind:
  assumes "create_job sha256 s k spec now = Inl e"
    "read_latest_job_by_identity s (js_identity spec) = Inr latest" "latest = None"
    "find_job s k = None"
  shows "\<exists>q. e = CreatePersistence q"
proof -
  have "read_job s k = Inr None" using assms(4) by (simp add: read_Inr)
  with assms show ?thesis
    by (auto simp: create_job_def insert_job_tx_def result_bind_Inl_iff Let_def
        split: option.splits)
qed

text \<open>
  Creation is idempotent and its refusals are typed.  When a request was
  accepted, asking again (under any job identifier, at any time) returns the same
  job and changes nothing.  A refusal is a conflict with a job of the same identity
  and another digest, a job identifier that is taken, or, for the rest, a
  specification the constructors would not have built or the columns cannot hold.
\<close>

theorem create_job_idempotent:
  "case create_job sha256 (run_store sha256 ops) k spec now of
     Inr (res, s') \<Rightarrow> create_job sha256 s' k' spec now' = Inr (Existing (created_job res), s')
   | Inl (RequestDigestMismatch c) \<Rightarrow>
       (\<exists>j. read_latest_job_by_identity (run_store sha256 ops) (js_identity spec) = Inr (Some j) \<and>
          sj_request_digest j \<noteq> request_digest sha256 spec \<and> rc_job_id c = sj_job_id j)
   | Inl (JobIdCollision i other) \<Rightarrow> lifecycle (run_store sha256 ops) k \<noteq> None
   | Inl (CreatePersistence e) \<Rightarrow>
       \<not> (spec_valid spec \<and> spec_storable spec \<and> length (request_digest sha256 spec) = 32)"
proof -
  let ?s = "run_store sha256 ops"
  have inv: "full_inv ?s" "key_inv ?s" "store_inv ?s"
    using run_store_invs [of sha256 ops] by (simp_all add: full_inv_def)
  show ?thesis
  proof (cases "create_job sha256 ?s k spec now")
    case (Inr p)
    obtain res s' where p: "p = (res, s')" by (cases p)
    from latest_after_create [OF inv(3) Inr [unfolded p]] Inr p show ?thesis
      by (simp add: create_job_def [of sha256 s'] insert_job_tx_def)
  next
    case (Inl e)
    obtain latest where l: "read_latest_job_by_identity ?s (js_identity spec) = Inr latest"
      using read_latest_ok [OF inv(3)] by blast
    show ?thesis
    proof (cases latest)
      case (Some j)
      with Inl l show ?thesis
        by (auto simp: create_job_def insert_job_tx_def split: if_splits)
    next
      case None
      have free: "\<forall>r\<in>set (ts_jobs ?s). \<not> same_identity (js_identity spec) r"
        using l None latest_identity [OF inv(3)] by simp
      show ?thesis
      proof (cases "find_job ?s k")
        case None
        with create_succeeds [OF inv(1,2) _ _ _ None free, of sha256 now] Inl
        have "\<not> (spec_valid spec \<and> spec_storable spec \<and> length (request_digest sha256 spec) = 32)"
          by fastforce
        moreover have "\<nexists>c. e = RequestDigestMismatch c" "\<nexists>i x. e = JobIdCollision i x"
          using create_error_kind [OF Inl l \<open>latest = None\<close> None] by blast+
        ultimately show ?thesis using Inl by (cases e) auto
      next
        case (Some r)
        then obtain j where "read_job ?s k = Inr (Some j)"
          using inv_read_job [OF inv(3)] by (auto simp: read_Inr)
        with Inl l \<open>latest = None\<close> have "e = JobIdCollision k (sj_identity j)"
          by (auto simp: create_job_def insert_job_tx_def)
        moreover have "lifecycle ?s k \<noteq> None" using Some lifecycle_None [OF inv(3)] by simp
        ultimately show ?thesis using Inl by simp
      qed
    qed
  qed
qed

section \<open>A concrete run\<close>

definition flat_sha :: "bytes \<Rightarrow> bytes" where
  "flat_sha b = replicate 32 7"

definition sample_spec :: JobSpec where
  "sample_spec =
    \<lparr>js_identity = \<lparr>ji_device_id = ''dev'', ji_session_id = ''s1'', ji_revision = ''r1''\<rparr>,
     js_publication = \<lparr>pm_revision = ''r1'', pm_payload = [1], pm_signature = replicate 64 0,
       pm_public_key = replicate 32 0\<rparr>,
     js_session_files = [\<lparr>jf_file_id = ''a'', jf_display_path = ''a.wav'', jf_size_bytes = 5,
       jf_sha256 = replicate 64 (CHR ''0'')\<rparr>],
     js_requested = [0], js_full_session = True, js_date_label = ''d''\<rparr>"

lemma sample_spec_ok: "spec_valid sample_spec" "spec_storable sample_spec"
  "length (request_digest flat_sha sample_spec) = 32"
proof -
  have "sha256_hex_ok (replicate 64 (CHR ''0''))" "\<not> is_blank ''a.wav''" "\<not> is_blank ''a''"
    "\<not> is_blank ''r1''" "\<not> is_blank ''s1''" "\<not> is_blank ''dev''" by code_simp+
  then show "spec_valid sample_spec"
    by (simp add: spec_valid_def spec_wf_def sample_spec_def JobIdentity_new_def JobFileSpec_new_def
        PublicationMaterial_new_def require_non_empty_def require_sha256_hex_def require_len_def
        PUBLICATION_SIGNATURE_LEN_def PUBLICATION_PUBLIC_KEY_LEN_def)
  show "spec_storable sample_spec" by (simp add: spec_storable_def sample_spec_def)
  show "length (request_digest flat_sha sample_spec) = 32"
    by (simp add: request_digest_def flat_sha_def)
qed

lemma empty_run: "run_store sha256 [] = empty_store"
  "find_job empty_store k = None" "read_latest_job_by_identity empty_store i = Inr None"
  "lifecycle empty_store k = None"
  by (simp_all add: run_store_def find_job_def find_outbox_def empty_store_def decode_job_def
      read_latest_job_by_identity_def last_option_def lifecycle_def phase_of_rows_def)

theorem create_job_spec_roundtrip_witness:
  "\<exists>j s'. create_job flat_sha empty_store ''job-1'' sample_spec ''t0'' = Inr (Created j, s') \<and>
    job_spec flat_sha s' ''job-1'' = Inr sample_spec"
proof -
  note fresh = empty_run(2,3) [folded empty_run(1) [of flat_sha]]
  from create_job_spec_roundtrip [OF sample_spec_ok fresh, of "''job-1''" "''t0''"]
  show ?thesis unfolding empty_run(1) by blast
qed

lemma sample_live:
  "lifecycle (run_store flat_sha [OpCreate ''job-1'' sample_spec ''t0'']) ''job-1'' =
     Some (Live TagQueued 1)"
  "ts_next_sequence (run_store flat_sha [OpCreate ''job-1'' sample_spec ''t0'']) = 1"
proof -
  note fresh = empty_run(2,3) [folded empty_run(1) [of flat_sha]]
  from create_fresh [OF sample_spec_ok fresh, of "''job-1''" "''t0''"]
  show "lifecycle (run_store flat_sha [OpCreate ''job-1'' sample_spec ''t0'']) ''job-1'' =
     Some (Live TagQueued 1)"
    "ts_next_sequence (run_store flat_sha [OpCreate ''job-1'' sample_spec ''t0'']) = 1"
    by (auto simp: empty_run(1)) (simp add: empty_store_def)
qed

abbreviation sample_ended :: "store_op list" where
  "sample_ended \<equiv> [OpCreate ''job-1'' sample_spec ''t0'',
     OpComplete ''job-1'' (OutcomeFailed ''e'' True) ''t1'']"

lemma sample_completed:
  "lifecycle (run_store flat_sha sample_ended) ''job-1'' =
     Some (Ended (OutcomeFailed ''e'' True) 2 False)"
proof -
  let ?s = "run_store flat_sha [OpCreate ''job-1'' sample_spec ''t0'']"
  have "unat (1 :: u64) < i64_max" "ts_next_sequence ?s \<le> int i64_max"
    by (simp_all add: sample_live(2) i64_max_def)
  from complete_enabled [OF run_store_inv sample_live(1) this] obtain c s' where
    c: "complete_job ?s ''job-1'' (OutcomeFailed ''e'' True) ''t1'' = Inr (Recorded c, s')" by blast
  have "run_store flat_sha sample_ended = s'"
    using c run_store_snoc [of flat_sha "[OpCreate ''job-1'' sample_spec ''t0'']"
      "OpComplete ''job-1'' (OutcomeFailed ''e'' True) ''t1''"] by (simp add: settle_snd_def)
  with complete_live [OF run_store_inv sample_live(1) c] show ?thesis by simp
qed

theorem unacknowledged_outcome_survives_witness:
  "lifecycle (run_store flat_sha (sample_ended @ [OpDelete ''job-1'', OpRetarget ''job-1'' ''b'' ''t2''])) ''job-1'' =
     Some (Ended (OutcomeFailed ''e'' True) 2 False) \<or>
   (\<exists>pre post. [OpDelete ''job-1'', OpRetarget ''job-1'' ''b'' ''t2''] = pre @ post \<and>
      lifecycle (run_store flat_sha (sample_ended @ pre)) ''job-1'' =
        Some (Ended (OutcomeFailed ''e'' True) 2 True))"
  by (rule unacknowledged_outcome_survives [OF sample_completed])

end
