(* ===== verification/Coordinator_Liveness.thy ===== *)
theory Coordinator_Liveness
  imports Coordinator_Runs Store_Properties
begin

text \<open>
  What the coordinator achieves, beyond what it never breaks: a commit on a live
  job succeeds as long as the version and the outbox sequence fit their columns, so
  a worker whose data plane succeeds drives a job to success within five passes,
  and a user can always cancel a job no worker holds.
\<close>

section \<open>Enabled commits\<close>

lemma view_live:
  assumes inv: "store_inv s" and view: "job_view s k = Some (st, v, d)" "\<not> is_terminal st"
  shows "\<exists>t. lifecycle s k = Some (Live t v)"
proof -
  from inv view(1) obtain r j where r: "find_job s k = Some r" "read_job_row r = Inr j"
    "tag_to_state (sj_state j) (sj_error j) = Some st" "sj_state_version j = v" by (rule view_row)
  have "\<not> sql_terminal (jr_state r)"
    using tag_to_state_terminal [OF r(3)] view(2) read_job_row_fields [OF r(2)] by simp
  then have "find_outbox s k = None" using inv_terminal_outbox [OF inv r(1)] by simp
  from lifecycle_live [OF r(1,2) this] r(4) show ?thesis by simp
qed

lemma state_tag_live: "\<not> is_terminal to \<Longrightarrow> snd (state_to_tag to) = None \<and> \<not> tag_is_terminal (fst (state_to_tag to))"
  by (cases to) (simp_all add: is_terminal_def codec_simps)

lemma terminal_outcome_exists:
  "is_terminal to \<Longrightarrow> \<exists>oc. terminal_outcome_of (fst (state_to_tag to)) (snd (state_to_tag to)) = Some oc"
  by (cases to) (simp_all add: is_terminal_def codec_simps)

lemma commit_enabled:
  assumes inv: "store_inv s" and view: "job_view s k = Some (st, v, d)" "\<not> is_terminal st"
    and room: "unat v < i64_max" "ts_next_sequence s \<le> int i64_max"
  shows "\<exists>s'. commit_durably now k v to s = Inr s' \<and> (\<not> is_terminal to \<longrightarrow> ts_next_sequence s' = ts_next_sequence s)"
proof (cases "is_terminal to")
  case True
  from view_live [OF inv view] obtain t where l: "lifecycle s k = Some (Live t v)" ..
  from live_completion [OF inv l] obtain j where "read_job s k = Inr (Some j)" "sj_state_version j = v" by blast
  moreover obtain oc where "terminal_outcome_of (fst (state_to_tag to)) (snd (state_to_tag to)) = Some oc"
    using terminal_outcome_exists [OF True] by blast
  moreover obtain c s' where "complete_job s k oc now = Inr (Recorded c, s')"
    using complete_enabled [OF inv l room] by blast
  ultimately show ?thesis using True by (simp add: commit_durably_def split_beta)
next
  case False
  from view_live [OF inv view] obtain t where l: "lifecycle s k = Some (Live t v)" ..
  note F = state_tag_live [OF False]
  from transition_enabled [OF inv l room(1)] F obtain s' where
    tr: "transition_job s k v (fst (state_to_tag to)) None now = Inr (v + 1, s')" by blast
  then have "ts_next_sequence s' = ts_next_sequence s"
    using transition_job_Inr(6) [OF tr] by (auto simp: update_jobs_Inr)
  with tr F False show ?thesis by (simp add: commit_durably_def split_beta)
qed

lemma desired_enabled:
  assumes inv: "store_inv s" and view: "job_view s k = Some (st, v, d0)"
  shows "\<exists>s'. set_desired_run_state s k d now (Some v) = Inr s' \<and> ts_next_sequence s' = ts_next_sequence s"
proof -
  from inv view obtain r j where r: "find_job s k = Some r" "read_job_row r = Inr j"
    "sj_state_version j = v" by (rule view_row)
  let ?sel = "\<lambda>r. jr_job_id r = k \<and> jr_state_version r = uint v"
  let ?f = "\<lambda>r. r\<lparr>jr_desired := desired_run_state_db d, jr_updated_at := now\<rparr>"
  have rin: "r \<in> set (ts_jobs s)" "jr_job_id r = k" using r(1) inv_find_job [OF inv] by auto
  have ver: "jr_state_version r = uint v" using read_job_row_fields [OF r(2)] r(3) by simp
  have "job_check (?f x)" if "x \<in> set (ts_jobs s)" for x
    using inv_row_ok [OF inv that] by (auto simp: job_row_ok_def job_check_def)
  then obtain s' where up: "update_jobs ?sel ?f s = Inr s'" by (auto simp: update_jobs_Inr)
  moreover have "int_column (uint v)" using ver r(2) by (auto simp: read_job_row_Inr)
  then have "checked_i64 v ''expected_version'' = Inr (uint v)"
    using uint_le_nat [of v i64_max] by (simp add: checked_i64_def int_column_def int_i64_max)
  moreover have "changed_rows ?sel (ts_jobs s) \<noteq> 0" using rin ver by auto
  ultimately have "set_desired_run_state s k d now (Some v) = Inr s'"
    by (simp add: set_desired_run_state_def Let_def checked_i64_def)
  moreover have "ts_next_sequence s' = ts_next_sequence s" using up by (auto simp: update_jobs_Inr)
  ultimately show ?thesis by blast
qed

section \<open>Enabled commands\<close>

abbreviation sequence_room :: "Inner \<Rightarrow> bool" where
  "sequence_room s \<equiv> ts_next_sequence (in_store s) \<le> int i64_max"

text \<open>What no effect touches: the request of a job and the observation counter.\<close>

definition same_request :: "Inner \<Rightarrow> Inner \<Rightarrow> bool" where
  "same_request s s' \<longleftrightarrow> in_observation s' = in_observation s \<and>
    (\<forall>k. map_option mj_request (in_jobs s' k) = map_option mj_request (in_jobs s k))"

lemma same_request_refl [simp]: "same_request s s"
  by (simp add: same_request_def)

lemma same_request_trans: "same_request s s' \<Longrightarrow> same_request s' s'' \<Longrightarrow> same_request s s''"
  by (simp add: same_request_def)

lemma same_request_fault [simp]: "same_request s (job_fault j kind cls t) = same_request s t"
  by (simp add: same_request_def job_fault_def record_fault_def)

lemma same_request_offer [simp]: "same_request s (offer_job j t) = same_request s t"
  by (simp add: same_request_def offer_job_def schedule_job_def Let_def job_fault_def record_fault_def
      split: prod.splits ScheduleOutcome.splits)

lemma perform_same_request: "same_request s (snd (perform now k e s))"
  by (cases e) (auto simp: same_request_def commit_transition_def update_job_def update_cell_def
      update_control_def job_fault_def record_fault_def offer_job_def schedule_job_def Let_def
      split: option.splits sum.splits prod.splits ScheduleOutcome.splits)

lemma perform_all_same_request: "same_request s (snd (perform_all clock k i es s))"
proof (induction es arbitrary: s i)
  case (Cons e es)
  obtain r1 s1 where p: "perform (clock i) k e s = (r1, s1)" by fastforce
  then have "same_request s s1" using perform_same_request by (metis snd_conv)
  with Cons.IH [of s1 "Suc i"] show ?case
    using p by (cases r1) (auto simp: co_bind_def intro: same_request_trans)
qed (simp add: co_return_def)

lemma chain_live: "commit_chain v st ((w, t) # cs) \<Longrightarrow> \<not> is_terminal st"
  using domain_graph.terminal_stuck by auto

lemma unat_succ: "unat (v :: u64) + Suc n \<le> i64_max \<Longrightarrow> unat (v + 1) + n \<le> i64_max"
  by (simp add: unat_word_ariths i64_max_def)

lemma perform_enabled:
  assumes co: "coherent s" and m: "mem_view s k = Some (st, v, d)"
    and ch: "commit_chain v st (commits (e # es))"
    and room: "unat v + length (commits (e # es)) \<le> i64_max" "is_terminal st \<or> sequence_room s"
  shows "\<exists>s' st' v' d'. perform now k e s = (Inr (), s') \<and> coherent s' \<and>
    mem_view s' k = Some (st', v', d') \<and> commit_chain v' st' (commits es) \<and>
    unat v' + length (commits es) \<le> i64_max \<and> (is_terminal st' \<or> sequence_room s') \<and>
    last (st # map snd (commits (e # es))) = last (st' # map snd (commits es))"
proof -
  from m obtain mj c where mc: "in_jobs s k = Some mj" "in_cells s k = Some c" "cl_version c = v"
    by (auto simp: mem_view_def split: option.splits)
  note V = coherent_view [OF co m]
  obtain r s' where p: "perform now k e s = (r, s')" by fastforce
  consider (commit) t where "e = Commit v t" "\<not> is_terminal st" "commit_chain (v + 1) t (commits es)"
      "unat v + Suc (length (commits es)) \<le> i64_max"
    | (desired) d' where "e = SetDesiredRunState d'" "commits (e # es) = commits es"
    | (other) "\<forall>v t. e \<noteq> Commit v t" "\<forall>d. e \<noteq> SetDesiredRunState d" "commits (e # es) = commits es"
    using ch room(1) domain_graph.terminal_stuck by (cases e) auto
  then show ?thesis
  proof cases
    case (commit t)
    from commit_enabled [OF V commit(2), of now t] commit(2,4) room(2) obtain st' where
      st': "commit_durably now k v t (in_store s) = Inr st'"
      "\<not> is_terminal t \<longrightarrow> ts_next_sequence st' = ts_next_sequence (in_store s)" by auto
    have r: "r = Inr ()" "in_store s' = st'"
      using p mc st'(1) commit(1) by (auto simp: commit_transition_def update_job_def update_cell_def)
    with perform_commit [OF co m commit(2) p [unfolded commit(1)]] show ?thesis
      using p commit room(2) st'(2) unat_succ [OF commit(4)] by (auto simp: commit(1))
  next
    case (desired d')
    from desired_enabled [OF V] obtain st' where
      st': "set_desired_run_state (in_store s) k d' now (Some v) = Inr st'"
      "ts_next_sequence st' = ts_next_sequence (in_store s)" by blast
    have r: "r = Inr ()" "in_store s' = st'"
      using p mc st'(1) desired(1) by (auto simp: update_job_def)
    with perform_desired [OF co m p [unfolded desired(1)]] show ?thesis
      using p ch room desired st'(2) by auto
  next
    case other
    note P = perform_quiet [OF other(1,2) p]
    have "coherent s'" using P co coherent_quiet [of s s'] by blast
    then show ?thesis using P p m ch room other(3) by (auto simp: quiet_step_def)
  qed
qed

lemma perform_all_enabled:
  assumes "coherent s" "mem_view s k = Some (st, v, d)" "commit_chain v st (commits es)"
    "unat v + length (commits es) \<le> i64_max" "is_terminal st \<or> sequence_room s"
  shows "\<exists>s'. perform_all clock k i es s = (Inr (), s') \<and>
    (is_terminal (last (st # map snd (commits es))) \<or> sequence_room s')"
  using assms
proof (induction es arbitrary: s st v d i)
  case (Cons e es)
  from perform_enabled [OF Cons.prems, of "clock i"] obtain s1 st1 v1 d1 where
    p: "perform (clock i) k e s = (Inr (), s1)" "coherent s1" "mem_view s1 k = Some (st1, v1, d1)"
      "commit_chain v1 st1 (commits es)" "unat v1 + length (commits es) \<le> i64_max"
      "is_terminal st1 \<or> sequence_room s1"
      "last (st # map snd (commits (e # es))) = last (st1 # map snd (commits es))" by blast
  from Cons.IH [OF p(2-6), of "Suc i"] p(1,7) show ?case by (auto simp: co_bind_def)
qed (simp add: co_return_def)

lemma map_filter_rev: "List.map_filter f (rev xs) = rev (List.map_filter f xs)"
  by (induction xs) (auto simp: List.map_filter_def)

lemma final_state_commits: "final_state d st = last (st # map snd (commits (effects d)))"
proof -
  have "List.map_filter commit_target es = map snd (commits es)" for es
  proof (induction es)
    case (Cons e es)
    then show ?case by (cases e) (simp_all add: List.map_filter_simps)
  qed (simp add: List.map_filter_simps)
  then have "final_state d st = (case rev (map snd (commits (effects d))) of t # _ \<Rightarrow> t | [] \<Rightarrow> st)"
    by (simp add: final_state_def map_filter_rev)
  then show ?thesis by (cases "map snd (commits (effects d))" rule: rev_cases) simp_all
qed

lemma no_await_takeWhile:
  "AwaitWorkerRelease \<notin> set es \<Longrightarrow> takeWhile (\<lambda>e. e \<noteq> AwaitWorkerRelease) es = es \<and>
    dropWhile (\<lambda>e. e \<noteq> AwaitWorkerRelease) es = []"
  by (induction es) auto

lemma apply_checked_commits:
  assumes co: "coherent s" and c: "in_cells s k = Some c" and a: "load_aggregate k c s = Inr a"
    and ap: "apply_checked others clock k cmd expected s = (Inr out, s')"
    and na: "AwaitWorkerRelease \<notin> set (effects (decide a cmd))"
  shows "out = outcome (decide a cmd) \<and> coherent s' \<and>
    (\<exists>d. mem_view s' k = Some (final_state (decide a cmd) (agg_state a),
       agg_version a + of_nat (length (commits (effects (decide a cmd)))), d))"
proof -
  from a obtain m where m: "in_jobs s k = Some m" "a = \<lparr>agg_state = mj_state m,
      agg_version = cl_version c, agg_desired = mj_desired m, agg_observed = cl_observed c\<rparr>"
    by (auto simp: load_aggregate_def split: option.splits)
  then have mv: "mem_view s k = Some (agg_state a, agg_version a, agg_desired a)"
    using c by (simp add: mem_view_def)
  have ad: "apply_decision others clock k (decide a cmd) s = (Inr out, s')"
    using ap c a by (auto simp: apply_checked_def split: option.splits if_splits)
  then have nr: "\<not> is_rejected (outcome (decide a cmd))"
    by (cases "outcome (decide a cmd)") (simp_all add: apply_decision_def co_fail_def)
  obtain r s1 where p: "perform_all clock k 0 (effects (decide a cmd)) s = (r, s1)" by fastforce
  note A = no_await_takeWhile [OF na]
  have "r = Inr () \<and> s1 = s' \<and> out = outcome (decide a cmd)"
    using ad p nr
    by (cases "outcome (decide a cmd)"; cases r)
      (simp_all add: apply_decision_def co_bind_def co_return_def A Let_def)
  with perform_all_coherent [OF co mv decide_chain p] show ?thesis by (simp add: final_state_commits)
qed



lemma apply_enabled:
  assumes co: "coherent s" and c: "in_cells s k = Some c" and a: "load_aggregate k c s = Inr a"
    and nr: "\<not> is_rejected (outcome (decide a cmd))"
    and na: "AwaitWorkerRelease \<notin> set (effects (decide a cmd))"
    and room: "unat (agg_version a) + length (commits (effects (decide a cmd))) \<le> i64_max"
      "is_terminal (agg_state a) \<or> sequence_room s"
  shows "\<exists>s'. apply_command others clock k cmd s = (Inr (outcome (decide a cmd)), s') \<and>
    coherent s' \<and> same_request s s' \<and>
    (is_terminal (final_state (decide a cmd) (agg_state a)) \<or> sequence_room s') \<and>
    (\<exists>d. mem_view s' k = Some (final_state (decide a cmd) (agg_state a),
       agg_version a + of_nat (length (commits (effects (decide a cmd)))), d))"
proof -
  let ?d = "decide a cmd"
  from a obtain m where m: "in_jobs s k = Some m" "a = \<lparr>agg_state = mj_state m,
      agg_version = cl_version c, agg_desired = mj_desired m, agg_observed = cl_observed c\<rparr>"
    by (auto simp: load_aggregate_def split: option.splits)
  then have mv: "mem_view s k = Some (agg_state a, agg_version a, agg_desired a)"
    using c by (simp add: mem_view_def)
  from perform_all_enabled [OF co mv decide_chain room] obtain s' where
    p: "perform_all clock k 0 (effects ?d) s = (Inr (), s')"
      "is_terminal (last (agg_state a # map snd (commits (effects ?d)))) \<or> sequence_room s'" by blast
  have "k \<in> dom (in_controls s)" using co m(1) by (auto simp: coherent_def)
  then have "apply_command others clock k cmd s = apply_decision others clock k ?d s"
    using c a by (auto simp: apply_command_def apply_checked_def)
  also have "\<dots> = (Inr (outcome ?d), s')"
    using p(1) nr
    by (cases "outcome ?d")
      (simp_all add: apply_decision_def co_bind_def co_return_def Let_def no_await_takeWhile [OF na])
  finally have ap: "apply_command others clock k cmd s = (Inr (outcome ?d), s')" .
  have "same_request s s'" using perform_all_same_request [of s clock k 0 "effects ?d"] p(1) by simp
  with ap p(2) apply_checked_commits [OF co c a ap [unfolded apply_command_def] na]
  show ?thesis by (simp add: final_state_commits)
qed

section \<open>A worker that succeeds\<close>

text \<open>
  \<open>poised k st v d rq s\<close>: job \<open>k\<close> with request \<open>rq\<close> rests in state \<open>st\<close> at version
  \<open>v\<close> in a coherent coordinator, and the observation counter has not wrapped past what
  the job has seen.
\<close>

definition poised ::
    "job_id \<Rightarrow> TransferJobState \<Rightarrow> u64 \<Rightarrow> DesiredRunState \<Rightarrow> TransferRequest \<Rightarrow> Inner \<Rightarrow> bool" where
  "poised k st v d rq s \<longleftrightarrow> coherent s \<and> sequence_room s \<and> mem_view s k = Some (st, v, d) \<and>
    map_option mj_request (in_jobs s k) = Some rq \<and>
    (parked st \<longrightarrow> (\<forall>c. in_cells s k = Some c \<longrightarrow> cl_observed c \<le> in_observation s + 1))"

lemma poisedE:
  assumes "poised k st v d rq s"
  obtains m c where "coherent s" "sequence_room s" "in_jobs s k = Some m" "in_cells s k = Some c"
    "mj_state m = st" "cl_version c = v" "mj_desired m = d" "mj_request m = rq"
    "parked st \<Longrightarrow> cl_observed c \<le> in_observation s + 1"
    "load_aggregate k c s = Inr \<lparr>agg_state = st, agg_version = v, agg_desired = d, agg_observed = cl_observed c\<rparr>"
  using assms
  by (auto simp: poised_def mem_view_def load_aggregate_def split: option.splits)

lemma poised_quiet:
  assumes "poised k st v d rq s" "quiet_step s s'" "same_request s s'" "\<not> parked st"
  shows "poised k st v d rq s'"
  using assms coherent_quiet [of s s'] by (simp add: poised_def quiet_step_def same_request_def)

lemma report_succeeds:
  assumes po: "poised k st v d rq s" and r: "expected_state report = Some st" "worker_target report = Some to"
    and room: "unat v < i64_max" and np: "\<not> parked to"
  shows "\<exists>s'. worker_report clock k report s = (Inr Accepted, s') \<and> coherent s' \<and>
    (\<exists>d'. mem_view s' k = Some (to, v + 1, d') \<and> (\<not> is_terminal to \<longrightarrow> poised k to (v + 1) d' rq s'))"
proof -
  from po obtain c where P: "coherent s" "sequence_room s" "in_cells s k = Some c"
    "map_option mj_request (in_jobs s k) = Some rq"
    "load_aggregate k c s = Inr \<lparr>agg_state = st, agg_version = v, agg_desired = d, agg_observed = cl_observed c\<rparr>"
    by (auto elim: poisedE)
  let ?a = "\<lparr>agg_state = st, agg_version = v, agg_desired = d, agg_observed = cl_observed c\<rparr>"
  have st: "\<not> is_terminal st" "st \<noteq> Cancelling" using r(1) by (cases report; auto)+
  have D: "decide ?a (Worker report) = accepted [Commit v to]"
    using st r by (cases report) (simp_all add: decide_worker_def commit_def)
  from apply_enabled [OF P(1,3,5), of "Worker report" id clock] P(2) room
  obtain s' d' where s': "apply_command id clock k (Worker report) s = (Inr Accepted, s')" "coherent s'"
    "same_request s s'" "is_terminal to \<or> sequence_room s'" "mem_view s' k = Some (to, v + 1, d')"
    by (auto simp: D final_state_commits simp del: decide.simps)
  have "poised k to (v + 1) d' rq s'" if "\<not> is_terminal to"
    using s' that P(4) np by (simp add: poised_def same_request_def)
  with s' show ?thesis by (auto simp: worker_report_def)
qed

lemma unat_add_of_nat_le: "unat (v + of_nat n :: u64) \<le> unat v + n"
proof -
  have "unat (of_nat n :: u64) \<le> n" by (simp add: unat_of_nat)
  moreover have "unat (v + of_nat n) \<le> unat v + unat (of_nat n :: u64)"
    unfolding unat_word_ariths(1) by (rule mod_less_eq_dividend)
  ultimately show ?thesis by linarith
qed

lemma readiness_version [simp]: "readiness (sn\<lparr>snap_version := n\<rparr>) = readiness sn"
  by (cases sn) (simp add: readiness_def split: ConnectionState.splits)

lemma observation_starts_job:
  assumes po: "poised k st v Run rq s" and p: "parked st" and room: "unat v + 2 \<le> i64_max"
    and ready: "\<And>n. readiness (po_device ports n dev) = Ready"
  shows "\<exists>s' w d. observe_or_fault ports clock k dev s = (Some Ready, s') \<and>
    poised k Preparing w d rq s' \<and> unat w \<le> unat v + 2"
proof -
  from po obtain m c where P: "coherent s" "sequence_room s" "in_cells s k = Some c"
    "map_option mj_request (in_jobs s k) = Some rq" "cl_observed c \<le> in_observation s + 1"
    "load_aggregate k c s = Inr \<lparr>agg_state = st, agg_version = v, agg_desired = Run, agg_observed = cl_observed c\<rparr>"
    using p by (auto elim: poisedE)
  let ?a = "\<lparr>agg_state = st, agg_version = v, agg_desired = Run, agg_observed = cl_observed c\<rparr>"
  obtain snap s1 where ds: "device_snapshot ports dev s = (snap, s1)" by fastforce
  then have D1: "s1 = s\<lparr>in_observation := in_observation s + 1\<rparr>" "snap_version snap = in_observation s + 1"
    "readiness snap = Ready"
    using ready by (auto simp: device_snapshot_def Let_def readiness_version)
  have la: "load_aggregate k c s1 = Inr ?a" "in_cells s1 k = Some c" "sequence_room s1"
    using P D1 by (simp_all add: load_aggregate_def)
  have co1: "coherent s1" using P(1) coherent_quiet [OF quiet_observation] by (simp add: D1)
  obtain cs where cs: "commits_towards ?a Preparing = Some cs" "cs \<noteq> []"
    "length (commits cs) \<le> 2" "last (st # map snd (commits cs)) = Preparing"
    "AwaitWorkerRelease \<notin> set cs"
    using p by (auto simp: parked_def commits_towards_def route_def graph_defs)
  let ?d = "decide ?a (DeviceObserved snap)"
  have D: "?d = accepted (RecordDeviceVersion (snap_version snap) # cs)"
    using p cs(1,2) D1(2,3) P(5)
    by (auto simp: decide_device_observed_def observed_target_def Let_def parked_def)
  from apply_enabled [OF co1 la(2,1), of "DeviceObserved snap" id clock] la(3) room cs(3,5)
  obtain s' d' where s': "apply_command id clock k (DeviceObserved snap) s1 = (Inr Accepted, s')" "coherent s'"
    "same_request s1 s'" "sequence_room s'"
    "mem_view s' k = Some (Preparing, v + of_nat (length (commits cs)), d')"
    using cs(4) by (auto simp: D final_state_commits simp del: decide.simps)
  have "poised k Preparing (v + of_nat (length (commits cs))) d' rq s'"
    using s' P(4) D1(1) by (simp add: poised_def same_request_def parked_def)
  moreover have "unat (v + of_nat (length (commits cs))) \<le> unat v + 2"
    using cs(3) unat_add_of_nat_le [of v "length (commits cs)"] by simp
  moreover have "observe_or_fault ports clock k dev s = (Some Ready, s')"
    using ds s'(1) D1(3) by (simp add: observe_or_fault_def observe_device_def co_bind_def co_return_def)
  ultimately show ?thesis by blast
qed


text \<open>What may happen to the rest of the system while job \<open>k\<close> rests in any state.\<close>

definition spares :: "job_id \<Rightarrow> (Inner \<Rightarrow> Inner) \<Rightarrow> bool" where
  "spares k f \<longleftrightarrow> (\<forall>st v d rq s. poised k st v d rq s \<longrightarrow> poised k st v d rq (f s))"

definition plane_succeeds :: "Plane \<Rightarrow> job_id \<Rightarrow> bool" where
  "plane_succeeds plane k \<longleftrightarrow>
    spares k (\<lambda>s. snd (pl_transfer plane k s)) \<and> (\<forall>s. \<exists>files. fst (pl_transfer plane k s) = AllDone files) \<and>
    spares k (\<lambda>s. snd (pl_commit plane k s)) \<and> (\<forall>s. fst (pl_commit plane k s) = None)"

lemma verified_files_quiet:
  "quiet_step s (set_verified_files k files s)" "same_request s (set_verified_files k files s)"
  unfolding set_verified_files_def
  by (rule quiet_update_job; simp)
    (auto simp: same_request_def update_job_def split: option.splits)

lemma drain_same_request: "same_request s (drain_checkpoint_fault k s)"
  by (auto simp: drain_checkpoint_fault_def same_request_def Let_def job_fault_def record_fault_def
      split: option.splits prod.splits)

lemma poised_job: "poised k st v d rq s \<Longrightarrow> \<exists>m. in_jobs s k = Some m \<and> mj_state m = st \<and>
    mj_desired m = d \<and> mj_request m = rq"
  by (erule poisedE) auto

lemma pass_parked:
  assumes "poised k st v Run rq s" "parked st" "unat v + 2 \<le> i64_max"
    and "\<And>n. readiness (po_device ports n (tr_device_id rq)) = Ready"
  shows "\<exists>s' w d. process_pass plane ports clock shown k s = Inr s' \<and>
    poised k Preparing w d rq s' \<and> unat w \<le> unat v + 2"
proof -
  from observation_starts_job [OF assms, of clock] obtain s' w d where
    "observe_or_fault ports clock k (tr_device_id rq) s = (Some Ready, s')"
    "poised k Preparing w d rq s'" "unat w \<le> unat v + 2" by blast
  moreover from this poised_job [OF assms(1)] assms(2)
  have "process_pass plane ports clock shown k s = Inr s'" by (auto simp: process_pass_def Let_def)
  ultimately show ?thesis by blast
qed

lemma pass_report:
  assumes po: "poised k st v d rq s" and room: "unat v < i64_max"
    and r: "expected_state report = Some st" "worker_target report = Some to" "\<not> is_terminal to" "\<not> parked to"
    and pass: "process_pass plane ports clock shown k s = continue_unless_error (worker_report clock k report t)"
      "poised k st v d rq t"
  shows "\<exists>s' w d. process_pass plane ports clock shown k s = Inr s' \<and>
    poised k to w d rq s' \<and> unat w \<le> unat v + 1"
proof -
  from report_succeeds [OF pass(2) r(1,2) room r(4), of clock] r(3) obtain s' d' where
    "worker_report clock k report t = (Inr Accepted, s')" "poised k to (v + 1) d' rq s'" by blast
  then show ?thesis using pass(1) unat_add_of_nat_le [of v 1] by (auto simp: continue_unless_error_def)
qed

lemma pass_preparing:
  assumes po: "poised k Preparing v d rq s" and room: "unat v < i64_max"
    and ok: "verify_request_publication ports rq = Inr ()"
  shows "\<exists>s' w d. process_pass plane ports clock shown k s = Inr s' \<and>
    poised k Transferring w d rq s' \<and> unat w \<le> unat v + 1"
  by (rule pass_report [OF po room, of Prepared _ _ _ _ _ s])
    (use poised_job [OF po] po ok in \<open>auto simp: process_pass_def Let_def parked_def\<close>)

lemma pass_transferring:
  assumes po: "poised k Transferring v d rq s" and room: "unat v < i64_max"
    and plane: "plane_succeeds plane k"
  shows "\<exists>s' w d. process_pass plane ports clock shown k s = Inr s' \<and>
    poised k Verifying w d rq s' \<and> unat w \<le> unat v + 1"
proof -
  obtain files t where t: "pl_transfer plane k s = (AllDone files, t)"
    using plane by (metis plane_succeeds_def prod.collapse)
  have "poised k Transferring v d rq t"
    using plane po t by (metis plane_succeeds_def spares_def snd_conv)
  then have "poised k Transferring v d rq (set_verified_files k files (drain_checkpoint_fault k t))"
    by (intro poised_quiet [OF poised_quiet [OF _ drain_quiet drain_same_request] verified_files_quiet])
      (simp_all add: parked_def)
  then show ?thesis
    by (intro pass_report [OF po room, of TransferComplete])
      (use poised_job [OF po] t in \<open>auto simp: process_pass_def after_transfer_def Let_def parked_def\<close>)
qed

lemma pass_verifying:
  assumes po: "poised k Verifying v d rq s" and room: "unat v < i64_max"
  shows "\<exists>s' w d. process_pass plane ports clock shown k s = Inr s' \<and>
    poised k Committing w d rq s' \<and> unat w \<le> unat v + 1"
  by (rule pass_report [OF po room, of WorkerReport.Verified _ _ _ _ _ s])
    (use poised_job [OF po] po in \<open>auto simp: process_pass_def Let_def parked_def\<close>)

lemma pass_committing:
  assumes po: "poised k Committing v d rq s" and room: "unat v < i64_max"
    and plane: "plane_succeeds plane k"
  shows "\<exists>s' d'. process_pass plane ports clock shown k s = Inl s' \<and> coherent s' \<and>
    mem_view s' k = Some (Succeeded, v + 1, d')"
proof -
  obtain t where t: "pl_commit plane k s = (None, t)" using plane by (metis plane_succeeds_def prod.collapse)
  have "poised k Committing v d rq t" using plane po t by (metis plane_succeeds_def spares_def snd_conv)
  from report_succeeds [OF this, of CommitComplete Succeeded clock] room obtain s' d' where
    "worker_report clock k CommitComplete t = (Inr Accepted, s')" "coherent s'"
    "mem_view s' k = Some (Succeeded, v + 1, d')" by (auto simp: parked_def)
  then show ?thesis using poised_job [OF po] t by (auto simp: process_pass_def Let_def parked_def)
qed

text \<open>
  Five passes suffice: the loop of a worker leaves a parked job in success when
  the device is ready, the publication verifies and the data plane succeeds,
  whatever the other threads do to other jobs in between.
\<close>

lemma worker_loop_succeeds:
  assumes po: "poised k st v Run rq s" "parked st" and room: "unat v + 7 \<le> i64_max"
    and ready: "\<And>n. readiness (po_device ports n (tr_device_id rq)) = Ready"
    and ok: "verify_request_publication ports rq = Inr ()"
    and plane: "plane_succeeds plane k" and between: "\<And>n. spares k (between n)"
  shows "\<exists>s' w d. process_loop 5 between plane ports clock shown k s = Some s' \<and> coherent s' \<and>
    mem_view s' k = Some (Succeeded, w, d)"
proof -
  have b: "poised k st v d rq (between n t)" if "poised k st v d rq t" for st v d n t
    using between that unfolding spares_def by blast
  from pass_parked [OF b [OF po(1), of 4] po(2) _ ready, of plane clock shown] room obtain s1 v1 d1 where
    p1: "process_pass plane ports clock shown k (between 4 s) = Inr s1" "poised k Preparing v1 d1 rq s1"
      "unat v1 \<le> unat v + 2" by auto
  from pass_preparing [OF b [OF p1(2), of 3] _ ok, of plane clock shown] room p1(3) obtain s2 v2 d2 where
    p2: "process_pass plane ports clock shown k (between 3 s1) = Inr s2" "poised k Transferring v2 d2 rq s2"
      "unat v2 \<le> unat v + 3" by auto
  from pass_transferring [OF b [OF p2(2), of 2] _ plane, of ports clock shown] room p2(3) obtain s3 v3 d3 where
    p3: "process_pass plane ports clock shown k (between 2 s2) = Inr s3" "poised k Verifying v3 d3 rq s3"
      "unat v3 \<le> unat v + 4" by auto
  from pass_verifying [OF b [OF p3(2), of 1], of plane ports clock shown] room p3(3) obtain s4 v4 d4 where
    p4: "process_pass plane ports clock shown k (between 1 s3) = Inr s4" "poised k Committing v4 d4 rq s4"
      "unat v4 \<le> unat v + 5" by auto
  from pass_committing [OF b [OF p4(2), of 0] _ plane, of ports clock shown] room p4(3) obtain s5 d5 where
    p5: "process_pass plane ports clock shown k (between 0 s4) = Inl s5" "coherent s5"
      "mem_view s5 k = Some (Succeeded, v4 + 1, d5)" by auto
  have "process_loop 5 between plane ports clock shown k s = Some s5"
    using p1(1) p2(1) p3(1) p4(1) p5(1) by (simp add: numeral_eq_Suc)
  with p5(2,3) show ?thesis by blast
qed


section \<open>A cancellation that succeeds\<close>

lemma legal_cancelling:
  "\<not> is_terminal st \<Longrightarrow> st \<noteq> Committing \<Longrightarrow> st \<noteq> Cancelling \<Longrightarrow> is_legal_transition st Cancelling"
  by (cases st) (simp_all add: graph_defs)

lemma perform_keeps_worker: "wait_for_inactive k (snd (perform now j e s)) = wait_for_inactive k s"
  by (cases e) (auto simp: wait_for_inactive_def commit_transition_def update_job_def update_cell_def
      update_control_def job_fault_def record_fault_def offer_job_def schedule_job_def Let_def
      request_interrupt_def clear_interrupt_def
      split: option.splits sum.splits prod.splits ScheduleOutcome.splits)

lemma perform_all_keeps_worker:
  "wait_for_inactive k (snd (perform_all clock j i es s)) = wait_for_inactive k s"
proof (induction es arbitrary: s i)
  case (Cons e es)
  obtain r1 s1 where p: "perform (clock i) j e s = (r1, s1)" by fastforce
  then have "wait_for_inactive k s1 = wait_for_inactive k s" using perform_keeps_worker by (metis snd_conv)
  with Cons.IH [of "Suc i" s1] show ?case using p by (cases r1) (auto simp: co_bind_def)
qed (simp add: co_return_def)

lemma cancel_begins:
  assumes po: "poised k st v d rq s" and st: "\<not> is_terminal st" "st \<noteq> Committing"
    and room: "unat v < i64_max"
    and others: "spares k others"
      "\<And>t. wait_for_inactive k t = wait_for_inactive k s \<Longrightarrow> wait_for_inactive k (others t)"
  shows "\<exists>s' w d. apply_command others clock k Cancel s = (Inr Accepted, s') \<and>
    poised k Cancelling w d rq s' \<and> unat w \<le> unat v + 1"
proof -
  from po obtain c where P: "coherent s" "sequence_room s" "in_cells s k = Some c"
    "map_option mj_request (in_jobs s k) = Some rq"
    "load_aggregate k c s = Inr \<lparr>agg_state = st, agg_version = v, agg_desired = d, agg_observed = cl_observed c\<rparr>"
    by (auto elim: poisedE)
  let ?a = "\<lparr>agg_state = st, agg_version = v, agg_desired = d, agg_observed = cl_observed c\<rparr>"
  define es where "es = (if st = Cancelling then [RequestInterrupt IrCancel, Dispatch]
      else [RequestInterrupt IrCancel, Commit v Cancelling, Dispatch])"
  have D: "decide ?a Cancel = accepted (es @ [AwaitWorkerRelease])"
    using st legal_cancelling [of st] by (simp add: decide_cancel_def commit_def es_def)
  have es: "takeWhile (\<lambda>e. e \<noteq> AwaitWorkerRelease) (es @ [AwaitWorkerRelease]) = es"
    "dropWhile (\<lambda>e. e \<noteq> AwaitWorkerRelease) (es @ [AwaitWorkerRelease]) = [AwaitWorkerRelease]"
    "last (st # map snd (commits es)) = Cancelling" "length (commits es) \<le> 1" "commit_chain v st (commits es)"
    using legal_cancelling [OF st] by (simp_all add: es_def)
  have mv: "mem_view s k = Some (st, v, d)" using po by (simp add: poised_def)
  from perform_all_enabled [OF P(1) mv es(5), of clock 0] P(2) room es(3,4) obtain s1 where
    s1: "perform_all clock k 0 es s = (Inr (), s1)" "sequence_room s1" by auto
  have inactive: "wait_for_inactive k (others s1)"
    using others(2) perform_all_keeps_worker [of k clock k 0 es s] s1(1) by simp
  have "map_option mj_request (in_jobs s1 k) = Some rq"
    using perform_all_same_request [of s clock k 0 es] s1(1) P(4) by (simp add: same_request_def)
  with perform_all_coherent [OF P(1) mv es(5) s1(1)] es(3) s1(2)
  obtain d' where "poised k Cancelling (v + of_nat (length (commits es))) d' rq s1"
    by (auto simp: poised_def parked_def)
  then have po': "poised k Cancelling (v + of_nat (length (commits es))) d' rq (others s1)"
    using others(1) by (simp add: spares_def)
  have "k \<in> dom (in_controls s)" using P(1,4) by (auto simp: coherent_def)
  then have "apply_command others clock k Cancel s = (Inr Accepted, others s1)"
    using P(3,5) s1(1) inactive es(1,2) D
    by (auto simp: apply_command_def apply_checked_def apply_decision_def await_and_finish_def co_bind_def
        co_return_def Let_def simp del: decide.simps)
  with po' unat_add_of_nat_le [of v "length (commits es)"] es(4) show ?thesis by fastforce
qed

lemma cancel_ends:
  assumes po: "poised k Cancelling v d rq s" and room: "unat v < i64_max"
  shows "\<exists>s'. finalize_cancel clock k s = (Inr (), s')"
proof -
  from po obtain c where P: "coherent s" "sequence_room s" "in_cells s k = Some c"
    "load_aggregate k c s = Inr \<lparr>agg_state = Cancelling, agg_version = v, agg_desired = d, agg_observed = cl_observed c\<rparr>"
    by (auto elim: poisedE)
  from apply_enabled [OF P(1,3,4), of FinalizeCancel id clock] P(2) room show ?thesis
    by (auto simp: finalize_cancel_def decide_finalize_cancel_def commit_def)
qed

lemma cancel_enabled:
  assumes "poised k st v d rq s" "\<not> is_terminal st" "st \<noteq> Committing" "unat v + 2 \<le> i64_max"
    and "spares k others"
      "\<And>t. wait_for_inactive k t = wait_for_inactive k s \<Longrightarrow> wait_for_inactive k (others t)" "spares k between"
  shows "\<exists>s'. cancel others between clock k s = (Inr (), s')"
proof -
  from cancel_begins [OF assms(1,2,3) _ assms(5,6), of clock] assms(4) obtain s1 w d1 where
    s1: "apply_command others clock k Cancel s = (Inr Accepted, s1)" "poised k Cancelling w d1 rq s1"
      "unat w < i64_max" by auto
  have "poised k Cancelling w d1 rq (between s1)" using assms(7) s1(2) unfolding spares_def by blast
  from cancel_ends [OF this s1(3), of clock] s1(1) show ?thesis by (auto simp: cancel_def)
qed

end
