(* ===== verification/Coordinator_Properties.thy ===== *)
theory Coordinator_Properties
  imports Coordinator_Liveness
begin

text \<open>
  The states a coordinator reaches when its entry points, its dispatcher, its
  workers and the other owners of the store interleave, and what holds in all of
  them.
\<close>

section \<open>Reachable states\<close>

definition Inner_new :: "TransferStore \<Rightarrow> nat \<Rightarrow> path \<Rightarrow> Inner" where
  "Inner_new st num_workers root =
    \<lparr>in_store = st, in_jobs = Map.empty, in_controls = Map.empty, in_cells = Map.empty,
     in_leases = Map.empty, in_queue = WorkQueue_new (max num_workers 1 * 2), in_faults = [],
     in_progress = Map.empty, in_library_root = root, in_shutdown = False, in_observation = 0\<rparr>"

text \<open>
  \<open>reaches s t\<close>: some interleaving takes the coordinator from \<open>s\<close> to \<open>t\<close>.  What
  other threads do while a command waits or between the passes of a worker is any
  such interleaving again.  The last three rules are the store's other clients: the
  acknowledgement of an outcome, the tombstone of a dismissed job and the ledger
  checkpoints a download writes.
\<close>

inductive reaches :: "(bytes \<Rightarrow> bytes) \<Rightarrow> Inner \<Rightarrow> Inner \<Rightarrow> bool" for sha256 where
  stay: "reaches sha256 s s"
| chain: "reaches sha256 s t \<Longrightarrow> reaches sha256 t u \<Longrightarrow> reaches sha256 s u"
| enqueue: "reaches sha256 s (snd (enqueue sha256 ports now fresh request s))"
| enqueue_spec: "reaches sha256 s (snd (enqueue_with_spec sha256 ports now fresh request spec s))"
| recover: "reaches sha256 s (snd (recover_on_startup sha256 ports s))"
| command: "(\<And>t. reaches sha256 t (others t)) \<Longrightarrow>
    reaches sha256 s (snd (apply_checked others clock k cmd expected s))"
| cancel: "(\<And>t. reaches sha256 t (others t)) \<Longrightarrow> (\<And>t. reaches sha256 t (between t)) \<Longrightarrow>
    reaches sha256 s (snd (cancel others between clock k s))"
| retry: "reaches sha256 s (snd (retry sha256 ports clock now child k s))"
| dismiss: "(\<And>t. reaches sha256 t (others t)) \<Longrightarrow>
    reaches sha256 s (snd (dismiss others clock k s))"
| dismiss_runtime: "(\<And>t. reaches sha256 t (others t)) \<Longrightarrow>
    reaches sha256 s (snd (dismiss_runtime others clock k s))"
| tick: "reaches sha256 s (tick ports clock ids s)"
| worker: "(\<And>t. reaches sha256 t (fst (work t))) \<Longrightarrow>
    reaches sha256 s (worker_turn work clock k s)"
| process: "(\<And>n t. reaches sha256 t (between n t)) \<Longrightarrow>
    (\<And>t. reaches sha256 t (snd (pl_transfer plane k t))) \<Longrightarrow>
    (\<And>t. reaches sha256 t (snd (pl_commit plane k t))) \<Longrightarrow>
    process_job fuel between plane ports clock shown k s = Some s' \<Longrightarrow> reaches sha256 s s'"
| shutdown: "reaches sha256 s (snd (shutdown d w s))"
| acknowledge: "reaches sha256 s
    (s\<lparr>in_store := settle_snd (in_store s) (acknowledge_completion (in_store s) k now)\<rparr>)"
| tombstone: "reaches sha256 s (s\<lparr>in_store := settle_snd (in_store s) (dismiss_job (in_store s) k now)\<rparr>)"
| ledger: "reaches sha256 s
    (s\<lparr>in_store := settle (in_store s) (update_file_ledger (in_store s) k fid st n d now)\<rparr>)"

lemma view_jobs_cong: "ts_jobs s' = ts_jobs s \<Longrightarrow> job_view s' = job_view s"
  by (simp add: fun_eq_iff job_view_def read_job_def find_job_def)

lemma acknowledge_view:
  assumes inv: "store_inv s"
  shows "store_inv (settle_snd s (acknowledge_completion s k now)) \<and>
    job_view (settle_snd s (acknowledge_completion s k now)) = job_view s"
proof (rule settle_sndI [where P = "\<lambda>s'. store_inv s' \<and> job_view s' = job_view s"])
  fix x s' assume a: "acknowledge_completion s k now = Inr (x, s')"
  then have "ts_jobs s' = ts_jobs s"
    by (auto simp: acknowledge_completion_def Let_def result_Inr_iffs split: if_splits)
  with acknowledge_inv [OF inv a] view_jobs_cong show "store_inv s' \<and> job_view s' = job_view s" by blast
qed (simp add: inv)

lemma ledger_view:
  assumes inv: "store_inv s"
  shows "store_inv (settle s (update_file_ledger s k fid st n d now)) \<and>
    job_view (settle s (update_file_ledger s k fid st n d now)) = job_view s"
proof (rule settleI [where P = "\<lambda>s'. store_inv s' \<and> job_view s' = job_view s"])
  fix s' assume a: "update_file_ledger s k fid st n d now = Inr s'"
  then have "ts_jobs s' = ts_jobs s"
    by (auto simp: update_file_ledger_def result_bind_Inr_iff split: if_splits)
  with ledger_inv [OF inv a] view_jobs_cong show "store_inv s' \<and> job_view s' = job_view s" by blast
qed (simp add: inv)

lemma tombstone_view:
  assumes inv: "store_inv s"
  shows "store_inv (settle_snd s (dismiss_job s k now)) \<and>
    job_view (settle_snd s (dismiss_job s k now)) = job_view s"
proof (rule settle_sndI [where P = "\<lambda>s'. store_inv s' \<and> job_view s' = job_view s"])
  let ?f = "\<lambda>r. r\<lparr>jr_dismissed_at := Some now, jr_updated_at := now\<rparr>"
  fix x s' assume a: "dismiss_job s k now = Inr (x, s')"
  then consider "s' = s" | sel where "update_jobs sel ?f s = Inr s'"
    unfolding dismiss_job_def Let_def by (auto simp: result_Inr_iffs split: if_splits)
  then have "job_view s' = job_view s"
  proof cases
    case (2 sel)
    have "job_view s' i = job_view s i" for i
    proof (cases "find_job s i")
      case (Some r)
      obtain j where j: "read_job_row r = Inr j" using inv_read_job [OF inv Some] by blast
      have "read_job_row (?f r) = Inr (j\<lparr>sj_dismissed_at := Some now, sj_updated_at := now\<rparr>)"
        using j by (auto simp: read_job_row_Inr)
      then show ?thesis
        using Some j find_update_jobs [OF 2, of i]
        by (auto simp: job_view_def read_job_def decode_job_def row_of_def)
    next
      case None
      then show ?thesis using find_update_jobs [OF 2, of i] by (simp add: job_view_def read_job_def)
    qed
    then show ?thesis by (simp add: fun_eq_iff)
  qed simp
  with dismiss_inv [OF inv a] show "store_inv s' \<and> job_view s' = job_view s" by blast
qed (simp add: inv)

lemma reaches_coherent: "reaches sha256 s t \<Longrightarrow> coherent s \<Longrightarrow> coherent t"
proof (induction rule: reaches.induct)
  case (process between plane k fuel ports clock shown s s')
  have "plane_keeps plane k" using process.IH(2,3) by (simp add: plane_keeps_def keeps_def)
  moreover have "keeps coherent (between n)" for n using process.IH(1) by (simp add: keeps_def)
  ultimately show ?case by (rule process_job_coherent [OF process.prems _ _ process.hyps(4)])
next
  case (command others s clock k cmd expected)
  have "keeps coherent others" using command.IH by (simp add: keeps_def)
  from apply_checked_coherent [OF command.prems this] show ?case by (metis prod.collapse)
next
  case (acknowledge s k now)
  then have "store_inv (in_store s)" by (simp add: coherent_def)
  from acknowledge_view [OF this] coherent_same_view [OF acknowledge.prems] show ?case by blast
next
  case (tombstone s k now)
  then have "store_inv (in_store s)" by (simp add: coherent_def)
  from tombstone_view [OF this] coherent_same_view [OF tombstone.prems] show ?case by blast
next
  case (ledger s k fid st n d now)
  then have "store_inv (in_store s)" by (simp add: coherent_def)
  from ledger_view [OF this] coherent_same_view [OF ledger.prems] show ?case by blast
qed (simp_all add: enqueue_coherent recover_coherent cancel_coherent retry_coherent dismiss_coherent
    tick_coherent worker_turn_coherent shutdown_coherent keeps_def)

lemma fresh_coherent: "store_inv st \<Longrightarrow> coherent (Inner_new st n root)"
  by (simp add: coherent_def Inner_new_def mem_view_def map_le_def dom_def)


lemma reachable_coherent:
  "reaches sha256 (Inner_new (run_store sha256 ops) n root) s \<Longrightarrow> coherent s"
  using reaches_coherent fresh_coherent run_store_inv by blast

lemma snapshot_view:
  assumes "coherent s" "job_snapshot k s = Some sn"
  shows "mem_view s k = Some (sn_state sn, sn_version sn, sn_desired sn)"
    "job_view (in_store s) k = Some (sn_state sn, sn_version sn, sn_desired sn)"
proof -
  show m: "mem_view s k = Some (sn_state sn, sn_version sn, sn_desired sn)"
    using assms(2) by (auto simp: job_snapshot_def mem_view_def split: option.splits)
  show "job_view (in_store s) k = Some (sn_state sn, sn_version sn, sn_desired sn)"
    by (rule coherent_view(2) [OF assms(1) m])
qed


section \<open>What a command commits\<close>

text \<open>
  C18.  What the reducer decides is what becomes durable: a command that does not
  wait for a worker and succeeds leaves the row of its job in the final state of
  the decision, with one new version per committed transition.
\<close>

theorem command_commits_decision:
  assumes "reaches sha256 (Inner_new (run_store sha256 ops) n root) s"
    and "in_cells s k = Some c" "load_aggregate k c s = Inr a"
    and "AwaitWorkerRelease \<notin> set (effects (decide a cmd))"
    and "apply_checked others clock k cmd expected s = (Inr out, s')"
  shows "out = outcome (decide a cmd) \<and>
    (\<exists>row. read_job (in_store s') k = Inr (Some row) \<and>
      tag_to_state (sj_state row) (sj_error row) = Some (final_state (decide a cmd) (agg_state a)) \<and>
      sj_state_version row = agg_version a + of_nat (length (commits (effects (decide a cmd)))))"
proof -
  note C = apply_checked_commits [OF reachable_coherent [OF assms(1)] assms(2,3,5,4)]
  then obtain d where co: "coherent s'" and d: "mem_view s' k = Some (final_state (decide a cmd) (agg_state a),
       agg_version a + of_nat (length (commits (effects (decide a cmd)))), d)" by blast
  from coherent_view(2) [OF co d] obtain row where "read_job (in_store s') k = Inr (Some row)"
    "row_of row = Some (final_state (decide a cmd) (agg_state a),
       agg_version a + of_nat (length (commits (effects (decide a cmd)))), d)"
    by (auto simp: job_view_def split: sum.splits option.splits)
  then show ?thesis using C by (auto simp: row_of_def)
qed

text \<open>
  No lost update: when a command sent with an expected version succeeded and
  committed something, every other command that was decided from the same version
  is refused as stale, reports the version that won and changes nothing.
\<close>

theorem stale_command_refused:
  assumes "reaches sha256 (Inner_new (run_store sha256 ops) n root) s"
    and "in_cells s k = Some c" "load_aggregate k c s = Inr a"
    and "AwaitWorkerRelease \<notin> set (effects (decide a cmd))"
    and "apply_checked others clock k cmd (Some v) s = (Inr out, s')"
    and "commits (effects (decide a cmd)) \<noteq> []"
  shows "apply_checked others' clock' k cmd' (Some v) s' =
    (Inl (ErrStale k v (v + of_nat (length (commits (effects (decide a cmd)))))), s')"
proof -
  note C = apply_checked_commits [OF reachable_coherent [OF assms(1)] assms(2,3,5,4)]
  let ?n = "length (commits (effects (decide a cmd)))"
  have v: "agg_version a = v"
    using assms(2,3,5) by (auto simp: apply_checked_def split: option.splits if_splits)
  have "?n \<le> 2" using decide_length by blast
  with assms(6) have "?n = 1 \<or> ?n = 2" by (cases ?n) auto
  then have ne: "v \<noteq> v + of_nat ?n" by (auto simp: word_eq_iff_unsigned)
  from C obtain d where co: "coherent s'" and d: "mem_view s' k = Some
      (final_state (decide a cmd) (agg_state a), v + of_nat ?n, d)" using v by blast
  from d obtain c' m' where "in_cells s' k = Some c'" "in_jobs s' k = Some m'" "cl_version c' = v + of_nat ?n"
    by (auto simp: mem_view_def split: option.splits)
  moreover have "in_controls s' k \<noteq> None"
    using co \<open>in_jobs s' k = Some m'\<close> by (auto simp: coherent_def dom_def)
  ultimately show ?thesis using ne by (auto simp: apply_checked_def load_aggregate_def)
qed

section \<open>Cancellation\<close>

lemma memory_cancelled_iff:
  assumes "coherent s"
  shows "memory_cancelled k s \<longleftrightarrow> (\<exists>v d. mem_view s k = Some (Cancelled, v, d))"
proof -
  have "in_cells s k = None \<longleftrightarrow> in_jobs s k = None"
    using assms by (simp add: coherent_def flip: domIff) (metis domIff)
  then show ?thesis by (auto simp: memory_cancelled_def mem_view_def split: option.splits)
qed

lemma reaches_keeps: "(\<And>t. reaches sha256 t (f t)) \<Longrightarrow> keeps coherent f"
  unfolding keeps_def using reaches_coherent by metis

lemma apply_checked_loaded:
  assumes "apply_checked others clock k cmd expected s = (Inr out, s')"
  obtains c a where "in_cells s k = Some c" "load_aggregate k c s = Inr a"
    "\<not> is_rejected (outcome (decide a cmd))"
proof -
  from assms obtain c a where ca: "in_cells s k = Some c" "load_aggregate k c s = Inr a"
    "apply_decision others clock k (decide a cmd) s = (Inr out, s')"
    by (auto simp: apply_checked_def split: option.splits sum.splits if_splits)
  then have "\<not> is_rejected (outcome (decide a cmd))"
    by (cases "outcome (decide a cmd)") (simp_all add: apply_decision_def co_fail_def)
  with ca that show ?thesis by blast
qed

lemma finalize_cancelled:
  assumes co: "coherent s" and f: "finalize_cancel clock k s = (Inr (), s')"
  shows "memory_cancelled k s'"
proof (cases "apply_command id clock k FinalizeCancel s")
  case (Pair r s1)
  show ?thesis
  proof (cases r)
    case (Inl e)
    then show ?thesis using f Pair by (auto simp: finalize_cancel_def split: if_splits)
  next
    case (Inr out)
    then have ap: "apply_checked id clock k FinalizeCancel None s = (Inr out, s1)" and s1: "s1 = s'"
      using Pair f by (simp_all add: apply_command_def finalize_cancel_def)
    from ap obtain c a where ca: "in_cells s k = Some c" "load_aggregate k c s = Inr a"
      "\<not> is_rejected (outcome (decide a FinalizeCancel))" by (rule apply_checked_loaded)
    have "AwaitWorkerRelease \<notin> set (effects (decide a FinalizeCancel))" by (simp add: no_await)
    note C = apply_checked_commits [OF co ca(1,2) ap this]
    moreover have "final_state (decide a FinalizeCancel) (agg_state a) = Cancelled"
      using ca(3) by (auto simp: final_state_commits decide_finalize_cancel_def commit_def split: if_splits)
    ultimately show ?thesis using s1 memory_cancelled_iff by auto
  qed
qed

text \<open>
  C19.  A cancellation that reports success has happened: whatever the workers and
  other commands did while it waited and between its two phases, the job is
  cancelled in memory and its durable row is the terminal cancelled state.
\<close>

theorem cancel_success_is_cancelled:
  assumes "reaches sha256 (Inner_new (run_store sha256 ops) n root) s"
    and "\<And>t. reaches sha256 t (others t)" "\<And>t. reaches sha256 t (between t)"
    and "cancel others between clock k s = (Inr (), s')"
  shows "memory_cancelled k s' \<and>
    (\<exists>row. read_job (in_store s') k = Inr (Some row) \<and> sj_state row = TagCancelled)"
proof -
  note co = reachable_coherent [OF assms(1)]
  have ks: "keeps coherent others" "keeps coherent between"
    by (rule reaches_keeps, rule assms(2), rule reaches_keeps, rule assms(3))
  have co': "coherent s'" using cancel_coherent [OF co ks, of clock k] assms(4) by simp
  obtain r s1 where a: "apply_command others clock k Cancel s = (r, s1)" by fastforce
  have c1: "coherent (between s1)" using apply_command_coherent [OF co ks(1) a] ks(2) by (simp add: keeps_def)
  have mc: "memory_cancelled k s'"
    using assms(4) a finalize_cancelled [OF c1]
    by (cases r) (auto simp: cancel_def split: if_splits)
  then obtain v d where "mem_view s' k = Some (Cancelled, v, d)" using memory_cancelled_iff [OF co'] by blast
  from coherent_view(2) [OF co' this] obtain row where row: "read_job (in_store s') k = Inr (Some row)"
    "tag_to_state (sj_state row) (sj_error row) = Some Cancelled"
    by (auto simp: job_view_def row_of_def split: sum.splits option.splits)
  then have "sj_state row = TagCancelled"
    by (cases "sj_state row") (auto simp: tag_to_state_def split: option.splits)
  with mc row show ?thesis by blast
qed

section \<open>Recovery\<close>

lemma tag_of_live:
  "\<not> tag_is_terminal t \<Longrightarrow> \<exists>st. tag_to_state t err = Some st \<and> \<not> is_terminal st"
  by (cases t) (auto simp: tag_to_state_def is_terminal_def)

lemma rehydrate_installs:
  assumes "tag_to_state (sj_state row) (sj_error row) = Some st"
    and "rehydrate_row ports row request scope s = (res, s')"
  shows "res = Inr ()" "in_jobs s' = (in_jobs s)(sj_job_id row \<mapsto> \<lparr>mj_job_id = sj_job_id row,
      mj_request = request, mj_state = st, mj_scope = scope, mj_desired = sj_desired row, mj_verified = []\<rparr>)"
proof -
  have offer: "in_jobs (offer_job j t) = in_jobs t" for j t
    by (simp add: offer_job_def schedule_job_def Let_def job_fault_def record_fault_def
        split: prod.splits ScheduleOutcome.splits)
  show "res = Inr ()" using assms by (simp add: rehydrate_row_def)
  show "in_jobs s' = (in_jobs s)(sj_job_id row \<mapsto> \<lparr>mj_job_id = sj_job_id row,
      mj_request = request, mj_state = st, mj_scope = scope, mj_desired = sj_desired row, mj_verified = []\<rparr>)"
    using assms by (auto simp: rehydrate_row_def rehydrate_def Let_def offer install_progress_def)
qed

definition recovery_fault :: "RecoverableJob \<Rightarrow> CoordinatorFault list" where
  "recovery_fault x = (case x of RecoverReady d \<Rightarrow> []
     | RecoverBlocked b \<Rightarrow> [CoordinatorFault_new (Some (rb_job_id b)) FaultTransition LocalIo])"

lemma offer_faults: "set (in_faults s) \<subseteq> set (in_faults (offer_job j s))"
  by (auto simp: offer_job_def schedule_job_def Let_def job_fault_def record_fault_def
      split: prod.splits ScheduleOutcome.splits)

lemma rehydrate_faults_grow:
  assumes "rehydrate_row ports row request scope s = (res, s')"
  shows "set (in_faults s) \<subseteq> set (in_faults s')"
proof -
  have "set (in_faults s) \<subseteq> set (in_faults (rehydrate ports j rq st sc d v s))" for j rq st sc d v
    unfolding rehydrate_def Let_def
    by (split if_split; intro conjI impI; (rule order_trans [OF _ offer_faults])?;
        simp add: install_progress_def)
  from this [of "sj_job_id row" request _ scope "sj_desired row" "sj_state_version row"] show ?thesis
    using assms by (auto simp: rehydrate_row_def split: option.splits)
qed

lemma recover_faults_grow:
  "recover_jobs ports rows s = (res, s') \<Longrightarrow> set (in_faults s) \<subseteq> set (in_faults s')"
proof (induction rows arbitrary: s res s' rule: recover_jobs.induct)
  case (2 ports d rest)
  obtain r1 s1 where p1: "rehydrate_row ports (rd_job d) (request_from_spec (rd_spec d))
      (publication_scope (rd_spec d)) s = (r1, s1)" by fastforce
  obtain r2 s2 where p2: "recover_jobs ports rest s1 = (r2, s2)" by fastforce
  have "s' = s1 \<or> s' = s2"
    using 2(2) p1 p2 by (auto simp: co_bind_def co_return_def split: sum.splits)
  then show ?case using rehydrate_faults_grow [OF p1] 2(1) [OF p2] by auto
next
  case (3 ports b rest)
  from 3(1) [of "job_fault (rb_job_id b) FaultTransition LocalIo s" res s'] 3(2)
  show ?case by (auto simp: job_fault_def record_fault_def)
qed (simp add: co_return_def)

lemma recover_jobs_installs:
  assumes "\<And>d. RecoverReady d \<in> set rows \<Longrightarrow> \<not> tag_is_terminal (sj_state (rd_job d))"
    and "recover_jobs ports rows s = (res, s')"
  shows "\<exists>ids. res = Inr ids \<and> ids = concat (map (\<lambda>x. case x of
        RecoverReady d \<Rightarrow> [sj_job_id (rd_job d)] | RecoverBlocked b \<Rightarrow> []) rows) \<and>
      dom (in_jobs s') = dom (in_jobs s) \<union> set ids \<and>
      set (concat (map recovery_fault rows)) \<subseteq> set (in_faults s')"
  using assms
proof (induction rows arbitrary: s res s' rule: recover_jobs.induct)
  case (1 ports)
  then show ?case by (simp add: co_return_def)
next
  case (2 ports d rest)
  obtain st where st: "tag_to_state (sj_state (rd_job d)) (sj_error (rd_job d)) = Some st"
    using 2(2) tag_of_live by (meson list.set_intros(1))
  obtain r1 s1 where p1: "rehydrate_row ports (rd_job d) (request_from_spec (rd_spec d))
      (publication_scope (rd_spec d)) s = (r1, s1)" by fastforce
  note R = rehydrate_installs [OF st p1]
  obtain r2 s2 where p2: "recover_jobs ports rest s1 = (r2, s2)" by fastforce
  from 2(1) [OF _ p2] 2(2) obtain ids where ids: "r2 = Inr ids"
    "ids = concat (map (\<lambda>x. case x of
        RecoverReady d \<Rightarrow> [sj_job_id (rd_job d)] | RecoverBlocked b \<Rightarrow> []) rest)"
    "dom (in_jobs s2) = dom (in_jobs s1) \<union> set ids"
    "set (concat (map recovery_fault rest)) \<subseteq> set (in_faults s2)" by auto
  have "res = Inr (sj_job_id (rd_job d) # ids)" "s' = s2"
    using 2(3) p1 p2 R(1) ids(1) by (simp_all add: co_bind_def co_return_def)
  then show ?case using ids R(2) by (auto simp: recovery_fault_def)
next
  case (3 ports b rest)
  let ?s = "job_fault (rb_job_id b) FaultTransition LocalIo s"
  from 3(1) [of ?s res s'] 3(2,3) obtain ids where ids: "res = Inr ids"
    "ids = concat (map (\<lambda>x. case x of
        RecoverReady d \<Rightarrow> [sj_job_id (rd_job d)] | RecoverBlocked b \<Rightarrow> []) rest)"
    "dom (in_jobs s') = dom (in_jobs ?s) \<union> set ids"
    "set (concat (map recovery_fault rest)) \<subseteq> set (in_faults s')" by auto
  have "set (in_faults ?s) \<subseteq> set (in_faults s')" by (rule recover_faults_grow [OF 3(3) [simplified]])
  then have "CoordinatorFault_new (Some (rb_job_id b)) FaultTransition LocalIo \<in> set (in_faults s')"
    by (auto simp: job_fault_def record_fault_def)
  then show ?case using ids by (simp add: recovery_fault_def job_fault_def record_fault_def)
qed

definition ready_ids :: "RecoverableJob list \<Rightarrow> job_id list" where
  "ready_ids xs = concat (map (\<lambda>x. case x of
     RecoverReady d \<Rightarrow> [sj_job_id (rd_job d)] | RecoverBlocked b \<Rightarrow> []) xs)"



section \<open>Admission\<close>

lemma file_matches_iff:
  "file_matches e a \<longleftrightarrow> a\<lparr>target_relative_path := Some (target_path_or_id a)\<rparr> =
    \<lparr>file_id = jf_file_id e, target_relative_path = Some (jf_display_path e),
     expected_size = jf_size_bytes e, expected_sha256_hex = jf_sha256 e\<rparr>"
  by (cases a) (auto simp: file_matches_def)

lemma files_match_iff:
  "length es = length as \<and> list_all (\<lambda>(e, a). file_matches e a) (zip es as) \<longleftrightarrow>
    map (\<lambda>f. f\<lparr>target_relative_path := Some (target_path_or_id f)\<rparr>) as =
    map (\<lambda>f. \<lparr>file_id = jf_file_id f, target_relative_path = Some (jf_display_path f),
           expected_size = jf_size_bytes f, expected_sha256_hex = jf_sha256 f\<rparr>) es"
proof (induction es arbitrary: as)
  case (Cons e es)
  show ?case
  proof (cases as)
    case (Cons a rest)
    with Cons.IH [of rest] file_matches_iff [of e a] show ?thesis by auto
  qed simp
qed simp

text \<open>
  A request is admitted with a durable specification exactly when it is the
  projection of that specification that recovery would run: same identity, same
  signed publication, same files in the same order with the same local paths, sizes
  and hashes (the idempotency key is the only field recovery recomputes).
\<close>

theorem admission_iff_projection:
  "validate_request_against_spec request spec = Inr () \<longleftrightarrow>
   normal_request request = request_from_spec spec"
proof -
  have "validate_request_against_spec request spec = Inr () \<longleftrightarrow>
      ji_device_id (js_identity spec) = tr_device_id request \<and>
      ji_session_id (js_identity spec) = tr_session_id request \<and>
      ji_revision (js_identity spec) = tr_revision request \<and>
      pm_payload (js_publication spec) = tr_manifest_bytes request \<and>
      pm_signature (js_publication spec) = tr_signature request \<and>
      pm_public_key (js_publication spec) = tr_publication_public_key request \<and>
      (length (requested_files spec) = length (tr_files request) \<and>
       list_all (\<lambda>(e, a). file_matches e a) (zip (requested_files spec) (tr_files request)))"
    by (auto simp: validate_request_against_spec_def)
  then show ?thesis
    unfolding files_match_iff
    by (cases request; cases "js_identity spec") (auto simp: request_from_spec_def normal_request_def)
qed

section \<open>Progress\<close>


text \<open>
  C20.  A job can always be cancelled: from every reachable state, cancelling a
  job that is neither terminal nor publishing succeeds, in any state and for either
  run intent, when the worker that holds it, if any, lets go of it during the wait.
\<close>

theorem cancel_succeeds:
  assumes "reaches sha256 (Inner_new (run_store sha256 ops) n root) s"
    and "in_jobs s k = Some m" "in_cells s k = Some c"
    and "\<not> is_terminal (mj_state m)" "mj_state m \<noteq> Committing"
    and "cl_observed c \<le> in_observation s + 1" "unat (cl_version c) + 2 \<le> i64_max"
      "ts_next_sequence (in_store s) \<le> int i64_max"
    and "spares k others" "spares k between"
      "\<And>t. wait_for_inactive k t = wait_for_inactive k s \<Longrightarrow> wait_for_inactive k (others t)"
  shows "\<exists>s'. cancel others between clock k s = (Inr (), s')"
proof -
  have "poised k (mj_state m) (cl_version c) (mj_desired m) (mj_request m) s"
    using assms(2,3,6,8) reachable_coherent [OF assms(1)] by (simp add: poised_def mem_view_def)
  from cancel_enabled [OF this assms(4,5,7,9,11,10)] show ?thesis .
qed


section \<open>A concrete coordinator\<close>

text \<open>
  One job, enqueued in a fresh coordinator on an empty database, with a device
  that is connected and idle, a verifier that accepts and a data plane that succeeds.
\<close>

definition sample_ports :: Ports where
  "sample_ports =
    \<lparr>po_device = (\<lambda>n dev. \<lparr>snap_version = n, snap_connection = Connected [] 0, snap_capture = CaptureIdle\<rparr>),
     po_verify = (\<lambda>p sg key. Inr ()),
     po_baseline = (\<lambda>root rq. \<lparr>db_completed_bytes = 0, db_files_done = 0, db_partial_bytes = 0\<rparr>)\<rparr>"

definition sample_start :: Inner where
  "sample_start = Inner_new (run_store flat_sha []) 1 []"

definition sample_coordinator :: Inner where
  "sample_coordinator = snd (enqueue_with_spec flat_sha sample_ports ''t0'' ''job-1''
     (request_from_spec sample_spec) sample_spec sample_start)"

definition sample_job :: ManagedJob where
  "sample_job = \<lparr>mj_job_id = ''job-1'', mj_request = request_from_spec sample_spec, mj_state = Queued,
     mj_scope = publication_scope sample_spec, mj_desired = Run, mj_verified = []\<rparr>"

definition sample_plane :: Plane where
  "sample_plane = \<lparr>pl_transfer = (\<lambda>k s. (AllDone [], s)), pl_commit = (\<lambda>k s. (None, s))\<rparr>"


lemma sample_created:
  "\<exists>j st. create_job flat_sha (run_store flat_sha []) ''job-1'' sample_spec ''t0'' = Inr (Created j, st) \<and>
    sj_job_id j = ''job-1'' \<and> ts_next_sequence st = 1"
proof -
  note fresh = empty_run(2,3) [folded empty_run(1) [of flat_sha]]
  from create_fresh [OF sample_spec_ok fresh, of "''job-1''" "''t0''"] obtain j st where
    c: "create_job flat_sha (run_store flat_sha []) ''job-1'' sample_spec ''t0'' = Inr (Created j, st)"
      "ts_next_sequence st = ts_next_sequence (run_store flat_sha [])" by blast
  with create_view [OF run_store_inv c(1)] show ?thesis by (simp add: empty_run(1)) (simp add: empty_store_def)
qed

lemma sample_admitted: "validate_request_against_spec (request_from_spec sample_spec) sample_spec = Inr ()"
  by (simp add: validate_request_against_spec_def request_from_spec_def sample_spec_def requested_files_def
      file_matches_def target_path_or_id_def)

lemma offer_fields:
  "in_jobs (offer_job j t) = in_jobs t" "in_cells (offer_job j t) = in_cells t"
  "in_controls (offer_job j t) = in_controls t" "in_leases (offer_job j t) = in_leases t" "in_observation (offer_job j t) = in_observation t"
  "in_store (offer_job j t) = in_store t"
  by (simp_all add: offer_job_def schedule_job_def Let_def job_fault_def record_fault_def
      split: prod.splits ScheduleOutcome.splits)

lemma sample_state:
  "in_jobs sample_coordinator ''job-1'' = Some sample_job"
  "in_cells sample_coordinator ''job-1'' = Some JobCell_new"
  "in_controls sample_coordinator ''job-1'' = Some JobControl_default"
  "in_leases sample_coordinator = Map.empty" "in_observation sample_coordinator = 0"
  "ts_next_sequence (in_store sample_coordinator) = 1"
proof -
  from sample_created obtain j st where
    c: "create_job flat_sha (run_store flat_sha []) ''job-1'' sample_spec ''t0'' = Inr (Created j, st)"
      "sj_job_id j = ''job-1''" "ts_next_sequence st = 1" by blast
  have eq: "sample_coordinator = install_new sample_ports ''job-1'' (request_from_spec sample_spec)
      (publication_scope sample_spec) (sample_start\<lparr>in_store := st\<rparr>)"
    using c by (simp add: sample_coordinator_def enqueue_with_spec_def sample_admitted enqueue_inner_def
        sample_start_def Inner_new_def verify_request_publication_def sample_ports_def)
  show "in_jobs sample_coordinator ''job-1'' = Some sample_job"
    "in_cells sample_coordinator ''job-1'' = Some JobCell_new"
    "in_controls sample_coordinator ''job-1'' = Some JobControl_default"
    "in_leases sample_coordinator = Map.empty" "in_observation sample_coordinator = 0"
    "ts_next_sequence (in_store sample_coordinator) = 1"
    unfolding eq using c(3)
    by (simp_all add: install_new_def install_progress_def sample_start_def Inner_new_def sample_job_def
        Let_def offer_fields)
qed

lemma sample_reachable: "reaches flat_sha (Inner_new (run_store flat_sha []) 1 []) sample_coordinator"
  unfolding sample_coordinator_def sample_start_def by (rule reaches.enqueue_spec)

lemmas sample_facts = sample_state sample_job_def JobCell_new_def

lemma sample_aggregate:
  "load_aggregate ''job-1'' JobCell_new sample_coordinator =
    Inr \<lparr>agg_state = Queued, agg_version = 1, agg_desired = Run, agg_observed = 0\<rparr>"
  by (simp add: load_aggregate_def sample_facts)

lemma sample_poised: "poised ''job-1'' Queued 1 Run (request_from_spec sample_spec) sample_coordinator"
  using reachable_coherent [OF sample_reachable]
  by (simp add: poised_def mem_view_def sample_facts i64_max_def)

lemma room_after_one: "unat (1 :: u64) + 7 \<le> i64_max" "(1 :: int) \<le> int i64_max"
  by (simp_all add: i64_max_def)


abbreviation (input) sample_clock :: "nat \<Rightarrow> string" where
  "sample_clock \<equiv> (\<lambda>i. ''t1'')"

lemma sample_command:
  "\<exists>s'. apply_checked id sample_clock ''job-1'' (Transition Preparing) (Some 1) sample_coordinator = (Inr Accepted, s')"
proof -
  note A = apply_enabled [OF reachable_coherent [OF sample_reachable] sample_state(2) sample_aggregate,
      of "Transition Preparing" id sample_clock]
  have D: "decide \<lparr>agg_state = Queued, agg_version = 1, agg_desired = Run, agg_observed = 0\<rparr> (Transition Preparing) =
      accepted [Commit 1 Preparing]" by (simp add: decide_transition_def commit_def graph_defs)
  have eq: "apply_checked id sample_clock ''job-1'' (Transition Preparing) (Some 1) sample_coordinator =
      apply_command id sample_clock ''job-1'' (Transition Preparing) sample_coordinator"
    by (simp add: apply_checked_def apply_command_def sample_state sample_aggregate split: option.splits)
  show ?thesis unfolding eq using A sample_state(6) room_after_one by (auto simp: D simp del: decide.simps)
qed

lemma sample_effects:
  "effects (decide \<lparr>agg_state = Queued, agg_version = 1, agg_desired = Run, agg_observed = 0\<rparr>
     (Transition Preparing)) = [Commit 1 Preparing]"
  by (simp add: decide_transition_def commit_def graph_defs)

theorem command_commits_decision_witness:
  "\<exists>s' row. apply_checked id sample_clock ''job-1'' (Transition Preparing) (Some 1) sample_coordinator =
      (Inr Accepted, s') \<and>
    read_job (in_store s') ''job-1'' = Inr (Some row) \<and>
    tag_to_state (sj_state row) (sj_error row) = Some Preparing \<and> sj_state_version row = 2"
proof -
  from sample_command obtain s' where s': "apply_checked id sample_clock ''job-1'' (Transition Preparing) (Some 1)
      sample_coordinator = (Inr Accepted, s')" by blast
  from command_commits_decision [OF sample_reachable sample_state(2) sample_aggregate _ s'] s' show ?thesis
    by (auto simp: sample_effects final_state_commits simp del: decide.simps)
qed

theorem stale_command_refused_witness:
  "\<exists>s'. apply_checked id sample_clock ''job-1'' (Transition Preparing) (Some 1) sample_coordinator =
      (Inr Accepted, s') \<and>
    apply_checked id sample_clock ''job-1'' Cancel (Some 1) s' = (Inl (ErrStale ''job-1'' 1 2), s')"
proof -
  from sample_command obtain s' where s': "apply_checked id sample_clock ''job-1'' (Transition Preparing) (Some 1)
      sample_coordinator = (Inr Accepted, s')" by blast
  from stale_command_refused [OF sample_reachable sample_state(2) sample_aggregate _ s', of id sample_clock Cancel] s'
  show ?thesis by (auto simp: sample_effects simp del: decide.simps)
qed

lemma spares_id: "spares k id"
  by (simp add: spares_def)

definition let_go :: "job_id \<Rightarrow> Inner \<Rightarrow> Inner" where
  "let_go k = update_control k drop_active_lease"

lemma spares_let_go: "spares k (let_go k)" "wait_for_inactive k (let_go k t)"
proof -
  have L: "in_jobs (let_go k s) = in_jobs s" "in_cells (let_go k s) = in_cells s"
    "in_observation (let_go k s) = in_observation s" "in_store (let_go k s) = in_store s" for s
    by (simp_all add: let_go_def update_control_def split: option.splits)
  have "coherent (let_go k s) = coherent s" for s
    using coherent_quiet [OF quiet_control] by (simp add: let_go_def)
  then show "spares k (let_go k)" by (simp add: spares_def poised_def mem_view_def L)
  show "wait_for_inactive k (let_go k t)"
    by (simp add: let_go_def wait_for_inactive_def update_control_def drop_active_lease_def split: option.splits)
qed

theorem cancel_succeeds_witness:
  "\<exists>s'. cancel (let_go ''job-1'') id sample_clock ''job-1'' sample_coordinator = (Inr (), s')"
  by (rule cancel_succeeds [OF sample_reachable sample_state(1,2) _ _ _ _ _ spares_let_go(1) spares_id spares_let_go(2)])
    (simp_all add: sample_facts i64_max_def)

theorem cancel_success_is_cancelled_witness:
  "\<exists>s' row. cancel id id sample_clock ''job-1'' sample_coordinator = (Inr (), s') \<and>
    memory_cancelled ''job-1'' s' \<and>
    read_job (in_store s') ''job-1'' = Inr (Some row) \<and> sj_state row = TagCancelled"
proof -
  have "\<not> is_terminal Queued" "Queued \<noteq> Committing" "unat (1 :: u64) + 2 \<le> i64_max"
    by (simp_all add: i64_max_def)
  moreover have "wait_for_inactive ''job-1'' sample_coordinator"
    by (simp add: wait_for_inactive_def sample_facts JobControl_default_def)
  ultimately obtain s' where s': "cancel id id sample_clock ''job-1'' sample_coordinator = (Inr (), s')"
    using cancel_enabled [OF sample_poised _ _ _ spares_id _ spares_id, of sample_clock] by auto
  from cancel_success_is_cancelled [OF sample_reachable _ _ this] s' show ?thesis by (auto intro: reaches.stay)
qed


end
