(* ===== verification/Disk_Tree.thy ===== *)
theory Disk_Tree
  imports Download_Engine
begin

text \<open>
  Trees on the disk: every node lies in a directory.  Operations that move or
  remove whole directories keep this shape, and under it a rename carries exactly the
  subtree of its source to its target.
\<close>

section \<open>Shape\<close>

definition tree_wf :: "Disk \<Rightarrow> bool" where
  "tree_wf d \<longleftrightarrow>
    (\<forall>p c. p \<noteq> [] \<longrightarrow> lookup d (p @ [c]) \<noteq> None \<longrightarrow> (\<exists>l. lookup d p = Some (NDir l)))"

definition subtree :: "Disk \<Rightarrow> path \<Rightarrow> path \<Rightarrow> node option" where
  "subtree d p = (\<lambda>rest. lookup d (p @ rest))"

lemma tree_wf_nodes: "dk_nodes d' = dk_nodes d \<Longrightarrow> tree_wf d' = tree_wf d"
  by (simp add: tree_wf_def)

lemma subtree_nodes: "dk_nodes d' = dk_nodes d \<Longrightarrow> subtree d' = subtree d"
  by (simp add: subtree_def fun_eq_iff)

lemma subtree_eq_iff: "subtree d' p = subtree d p \<longleftrightarrow> (\<forall>q\<in>below p. lookup d' q = lookup d q)"
  by (auto simp: subtree_def fun_eq_iff below_iff)

lemma tree_wf_ancestor:
  assumes "tree_wf d" "p \<noteq> []" "rest \<noteq> []" "lookup d (p @ rest) \<noteq> None"
  shows "\<exists>l. lookup d p = Some (NDir l)"
  using assms(3,4)
proof (induction rest rule: rev_induct)
  case (snoc c rest)
  have "\<exists>l. lookup d (p @ rest) = Some (NDir l)"
    using assms(1,2) snoc.prems unfolding tree_wf_def by (metis append_is_Nil_conv append_assoc)
  with snoc.IH show ?case by (cases "rest = []") auto
qed simp

lemma leaf_subtree:
  assumes "tree_wf d" "p \<noteq> []" "\<nexists>l. lookup d p = Some (NDir l)"
  shows "subtree d p = (\<lambda>rest. if rest = [] then lookup d p else None)"
proof
  fix rest
  show "subtree d p rest = (if rest = [] then lookup d p else None)"
  proof (cases "rest = []")
    case False
    then have "lookup d (p @ rest) = None" using tree_wf_ancestor [OF assms(1,2) False] assms(3) by blast
    with False show ?thesis by (simp add: subtree_def)
  qed (simp add: subtree_def)
qed

section \<open>Renaming\<close>

lemma move_nodes_below:
  assumes "\<And>r. b @ r \<notin> below a"
  shows "map_of (move_nodes a b ns) (b @ rest) =
    (if a @ rest \<in> below b then None else map_of ns (a @ rest))"
proof -
  let ?ns = "filter (\<lambda>e. path_strip_prefix b (fst e) = None) ns"
  have "move_key a b k = b @ rest \<longleftrightarrow> k = a @ rest" if "k \<in> fst ` set ?ns" for k
    using that by (auto simp: move_key_def path_strip_prefix_Some split: option.splits)
  then have "map_of (move_nodes a b ns) (b @ rest) = map_of ?ns (a @ rest)"
    unfolding move_nodes_def by (rule map_of_rekey)
  also have "\<dots> = (if path_strip_prefix b (a @ rest) = None then map_of ns (a @ rest) else None)"
    by (rule map_of_filter_key)
  finally show ?thesis by (simp add: below_def)
qed

lemma move_nodes_source:
  assumes "a \<notin> below b" "b \<notin> below a" "q \<in> below a"
  shows "map_of (move_nodes a b ns) q = None"
proof -
  obtain r where q: "q = a @ r" using assms(3) by (auto simp: below_iff)
  have key: "move_key a b k \<noteq> q" for k
  proof (cases "k \<in> below a")
    case True
    then obtain s where k: "k = a @ s" by (auto simp: below_iff)
    have "b @ s \<noteq> a @ r"
    proof
      assume eq: "b @ s = a @ r"
      show False
      proof (cases "length a \<le> length b")
        case True
        with eq have "b = a @ drop (length a) b" by (metis append_eq_append_conv_if append_eq_conv_conj)
        with assms(2) show False by (auto simp: below_iff)
      next
        case False
        with eq have "a = b @ drop (length b) a" by (metis append_eq_append_conv_if append_eq_conv_conj nat_le_linear)
        with assms(1) show False by (auto simp: below_iff)
      qed
    qed
    then show ?thesis using k q by (simp add: move_key_eq)
  next
    case False
    then show ?thesis using assms(3) by (auto simp: move_key_eq)
  qed
  then have "q \<notin> fst ` set (move_nodes a b ns)" unfolding move_nodes_def by fastforce
  then show ?thesis by (simp add: map_of_eq_None_iff)
qed

definition apart :: "path \<Rightarrow> path \<Rightarrow> bool" where
  "apart a b \<longleftrightarrow> below a \<inter> below b = {}"

lemma apartD:
  "apart a b \<Longrightarrow> a \<notin> below b" "apart a b \<Longrightarrow> b \<notin> below a" "apart a b \<Longrightarrow> q \<in> below a \<Longrightarrow> q \<notin> below b"
  "apart a b \<Longrightarrow> q \<in> below b \<Longrightarrow> q \<notin> below a"
  by (auto simp: apart_def dest: equals0D [of _ a] equals0D [of _ b])

lemma apart_sym: "apart a b \<Longrightarrow> apart b a"
  by (auto simp: apart_def)

text \<open>After a successful rename the target holds the subtree of the source.\<close>

lemma rename_moves:
  assumes wf: "tree_wf d" and ab: "apart a b" and ne: "a \<noteq> []" "b \<noteq> []"
    and ok: "rename a b d = (Inr u, d')"
  shows "lookup d' q = (if q \<in> below b then lookup d (a @ drop (length b) q)
    else if q \<in> below a then None else lookup d q)"
proof -
  note A = apartD [OF ab]
  from ok obtain n where n: "lookup d a = Some n" and on: "rename_onto n a b (io_tick d) = (Inr u, d')"
    by (auto simp: rename_def guarded_def rename_now_def split: option.splits node.splits)
  have moved: ?thesis if "d' = (io_tick d)\<lparr>dk_nodes := move_nodes a b (dk_nodes d)\<rparr>"
  proof -
    consider r where "q = b @ r" | "q \<in> below a" "q \<notin> below b" | "q \<notin> below a" "q \<notin> below b"
      by (auto simp: below_iff)
    then show ?thesis
    proof cases
      case (1 r)
      have "a @ r \<notin> below b" using A(3) [of "a @ r"] by (auto simp: below_iff)
      moreover have "b @ r' \<notin> below a" for r' using A(4) [of "b @ r'"] by (auto simp: below_iff)
      ultimately show ?thesis
        using 1 that move_nodes_below [of b a "dk_nodes d" r] by (simp add: below_iff)
    next
      case 2
      then show ?thesis using that move_nodes_source [OF A(1,2)] by simp
    next
      case 3
      then show ?thesis using that move_nodes_outside by simp
    qed
  qed
  have single: ?thesis if d': "d' = (io_tick d)\<lparr>dk_nodes := put_node b n (del_node a (dk_nodes d))\<rparr>"
    and leaf: "\<nexists>l. lookup d a = Some (NDir l)" "\<nexists>l. lookup d b = Some (NDir l)"
  proof -
    note la = leaf_subtree [OF wf ne(1) leaf(1)] leaf_subtree [OF wf ne(2) leaf(2)]
    have none: "lookup d (a @ r) = None" "lookup d (b @ r) = None" if "r \<noteq> []" for r
      using that fun_cong [OF la(1), of r] fun_cong [OF la(2), of r] by (simp_all add: subtree_def)
    consider "q = b" | r where "q = b @ r" "r \<noteq> []" | "q = a" | r where "q = a @ r" "r \<noteq> []" "q \<notin> below b"
      | "q \<notin> below a" "q \<notin> below b" unfolding below_iff by (metis append_Nil2)
    then show ?thesis
      by cases (use d' n A none in \<open>auto simp: below_iff\<close>)
  qed
  show ?thesis
    using on n moved single
    by (auto simp: rename_onto_def split: node.splits option.splits if_splits)
qed

lemma rename_fails: "rename a b d = (Inl e, d') \<Longrightarrow> dk_nodes d' = dk_nodes d"
  by (auto simp: rename_def guarded_def rename_now_def rename_onto_def
      split: option.splits node.splits if_splits)

lemma rename_subtrees:
  assumes "tree_wf d" "apart a b" "a \<noteq> []" "b \<noteq> []" "rename a b d = (Inr u, d')"
  shows "subtree d' b = subtree d a" "subtree d' a = (\<lambda>_. None)"
    "apart a p \<Longrightarrow> apart b p \<Longrightarrow> subtree d' p = subtree d p"
proof -
  note R = rename_moves [OF assms] and A = apartD [OF assms(2)]
  show "subtree d' b = subtree d a" by (auto simp: subtree_def fun_eq_iff R below_iff)
  show "subtree d' a = (\<lambda>_. None)"
    using A(3) by (auto simp: subtree_def fun_eq_iff R below_iff)
  show "subtree d' p = subtree d p" if "apart a p" "apart b p"
    using that apartD(4) by (simp add: subtree_eq_iff R)
qed

lemma rename_parent: "rename a b d = (Inr u, d') \<Longrightarrow> \<exists>l. lookup d (butlast b) = Some (NDir l)"
  by (auto simp: rename_def guarded_def rename_now_def split: option.splits node.splits)

lemma rename_wf:
  assumes wf: "tree_wf d" and ab: "apart a b" and ne: "a \<noteq> []" "b \<noteq> []"
    and r: "rename a b d = (r, d')"
  shows "tree_wf d'"
proof (cases r)
  case (Inl e)
  then show ?thesis using r rename_fails wf tree_wf_nodes by metis
next
  case (Inr u)
  note R = rename_moves [OF wf ab ne r [unfolded Inr]]
  obtain l where par: "lookup d (butlast b) = Some (NDir l)" using rename_parent r Inr by blast
  have nb: "butlast b \<notin> below b" "butlast b \<notin> below a"
  proof -
    have len: "length (butlast b) < length b" using ne(2) by simp
    show "butlast b \<notin> below b"
    proof
      assume "butlast b \<in> below b"
      then obtain r where "butlast b = b @ r" by (auto simp: below_iff)
      then have "length (butlast b) = length b + length r" by (metis length_append)
      with len show False by simp
    qed
    show "butlast b \<notin> below a"
    proof
      assume "butlast b \<in> below a"
      then have "b \<in> below a" using ne(2) by (auto simp: below_iff) (metis append_assoc append_butlast_last_id)
      with apartD(2) [OF ab] show False by simp
    qed
  qed
  show ?thesis
    unfolding tree_wf_def
  proof (intro allI impI)
    fix p c
    assume p: "p \<noteq> []" "lookup d' (p @ [c]) \<noteq> None"
    consider (root) "p @ [c] = b" | (inside) s where "p = b @ s" | (other) "p @ [c] \<notin> below b"
      by (auto simp: below_iff) (metis append.assoc append_butlast_last_id append_Nil2 butlast_append butlast_snoc)
    then show "\<exists>l. lookup d' p = Some (NDir l)"
    proof cases
      case root
      then have "p = butlast b" by (metis butlast_snoc)
      then show ?thesis using par nb R by simp
    next
      case (inside s)
      then have "lookup d ((a @ s) @ [c]) \<noteq> None" using p(2) R by (simp add: below_iff)
      then have "\<exists>l. lookup d (a @ s) = Some (NDir l)" using wf ne(1) unfolding tree_wf_def by blast
      then show ?thesis using inside R by (simp add: below_iff)
    next
      case other
      have na: "p @ [c] \<notin> below a" using p(2) R other by (auto split: if_splits)
      then have "lookup d (p @ [c]) \<noteq> None" using p(2) R other by simp
      then have "\<exists>l. lookup d p = Some (NDir l)" using wf p(1) unfolding tree_wf_def by blast
      moreover have "p \<notin> below a" "p \<notin> below b" using na other by (auto simp: below_iff)
      ultimately show ?thesis using R by simp
    qed
  qed
qed

end
