(* ===== verification/Session_Staging.thy ===== *)
theory Session_Staging
  imports Disk_Tree
begin

text \<open>
  Revision-scoped staging and atomic publication of a session
  (\<open>library/staging.rs\<close>) and the commit boundary of \<open>library/download.rs\<close> that calls
  it: the paths of a revision, the manifest check, the seal and its marker, the one
  rename that publishes a session with its rollback, and the file-by-file publication
  of a selection.

  The JSON codec of the two markers is an argument beside the download engine's
  host.  A problem text is the datatype \<open>manifest_problem\<close> with the values it shows.
\<close>

section \<open>Revisions and markers\<close>

definition SUPERSEDED_DIR_NAME :: string where "SUPERSEDED_DIR_NAME = ''.superseded''"
definition SELECTED_TRASH_DIR_NAME :: string where "SELECTED_TRASH_DIR_NAME = ''.selected-trash''"

type_synonym RevisionId = string

definition from_publication :: "Host \<Rightarrow> bytes \<Rightarrow> RevisionId" where
  "from_publication h payload = ''rev-'' @ take 32 (sha256_hex h payload)"

definition RevisionId_parse :: "string \<Rightarrow> PathSafetyError + RevisionId" where
  "RevisionId_parse raw = result_bind (validate_id_segment raw) (\<lambda>_. Inr raw)"

record RevisionMarker =
  rm_revision :: string
  rm_file_count :: u32
  rm_total_bytes :: u64

record SelectedMarker =
  sm_scope :: string
  sm_revision :: string
  sm_file_count :: u32
  sm_total_bytes :: u64
  sm_manifest_digest :: string

record MarkerCodec =
  mc_revision_to_json :: "RevisionMarker \<Rightarrow> bytes"
  mc_revision_from_json :: "bytes \<Rightarrow> RevisionMarker option"
  mc_selected_to_json :: "SelectedMarker \<Rightarrow> bytes"
  mc_selected_from_json :: "bytes \<Rightarrow> SelectedMarker option"

text \<open>\<open>read_to_string\<close> whose errors the caller drops.\<close>

definition read_text :: "path \<Rightarrow> Disk \<Rightarrow> bytes option \<times> Disk" where
  "read_text p d =
    (case read_file p d of
       (Inl _, d') \<Rightarrow> (None, d')
     | (Inr raw, d') \<Rightarrow> (if utf8_valid raw then Some raw else None, d'))"

definition read_revision_marker :: "MarkerCodec \<Rightarrow> path \<Rightarrow> Disk \<Rightarrow> RevisionMarker option \<times> Disk" where
  "read_revision_marker mc dir d =
    (case read_text (join_path dir REVISION_MARKER_NAME) d of
       (raw, d') \<Rightarrow> (Option.bind raw (mc_revision_from_json mc), d'))"

definition read_selected_marker :: "MarkerCodec \<Rightarrow> path \<Rightarrow> Disk \<Rightarrow> SelectedMarker option \<times> Disk" where
  "read_selected_marker mc dir d =
    (case read_text (join_path dir SELECTED_MARKER_NAME) d of
       (raw, d') \<Rightarrow>
         (case Option.bind raw (mc_selected_from_json mc) of
            Some m \<Rightarrow> if sm_scope m = ''selected_files'' then Some m else None
          | None \<Rightarrow> None, d'))"

definition published_revision ::
    "MarkerCodec \<Rightarrow> path \<Rightarrow> string \<Rightarrow> string \<Rightarrow> Disk \<Rightarrow> RevisionId option \<times> Disk" where
  "published_revision mc library_root device_id session_id d =
    (case read_revision_marker mc (join_path (join_path library_root device_id) session_id) d of
       (None, d') \<Rightarrow> (None, d')
     | (Some m, d') \<Rightarrow> (case RevisionId_parse (rm_revision m) of Inl _ \<Rightarrow> None | Inr r \<Rightarrow> Some r, d'))"

section \<open>Manifests\<close>

record SessionManifest =
  mf_device_id :: string
  mf_session_id :: string
  mf_files :: "ExpectedArtifact list"

definition from_plans :: "string \<Rightarrow> string \<Rightarrow> FilePlan list \<Rightarrow> SessionManifest" where
  "from_plans dev ses plans =
    \<lparr>mf_device_id = dev, mf_session_id = ses, mf_files = map expected_from_plan plans\<rparr>"

text \<open>The names of a relative path, joined by slashes.\<close>

fun join_names :: "string list \<Rightarrow> string" where
  "join_names [] = []"
| "join_names [s] = s"
| "join_names (s # ss) = s @ CHR ''/'' # join_names ss"

text \<open>A path as \<open>display\<close> prints it.\<close>

definition component_text :: "path_component \<Rightarrow> string" where
  "component_text c =
    (case c of RootDir \<Rightarrow> [] | CurDir \<Rightarrow> ''.'' | ParentDir \<Rightarrow> ''..'' | Normal s \<Rightarrow> s)"

definition display_path :: "path \<Rightarrow> string" where
  "display_path p = (if p = [RootDir] then ''/'' else join_names (map component_text p))"

fun normal_names :: "path \<Rightarrow> string list option" where
  "normal_names [] = Some []"
| "normal_names (Normal s # p) = map_option ((#) s) (normal_names p)"
| "normal_names (_ # p) = None"

definition relative_display_path :: "path \<Rightarrow> path \<Rightarrow> string option" where
  "relative_display_path base p =
    Option.bind (path_strip_prefix base p) (\<lambda>relative.
    Option.bind (normal_names relative) (\<lambda>segments.
    if segments = [] then None else Some (join_names segments)))"

definition from_verified ::
    "string \<Rightarrow> string \<Rightarrow> path \<Rightarrow> VerifiedFile list \<Rightarrow> SessionManifest" where
  "from_verified dev ses base files =
    \<lparr>mf_device_id = dev, mf_session_id = ses,
     mf_files = map (\<lambda>f. \<lparr>ea_file_id = vf_file_id f,
       ea_target_relative_path = relative_display_path base (vf_path f),
       ea_expected_size = vf_size_bytes f, ea_expected_sha256_hex = Some (vf_sha256_hex f)\<rparr>) files\<rparr>"

definition manifest_total_bytes :: "SessionManifest \<Rightarrow> u64" where
  "manifest_total_bytes m =
    foldl (\<lambda>acc f. saturating_add acc (ea_expected_size f)) 0 (mf_files m)"

definition to_le_bytes :: "u64 \<Rightarrow> bytes" where
  "to_le_bytes n = rev (to_be_bytes n)"

definition hash_manifest_component :: "string \<Rightarrow> bytes" where
  "hash_manifest_component s = to_le_bytes (of_nat (length (as_bytes s))) @ as_bytes s"

definition manifest_file_frame :: "ExpectedArtifact \<Rightarrow> bytes" where
  "manifest_file_frame f =
    hash_manifest_component (ea_file_id f) @
    hash_manifest_component (case ea_target_relative_path f of None \<Rightarrow> [] | Some p \<Rightarrow> p) @
    [if ea_target_relative_path f = None then 0 else 1] @
    to_le_bytes (ea_expected_size f) @
    (case ea_expected_sha256_hex f of
       Some hash \<Rightarrow> 1 # hash_manifest_component hash
     | None \<Rightarrow> [0])"

definition manifest_preimage :: "SessionManifest \<Rightarrow> bytes" where
  "manifest_preimage m =
    hash_manifest_component (mf_device_id m) @ hash_manifest_component (mf_session_id m) @
    concat (map manifest_file_frame (mf_files m))"

definition manifest_digest :: "Host \<Rightarrow> SessionManifest \<Rightarrow> string" where
  "manifest_digest h m = sha256_hex h (manifest_preimage m)"

section \<open>Errors and outcomes\<close>

datatype manifest_problem =
    FileMissing string
  | FilePartial string u64 u64
  | FileInvalid string InvalidReason
  | FileUnlisted path
  | DuplicateTarget path
  | CaseDuplicateTarget path
  | CopyHasWrongSize string
  | CopyHasWrongHash string string string

datatype PublishError =
    PubDownload DownloadError
  | NothingStaged RevisionId path
  | NotSealed RevisionId
  | ManifestMismatch RevisionId "manifest_problem list"

text \<open>The conversion back into the download error channel; \<open>shown\<close> is the error's text.\<close>

definition publish_to_download_error :: "(PublishError \<Rightarrow> string) \<Rightarrow> PublishError \<Rightarrow> DownloadError" where
  "publish_to_download_error shown e =
    (case e of PubDownload inner \<Rightarrow> inner | other \<Rightarrow> InvalidPlan (shown other))"

datatype PublishOutcome = Published RevisionId | AlreadyPublished RevisionId

fun outcome_revision :: "PublishOutcome \<Rightarrow> RevisionId" where
  "outcome_revision (Published r) = r"
| "outcome_revision (AlreadyPublished r) = r"

datatype RevisionState = RevAbsent | RevStaged | RevSealed | RevPublished | RevSelectedPublished

type_synonym 'a pb = "Disk \<Rightarrow> (PublishError + 'a) \<times> Disk"

definition pb_return :: "'a \<Rightarrow> 'a pb" where
  "pb_return x d = (Inr x, d)"

definition pb_fail :: "PublishError \<Rightarrow> 'a pb" where
  "pb_fail e d = (Inl e, d)"

definition pb_bind :: "'a pb \<Rightarrow> ('a \<Rightarrow> 'b pb) \<Rightarrow> 'b pb" where
  "pb_bind m f d = (case m d of (Inl e, d') \<Rightarrow> (Inl e, d') | (Inr x, d') \<Rightarrow> f x d')"

definition pb_dl :: "'a dl \<Rightarrow> 'a pb" where
  "pb_dl m d = (case m d of (Inl e, d') \<Rightarrow> (Inl (PubDownload e), d') | (Inr x, d') \<Rightarrow> (Inr x, d'))"

text \<open>A step that cannot fail but answers something.\<close>

definition pb_ask :: "(Disk \<Rightarrow> 'a \<times> Disk) \<Rightarrow> 'a pb" where
  "pb_ask m d = (case m d of (x, d') \<Rightarrow> (Inr x, d'))"

definition pb_ignore :: "'a io \<Rightarrow> unit pb" where
  "pb_ignore m d = (Inr (), snd (m d))"

section \<open>The staging area\<close>

record SessionStaging =
  st_library_root :: path
  st_device_id :: string
  st_session_id :: string
  st_revision :: RevisionId

definition SessionStaging_new ::
    "path \<Rightarrow> string \<Rightarrow> string \<Rightarrow> RevisionId \<Rightarrow> PathSafetyError + SessionStaging" where
  "SessionStaging_new library_root device_id session_id revision =
    result_bind (validate_id_segment device_id) (\<lambda>_.
    result_bind (validate_id_segment session_id) (\<lambda>_.
    Inr \<lparr>st_library_root = library_root, st_device_id = device_id, st_session_id = session_id,
         st_revision = revision\<rparr>))"

definition for_publication ::
    "Host \<Rightarrow> path \<Rightarrow> string \<Rightarrow> string \<Rightarrow> bytes \<Rightarrow> PathSafetyError + SessionStaging" where
  "for_publication h library_root device_id session_id payload =
    SessionStaging_new library_root device_id session_id (from_publication h payload)"

definition staging_root :: "SessionStaging \<Rightarrow> path" where
  "staging_root st = join_path (st_library_root st) STAGING_DIR_NAME"

definition file_root :: "SessionStaging \<Rightarrow> path" where
  "file_root st = join_path (staging_root st) (st_revision st)"

definition revision_dir :: "SessionStaging \<Rightarrow> path" where
  "revision_dir st = join_path (join_path (file_root st) (st_device_id st)) (st_session_id st)"

definition published_dir :: "SessionStaging \<Rightarrow> path" where
  "published_dir st =
    join_path (join_path (st_library_root st) (st_device_id st)) (st_session_id st)"

definition superseded_dir :: "SessionStaging \<Rightarrow> path" where
  "superseded_dir st =
    join_path (join_path (join_path (join_path (staging_root st) SUPERSEDED_DIR_NAME)
      (st_revision st)) (st_device_id st)) (st_session_id st)"

definition selected_trash_dir :: "SessionStaging \<Rightarrow> path" where
  "selected_trash_dir st =
    join_path (join_path (join_path (join_path (staging_root st) SELECTED_TRASH_DIR_NAME)
      (st_revision st)) (st_device_id st)) (st_session_id st)"

definition selected_trash_path :: "SessionStaging \<Rightarrow> nat \<Rightarrow> path" where
  "selected_trash_path st i = join_path (selected_trash_dir st) (''file-'' @ decimal i)"

definition selected_marker_trash_path :: "SessionStaging \<Rightarrow> path" where
  "selected_marker_trash_path st = join_path (selected_trash_dir st) ''marker''"

definition prepare :: "SessionStaging \<Rightarrow> unit dl" where
  "prepare st =
    dl_bind (dl_io (revision_dir st) (create_dir_all (revision_dir st))) (\<lambda>_.
      fsync_dir (revision_dir st))"

definition download_into ::
    "Host \<Rightarrow> DownloadSource \<Rightarrow> SessionStaging \<Rightarrow> FilePlan \<Rightarrow> VerifiedFile dl" where
  "download_into h source st plan =
    (if fp_device_id plan \<noteq> st_device_id st \<or> fp_session_id plan \<noteq> st_session_id st
     then dl_fail (InvalidPlan (''plan is for '' @ fp_device_id plan @ ''/'' @ fp_session_id plan @
       '' but this staging area is for '' @ st_device_id st @ ''/'' @ st_session_id st))
     else download_file h source plan (file_root st))"

section \<open>Reading the protocol back\<close>

definition marker_matches :: "MarkerCodec \<Rightarrow> SessionStaging \<Rightarrow> path \<Rightarrow> Disk \<Rightarrow> bool \<times> Disk" where
  "marker_matches mc st dir d =
    (case read_revision_marker mc dir d of
       (m, d') \<Rightarrow> (case m of None \<Rightarrow> False | Some x \<Rightarrow> rm_revision x = st_revision st, d'))"

definition selected_marker_matches :: "MarkerCodec \<Rightarrow> SessionStaging \<Rightarrow> path \<Rightarrow> Disk \<Rightarrow> bool \<times> Disk" where
  "selected_marker_matches mc st dir d =
    (case read_selected_marker mc dir d of
       (m, d') \<Rightarrow> (case m of None \<Rightarrow> False | Some x \<Rightarrow> sm_revision x = st_revision st, d'))"

definition is_published :: "MarkerCodec \<Rightarrow> SessionStaging \<Rightarrow> Disk \<Rightarrow> bool \<times> Disk" where
  "is_published mc st = marker_matches mc st (published_dir st)"

definition is_selected_published :: "MarkerCodec \<Rightarrow> SessionStaging \<Rightarrow> Disk \<Rightarrow> bool \<times> Disk" where
  "is_selected_published mc st = selected_marker_matches mc st (published_dir st)"

definition revision_state :: "MarkerCodec \<Rightarrow> SessionStaging \<Rightarrow> Disk \<Rightarrow> RevisionState \<times> Disk" where
  "revision_state mc st d =
    (case is_published mc st d of
       (True, d1) \<Rightarrow> (RevPublished, d1)
     | (False, d1) \<Rightarrow>
       (case is_selected_published mc st d1 of
          (True, d2) \<Rightarrow> (RevSelectedPublished, d2)
        | (False, d2) \<Rightarrow>
          (case path_is_dir (revision_dir st) d2 of
             (False, d3) \<Rightarrow> (RevAbsent, d3)
           | (True, d3) \<Rightarrow>
             (case marker_matches mc st (revision_dir st) d3 of
                (True, d4) \<Rightarrow> (RevSealed, d4)
              | (False, d4) \<Rightarrow>
                  (case selected_marker_matches mc st (revision_dir st) d4 of
                     (sel, d5) \<Rightarrow> (if sel then RevSealed else RevStaged, d5))))))"


section \<open>Helpers on the disk\<close>

definition durable_temp_path :: "path \<Rightarrow> path" where
  "durable_temp_path p = push_suffix p ''.tmp''"

definition remove_any :: "path \<Rightarrow> unit dl" where
  "remove_any p =
    dl_bind (dl_try (symlink_metadata p)) (\<lambda>r.
      case r of
        Inl e \<Rightarrow> if io_kind e = NotFound then dl_return () else dl_fail (Io p e)
      | Inr (NDir _) \<Rightarrow> dl_io p (remove_dir_all p)
      | Inr _ \<Rightarrow> dl_io p (remove_file p))"

text \<open>
  The loop climbs from the parent of a path; the argument is the number of
  components that are left, so the list of ancestors is walked outwards.
\<close>

fun prune_up :: "nat \<Rightarrow> path \<Rightarrow> path \<Rightarrow> Disk \<Rightarrow> Disk" where
  "prune_up 0 dir stop_at d = d"
| "prune_up (Suc n) dir stop_at d =
     (if dir = stop_at \<or> path_strip_prefix stop_at dir = None then d
      else (case remove_dir dir d of
          (Inl _, d') \<Rightarrow> d'
        | (Inr _, d') \<Rightarrow> (case path_parent dir of None \<Rightarrow> d' | Some up \<Rightarrow> prune_up n up stop_at d')))"

definition prune_empty_parents :: "path \<Rightarrow> path \<Rightarrow> Disk \<Rightarrow> Disk" where
  "prune_empty_parents p stop_at d =
    (case path_parent p of None \<Rightarrow> d | Some dir \<Rightarrow> prune_up (length p) dir stop_at d)"

text \<open>
  \<open>collect_files\<close>: the entries of a directory in turn, directories entered, links
  listed as themselves.  The first argument bounds the depth; a tree is never deeper
  than the disk has nodes.
\<close>

primrec collect_entries ::
    "(path \<Rightarrow> path list io) \<Rightarrow> path \<Rightarrow> string list \<Rightarrow> path list io" where
  "collect_entries enter dir [] = (\<lambda>d. (Inr [], d))"
| "collect_entries enter dir (n # ns) = (\<lambda>d.
     case (case lookup d (dir @ [Normal n]) of
             Some (NDir _) \<Rightarrow> enter (dir @ [Normal n]) d
           | _ \<Rightarrow> (Inr [dir @ [Normal n]], d)) of
       (Inl e, d1) \<Rightarrow> (Inl e, d1)
     | (Inr found, d1) \<Rightarrow>
         (case collect_entries enter dir ns d1 of
            (Inl e, d2) \<Rightarrow> (Inl e, d2)
          | (Inr rest, d2) \<Rightarrow> (Inr (found @ rest), d2)))"

primrec collect_files :: "nat \<Rightarrow> path \<Rightarrow> path list io" where
  "collect_files 0 dir = (\<lambda>d. (Inl ELOOP, d))"
| "collect_files (Suc depth) dir = (\<lambda>d.
     case read_dir dir d of
       (Inl e, d') \<Rightarrow> (if io_kind e = NotFound then Inr [] else Inl e, d')
     | (Inr names, d') \<Rightarrow> collect_entries (collect_files depth) dir names d')"

text \<open>\<open>fsync_tree\<close>: a stack of directories; every directory is visited once.\<close>

fun fsync_stack :: "nat \<Rightarrow> path list \<Rightarrow> unit dl" where
  "fsync_stack n [] = dl_return ()"
| "fsync_stack 0 (current # stack) = dl_fail (Io current ELOOP)"
| "fsync_stack (Suc n) (current # stack) =
     dl_bind (dl_io current (read_dir current)) (\<lambda>names d.
       let dirs = filter (\<lambda>p. case lookup d p of Some (NDir _) \<Rightarrow> True | _ \<Rightarrow> False)
                    (map (\<lambda>n. current @ [Normal n]) names) in
       dl_bind (fsync_dir current) (\<lambda>_. fsync_stack n (rev dirs @ stack)) d)"

definition fsync_tree :: "path \<Rightarrow> unit dl" where
  "fsync_tree dir d = fsync_stack (Suc (length (dk_nodes d))) [dir] d"

definition rewrite_internal_marker :: "path \<Rightarrow> bytes \<Rightarrow> unit dl" where
  "rewrite_internal_marker p b =
    dl_bind (dl_bind (dl_try (symlink_metadata p)) (\<lambda>r.
      case r of
        Inr (NSymlink _) \<Rightarrow> reject_symlink p
      | Inr (NDir _) \<Rightarrow> dl_fail (InvalidPlan (''internal marker is not a regular file: '' @ display_path p))
      | Inr (NFile _) \<Rightarrow>
          dl_bind (dl_io p (remove_file p)) (\<lambda>_.
            case path_parent p of None \<Rightarrow> dl_return () | Some parent \<Rightarrow> fsync_dir parent)
      | Inl e \<Rightarrow> if io_kind e = NotFound then dl_return () else dl_fail (Io p e)))
      (\<lambda>_. write_file_durably p b)"

section \<open>Sealing\<close>

definition evidence_problem :: "ArtifactEvidence \<Rightarrow> manifest_problem list" where
  "evidence_problem e =
    (case ae_status e of
       Verified \<Rightarrow> []
     | Missing \<Rightarrow> [FileMissing (ae_file_id e)]
     | Partial durable_offset \<Rightarrow> [FilePartial (ae_file_id e) durable_offset (ae_expected_size e)]
     | Invalid reason \<Rightarrow> [FileInvalid (ae_file_id e) reason])"

definition staging_inspector :: "SessionStaging \<Rightarrow> ArtifactInspector" where
  "staging_inspector st =
    \<lparr>ai_library_root = file_root st, ai_device_id = st_device_id st, ai_session_id = st_session_id st\<rparr>"

definition verify_manifest :: "Host \<Rightarrow> SessionStaging \<Rightarrow> SessionManifest \<Rightarrow> unit pb" where
  "verify_manifest h st m d =
    (case plan_recovery h (staging_inspector st) (mf_files m) d of
       (plan, d1) \<Rightarrow>
         (let dir = revision_dir st;
              problems = concat (map evidence_problem (rp_evidence plan));
              expected = List.map_filter ae_target (rp_evidence plan);
              known = join_path dir REVISION_MARKER_NAME # join_path dir SELECTED_MARKER_NAME # expected in
          case collect_files (Suc (length (dk_nodes d1))) dir d1 of
            (Inl e, d2) \<Rightarrow> (Inl (PubDownload (Io dir e)), d2)
          | (Inr present, d2) \<Rightarrow>
              (let extra = filter (\<lambda>p. p \<notin> set known) present;
                   found = problems @ map FileUnlisted extra in
               if found = [] then (Inr (), d2)
               else (Inl (ManifestMismatch (st_revision st) found), d2))))"

definition cleanup_marker_temp_files :: "SessionStaging \<Rightarrow> unit pb" where
  "cleanup_marker_temp_files st =
    pb_bind (pb_ignore (remove_file (durable_temp_path (join_path (revision_dir st) REVISION_MARKER_NAME))))
      (\<lambda>_. pb_ignore (remove_file (durable_temp_path (join_path (revision_dir st) SELECTED_MARKER_NAME))))"

definition revision_marker :: "SessionStaging \<Rightarrow> SessionManifest \<Rightarrow> RevisionMarker" where
  "revision_marker st m =
    \<lparr>rm_revision = st_revision st, rm_file_count = of_nat (length (mf_files m)),
     rm_total_bytes = manifest_total_bytes m\<rparr>"

definition seal :: "Host \<Rightarrow> MarkerCodec \<Rightarrow> SessionStaging \<Rightarrow> SessionManifest \<Rightarrow> unit pb" where
  "seal h mc st m =
    pb_bind (pb_ask (is_published mc st)) (\<lambda>published.
    if published then pb_return ()
    else pb_bind (pb_ask (path_is_dir (revision_dir st))) (\<lambda>dir.
    if \<not> dir then pb_fail (NothingStaged (st_revision st) (revision_dir st))
    else pb_bind (cleanup_marker_temp_files st) (\<lambda>_.
    pb_bind (verify_manifest h st m) (\<lambda>_.
    pb_bind (pb_dl (rewrite_internal_marker (join_path (revision_dir st) REVISION_MARKER_NAME)
               (mc_revision_to_json mc (revision_marker st m)))) (\<lambda>_.
    pb_dl (fsync_tree (revision_dir st)))))))"

section \<open>Publishing a whole session\<close>

text \<open>Best-effort removals, run in turn.\<close>

definition drop_tree :: "path \<Rightarrow> Disk \<Rightarrow> Disk" where
  "drop_tree p d = snd (remove_dir_all p d)"

definition drop_dir :: "path \<Rightarrow> Disk \<Rightarrow> Disk" where
  "drop_dir p d = snd (remove_dir p d)"

definition in_turn :: "(Disk \<Rightarrow> Disk) list \<Rightarrow> Disk \<Rightarrow> Disk" where
  "in_turn steps d = fold (\<lambda>step. step) steps d"

definition cleanup_staging_skeleton :: "SessionStaging \<Rightarrow> Disk \<Rightarrow> Disk" where
  "cleanup_staging_skeleton st = in_turn
    [drop_tree (revision_dir st),
     prune_empty_parents (revision_dir st) (staging_root st),
     drop_tree (superseded_dir st),
     prune_empty_parents (superseded_dir st) (join_path (staging_root st) SUPERSEDED_DIR_NAME),
     drop_dir (join_path (staging_root st) SUPERSEDED_DIR_NAME),
     drop_dir (staging_root st)]"

definition dl_cleanup :: "(Disk \<Rightarrow> Disk) \<Rightarrow> unit dl" where
  "dl_cleanup f d = (Inr (), f d)"

text \<open>
  The old directory is moved aside: whatever an earlier attempt left there is cleared
  first.
\<close>

definition make_room :: "SessionStaging \<Rightarrow> unit dl" where
  "make_room st =
    dl_bind (dl_bind (dl_try (remove_dir_all (superseded_dir st))) (\<lambda>r.
      case r of
        Inr _ \<Rightarrow> dl_return ()
      | Inl e \<Rightarrow> if io_kind e = NotFound then dl_return () else dl_fail (Io (superseded_dir st) e))) (\<lambda>_.
    case path_parent (superseded_dir st) of
      None \<Rightarrow> dl_return ()
    | Some parent \<Rightarrow> dl_io parent (create_dir_all parent))"

definition set_aside :: "SessionStaging \<Rightarrow> path \<Rightarrow> unit dl" where
  "set_aside st published_parent =
    dl_bind (dl_try (symlink_metadata (published_dir st))) (\<lambda>there.
      if isl there then dl_return ()
      else
        dl_bind (make_room st) (\<lambda>_.
        dl_bind (dl_io (published_dir st) (rename (published_dir st) (superseded_dir st))) (\<lambda>_.
          fsync_dir published_parent)))"

text \<open>The publishing rename with its rollback.\<close>

definition publish_rename :: "SessionStaging \<Rightarrow> path \<Rightarrow> unit dl" where
  "publish_rename st published_parent =
    dl_bind (dl_try (rename (revision_dir st) (published_dir st))) (\<lambda>r.
      case r of
        Inr _ \<Rightarrow> dl_return ()
      | Inl e \<Rightarrow> (\<lambda>d.
          case path_exists (superseded_dir st) d of
            (False, d1) \<Rightarrow> (Inl (Io (published_dir st) e), d1)
          | (True, d1) \<Rightarrow>
            (case path_exists (published_dir st) d1 of
               (True, d2) \<Rightarrow> (Inl (Io (published_dir st) e), d2)
             | (False, d2) \<Rightarrow>
               (case rename (superseded_dir st) (published_dir st) d2 of
                  (Inl rollback, d3) \<Rightarrow>
                    (Inl (Io (published_dir st) (IoError (io_kind rollback) None)), d3)
                | (Inr _, d3) \<Rightarrow>
                    (Inl (Io (published_dir st) e), snd (fsync_dir published_parent d3))))))"

definition publish_sealed :: "MarkerCodec \<Rightarrow> SessionStaging \<Rightarrow> PublishOutcome pb" where
  "publish_sealed mc st =
    pb_bind (pb_ask (is_published mc st)) (\<lambda>published.
    if published then
      pb_bind (pb_dl (dl_cleanup (cleanup_staging_skeleton st))) (\<lambda>_.
        pb_return (AlreadyPublished (st_revision st)))
    else pb_bind (pb_ask (path_is_dir (revision_dir st))) (\<lambda>dir.
    if \<not> dir then pb_fail (NothingStaged (st_revision st) (revision_dir st))
    else pb_bind (pb_ask (marker_matches mc st (revision_dir st))) (\<lambda>sealed.
    if \<not> sealed then pb_fail (NotSealed (st_revision st))
    else (case path_parent (published_dir st) of
        None \<Rightarrow> pb_fail (PubDownload (PathSafety EscapesRoot))
      | Some parent \<Rightarrow>
          pb_bind (pb_dl (dl_io parent (create_dir_all parent))) (\<lambda>_.
          pb_bind (pb_dl (set_aside st parent)) (\<lambda>_.
          pb_bind (pb_dl (publish_rename st parent)) (\<lambda>_.
          pb_bind (pb_dl (fsync_dir parent)) (\<lambda>_.
          pb_bind (pb_ignore (remove_dir_all (superseded_dir st))) (\<lambda>_.
          pb_bind (pb_dl (dl_cleanup (cleanup_staging_skeleton st))) (\<lambda>_.
            pb_return (Published (st_revision st))))))))))))"

definition publish :: "Host \<Rightarrow> MarkerCodec \<Rightarrow> SessionStaging \<Rightarrow> SessionManifest \<Rightarrow> PublishOutcome pb" where
  "publish h mc st m = pb_bind (seal h mc st m) (\<lambda>_. publish_sealed mc st)"

definition discard :: "SessionStaging \<Rightarrow> unit dl" where
  "discard st =
    dl_bind (dl_bind (dl_try (remove_dir_all (revision_dir st))) (\<lambda>r.
      case r of
        Inr _ \<Rightarrow> dl_return ()
      | Inl e \<Rightarrow> if io_kind e = NotFound then dl_return () else dl_fail (Io (revision_dir st) e)))
      (\<lambda>_. dl_cleanup (prune_empty_parents (revision_dir st) (staging_root st)))"

end
