(* ===== verification/Staging_Frame.thy ===== *)
theory Staging_Frame
  imports Session_Staging
begin

text \<open>
  What the staging operations may change.  The places of a revision (its staged tree,
  the visible session, the tree that was set aside) lie apart from each other; every
  operation keeps the shape of the disk tree, and the operations that only read or
  only tidy up leave every place they are not about as it was.
\<close>

section \<open>Places\<close>

definition plain_name :: "string \<Rightarrow> bool" where
  "plain_name s \<longleftrightarrow> s \<noteq> [] \<and> s \<noteq> ''.'' \<and> s \<noteq> ''..'' \<and> CHR ''/'' \<notin> set s"

definition staging_ok :: "SessionStaging \<Rightarrow> bool" where
  "staging_ok st \<longleftrightarrow>
    st_library_root st \<noteq> [] \<and> validate_id_segment (st_device_id st) = Inr () \<and>
    validate_id_segment (st_session_id st) = Inr () \<and> plain_name (st_revision st) \<and>
    st_revision st \<noteq> SUPERSEDED_DIR_NAME \<and> st_revision st \<noteq> SELECTED_TRASH_DIR_NAME"

lemma join_plain:
  assumes "base \<noteq> []" "plain_name s"
  shows "join_path base s = base @ [Normal s]"
proof -
  have "split_char CHR ''/'' s = [s]" using assms(2) by (simp add: plain_name_def split_char_atom)
  moreover have "\<not> is_absolute s"
    using assms(2) by (cases s) (auto simp: is_absolute_def plain_name_def)
  ultimately show ?thesis
    using assms by (simp add: join_path_def later_components_def segment_component_def plain_name_def)
qed

lemma valid_is_plain: "validate_id_segment s = Inr u \<Longrightarrow> plain_name s"
  using validate_id_segment_ok by (auto simp: plain_name_def)

lemma internal_names_plain [simp]:
  "plain_name STAGING_DIR_NAME" "plain_name SUPERSEDED_DIR_NAME" "plain_name SELECTED_TRASH_DIR_NAME"
  "plain_name REVISION_MARKER_NAME" "plain_name SELECTED_MARKER_NAME"
  by (simp_all add: plain_name_def STAGING_DIR_NAME_def SUPERSEDED_DIR_NAME_def
      SELECTED_TRASH_DIR_NAME_def REVISION_MARKER_NAME_def SELECTED_MARKER_NAME_def)

lemma staging_paths:
  assumes "staging_ok st"
  shows "staging_root st = st_library_root st @ [Normal STAGING_DIR_NAME]"
    "file_root st = st_library_root st @ [Normal STAGING_DIR_NAME, Normal (st_revision st)]"
    "published_dir st = st_library_root st @ [Normal (st_device_id st), Normal (st_session_id st)]"
    "revision_dir st = st_library_root st @ [Normal STAGING_DIR_NAME, Normal (st_revision st),
       Normal (st_device_id st), Normal (st_session_id st)]"
    "superseded_dir st = st_library_root st @ [Normal STAGING_DIR_NAME, Normal SUPERSEDED_DIR_NAME,
       Normal (st_revision st), Normal (st_device_id st), Normal (st_session_id st)]"
    "selected_trash_dir st = st_library_root st @ [Normal STAGING_DIR_NAME, Normal SELECTED_TRASH_DIR_NAME,
       Normal (st_revision st), Normal (st_device_id st), Normal (st_session_id st)]"
  using assms
  by (simp_all add: staging_ok_def staging_root_def file_root_def published_dir_def revision_dir_def
      superseded_dir_def selected_trash_dir_def join_plain valid_is_plain)

lemma device_not_staging:
  assumes "staging_ok st"
  shows "st_device_id st \<noteq> STAGING_DIR_NAME"
proof -
  have "\<not> is_internal_name (st_device_id st)"
    using assms validate_id_segment_ok by (auto simp: staging_ok_def)
  then show ?thesis by (auto simp: is_internal_name_def eq_ignore_ascii_case_def)
qed

lemma apart_iff: "apart a b \<longleftrightarrow> (\<forall>r s. a @ r \<noteq> b @ s)"
  unfolding apart_def below_iff set_eq_iff Int_iff by (metis empty_iff)

lemma apart_prefix: "apart (p @ a) (p @ b) \<longleftrightarrow> apart a b"
  by (simp add: apart_iff)

lemma apart_Cons [simp]: "apart (x # a) (y # b) \<longleftrightarrow> x \<noteq> y \<or> apart a b"
  by (auto simp: apart_iff)

lemma staging_apart:
  assumes "staging_ok st"
  shows "apart (revision_dir st) (published_dir st)" "apart (superseded_dir st) (published_dir st)"
    "apart (revision_dir st) (superseded_dir st)" "apart (staging_root st) (published_dir st)"
  using assms device_not_staging [OF assms]
  by (auto simp: staging_paths apart_prefix staging_ok_def)

lemma staging_below:
  assumes "staging_ok st"
  shows "below (revision_dir st) \<subseteq> below (staging_root st)"
    "below (superseded_dir st) \<subseteq> below (staging_root st)"
  using assms by (auto simp: staging_paths below_iff)

text \<open>Every revision of a publication is a good place.\<close>

lemma hex_no_slash: "CHR ''/'' \<notin> set (RequestDigest_to_hex b)"
  using to_hex_lower [of b] by (auto simp: list_all_iff is_lower_hex_def)

lemma for_publication_ok:
  assumes "for_publication h root dev ses payload = Inr st" "root \<noteq> []"
  shows "staging_ok st \<and> st_library_root st = root \<and> st_device_id st = dev \<and> st_session_id st = ses \<and>
    st_revision st = from_publication h payload"
proof -
  have "CHR ''/'' \<notin> set (from_publication h payload)"
    using hex_no_slash [of "host_sha256 h payload"]
    by (auto simp: from_publication_def sha256_hex_def dest!: in_set_takeD)
  then have "plain_name (from_publication h payload)"
    by (simp add: plain_name_def from_publication_def)
  with assms show ?thesis
    by (auto simp: for_publication_def SessionStaging_new_def staging_ok_def result_bind_Inr_iff
        from_publication_def SUPERSEDED_DIR_NAME_def SELECTED_TRASH_DIR_NAME_def)
qed

section \<open>Keeping the tree\<close>

definition keeps_tree :: "(Disk \<Rightarrow> 'r \<times> Disk) \<Rightarrow> bool" where
  "keeps_tree m \<longleftrightarrow> (\<forall>d. tree_wf d \<longrightarrow> tree_wf (snd (m d)))"

named_theorems keepsI \<open>operations that keep the shape of the disk tree\<close>

lemma keepsD: "keeps_tree m \<Longrightarrow> m d = (r, d') \<Longrightarrow> tree_wf d \<Longrightarrow> tree_wf d'"
  by (metis keeps_tree_def snd_conv)

lemma tree_wf_tick [simp]: "tree_wf (io_tick d) = tree_wf d"
  by (simp add: tree_wf_def)

lemma keeps_guarded: "keeps_tree body \<Longrightarrow> keeps_tree (guarded body)"
  by (auto simp: keeps_tree_def guarded_def split: option.splits)

lemma keeps_nodes: "(\<And>d. dk_nodes (snd (m d)) = dk_nodes d) \<Longrightarrow> keeps_tree m"
  by (simp add: keeps_tree_def tree_wf_def)

lemma keeps_dl [keepsI]: "keeps_tree (dl_return x)" "keeps_tree (dl_fail e)"
  by (simp_all add: keeps_tree_def dl_return_def dl_fail_def)

lemma keeps_dl_bind [keepsI]:
  assumes "keeps_tree m" "\<And>x. keeps_tree (f x)"
  shows "keeps_tree (dl_bind m f)"
  using assms by (fastforce simp: keeps_tree_def dl_bind_fst split: sum.splits)

lemma keeps_result: "keeps_tree m \<Longrightarrow> (\<And>d. snd (m' d) = snd (m d)) \<Longrightarrow> keeps_tree m'"
  by (simp add: keeps_tree_def)

lemma keeps_dl_io [keepsI]: "keeps_tree m \<Longrightarrow> keeps_tree (dl_io p m)"
  by (erule keeps_result) (auto simp: dl_io_def split: prod.splits sum.splits)

lemma keeps_dl_try [keepsI]: "keeps_tree m \<Longrightarrow> keeps_tree (dl_try m)"
  by (erule keeps_result) (auto simp: dl_try_def split: prod.splits)

lemma keeps_reads [keepsI]:
  "keeps_tree (metadata p)" "keeps_tree (symlink_metadata p)" "keeps_tree (read_file p)"
  "keeps_tree (fsync_dir p)" "keeps_tree (read_dir p)"
  by (rule keeps_nodes, simp add: fsync_dir_result read_dir_def guarded_def split: option.splits)+

lemma tree_wf_remove:
  assumes "tree_wf d" "lookup d' = (\<lambda>q. if q \<in> G then None else lookup d q)"
    and "\<And>q c. q \<in> G \<Longrightarrow> lookup d (q @ [c]) \<noteq> None \<Longrightarrow> q @ [c] \<in> G"
  shows "tree_wf d'"
  unfolding tree_wf_def
proof (intro allI impI)
  fix p c
  assume p: "p \<noteq> []" "lookup d' (p @ [c]) \<noteq> None"
  then have n: "p @ [c] \<notin> G" "lookup d (p @ [c]) \<noteq> None" using assms(2) by (auto split: if_splits)
  then have "p \<notin> G" using assms(3) by blast
  moreover have "\<exists>l. lookup d p = Some (NDir l)" using assms(1) p(1) n(2) unfolding tree_wf_def by blast
  ultimately show "\<exists>l. lookup d' p = Some (NDir l)" using assms(2) by simp
qed

lemma dir_empty_child: "dir_empty p (dk_nodes d) \<Longrightarrow> lookup d (p @ [c]) = None"
  by (rule ccontr) (auto simp: dir_empty_def list_all_iff dest!: map_of_SomeD)

lemma keeps_remove_dir [keepsI]: "keeps_tree (remove_dir p)"
  unfolding remove_dir_def
proof (rule keeps_guarded, unfold keeps_tree_def, intro allI impI)
  fix d :: Disk
  assume wf: "tree_wf d"
  have "tree_wf (d\<lparr>dk_nodes := del_node p (dk_nodes d)\<rparr>)" if "dir_empty p (dk_nodes d)"
    by (rule tree_wf_remove [OF wf, of _ "{p}"]) (use dir_empty_child [OF that] in auto)
  with wf show "tree_wf (snd (case lookup d p of None \<Rightarrow> (Inl ENOENT, d)
      | Some (NDir _) \<Rightarrow> if dir_empty p (dk_nodes d) then (Inr (), d\<lparr>dk_nodes := del_node p (dk_nodes d)\<rparr>)
          else (Inl ENOTEMPTY, d)
      | Some _ \<Rightarrow> (Inl ENOTDIR, d)))"
    by (auto split: option.splits node.splits)
qed

lemma tree_wf_del_leaf:
  assumes "tree_wf d" "p \<noteq> []" "\<nexists>l. lookup d p = Some (NDir l)"
  shows "tree_wf (d\<lparr>dk_nodes := del_node p (dk_nodes d)\<rparr>)"
proof (rule tree_wf_remove [OF assms(1), of _ "{p}"])
  fix q c
  assume "q \<in> {p}" "lookup d (q @ [c]) \<noteq> None"
  with assms have False unfolding tree_wf_def by auto
  then show "q @ [c] \<in> {p}" ..
qed auto

lemma keeps_remove_file [keepsI]: "p \<noteq> [] \<Longrightarrow> keeps_tree (remove_file p)"
  unfolding remove_file_def
  by (rule keeps_guarded) (auto simp: keeps_tree_def tree_wf_del_leaf split: option.splits node.splits)

lemma descending_prefix:
  assumes "sorted (rev (map f xs))" "x \<in> set (take k xs)" "y \<in> set xs" "f x < f y"
  shows "y \<in> set (take k xs)"
proof (rule ccontr)
  assume y: "y \<notin> set (take k xs)"
  have "xs = take k xs @ drop k xs" by simp
  then have "y \<in> set (drop k xs)" using assms(3) y by (metis Un_iff set_append)
  moreover have "sorted (rev (map f (drop k xs)) @ rev (map f (take k xs)))"
    using assms(1) by (metis append_take_drop_id map_append rev_append)
  ultimately have "f y \<le> f x" using assms(2) by (auto simp: sorted_append)
  with assms(4) show False by simp
qed

lemma lookup_remove_leaves:
  "map_of (remove_leaves k p ns) =
   (\<lambda>q. if q \<in> set (take k (rev (sort_key length (filter (\<lambda>q. path_strip_prefix p q \<noteq> None) (map fst ns)))))
        then None else map_of ns q)"
  unfolding remove_leaves_def Let_def
  by (rule ext) (subst map_of_filter_key, simp)

lemma lookup_remove_tree: "map_of (remove_tree p ns) = (\<lambda>q. if q \<in> below p then None else map_of ns q)"
  unfolding remove_tree_def by (rule ext) (subst map_of_filter_key, simp add: below_def)

lemma keeps_remove_dir_all [keepsI]: "p \<noteq> [] \<Longrightarrow> keeps_tree (remove_dir_all p)"
  unfolding keeps_tree_def
proof (intro allI impI)
  fix d :: Disk
  assume p: "p \<noteq> []" and wf: "tree_wf d"
  have leaves: "tree_wf ((io_tick d)\<lparr>dk_nodes := remove_leaves k p (dk_nodes d)\<rparr>)" for k
  proof -
    let ?in = "filter (\<lambda>q. path_strip_prefix p q \<noteq> None) (map fst (dk_nodes d))"
    let ?xs = "rev (sort_key length ?in)"
    show ?thesis
    proof (rule tree_wf_remove [OF wf, of _ "set (take k ?xs)"])
      fix q c
      assume q: "q \<in> set (take k ?xs)" and n: "lookup d (q @ [c]) \<noteq> None"
      have "q \<in> set ?in" using q by (metis in_set_takeD set_rev set_sort)
      then have "q @ [c] \<in> below p" by (auto simp: path_strip_prefix_Some below_iff)
      then have "q @ [c] \<in> set ?xs"
        using n by (auto simp: below_def map_of_eq_None_iff)
      moreover have "sorted (rev (map length ?xs))" by (simp add: rev_map)
      ultimately show "q @ [c] \<in> set (take k ?xs)"
        using descending_prefix [of length ?xs q k "q @ [c]"] q by simp
    qed (simp add: lookup_remove_leaves)
  qed
  have whole: "tree_wf ((io_tick d)\<lparr>dk_nodes := remove_tree p (dk_nodes d)\<rparr>)"
    by (rule tree_wf_remove [OF wf, of _ "below p"]) (auto simp: lookup_remove_tree below_iff)
  have leaf: "tree_wf ((io_tick d)\<lparr>dk_nodes := del_node p (dk_nodes d)\<rparr>)"
    if "lookup d p = Some (NSymlink t)" for t
    using tree_wf_del_leaf [of "io_tick d" p] wf p that by simp
  show "tree_wf (snd (remove_dir_all p d))"
    using wf leaves whole leaf
    by (auto simp: remove_dir_all_def split: option.splits node.splits)
qed

lemma tree_wf_put:
  assumes "tree_wf d" "butlast q = [] \<or> (\<exists>l. lookup d (butlast q) = Some (NDir l))"
    and "lookup d q = None \<or> (\<exists>l. n = NDir l) \<or> (\<nexists>l. lookup d q = Some (NDir l))" "q \<noteq> []"
  shows "tree_wf (d\<lparr>dk_nodes := put_node q n (dk_nodes d)\<rparr>)"
  unfolding tree_wf_def
proof (intro allI impI)
  fix p c
  let ?d = "d\<lparr>dk_nodes := put_node q n (dk_nodes d)\<rparr>"
  assume p: "p \<noteq> []" "lookup ?d (p @ [c]) \<noteq> None"
  show "\<exists>l. lookup ?d p = Some (NDir l)"
  proof (cases "p @ [c] = q")
    case True
    then have "butlast q = p" by auto
    then have "\<exists>l. lookup d p = Some (NDir l)" using assms(2) p(1) by auto
    then show ?thesis using True by auto
  next
    case False
    then have "\<exists>l. lookup d p = Some (NDir l)" using assms(1) p unfolding tree_wf_def by auto
    with assms(3) show ?thesis by auto
  qed
qed

lemma make_dirs_wf:
  assumes "tree_wf d" "0 < i" "i = 1 \<or> (\<exists>l. lookup d (take (i - 1) p) = Some (NDir l))"
    and "i + n = Suc (length p)"
  shows "tree_wf (snd (make_dirs (map (\<lambda>k. take k p) [i..<i + n]) d))"
  using assms
proof (induction n arbitrary: i d)
  case (Suc n)
  let ?q = "take i p"
  have up: "[i..<i + Suc n] = i # [Suc i..<Suc i + n]" by (simp add: upt_conv_Cons)
  have q: "?q \<noteq> []" "butlast ?q = take (i - 1) p" using Suc.prems by (auto simp: butlast_take)
  have next_ok: "Suc i + n = Suc (length p)" using Suc.prems by simp
  note ih = Suc.IH [OF _ _ _ next_ok, simplified]
  show ?case
  proof (cases "lookup d ?q")
    case None
    have "tree_wf (d\<lparr>dk_nodes := put_node ?q (NDir 4096) (dk_nodes d)\<rparr>)"
      using Suc.prems q None by (intro tree_wf_put) auto
    then show ?thesis using ih None unfolding up by simp
  next
    case (Some m)
    then show ?thesis using ih [OF Suc.prems(1)] Suc.prems(1) unfolding up by (cases m) simp_all
  qed
qed simp

lemma keeps_create_dir_all [keepsI]: "keeps_tree (create_dir_all p)"
  unfolding create_dir_all_def
proof (rule keeps_guarded, unfold keeps_tree_def, intro allI impI)
  fix d :: Disk
  assume "tree_wf d"
  then show "tree_wf (snd (make_dirs (map (\<lambda>k. take k p) [1..<Suc (length p)]) d))"
    using make_dirs_wf [of d 1 p "length p"] by simp
qed

lemma keeps_rename [keepsI]: "apart a b \<Longrightarrow> a \<noteq> [] \<Longrightarrow> b \<noteq> [] \<Longrightarrow> keeps_tree (rename a b)"
  unfolding keeps_tree_def using rename_wf by (metis prod.collapse)

section \<open>What may change\<close>

text \<open>With no path required to be free of links, \<open>touches {} S\<close> bounds the changes from any state.\<close>

lemma touches_bare: "(\<And>d p. p \<notin> S \<Longrightarrow> lookup (snd (m d)) p = lookup d p) \<Longrightarrow>
    (\<And>d. dk_faults (snd (m d)) = dk_faults d) \<Longrightarrow> touches {} S m"
  by (simp add: touches_def)

lemma touches_bareD: "touches {} S m \<Longrightarrow> m d = (r, d') \<Longrightarrow> p \<notin> S \<Longrightarrow> lookup d' p = lookup d p"
  by (metis touchesD(1) empty_iff snd_conv)

lemma touches_bare_rename [touchesI]:
  "below a \<subseteq> S \<Longrightarrow> below b \<subseteq> S \<Longrightarrow> touches {} S (rename a b)"
proof (rule touches_bare)
  fix d p
  assume S: "below a \<subseteq> S" "below b \<subseteq> S" and p: "p \<notin> S"
  have "p \<notin> below a" "p \<notin> below b" "p \<noteq> a" "p \<noteq> b" using S p below_self by blast+
  then show "lookup (snd (rename a b d)) p = lookup d p"
    by (auto simp: rename_def guarded_def rename_now_def rename_onto_def move_nodes_outside
        split: option.splits node.splits)
qed (auto simp: rename_def guarded_def rename_now_def rename_onto_def split: option.splits node.splits)

lemma take_inside: "q \<in> set (take k (rev (sort_key f (filter P (map fst ns))))) \<Longrightarrow> P q"
  by (auto dest!: in_set_takeD)

lemma touches_remove_dir_all [touchesI]: "below p \<subseteq> S \<Longrightarrow> touches {} S (remove_dir_all p)"
proof (rule touches_bare)
  fix d q
  assume S: "below p \<subseteq> S" and q: "q \<notin> S"
  have "q \<notin> below p" "q \<noteq> p" using S q below_self by blast+
  moreover have "map_of (remove_leaves k p (dk_nodes d)) q = lookup d q" for k
  proof -
    have "q \<notin> set (take k (rev (sort_key length
        (filter (\<lambda>q. path_strip_prefix p q \<noteq> None) (map fst (dk_nodes d))))))"
      using \<open>q \<notin> below p\<close> take_inside [where P = "\<lambda>q. path_strip_prefix p q \<noteq> None"]
      unfolding below_def by blast
    then show ?thesis unfolding lookup_remove_leaves by simp
  qed
  ultimately show "lookup (snd (remove_dir_all p d)) q = lookup d q"
    by (auto simp: remove_dir_all_def lookup_remove_tree split: option.splits node.splits)
qed (auto simp: remove_dir_all_def split: option.splits node.splits)

lemma touches_remove_dir [touchesI]: "p \<in> S \<Longrightarrow> touches {} S (remove_dir p)"
  by (rule touches_bare) (auto simp: remove_dir_def guarded_def split: option.splits node.splits)

lemma remove_dir_run:
  assumes "remove_dir p d = (r, d')"
  shows "q \<noteq> p \<Longrightarrow> lookup d' q = lookup d q" "tree_wf d \<Longrightarrow> tree_wf d'" "dk_faults d' = dk_faults d"
  using touches_bareD [OF touches_remove_dir [of p "{p}"] assms] keepsD [OF keeps_remove_dir assms]
    touchesD(3) [OF touches_remove_dir [of p UNIV], of d] assms by auto

lemma prune_up_bound:
  "q \<notin> below stop_at \<Longrightarrow> lookup (prune_up n dir stop_at d) q = lookup d q"
  "tree_wf d \<Longrightarrow> tree_wf (prune_up n dir stop_at d)"
  "dk_faults (prune_up n dir stop_at d) = dk_faults d"
proof (induction n dir stop_at d rule: prune_up.induct)
  case (2 n dir stop_at d)
  note step = remove_dir_run
  {
    case 1
    then have "path_strip_prefix stop_at dir \<noteq> None \<Longrightarrow> q \<noteq> dir" by (auto simp: below_def)
    then show ?case using 1 "2.IH"(1) by (auto simp: step(1) split: prod.splits sum.splits option.splits)
  next
    case 2
    then show ?case using "2.IH"(2) by (auto simp: step(2) split: prod.splits sum.splits option.splits)
  next
    case 3
    then show ?case using "2.IH"(3) by (auto simp: step(3) split: prod.splits sum.splits option.splits)
  }
qed simp_all

lemma prune_bound:
  "q \<notin> below stop_at \<Longrightarrow> lookup (prune_empty_parents p stop_at d) q = lookup d q"
  "tree_wf d \<Longrightarrow> tree_wf (prune_empty_parents p stop_at d)"
  by (auto simp: prune_empty_parents_def prune_up_bound split: option.splits)

lemma touches_prune:
  "below stop_at \<subseteq> S \<Longrightarrow> touches {} S (\<lambda>d. (r, prune_empty_parents p stop_at d))"
  by (rule touches_bare)
    (auto simp: prune_empty_parents_def prune_up_bound(3) split: option.splits intro!: prune_up_bound(1))

lemma snd_bare: "touches {} S m \<Longrightarrow> p \<notin> S \<Longrightarrow> lookup (snd (m d)) p = lookup d p"
  by (simp add: touchesD(1))

lemmas cleanup_steps = cleanup_staging_skeleton_def in_turn_def fold.simps comp_apply id_apply drop_tree_def drop_dir_def

lemma cleanup_bound:
  assumes "staging_ok st"
  shows "q \<notin> below (staging_root st) \<Longrightarrow> lookup (cleanup_staging_skeleton st d) q = lookup d q"
    and "tree_wf d \<Longrightarrow> tree_wf (cleanup_staging_skeleton st d)"
proof -
  let ?sup = "join_path (staging_root st) SUPERSEDED_DIR_NAME"
  have sup: "?sup = staging_root st @ [Normal SUPERSEDED_DIR_NAME]"
    using assms by (simp add: staging_paths join_plain)
  have sub: "below ?sup \<subseteq> below (staging_root st)" "?sup \<in> below (staging_root st)"
    unfolding sup by (auto simp: below_iff)
  have ne: "revision_dir st \<noteq> []" "superseded_dir st \<noteq> []" using assms by (simp_all add: staging_paths)
  assume q: "q \<notin> below (staging_root st)"
  then have "q \<notin> below ?sup" using sub by blast
  then show "lookup (cleanup_staging_skeleton st d) q = lookup d q"
    using q sub staging_below [OF assms] unfolding cleanup_steps
    by (simp add: prune_bound snd_bare [OF touches_remove_dir, of _ "below (staging_root st)"]
        snd_bare [OF touches_remove_dir_all, of _ "below (staging_root st)"])
next
  have ne: "revision_dir st \<noteq> []" "superseded_dir st \<noteq> []" using assms by (simp_all add: staging_paths)
  assume "tree_wf d"
  then show "tree_wf (cleanup_staging_skeleton st d)"
    using keeps_remove_dir_all [OF ne(1)] keeps_remove_dir_all [OF ne(2)] keeps_remove_dir
    unfolding cleanup_steps by (simp add: keeps_tree_def prune_bound(2))
qed

end
