(* ===== verification/Staging_Publish.thy ===== *)
theory Staging_Publish
  imports Staging_Frame
begin

text \<open>
  Publication of a whole session: whatever operation fails, and wherever the process
  stops, the visible session is the old one or the complete staged one, or, between
  the two renames, the old one is whole in the set-aside place and the staged one
  whole in its own.
\<close>

section \<open>Runs\<close>

lemma pb_bind_cases:
  assumes "pb_bind m f d = (r, d')"
  obtains (fail) e where "m d = (Inl e, d')" "r = Inl e" | (run) x d1 where "m d = (Inr x, d1)" "f x d1 = (r, d')"
  using assms by (cases "m d"; cases "fst (m d)") (auto simp: pb_bind_def)

lemma pb_dl_result: "pb_dl m d = (r, d') \<longleftrightarrow>
    (\<exists>x. m d = (x, d') \<and> r = (case x of Inl e \<Rightarrow> Inl (PubDownload e) | Inr y \<Rightarrow> Inr y))"
  by (cases "m d"; cases "fst (m d)") (auto simp: pb_dl_def)

lemma touches_pb [touchesI]:
  "touches N S (pb_return x)" "touches N S (pb_fail e)"
  by (simp_all add: touches_def pb_return_def pb_fail_def)

lemma touches_pb_bind [touchesI]:
  assumes "touches N S m" "\<And>x. touches N S (f x)"
  shows "touches N S (pb_bind m f)"
  unfolding touches_def
proof (intro allI impI)
  fix d
  assume N: "\<forall>p\<in>N. no_symlink d p"
  note m = touchesD [OF assms(1) N]
  note f = touchesD [OF assms(2) m(2)]
  show "(\<forall>p. p \<notin> S \<longrightarrow> lookup (snd (pb_bind m f d)) p = lookup d p) \<and>
      (\<forall>p\<in>N. no_symlink (snd (pb_bind m f d)) p) \<and> dk_faults (snd (pb_bind m f d)) = dk_faults d"
    using m f by (cases "m d"; cases "fst (m d)") (simp_all add: pb_bind_def)
qed

lemma touches_pb_lift [touchesI]:
  "touches N S m \<Longrightarrow> touches N S (pb_dl m)" "touches N S m' \<Longrightarrow> touches N S (pb_ask m')"
  "touches N S m'' \<Longrightarrow> touches N S (pb_ignore m'')"
  by (erule touches_result, auto simp: pb_dl_def pb_ask_def pb_ignore_def split: prod.splits sum.splits)+

lemma keeps_pb [keepsI]: "keeps_tree (pb_return x)" "keeps_tree (pb_fail e)"
  by (simp_all add: keeps_tree_def pb_return_def pb_fail_def)

lemma keeps_pb_bind [keepsI]:
  assumes "keeps_tree m" "\<And>x. keeps_tree (f x)"
  shows "keeps_tree (pb_bind m f)"
  unfolding keeps_tree_def
proof (intro allI impI)
  fix d :: Disk
  assume "tree_wf d"
  then show "tree_wf (snd (pb_bind m f d))"
    using assms by (cases "m d"; cases "fst (m d)") (auto simp: pb_bind_def keeps_tree_def dest: spec [of _ d])
qed

lemma keeps_pb_lift [keepsI]:
  "keeps_tree m \<Longrightarrow> keeps_tree (pb_dl m)" "keeps_tree m' \<Longrightarrow> keeps_tree (pb_ask m')"
  "keeps_tree m'' \<Longrightarrow> keeps_tree (pb_ignore m'')"
  by (erule keeps_result, auto simp: pb_dl_def pb_ask_def pb_ignore_def split: prod.splits sum.splits)+

lemma asks_are_reads:
  "snd (path_is_dir p d) = snd (metadata p d)" "snd (path_exists p d) = snd (metadata p d)"
  "snd (marker_matches mc st p d) = snd (read_file (join_path p REVISION_MARKER_NAME) d)"
  by (auto simp: path_is_dir_def path_exists_def marker_matches_def read_revision_marker_def read_text_def
      split: prod.splits sum.splits)

lemma asks_keep_nodes [simp]:
  "dk_nodes (snd (path_is_dir p d)) = dk_nodes d" "dk_nodes (snd (path_exists p d)) = dk_nodes d"
  "dk_nodes (snd (marker_matches mc st p d)) = dk_nodes d"
  by (simp_all add: asks_are_reads)

lemma asks_keep_faults [simp]:
  "dk_faults (snd (path_is_dir p d)) = dk_faults d" "dk_faults (snd (path_exists p d)) = dk_faults d"
  "dk_faults (snd (marker_matches mc st p d)) = dk_faults d"
  using touchesD(3) [OF touches_reads(2) [of "{}" UNIV p], of d]
    touchesD(3) [OF touches_reads(3) [of "{}" UNIV "join_path p REVISION_MARKER_NAME"], of d]
  by (simp_all add: asks_are_reads)

lemma touches_nodes:
  "(\<And>d. dk_nodes (snd (m d)) = dk_nodes d) \<Longrightarrow> (\<And>d. dk_faults (snd (m d)) = dk_faults d) \<Longrightarrow> touches N S m"
  by (simp add: touches_def no_symlink_def)

lemma touches_asks [touchesI]:
  "touches N S (path_is_dir p)" "touches N S (path_exists p)" "touches N S (marker_matches mc st p)"
  "touches N S (is_published mc st)"
  by (rule touches_nodes, simp_all add: is_published_def)+

lemma keeps_asks [keepsI]:
  "keeps_tree (path_is_dir p)" "keeps_tree (path_exists p)" "keeps_tree (marker_matches mc st p)"
  "keeps_tree (is_published mc st)"
  by (rule keeps_nodes, simp add: is_published_def)+

section \<open>The old tree is moved aside\<close>

lemma below_ancestor: "k < length p \<Longrightarrow> take k p \<notin> below p"
  by (auto simp: below_iff dest!: arg_cong [of _ _ length])

lemma ancestor_apart:
  assumes "apart p q" "k \<le> length p"
  shows "take k p \<notin> below q"
proof
  assume "take k p \<in> below q"
  then have "p \<in> below q" by (auto simp: below_iff) (metis append_assoc append_take_drop_id)
  with apartD(1) [OF assms(1)] show False by simp
qed

lemma touches_subtree:
  assumes "touches {} S m" "m d = (r, d')" "below p \<inter> S = {}"
  shows "subtree d' p = subtree d p"
  unfolding subtree_eq_iff using touches_bareD [OF assms(1,2)] assms(3) by blast

lemma create_parent_subtree:
  assumes "create_dir_all (butlast p) d = (r, d')" "p = q \<or> apart p q" "p \<noteq> []"
  shows "subtree d' q = subtree d q"
proof (rule touches_subtree [where m = "create_dir_all (butlast p)", OF _ assms(1)])
  show "touches {} ((\<lambda>k. take k (butlast p)) ` {..length (butlast p)}) (create_dir_all (butlast p))"
    by (rule touches_create_dir_all) auto
  have "take k (butlast p) \<notin> below q" if "k \<le> length (butlast p)" for k
  proof -
    have k: "k < length p" using that assms(3) by (cases "length p") auto
    then have "take k (butlast p) = take k p" by (simp add: take_butlast)
    then show ?thesis using k assms(2) below_ancestor [of k p] ancestor_apart [of p q k] by auto
  qed
  then show "below q \<inter> (\<lambda>k. take k (butlast p)) ` {..length (butlast p)} = {}" by auto
qed

definition aside :: "SessionStaging \<Rightarrow> Disk \<Rightarrow> Disk \<Rightarrow> bool" where
  "aside st d d' \<longleftrightarrow>
    subtree d' (published_dir st) = (\<lambda>_. None) \<and>
    subtree d' (superseded_dir st) = subtree d (published_dir st)"

definition same_at :: "path \<Rightarrow> Disk \<Rightarrow> Disk \<Rightarrow> bool" where
  "same_at p d d' \<longleftrightarrow> subtree d' p = subtree d p"

definition thinned :: "path \<Rightarrow> Disk \<Rightarrow> Disk \<Rightarrow> bool" where
  "thinned p d d' \<longleftrightarrow> (\<forall>rest. subtree d' p rest = subtree d p rest \<or> subtree d' p rest = None)"

lemma same_thinned: "same_at p d d' \<Longrightarrow> thinned p d d'"
  by (simp add: same_at_def thinned_def)

lemma thinned_trans: "thinned p d d1 \<Longrightarrow> thinned p d1 d2 \<Longrightarrow> thinned p d d2"
  unfolding thinned_def by metis

lemma remove_dir_all_thins: "remove_dir_all p d = (r, d') \<Longrightarrow> thinned p d d'"
  unfolding thinned_def remove_dir_all_def subtree_def
  by (auto simp: lookup_remove_leaves lookup_remove_tree split: option.splits node.splits if_splits)

lemma same_nodes: "dk_nodes d' = dk_nodes d \<Longrightarrow> same_at p d d'"
  by (simp add: same_at_def subtree_def)

lemma place_ne: "staging_ok st \<Longrightarrow> published_dir st \<noteq> [] \<and> revision_dir st \<noteq> [] \<and> superseded_dir st \<noteq> []"
  by (simp add: staging_paths)

lemma place_parents:
  assumes "staging_ok st"
  shows "path_parent (published_dir st) = Some (butlast (published_dir st))"
    "path_parent (superseded_dir st) = Some (butlast (superseded_dir st))"
    "path_parent (revision_dir st) = Some (butlast (revision_dir st))"
  using assms by (simp_all add: staging_paths path_parent_def)

text \<open>Clearing the set-aside place and making its parents changes neither session tree.\<close>

lemma make_room_result:
  assumes ok: "staging_ok st" and wf: "tree_wf d"
    and run: "make_room st d = (r, d')"
  shows "tree_wf d' \<and> same_at (published_dir st) d d' \<and> same_at (revision_dir st) d d' \<and>
    thinned (superseded_dir st) d d'"
proof -
  note ne = place_ne [OF ok] and A = staging_apart [OF ok]
  let ?m = "dl_bind (dl_try (remove_dir_all (superseded_dir st))) (\<lambda>r.
      case r of
        Inr _ \<Rightarrow> dl_return ()
      | Inl e \<Rightarrow> if io_kind e = NotFound then dl_return () else dl_fail (Io (superseded_dir st) e))"
  note split = make_room_def [of st, unfolded place_parents [OF ok] option.case]
  have "keeps_tree (make_room st)" unfolding split
    by (intro keepsI) (use ne in \<open>auto intro!: keepsI split: sum.splits\<close>)
  then have wf': "tree_wf d'" using run wf by (rule keepsD)
  have same: "same_at p d d'" if p: "apart (superseded_dir st) p" for p
  proof -
    have m: "touches {} (below (superseded_dir st)) ?m"
      by (intro touchesI) (auto intro!: touchesI split: sum.splits)
    have "below p \<inter> below (superseded_dir st) = {}" using p by (auto simp: apart_def)
    note m_same = touches_subtree [OF m _ this]
    from run [unfolded split] show ?thesis
    proof (cases rule: dl_bind_cases)
      case (fail e)
      then show ?thesis unfolding same_at_def by (intro m_same)
    next
      case (step x d1)
      then obtain r1 where "create_dir_all (butlast (superseded_dir st)) d1 = (r1, d')"
        by (cases "create_dir_all (butlast (superseded_dir st)) d1") (auto simp: dl_io_def split: sum.splits)
      from create_parent_subtree [OF this, of p] p ne m_same [OF step(1)] show ?thesis
        by (simp add: same_at_def)
    qed
  qed
  have thin: "thinned (superseded_dir st) d d1" if "?m d = (x, d1)" for x d1
  proof -
    obtain y d2 where y: "remove_dir_all (superseded_dir st) d = (y, d2)" by (cases "remove_dir_all (superseded_dir st) d")
    then have "d1 = d2" using that
      by (cases y) (auto simp: dl_bind_def dl_try_def dl_return_def dl_fail_def split: if_splits)
    then show ?thesis using remove_dir_all_thins [OF y] by simp
  qed
  have "thinned (superseded_dir st) d d'"
    using run [unfolded split]
  proof (cases rule: dl_bind_cases)
    case (step x d1)
    then obtain r1 where "create_dir_all (butlast (superseded_dir st)) d1 = (r1, d')"
      by (cases "create_dir_all (butlast (superseded_dir st)) d1") (auto simp: dl_io_def split: sum.splits)
    from create_parent_subtree [OF this, of "superseded_dir st"] ne thin [OF step(1)] show ?thesis
      using same_thinned thinned_trans by (auto simp: same_at_def)
  qed (rule thin)
  then show ?thesis using wf' same A apart_sym by blast
qed

lemma dl_io_result: "dl_io p m d = (r, d') \<longleftrightarrow>
    (\<exists>x. m d = (x, d') \<and> r = (case x of Inl e \<Rightarrow> Inl (Io p e) | Inr y \<Rightarrow> Inr y))"
  by (cases "m d"; cases "fst (m d)") (auto simp: dl_io_def)

lemma fsync_dir_nodes: "fsync_dir p d = (r, d') \<Longrightarrow> dk_nodes d' = dk_nodes d"
  using fsync_dir_result [of p d] by (metis snd_conv)

lemma same_trans: "same_at p d d1 \<Longrightarrow> same_at p d1 d2 \<Longrightarrow> same_at p d d2"
  by (simp add: same_at_def)

lemma aside_nodes: "dk_nodes d' = dk_nodes d1 \<Longrightarrow> aside st d d' = aside st d d1"
  by (simp add: aside_def subtree_def)

text \<open>After the renaming step the old tree is where it was, or whole in the set-aside place.\<close>

lemma set_aside_result:
  assumes ok: "staging_ok st" and wf: "tree_wf d" and run: "set_aside st parent d = (r, d')"
  shows "tree_wf d' \<and> same_at (revision_dir st) d d' \<and>
    (same_at (published_dir st) d d' \<and> thinned (superseded_dir st) d d' \<and>
       (isl r \<or> same_at (superseded_dir st) d d') \<or> aside st d d')"
  using run [unfolded set_aside_def]
proof (cases rule: dl_bind_cases)
  case (fail e)
  then show ?thesis by (simp add: dl_try_def split: prod.splits)
next
  case (step there d1)
  then have n1: "dk_nodes d1 = dk_nodes d" 
    by (auto simp: dl_try_def dest: reads_keep_nodes(4) split: prod.splits)
  note same1 = same_nodes [OF n1]
  have wf1: "tree_wf d1" using wf n1 tree_wf_nodes by blast
  show ?thesis
  proof (cases "isl there")
    case True
    then have "d' = d1" using step(2) by (simp add: dl_return_def)
    then show ?thesis using wf1 same1 same_thinned by simp
  next
    case False
    then have go: "dl_bind (make_room st) (\<lambda>_.
        dl_bind (dl_io (published_dir st) (rename (published_dir st) (superseded_dir st))) (\<lambda>_.
          fsync_dir parent)) d1 = (r, d')" using step(2) by simp
    then show ?thesis
    proof (cases rule: dl_bind_cases)
      case (fail e)
      then show ?thesis using make_room_result [OF ok wf1 fail(1)] same1 same_trans
        by (metis sum.disc(1) same_thinned thinned_trans)
    next
      case (step u d2)
      note room = make_room_result [OF ok wf1 step(1)]
      have same2: "same_at (revision_dir st) d d2" "same_at (published_dir st) d d2"
        "thinned (superseded_dir st) d d2"
        using room same1 same_trans same_thinned thinned_trans by blast+
      from step(2) show ?thesis
      proof (cases rule: dl_bind_cases)
        case (fail e)
        then obtain x where "rename (published_dir st) (superseded_dir st) d2 = (Inl x, d')"
          by (auto simp: dl_io_def split: prod.splits sum.splits)
        then have "dk_nodes d' = dk_nodes d2" by (rule rename_fails)
        then show ?thesis using room same2 same_nodes same_trans same_thinned thinned_trans tree_wf_nodes fail(2)
          by (metis sum.disc(1))
      next
        case (step u' d3)
        then have mv: "rename (published_dir st) (superseded_dir st) d2 = (Inr u', d3)"
          by (auto simp: dl_io_def split: prod.splits sum.splits)
        note A = staging_apart [OF ok] and ne = place_ne [OF ok]
        note moved = rename_subtrees [OF _ apart_sym [OF A(2)] _ _ mv]
        have "aside st d d3" using moved(1,2) room ne same2(2) by (simp add: aside_def same_at_def)
        moreover have "same_at (revision_dir st) d d3"
          using moved(3) [of "revision_dir st"] room ne A apart_sym same2(1) by (simp add: same_at_def)
        moreover have "tree_wf d3" using rename_wf [OF _ apart_sym [OF A(2)] _ _ mv] room ne by blast
        moreover have "dk_nodes d' = dk_nodes d3" using step(2) by (rule fsync_dir_nodes)
        ultimately show ?thesis
          using aside_nodes same_nodes same_trans tree_wf_nodes by blast
      qed
    qed
  qed
qed

section \<open>The publishing rename\<close>

lemma ask_nodes: "path_exists p d = (b, d') \<Longrightarrow> dk_nodes d' = dk_nodes d"
  using asks_keep_nodes(2) [of p d] by simp

lemma rollback_cases:
  assumes "publish_rename st parent d = (r, d')"
  obtains (renamed) "r = Inr ()" "rename (revision_dir st) (published_dir st) d = (Inr (), d')"
  | (kept) "isl r" "dk_nodes d' = dk_nodes d"
  | (restored) d1 d2 where "isl r" "dk_nodes d1 = dk_nodes d"
      "rename (superseded_dir st) (published_dir st) d1 = (Inr (), d2)" "dk_nodes d' = dk_nodes d2"
proof -
  obtain x d0 where x: "rename (revision_dir st) (published_dir st) d = (x, d0)" by (cases "rename (revision_dir st) (published_dir st) d")
  show thesis
  proof (cases x)
    case (Inr u)
    then show ?thesis using renamed x assms by (simp add: publish_rename_def dl_bind_def dl_try_def dl_return_def)
  next
    case (Inl e)
    have n0: "dk_nodes d0 = dk_nodes d" using x Inl rename_fails by blast
    obtain b1 d1 where e1: "path_exists (superseded_dir st) d0 = (b1, d1)" by (cases "path_exists (superseded_dir st) d0")
    obtain b2 d2 where e2: "path_exists (published_dir st) d1 = (b2, d2)" by (cases "path_exists (published_dir st) d1")
    obtain y d3 where y: "rename (superseded_dir st) (published_dir st) d2 = (y, d3)"
      by (cases "rename (superseded_dir st) (published_dir st) d2")
    have n: "dk_nodes d1 = dk_nodes d" "dk_nodes d2 = dk_nodes d" using n0 ask_nodes [OF e1] ask_nodes [OF e2] by simp_all
    have f: "dk_nodes (snd (fsync_dir parent d3)) = dk_nodes d3" by (simp add: fsync_dir_result)
    note eval = assms [unfolded publish_rename_def dl_bind_def dl_try_def x Inl, simplified, unfolded e1, simplified]
    consider "\<not> b1" | "b1" "b2" | "b1" "\<not> b2" "isl y" | "b1" "\<not> b2" "\<not> isl y" by blast
    then show ?thesis
    proof cases
      case 3
      then show ?thesis using kept eval e2 y n rename_fails [of _ _ d2] by (cases y) auto
    next
      case 4
      then show ?thesis using restored [of d2 d3] eval e2 y n f by (cases y) auto
    qed (use kept eval e2 n in auto)
  qed
qed

definition installed :: "SessionStaging \<Rightarrow> Disk \<Rightarrow> Disk \<Rightarrow> bool" where
  "installed st d d' \<longleftrightarrow>
    subtree d' (published_dir st) = subtree d (revision_dir st) \<and> subtree d' (revision_dir st) = (\<lambda>_. None)"

lemma publish_rename_result:
  assumes ok: "staging_ok st" and wf: "tree_wf d" and run: "publish_rename st parent d = (r, d')"
  shows "tree_wf d' \<and>
    (r = Inr () \<and> installed st d d' \<or>
     isl r \<and> dk_nodes d' = dk_nodes d \<or>
     isl r \<and> subtree d' (published_dir st) = subtree d (superseded_dir st) \<and>
       subtree d' (superseded_dir st) = (\<lambda>_. None) \<and> same_at (revision_dir st) d d')"
  using run
proof (cases rule: rollback_cases)
  note A = staging_apart [OF ok] and ne = place_ne [OF ok]
  case renamed
  then show ?thesis using rename_subtrees(1,2) [OF wf A(1) _ _ renamed(2)] rename_wf [OF wf A(1) _ _ renamed(2)] ne
    by (simp add: installed_def)
next
  case kept
  then show ?thesis using wf tree_wf_nodes by blast
next
  note A = staging_apart [OF ok] and ne = place_ne [OF ok]
  case (restored d1 d2)
  have wf1: "tree_wf d1" using wf restored(2) tree_wf_nodes by blast
  note R = rename_subtrees [OF wf1 A(2) _ _ restored(3)]
  have "subtree d2 (published_dir st) = subtree d (superseded_dir st)"
    "subtree d2 (revision_dir st) = subtree d (revision_dir st)" "subtree d2 (superseded_dir st) = (\<lambda>_. None)"
    using R(1,2) R(3) [of "revision_dir st"] ne A apart_sym subtree_nodes [OF restored(2)] by auto
  moreover have "tree_wf d2" using rename_wf [OF wf1 A(2) _ _ restored(3)] ne by blast
  ultimately show ?thesis
    using restored(1) subtree_nodes [OF restored(4)] tree_wf_nodes [OF restored(4)] by (simp add: same_at_def)
qed

text \<open>What follows the rename leaves the visible session alone.\<close>

definition publish_tail :: "SessionStaging \<Rightarrow> path \<Rightarrow> PublishOutcome pb" where
  "publish_tail st parent =
    pb_bind (pb_dl (fsync_dir parent)) (\<lambda>_.
    pb_bind (pb_ignore (remove_dir_all (superseded_dir st))) (\<lambda>_.
    pb_bind (pb_dl (dl_cleanup (cleanup_staging_skeleton st))) (\<lambda>_.
      pb_return (Published (st_revision st)))))"

lemma cleanup_touches [touchesI]:
  assumes "staging_ok st" "below (staging_root st) \<subseteq> S"
  shows "touches {} S (dl_cleanup (cleanup_staging_skeleton st))"
proof (rule touches_bare)
  fix d p
  assume "p \<notin> S"
  then show "lookup (snd (dl_cleanup (cleanup_staging_skeleton st) d)) p = lookup d p"
    using cleanup_bound(1) [OF assms(1)] assms(2) by (auto simp: dl_cleanup_def)
next
  fix d
  have "touches {} UNIV (remove_dir p)" "touches {} UNIV (remove_dir_all p)" for p
    by (auto intro: touchesI)
  note f = this [THEN touchesD(3), simplified]
  show "dk_faults (snd (dl_cleanup (cleanup_staging_skeleton st) d)) = dk_faults d"
    by (simp add: dl_cleanup_def cleanup_steps f prune_empty_parents_def
        prune_up_bound(3) split: option.splits)
qed

lemma publish_tail_same:
  assumes ok: "staging_ok st" and run: "publish_tail st parent d = (r, d')"
  shows "same_at (published_dir st) d d'" "\<not> isl r \<Longrightarrow> r = Inr (Published (st_revision st))"
proof -
  have "touches {} (below (staging_root st)) (publish_tail st parent)"
    unfolding publish_tail_def
    by (intro touchesI ok staging_below(2)) simp
  from touches_subtree [OF this run, of "published_dir st"] staging_apart(4) [OF ok]
  show "same_at (published_dir st) d d'" by (auto simp: same_at_def apart_def)
  from run show "\<not> isl r \<Longrightarrow> r = Inr (Published (st_revision st))"
    unfolding publish_tail_def
    by (elim pb_bind_cases) (auto simp: pb_return_def)
qed

lemma publish_tail_fails: "publish_tail st parent d = (Inl e, d') \<Longrightarrow> dk_nodes d' = dk_nodes d"
  unfolding publish_tail_def
  by (elim pb_bind_cases) (auto simp: pb_dl_def pb_ignore_def dl_cleanup_def pb_return_def dest: fsync_dir_nodes
      split: prod.splits sum.splits)

lemma publish_sealed_steps:
  assumes "staging_ok st"
  shows "publish_sealed mc st =
    pb_bind (pb_ask (is_published mc st)) (\<lambda>published.
    if published then
      pb_bind (pb_dl (dl_cleanup (cleanup_staging_skeleton st))) (\<lambda>_.
        pb_return (AlreadyPublished (st_revision st)))
    else pb_bind (pb_ask (path_is_dir (revision_dir st))) (\<lambda>dir.
    if \<not> dir then pb_fail (NothingStaged (st_revision st) (revision_dir st))
    else pb_bind (pb_ask (marker_matches mc st (revision_dir st))) (\<lambda>sealed.
    if \<not> sealed then pb_fail (NotSealed (st_revision st))
    else
      (let parent = butlast (published_dir st) in
       pb_bind (pb_dl (dl_io parent (create_dir_all parent))) (\<lambda>_.
       pb_bind (pb_dl (set_aside st parent)) (\<lambda>_.
       pb_bind (pb_dl (publish_rename st parent)) (\<lambda>_. publish_tail st parent)))))))"
  unfolding publish_sealed_def place_parents [OF assms] option.case publish_tail_def Let_def ..

section \<open>All or nothing\<close>

definition publish_scope :: "SessionStaging \<Rightarrow> path set" where
  "publish_scope st = below (published_dir st) \<union> below (staging_root st) \<union> {q. published_dir st \<in> below q}"

lemma below_take_butlast: "p \<in> below (take k (butlast p))"
proof (cases p rule: rev_cases)
  case (snoc ys y)
  have "ys @ [y] = take k ys @ (drop k ys @ [y])" by simp
  then show ?thesis unfolding snoc below_iff butlast_snoc by blast
qed simp

lemma scope_prefixes:
  assumes "staging_ok st"
  shows "take k (butlast (published_dir st)) \<in> publish_scope st"
    "take k (butlast (superseded_dir st)) \<in> publish_scope st"
proof -
  show "take k (butlast (published_dir st)) \<in> publish_scope st"
    using below_take_butlast [of "published_dir st" k] by (simp add: publish_scope_def)
  let ?root = "st_library_root st"
  show "take k (butlast (superseded_dir st)) \<in> publish_scope st"
  proof (cases "k \<le> length ?root")
    case True
    then have "take k (butlast (superseded_dir st)) = take k ?root"
      using assms by (simp add: staging_paths butlast_append)
    moreover have "published_dir st \<in> below (take k ?root)"
      using assms by (simp add: staging_paths below_iff) (metis append_assoc append_take_drop_id)
    ultimately show ?thesis by (simp add: publish_scope_def)
  next
    case False
    then obtain j where "k = length ?root + Suc j" by (metis add_Suc_right less_imp_Suc_add not_le)
    then have "take k (butlast (superseded_dir st)) \<in> below (staging_root st)"
      using assms by (simp add: staging_paths butlast_append below_iff)
    then show ?thesis by (simp add: publish_scope_def)
  qed
qed

lemma touches_faults: "touches {} UNIV m \<Longrightarrow> m d = (r, d') \<Longrightarrow> dk_faults d' = dk_faults d"
  using touchesD(3) [of "{}" UNIV m d] by simp

lemma touches_publish_rename:
  assumes "below (published_dir st) \<subseteq> S" "below (superseded_dir st) \<subseteq> S" "below (revision_dir st) \<subseteq> S"
  shows "touches {} S (publish_rename st p)"
proof (rule touches_bare)
  fix d q
  assume q: "q \<notin> S"
  obtain r d' where run: "publish_rename st p d = (r, d')" by (cases "publish_rename st p d")
  then have "lookup d' q = lookup d q"
  proof (cases rule: rollback_cases)
    case renamed
    then show ?thesis using touches_bareD [OF touches_bare_rename [OF assms(3,1)]] q by blast
  next
    case (restored d1 d2)
    then show ?thesis using touches_bareD [OF touches_bare_rename [OF assms(2,1)] restored(3) q] by simp
  qed simp
  then show "lookup (snd (publish_rename st p d)) q = lookup d q" using run by simp
next
  fix d
  have "rename a b d0 = (r, d') \<Longrightarrow> dk_faults d' = dk_faults d0" for a b d0 r d'
    by (rule touches_faults [OF touches_bare_rename]) auto
  moreover have "path_exists a d0 = (r, d') \<Longrightarrow> dk_faults d' = dk_faults d0" for a d0 r d'
    using asks_keep_faults(2) [of a d0] by simp
  moreover have "dk_faults (snd (fsync_dir a d0)) = dk_faults d0" for a d0
    using touchesD(3) [OF touches_fsync_dir [of "{}" UNIV]] by simp
  ultimately show "dk_faults (snd (publish_rename st p d)) = dk_faults d"
    unfolding publish_rename_def dl_bind_def dl_try_def dl_return_def
    by (auto split: prod.splits sum.splits bool.splits)
qed

lemma touches_publish_sealed:
  assumes "staging_ok st"
  shows "touches {} (publish_scope st) (publish_sealed mc st)"
proof -
  have sub: "below (published_dir st) \<subseteq> publish_scope st" "below (staging_root st) \<subseteq> publish_scope st"
    "below (superseded_dir st) \<subseteq> publish_scope st" "below (revision_dir st) \<subseteq> publish_scope st"
    using staging_below [OF assms] by (auto simp: publish_scope_def)
  note pre = scope_prefixes [OF assms]
  have room: "touches {} (publish_scope st) (make_room st)"
    unfolding make_room_def place_parents [OF assms] option.case
    by (intro touchesI) (auto intro!: touchesI sub pre split: sum.splits)
  have "touches {} (publish_scope st) (set_aside st p)" for p
    unfolding set_aside_def by (intro touchesI room sub)
  moreover have "touches {} (publish_scope st) (publish_tail st p)" for p
    unfolding publish_tail_def by (intro touchesI assms sub)
  ultimately show ?thesis
    unfolding publish_sealed_steps [OF assms] Let_def
    by (intro touchesI assms sub pre touches_publish_rename)
qed

text \<open>
  What an attempt that has not published leaves: the staged tree whole, and the old
  tree in one of the two places.
\<close>

definition unpublished :: "SessionStaging \<Rightarrow> Disk \<Rightarrow> Disk \<Rightarrow> bool" where
  "unpublished st d d' \<longleftrightarrow> tree_wf d' \<and> same_at (revision_dir st) d d' \<and>
    (same_at (published_dir st) d d' \<and> thinned (superseded_dir st) d d' \<or> aside st d d' \<or>
     subtree d' (published_dir st) = subtree d (superseded_dir st) \<and>
       subtree d' (superseded_dir st) = (\<lambda>_. None))"

lemma pb_bind_ask [simp]: "pb_bind (pb_ask m) f d = f (fst (m d)) (snd (m d))"
  by (simp add: pb_bind_def pb_ask_def split: prod.splits)

text \<open>The steps after the checks, from any state with the nodes of the first.\<close>

lemma publish_steps_result:
  assumes ok: "staging_ok st" and wf: "tree_wf d"
    and run: "pb_bind (pb_dl (dl_io parent (create_dir_all parent))) (\<lambda>_.
       pb_bind (pb_dl (set_aside st parent)) (\<lambda>_.
       pb_bind (pb_dl (publish_rename st parent)) (\<lambda>_. publish_tail st parent))) d = (r, d')"
    and parent: "parent = butlast (published_dir st)"
  shows "(\<not> isl r \<longrightarrow> r = Inr (Published (st_revision st)) \<and>
       subtree d' (published_dir st) = subtree d (revision_dir st)) \<and>
    (isl r \<longrightarrow> installed st d d' \<or> unpublished st d d')"
  using run
proof (cases rule: pb_bind_cases)
  note A = staging_apart [OF ok] and ne = place_ne [OF ok]
  have made: "same_at (published_dir st) d d1 \<and> same_at (revision_dir st) d d1 \<and>
      same_at (superseded_dir st) d d1 \<and> tree_wf d1"
    if "pb_dl (dl_io parent (create_dir_all parent)) d = (x, d1)" for x d1
  proof -
    from that obtain y where y: "create_dir_all (butlast (published_dir st)) d = (y, d1)"
      unfolding parent by (auto simp: pb_dl_result dl_io_result)
    show ?thesis
      using create_parent_subtree [OF y, of "published_dir st"] create_parent_subtree [OF y, of "revision_dir st"]
        create_parent_subtree [OF y, of "superseded_dir st"] ne A apart_sym
        keepsD [OF keeps_create_dir_all y wf] by (simp add: same_at_def)
  qed
  {
    case (fail e)
    then show ?thesis using made [OF fail(1)] same_thinned by (simp add: unpublished_def)
  next
    case (run u d1)
    note m = made [OF run(1)]
    from run(2) show ?thesis
    proof (cases rule: pb_bind_cases)
      case (fail e)
      then obtain x where "set_aside st parent d1 = (x, d')" by (auto simp: pb_dl_result)
      from set_aside_result [OF ok _ this] m fail(2) show ?thesis
        by (auto simp: same_at_def aside_def unpublished_def thinned_def)
    next
      case (run u' d2)
      then obtain x where "set_aside st parent d1 = (x, d2)" "\<not> isl x" by (auto simp: pb_dl_def split: prod.splits sum.splits)
      note s = set_aside_result [OF ok _ this(1)] this(2)
      from run(2) show ?thesis
      proof (cases rule: pb_bind_cases)
        case (fail e)
        then obtain x where x: "publish_rename st parent d2 = (x, d')" "isl x" by (auto simp: pb_dl_def split: prod.splits sum.splits)
        from publish_rename_result [OF ok _ x(1)] s m x(2) fail(2) show ?thesis
          by (auto simp: same_at_def aside_def unpublished_def thinned_def dest: subtree_nodes)
      next
        case (run u'' d3)
        then obtain x where x: "publish_rename st parent d2 = (x, d3)" "\<not> isl x" by (auto simp: pb_dl_def split: prod.splits sum.splits)
        note res = publish_rename_result [OF ok _ x(1)]
        have i: "installed st d d3" using res s m x(2) by (auto simp: installed_def same_at_def)
        show ?thesis
        proof (cases r)
          case (Inl e)
          then have "dk_nodes d' = dk_nodes d3" using publish_tail_fails run(2) by blast
          then have "subtree d' = subtree d3" by (rule subtree_nodes)
          then show ?thesis using i Inl by (simp add: installed_def)
        next
          case (Inr v)
          then show ?thesis using i publish_tail_same [OF ok run(2)] by (auto simp: installed_def same_at_def)
        qed
      qed
    qed
  }
qed

lemma publish_sealed_outcome:
  assumes "staging_ok st" "tree_wf d" "publish_sealed mc st d = (r, d')"
  shows "case r of
      Inr (Published v) \<Rightarrow>
        v = st_revision st \<and> subtree d' (published_dir st) = subtree d (revision_dir st)
    | Inr (AlreadyPublished v) \<Rightarrow> v = st_revision st \<and> same_at (published_dir st) d d'
    | Inl _ \<Rightarrow>
        installed st d d' \<or> unpublished st d d'"
proof -
  let ?pub = "is_published mc st d"
  let ?dir = "path_is_dir (revision_dir st) (snd ?pub)"
  let ?seal = "marker_matches mc st (revision_dir st) (snd ?dir)"
  have n1: "dk_nodes (snd ?pub) = dk_nodes d" by (simp add: is_published_def)
  have n: "dk_nodes (snd ?seal) = dk_nodes d" "dk_nodes (snd ?dir) = dk_nodes d" by (simp_all add: n1)
  have sub: "subtree (snd ?seal) = subtree d" using subtree_nodes n(1) by blast
  note eval = assms(3) [unfolded publish_sealed_steps [OF assms(1)] pb_bind_ask]
  consider (published) "fst ?pub" | (refused) "\<not> fst ?pub" "\<not> fst ?dir \<or> \<not> fst ?seal"
    | (go) "\<not> fst ?pub" "fst ?dir" "fst ?seal" by blast
  then show ?thesis
  proof cases
    case published
    then have r: "r = Inr (AlreadyPublished (st_revision st))"
      and d': "d' = cleanup_staging_skeleton st (snd ?pub)"
      using eval by (auto simp: pb_bind_def pb_dl_def dl_cleanup_def pb_return_def)
    have "q \<notin> below (staging_root st)" if "q \<in> below (published_dir st)" for q
      using apartD(4) [OF staging_apart(4) [OF assms(1)] that] .
    then have "subtree d' (published_dir st) = subtree (snd ?pub) (published_dir st)"
      unfolding subtree_eq_iff d' by (simp add: cleanup_bound(1) [OF assms(1)])
    then show ?thesis using r subtree_nodes [OF n1] by (simp add: same_at_def)
  next
    case refused
    then have "isl r" "dk_nodes d' = dk_nodes d"
      using eval n by (auto simp: pb_fail_def split: if_splits)
    moreover have "tree_wf d'" "same_at p d d'" for p
      using \<open>dk_nodes d' = dk_nodes d\<close> assms(2) same_nodes tree_wf_nodes by blast+
    then have "unpublished st d d'" using same_thinned by (simp add: unpublished_def)
    ultimately show ?thesis by (auto simp: isl_def)
  next
    case go
    have wf: "tree_wf (snd ?seal)" using assms(2) tree_wf_nodes n(1) by blast
    from eval go have "pb_bind (pb_dl (dl_io (butlast (published_dir st)) (create_dir_all (butlast (published_dir st))))) (\<lambda>_.
       pb_bind (pb_dl (set_aside st (butlast (published_dir st)))) (\<lambda>_.
       pb_bind (pb_dl (publish_rename st (butlast (published_dir st)))) (\<lambda>_.
         publish_tail st (butlast (published_dir st))))) (snd ?seal) = (r, d')"
      by (simp add: Let_def)
    note R = publish_steps_result [OF assms(1) wf this refl]
    have "unpublished st (snd ?seal) d' = unpublished st d d'"
      unfolding unpublished_def same_at_def aside_def thinned_def by (simp add: sub n(1))
    moreover have "installed st (snd ?seal) d' = installed st d d'" by (simp add: installed_def sub)
    ultimately show ?thesis using R by (cases r) (auto simp: sub)
  qed
qed

text \<open>
  C5.  Publishing a session is all or nothing, for every pattern of failing
  operations (a process that stops is one whose operations all fail from there on).
  On success the visible session is exactly the staged tree of this revision, or,
  when it carried this revision's seal already, the tree it was.  On an error it is
  the whole new tree, or else the staged revision is still whole in its own place and
  the visible session is the old tree, or a tree an earlier attempt had set aside, or
  is absent with the old tree whole in the set-aside place.  Nothing else on the disk
  changes except the staging area and missing parent directories of the session.
\<close>

theorem publish_all_or_nothing:
  assumes "staging_ok st" "tree_wf d" "publish_sealed mc st d = (r, d')"
  shows "(case r of
      Inr (Published v) \<Rightarrow>
        v = st_revision st \<and> subtree d' (published_dir st) = subtree d (revision_dir st)
    | Inr (AlreadyPublished v) \<Rightarrow>
        v = st_revision st \<and> subtree d' (published_dir st) = subtree d (published_dir st)
    | Inl _ \<Rightarrow>
        subtree d' (published_dir st) = subtree d (revision_dir st) \<or>
        subtree d' (revision_dir st) = subtree d (revision_dir st) \<and>
          (subtree d' (published_dir st) = subtree d (published_dir st) \<or>
           subtree d' (published_dir st) = subtree d (superseded_dir st) \<or>
           subtree d' (published_dir st) = (\<lambda>_. None) \<and>
           subtree d' (superseded_dir st) = subtree d (published_dir st))) \<and>
    (\<forall>q. q \<notin> publish_scope st \<longrightarrow> lookup d' q = lookup d q)"
proof (intro conjI)
  show "\<forall>q. q \<notin> publish_scope st \<longrightarrow> lookup d' q = lookup d q"
    using touches_bareD [OF touches_publish_sealed [OF assms(1)] assms(3)] by blast
qed (use publish_sealed_outcome [OF assms] in \<open>auto simp: unpublished_def installed_def same_at_def aside_def
    split: sum.splits PublishOutcome.splits\<close>)

end
