(* ===== verification/Staging_Seal.thy ===== *)
theory Staging_Seal
  imports Staging_Publish
begin

text \<open>
  Sealing: a revision is sealed only when every file of the manifest is in its staged
  tree with the expected content and nothing else is, and the rename then publishes
  exactly that tree.
\<close>

section \<open>Listing a tree\<close>

lemma read_dir_nodes [simp]: "dk_nodes (snd (read_dir p d)) = dk_nodes d"
  by (auto simp: read_dir_def guarded_def split: option.splits)

lemma collect_entries_nodes:
  "(\<And>p d. dk_nodes (snd (enter p d)) = dk_nodes d) \<Longrightarrow>
   dk_nodes (snd (collect_entries enter dir names d)) = dk_nodes d"
proof (induction names arbitrary: d)
  case (Cons n ns)
  let ?first = "case lookup d (dir @ [Normal n]) of
      Some (NDir _) \<Rightarrow> enter (dir @ [Normal n]) d | _ \<Rightarrow> (Inr [dir @ [Normal n]], d)"
  have "dk_nodes (snd ?first) = dk_nodes d" using Cons.prems by (auto split: option.splits node.splits)
  moreover have "collect_entries enter dir ns d1 = (r, d2) \<Longrightarrow> dk_nodes d2 = dk_nodes d1" for d1 r d2
    using Cons by (metis snd_conv)
  ultimately show ?case
    by (cases ?first; cases "fst ?first"; cases "collect_entries enter dir ns (snd ?first)") (auto split: sum.splits)
qed simp

lemma collect_files_nodes [simp]: "dk_nodes (snd (collect_files k dir d)) = dk_nodes d"
proof (induction k arbitrary: dir d)
  case (Suc k)
  note e = collect_entries_nodes [of "collect_files k", OF Suc.IH]
  obtain r d1 where r: "read_dir dir d = (r, d1)" by (cases "read_dir dir d")
  then have "dk_nodes d1 = dk_nodes d" using read_dir_nodes [of dir d] by simp
  then show ?case using r e by (cases r) auto
qed simp

text \<open>Every entry is visited in a state with the same nodes.\<close>

lemma collect_entries_covers:
  assumes "collect_entries enter dir names d = (Inr ps, d')" "n \<in> set names"
    and "\<And>p d. dk_nodes (snd (enter p d)) = dk_nodes d"
  shows "\<exists>d1 found d2. dk_nodes d1 = dk_nodes d \<and> set found \<subseteq> set ps \<and>
    (case lookup d (dir @ [Normal n]) of
       Some (NDir _) \<Rightarrow> enter (dir @ [Normal n]) d1 = (Inr found, d2)
     | _ \<Rightarrow> found = [dir @ [Normal n]])"
  using assms(1,2)
proof (induction names arbitrary: d ps d')
  case (Cons m ns)
  let ?first = "case lookup d (dir @ [Normal m]) of
      Some (NDir _) \<Rightarrow> enter (dir @ [Normal m]) d | _ \<Rightarrow> (Inr [dir @ [Normal m]], d)"
  from Cons.prems(1) obtain found d1 rest d2 where
    first: "?first = (Inr found, d1)" and rest: "collect_entries enter dir ns d1 = (Inr rest, d2)" "ps = found @ rest"
    by (auto split: prod.splits sum.splits)
  have n1: "dk_nodes d1 = dk_nodes d"
    using first assms(3) [of "dir @ [Normal m]" d] by (auto split: option.splits node.splits)
  show ?case
  proof (cases "n = m")
    case True
    have "case lookup d (dir @ [Normal n]) of
       Some (NDir _) \<Rightarrow> enter (dir @ [Normal n]) d = (Inr found, d1)
     | _ \<Rightarrow> found = [dir @ [Normal n]]"
      using first True by (auto split: option.splits node.splits)
    then show ?thesis using rest(2) by (intro exI [of _ d] exI [of _ found] exI [of _ d1]) simp
  next
    case False
    then have "n \<in> set ns" using Cons.prems(2) by simp
    from Cons.IH [OF rest(1) this] obtain d3 found' d4 where
      "dk_nodes d3 = dk_nodes d" "set found' \<subseteq> set ps"
      "case lookup d (dir @ [Normal n]) of
         Some (NDir _) \<Rightarrow> enter (dir @ [Normal n]) d3 = (Inr found', d4)
       | _ \<Rightarrow> found' = [dir @ [Normal n]]" using rest(2) n1 by auto
    then show ?thesis by blast
  qed
qed simp

lemma dir_names_mem: "lookup d (p @ [Normal n]) \<noteq> None \<Longrightarrow> n \<in> set (dir_names p (dk_nodes d))"
  by (force simp: dir_names_def dest: map_of_SomeD)

lemma collect_files_complete:
  assumes "tree_wf d" "collect_files k dir d = (Inr present, d')" "dir \<noteq> []" "ns \<noteq> []"
    and "lookup d (dir @ map Normal ns) = Some n" "\<nexists>l. n = NDir l"
  shows "dir @ map Normal ns \<in> set present"
  using assms
proof (induction k arbitrary: dir d present d' ns)
  case (Suc k)
  obtain x xs where ns: "ns = x # xs" using Suc.prems(4) by (cases ns) auto
  let ?p = "dir @ [Normal x]"
  have "\<exists>l. lookup d dir = Some (NDir l)"
    using tree_wf_ancestor [OF Suc.prems(1,3), of "map Normal ns"] Suc.prems(4,5) by simp
  then have "read_dir dir d = (Inr (dir_names dir (dk_nodes d)), io_tick d)"
    using Suc.prems(2) by (auto simp: read_dir_def guarded_def split: option.splits)
  then have run: "collect_entries (collect_files k) dir (dir_names dir (dk_nodes d)) (io_tick d) = (Inr present, d')"
    using Suc.prems(2) by simp
  have px: "lookup d ?p \<noteq> None"
    using tree_wf_ancestor [OF Suc.prems(1), of ?p "map Normal xs"] Suc.prems(5) ns by (cases xs) auto
  obtain d1 found d2 where f: "dk_nodes d1 = dk_nodes d" "set found \<subseteq> set present"
    "case lookup d ?p of Some (NDir _) \<Rightarrow> collect_files k ?p d1 = (Inr found, d2) | _ \<Rightarrow> found = [?p]"
    using collect_entries_covers [OF run dir_names_mem [OF px] collect_files_nodes] by auto
  show ?case
  proof (cases "xs = []")
    case True
    then have "found = [?p]" using f(3) Suc.prems(5,6) ns by (auto split: node.splits)
    then show ?thesis using f(2) True ns by simp
  next
    case False
    then obtain l where "lookup d ?p = Some (NDir l)"
      using tree_wf_ancestor [OF Suc.prems(1), of ?p "map Normal xs"] Suc.prems(5) ns by auto
    then have "collect_files k ?p d1 = (Inr found, d2)" using f(3) by simp
    moreover have "tree_wf d1" using Suc.prems(1) f(1) tree_wf_nodes by blast
    ultimately have "?p @ map Normal xs \<in> set found"
      using Suc.IH [of d1 ?p found d2 xs] False Suc.prems(5,6) f(1) ns by simp
    then show ?thesis using f(2) ns by auto
  qed
qed simp

text \<open>
  The depth handed to \<open>collect_files\<close> is enough: a path of a tree has at least as many
  nodes above it as components, so without I/O errors the listing succeeds.
\<close>

lemma deep_paths_need_nodes:
  assumes "tree_wf d" "dir \<noteq> []" "lookup d (dir @ rest) \<noteq> None"
  shows "length rest < length (dk_nodes d) \<or> rest = [] \<and> dk_nodes d \<noteq> []"
proof -
  let ?ps = "(\<lambda>k. dir @ take k rest) ` {..length rest}"
  have inj: "inj_on (\<lambda>k. dir @ take k rest) {..length rest}"
  proof (rule inj_onI)
    fix i j
    assume "i \<in> {..length rest}" "j \<in> {..length rest}" "dir @ take i rest = dir @ take j rest"
    then have "length (take i rest) = length (take j rest)" "i \<le> length rest" "j \<le> length rest" by auto
    then show "i = j" by simp
  qed
  have "?ps \<subseteq> fst ` set (dk_nodes d)"
  proof (rule image_subsetI)
    fix k
    assume "k \<in> {..length rest}"
    have "lookup d (dir @ take k rest) \<noteq> None"
    proof (cases "k = length rest")
      case True
      then show ?thesis using assms(3) by simp
    next
      case False
      with \<open>k \<in> {..length rest}\<close> have "drop k rest \<noteq> []" by simp
      from tree_wf_ancestor [OF assms(1) _ this, of "dir @ take k rest"] assms(2,3) show ?thesis by auto
    qed
    then show "dir @ take k rest \<in> fst ` set (dk_nodes d)" by (simp add: map_of_eq_None_iff)
  qed
  then have "card ?ps \<le> card (fst ` set (dk_nodes d))" by (intro card_mono) auto
  also have "\<dots> \<le> length (dk_nodes d)" by (meson card_image_le card_length finite_set le_trans)
  finally have "Suc (length rest) \<le> length (dk_nodes d)" by (simp add: card_image [OF inj])
  then show ?thesis by simp
qed

lemma collect_entries_succeeds:
  assumes "\<And>n d1. n \<in> set names \<Longrightarrow> dk_nodes d1 = dk_nodes d \<Longrightarrow> no_faults d1 \<Longrightarrow>
      \<exists>l. lookup d (dir @ [Normal n]) = Some (NDir l) \<Longrightarrow>
      \<exists>ps d2. enter (dir @ [Normal n]) d1 = (Inr ps, d2) \<and> dk_nodes d2 = dk_nodes d \<and> no_faults d2"
    and "no_faults d1" "dk_nodes d1 = dk_nodes d"
  shows "\<exists>ps d2. collect_entries enter dir names d1 = (Inr ps, d2) \<and> dk_nodes d2 = dk_nodes d \<and> no_faults d2"
  using assms
proof (induction names arbitrary: d1)
  case (Cons n ns)
  have "\<exists>ps d2. (case lookup d1 (dir @ [Normal n]) of
      Some (NDir _) \<Rightarrow> enter (dir @ [Normal n]) d1 | _ \<Rightarrow> (Inr [dir @ [Normal n]], d1)) = (Inr ps, d2) \<and>
      dk_nodes d2 = dk_nodes d \<and> no_faults d2"
    using Cons.prems(1) [of n d1] Cons.prems(2,3) by (auto split: option.splits node.splits)
  then obtain ps d2 where first: "(case lookup d1 (dir @ [Normal n]) of
      Some (NDir _) \<Rightarrow> enter (dir @ [Normal n]) d1 | _ \<Rightarrow> (Inr [dir @ [Normal n]], d1)) = (Inr ps, d2)"
    "dk_nodes d2 = dk_nodes d" "no_faults d2" by blast
  have "\<exists>qs d3. collect_entries enter dir ns d2 = (Inr qs, d3) \<and> dk_nodes d3 = dk_nodes d \<and> no_faults d3"
    by (rule Cons.IH) (use Cons.prems(1) first in auto)
  then show ?case using first(1) by auto
qed simp

lemma collect_files_succeeds:
  assumes "tree_wf d" "no_faults d" "dir \<noteq> []" "\<exists>l. lookup d dir = Some (NDir l)"
    and "\<And>rest. lookup d (dir @ rest) \<noteq> None \<Longrightarrow> length rest < k"
  shows "\<exists>ps d'. collect_files k dir d = (Inr ps, d') \<and> dk_nodes d' = dk_nodes d \<and> no_faults d'"
  using assms
proof (induction k arbitrary: dir d)
  case 0
  then show ?case using "0.prems"(5) [of "[]"] by auto
next
  case (Suc k)
  have rd: "read_dir dir d = (Inr (dir_names dir (dk_nodes d)), io_tick d)"
    using Suc.prems(2,4) by (auto simp: read_dir_def guarded_def)
  have "\<exists>ps d2. collect_entries (collect_files k) dir (dir_names dir (dk_nodes d)) (io_tick d) = (Inr ps, d2) \<and>
      dk_nodes d2 = dk_nodes d \<and> no_faults d2"
  proof (rule collect_entries_succeeds)
    fix n d1
    assume d1: "dk_nodes d1 = dk_nodes d" "no_faults d1" "\<exists>l. lookup d (dir @ [Normal n]) = Some (NDir l)"
    have "\<exists>ps d'. collect_files k (dir @ [Normal n]) d1 = (Inr ps, d') \<and> dk_nodes d' = dk_nodes d1 \<and> no_faults d'"
    proof (rule Suc.IH)
      show "tree_wf d1" using Suc.prems(1) d1(1) tree_wf_nodes by blast
      show "length rest < k" if "lookup d1 ((dir @ [Normal n]) @ rest) \<noteq> None" for rest
        using Suc.prems(5) [of "Normal n # rest"] that d1(1) by simp
    qed (use d1 in auto)
    then show "\<exists>ps d2. collect_files k (dir @ [Normal n]) d1 = (Inr ps, d2) \<and> dk_nodes d2 = dk_nodes d \<and> no_faults d2"
      using d1(1) by auto
  qed (use Suc.prems(2) in auto)
  then show ?case using rd by simp
qed

lemma listing_succeeds:
  assumes "tree_wf d" "no_faults d" "dir \<noteq> []" "lookup d dir = Some (NDir l)"
  shows "\<not> isl (fst (collect_files (Suc (length (dk_nodes d))) dir d))"
proof -
  have "length rest < Suc (length (dk_nodes d))" if "lookup d (dir @ rest) \<noteq> None" for rest
    using deep_paths_need_nodes [OF assms(1,3) that] by auto
  from collect_files_succeeds [OF assms(1-3) _ this] assms(4) show ?thesis by auto
qed

section \<open>The manifest check\<close>

definition target_segments :: "ExpectedArtifact \<Rightarrow> string list" where
  "target_segments f = local_segments (ea_file_id f) (ea_target_relative_path f)"

text \<open>The staged or visible tree is exactly the manifest, internal markers aside.\<close>

definition exact_tree :: "Host \<Rightarrow> SessionManifest \<Rightarrow> (path \<Rightarrow> node option) \<Rightarrow> bool" where
  "exact_tree h m t \<longleftrightarrow>
    (\<forall>f\<in>set (mf_files m). \<exists>b. t (map Normal (target_segments f)) = Some (NFile b) \<and> content_matches h f b) \<and>
    (\<forall>ns n. t (map Normal ns) = Some n \<longrightarrow>
       (\<exists>l. n = NDir l) \<or> ns = [REVISION_MARKER_NAME] \<or> ns = [SELECTED_MARKER_NAME] \<or>
       ns \<in> target_segments ` set (mf_files m))"

lemma inspect_sound:
  assumes "inspect h i f d = (e, d')"
  shows "dk_nodes d' = dk_nodes d"
    and "ae_status e = Verified \<Longrightarrow> \<exists>t b. inspector_target i f = Inr t \<and> ae_target e = Some t \<and>
      lookup d t = Some (NFile b) \<and> content_matches h f b"
    and "ae_target e = Some t \<Longrightarrow> inspector_target i f = Inr t"
proof -
  show "dk_nodes d' = dk_nodes d"
    using assms by (auto simp: inspect_def split: sum.splits prod.splits) (metis snd_conv judge_nodes)
  show "ae_status e = Verified \<Longrightarrow> \<exists>t b. inspector_target i f = Inr t \<and> ae_target e = Some t \<and>
      lookup d t = Some (NFile b) \<and> content_matches h f b"
    using assms judge_Verified [of h _ f d] by (auto simp: inspect_def split: sum.splits prod.splits)
  show "ae_target e = Some t \<Longrightarrow> inspector_target i f = Inr t"
    using assms by (auto simp: inspect_def split: sum.splits prod.splits)
qed

lemma inspect_all_sound:
  assumes "inspect_all h i fs d = (es, d')"
  shows "dk_nodes d' = dk_nodes d \<and>
    (\<forall>t\<in>set (List.map_filter ae_target es). \<exists>f\<in>set fs. inspector_target i f = Inr t) \<and>
    (list_all (\<lambda>e. ae_status e = Verified) es \<longrightarrow>
      (\<forall>f\<in>set fs. \<exists>t b. inspector_target i f = Inr t \<and> lookup d t = Some (NFile b) \<and> content_matches h f b))"
  using assms
proof (induction fs arbitrary: d es d')
  case (Cons f fs)
  obtain e d1 where e: "inspect h i f d = (e, d1)" by (cases "inspect h i f d")
  obtain es' d2 where es': "inspect_all h i fs d1 = (es', d2)" by (cases "inspect_all h i fs d1")
  have es: "es = e # es'" "d' = d2" using Cons.prems e es' by auto
  note s = inspect_sound [OF e] and ih = Cons.IH [OF es']
  have "\<exists>f\<in>set (f # fs). inspector_target i f = Inr t" if "t \<in> set (List.map_filter ae_target es)" for t
    using that ih s(3) es by (auto simp: map_filter_simps split: option.splits)
  moreover have "dk_nodes d' = dk_nodes d" using ih s(1) es by simp
  moreover have "\<exists>t b. inspector_target i g = Inr t \<and> lookup d t = Some (NFile b) \<and> content_matches h g b"
    if "list_all (\<lambda>e. ae_status e = Verified) es" "g \<in> set (f # fs)" for g
    using that ih s(1,2) es by auto
  ultimately show ?case by blast
qed (simp add: map_filter_simps)

lemma evidence_clean: "concat (map evidence_problem es) = [] \<Longrightarrow> list_all (\<lambda>e. ae_status e = Verified) es"
  unfolding list_all_iff
proof
  fix e
  assume "concat (map evidence_problem es) = []" "e \<in> set es"
  then have "evidence_problem e = []" by simp
  then show "ae_status e = Verified" by (cases "ae_status e") (simp_all add: evidence_problem_def)
qed

lemma marker_not_valid: "validate_id_segment REVISION_MARKER_NAME \<noteq> Inr ()"
  using validate_id_segment_ok by (auto simp: is_internal_name_def eq_ignore_ascii_case_def)

lemma staging_target:
  assumes "staging_ok st" "inspector_target (staging_inspector st) f = Inr t"
  shows "t = revision_dir st @ map Normal (target_segments f)" "target_segments f \<noteq> [REVISION_MARKER_NAME]"
proof -
  have "file_root st \<noteq> []" using assms(1) by (simp add: staging_paths)
  note shape = derive_shape [OF this, THEN iffD1, OF assms(2) [unfolded inspector_target_def staging_inspector_def, simplified]]
  show "t = revision_dir st @ map Normal (target_segments f)"
    using shape assms(1) by (simp add: staging_paths target_segments_def)
  have "list_all (\<lambda>s. validate_id_segment s = Inr ()) (target_segments f)"
    using shape by (auto simp: target_segments_def local_segments_def dest: validate_relative_path_ok split: option.splits)
  then show "target_segments f \<noteq> [REVISION_MARKER_NAME]" using marker_not_valid by auto
qed

lemma marker_paths:
  assumes "staging_ok st"
  shows "join_path (revision_dir st) REVISION_MARKER_NAME = revision_dir st @ [Normal REVISION_MARKER_NAME]"
    "join_path (revision_dir st) SELECTED_MARKER_NAME = revision_dir st @ [Normal SELECTED_MARKER_NAME]"
  using place_ne [OF assms] by (simp_all add: join_plain)

lemma verify_manifest_sound:
  assumes ok: "staging_ok st" and wf: "tree_wf d" and run: "verify_manifest h st m d = (r, d')"
    and there: "lookup d (revision_dir st) \<noteq> None"
  shows "dk_nodes d' = dk_nodes d" "r = Inr () \<Longrightarrow> exact_tree h m (subtree d (revision_dir st))"
    "r = Inr () \<Longrightarrow> \<exists>l. lookup d (revision_dir st) = Some (NDir l)"
    "r = Inr () \<Longrightarrow> f \<in> set (mf_files m) \<Longrightarrow> target_segments f \<noteq> [REVISION_MARKER_NAME]"
proof -
  let ?R = "revision_dir st" and ?i = "staging_inspector st"
  obtain es d1 where es: "inspect_all h ?i (mf_files m) d = (es, d1)" by (cases "inspect_all h ?i (mf_files m) d")
  note I = inspect_all_sound [OF es]
  let ?list = "collect_files (Suc (length (dk_nodes d1))) ?R d1"
  have eval: "(r, d') = (case ?list of
      (Inl e, d2) \<Rightarrow> (Inl (PubDownload (Io ?R e)), d2)
    | (Inr present, d2) \<Rightarrow>
        (let found = concat (map evidence_problem es) @ map FileUnlisted (filter (\<lambda>p. p \<notin> set
           (join_path ?R REVISION_MARKER_NAME # join_path ?R SELECTED_MARKER_NAME # List.map_filter ae_target es)) present)
         in if found = [] then (Inr (), d2) else (Inl (ManifestMismatch (st_revision st) found), d2)))"
    using run unfolding verify_manifest_def plan_recovery_def Let_def es prod.case RecoveryPlan.select_convs
    by (rule sym)
  obtain lr d2 where l: "?list = (lr, d2)" by (cases ?list)
  have n2: "dk_nodes d2 = dk_nodes d1" using collect_files_nodes [of "Suc (length (dk_nodes d1))" ?R d1] l by simp
  have "d' = d2" using eval l by (cases lr) (auto simp: Let_def split: if_splits)
  then show "dk_nodes d' = dk_nodes d" using n2 I by simp
  have listed: "\<exists>present. lr = Inr present \<and> concat (map evidence_problem es) = [] \<and>
      (\<forall>p\<in>set present. p = ?R @ [Normal REVISION_MARKER_NAME] \<or> p = ?R @ [Normal SELECTED_MARKER_NAME] \<or>
        p \<in> set (List.map_filter ae_target es))" if "r = Inr ()"
    using eval l that
    by (cases lr) (auto simp: Let_def filter_empty_conv marker_paths [OF ok] split: if_splits)
  have is_dir: "\<exists>l. lookup d ?R = Some (NDir l)" if "r = Inr ()"
  proof -
    from listed [OF that] l obtain present where "?list = (Inr present, d2)" by blast
    then show ?thesis using there I
      by (auto simp: read_dir_def guarded_def split: option.splits node.splits)
  qed
  then show "r = Inr () \<Longrightarrow> \<exists>l. lookup d (revision_dir st) = Some (NDir l)" .
  assume r: "r = Inr ()"
  note dir = is_dir [OF r]
  obtain present where lr: "lr = Inr present" and clean: "concat (map evidence_problem es) = []"
    and known: "\<And>p. p \<in> set present \<Longrightarrow> p = ?R @ [Normal REVISION_MARKER_NAME] \<or>
      p = ?R @ [Normal SELECTED_MARKER_NAME] \<or> p \<in> set (List.map_filter ae_target es)"
    using listed [OF r] by blast
  have wf1: "tree_wf d1" using wf I tree_wf_nodes by blast
  have have_all: "\<exists>b. subtree d ?R (map Normal (target_segments f)) = Some (NFile b) \<and> content_matches h f b"
    if "f \<in> set (mf_files m)" for f
    using I evidence_clean [OF clean] that staging_target(1) [OF ok] unfolding subtree_def by metis
  have only: "(\<exists>l. n = NDir l) \<or> ns = [REVISION_MARKER_NAME] \<or> ns = [SELECTED_MARKER_NAME] \<or>
      ns \<in> target_segments ` set (mf_files m)" if t: "subtree d ?R (map Normal ns) = Some n" for ns n
  proof (cases "\<exists>l. n = NDir l")
    case False
    have "ns \<noteq> []" using t dir False by (auto simp: subtree_def)
    then have "?R @ map Normal ns \<in> set present"
      using collect_files_complete [OF wf1 l [unfolded lr], of ns n] t I place_ne [OF ok] False
      by (simp add: subtree_def)
    note at = known [OF this]
    have inj: "map Normal ns = map Normal ns' \<Longrightarrow> ns = ns'" for ns'
      using inj_map_eq_map [of Normal] by (simp add: inj_def)
    show ?thesis
    proof (cases "?R @ map Normal ns \<in> set (List.map_filter ae_target es)")
      case True
      with I obtain f where "f \<in> set (mf_files m)" "inspector_target ?i f = Inr (?R @ map Normal ns)" by blast
      with staging_target(1) [OF ok] have "map Normal ns = map Normal (target_segments f)" by (metis same_append_eq)
      then show ?thesis using inj \<open>f \<in> set (mf_files m)\<close> by blast
    next
      case False
      with at have "map Normal ns = map Normal [REVISION_MARKER_NAME] \<or> map Normal ns = map Normal [SELECTED_MARKER_NAME]"
        by simp
      then show ?thesis using inj by blast
    qed
  qed simp
  show "exact_tree h m (subtree d ?R)" unfolding exact_tree_def using have_all only by blast
  assume "f \<in> set (mf_files m)"
  with I evidence_clean [OF clean] obtain t where "inspector_target ?i f = Inr t" by blast
  then show "target_segments f \<noteq> [REVISION_MARKER_NAME]" using staging_target(2) [OF ok] by blast
qed

section \<open>Writing the seal\<close>

lemma tree_wf_lookup: "lookup d' = lookup d \<Longrightarrow> tree_wf d' = tree_wf d"
  by (simp add: tree_wf_def)

lemma make_dirs_nothing: "\<forall>q\<in>set ps. \<exists>l. lookup d q = Some (NDir l) \<Longrightarrow> make_dirs ps d = (Inr (), d)"
  by (induction ps) auto

lemma create_existing:
  assumes "tree_wf d" "lookup d p = Some (NDir l)" "p \<noteq> []" "create_dir_all p d = (r, d')"
  shows "dk_nodes d' = dk_nodes d"
proof -
  have "\<exists>l. lookup d (take k p) = Some (NDir l)" if "0 < k" "k \<le> length p" for k
  proof (cases "k = length p")
    case False
    with that assms(3) have "take k p \<noteq> []" "drop k p \<noteq> []" by auto
    from tree_wf_ancestor [OF assms(1) this] assms(2) show ?thesis by simp
  qed (use assms(2) in simp)
  then have "make_dirs (map (\<lambda>k. take k p) [1..<Suc (length p)]) (io_tick d) = (Inr (), io_tick d)"
    by (intro make_dirs_nothing) (auto simp del: upt_Suc)
  then show ?thesis using assms(4) by (auto simp: create_dir_all_def guarded_def split: option.splits)
qed

lemma open_write_not_dir: "no_symlink d p \<Longrightarrow> open_write c t p d = (Inr q, d') \<Longrightarrow> \<nexists>l. lookup d p = Some (NDir l)"
  using resolve_link_plain [of "io_tick d" p]
  by (auto simp: open_write_def guarded_def split: option.splits node.splits if_splits)

lemma write_synced_not_dir:
  "no_symlink d p \<Longrightarrow> write_synced p b d = (Inr u, d') \<Longrightarrow> \<nexists>l. lookup d p = Some (NDir l)"
  using open_write_not_dir by (fastforce simp: write_synced_def dl_bind_Inr dl_io_Inr)

text \<open>A durable write in an existing directory changes the file and takes its temporary away.\<close>

lemma write_file_durably_exact:
  assumes wf: "tree_wf d" and dir: "lookup d base = Some (NDir l)" "base \<noteq> []"
    and tmp: "no_symlink d (base @ [Normal (n @ ''.tmp'')])"
    and run: "write_file_durably (base @ [Normal n]) b d = (Inr u, d')"
    and leaf: "\<nexists>l. lookup d (base @ [Normal n]) = Some (NDir l)"
  shows "lookup d' = (lookup d)(base @ [Normal n] \<mapsto> NFile b, base @ [Normal (n @ ''.tmp'')] := None)"
    and "tree_wf d'"
proof -
  let ?p = "base @ [Normal n]" and ?t = "base @ [Normal (n @ ''.tmp'')]"
  from run obtain d1 d2 d3 where
    mk: "create_dir_all base d = (Inr (), d1)" and wr: "write_synced ?t b d1 = (Inr (), d2)"
    and mv: "rename ?t ?p d2 = (Inr (), d3)" and sy: "fsync_dir base d3 = (Inr u, d')"
    by (auto simp: write_file_durably_def path_parent_leaf tmp_path_def dl_bind_Inr dl_io_Inr)
  have n1: "dk_nodes d1 = dk_nodes d" using create_existing [OF wf dir mk] .
  have t1: "no_symlink d1 ?t" using tmp n1 by (simp add: no_symlink_def)
  have notdir: "\<nexists>l. lookup d ?t = Some (NDir l)" using write_synced_not_dir [OF t1 wr] n1 by simp
  have w: "touches {?t} {?t} (write_synced ?t b)" by (rule touches_write_synced) auto
  have l2: "lookup d2 = (lookup d)(?t \<mapsto> NFile b)"
  proof
    fix q
    show "lookup d2 q = ((lookup d)(?t \<mapsto> NFile b)) q"
      using touchesD(1) [OF w, of d1 q] t1 wr write_synced_ok [OF t1 wr] n1 by (cases "q = ?t") auto
  qed
  have "tree_wf (d\<lparr>dk_nodes := put_node ?t (NFile b) (dk_nodes d)\<rparr>)"
    by (rule tree_wf_put [OF wf]) (use dir notdir in auto)
  then have wf2: "tree_wf d2" using l2 tree_wf_lookup [of d2 "d\<lparr>dk_nodes := put_node ?t (NFile b) (dk_nodes d)\<rparr>"] by simp
  have ap: "apart ?t ?p" by (simp add: apart_prefix)
  have leaf2: "\<nexists>l. lookup d2 ?p = Some (NDir l)" using leaf l2 by simp
  have below_none: "lookup d2 (?p @ r) = None" "lookup d2 (?t @ r) = None" if "r \<noteq> []" for r
    using leaf_subtree [OF wf2 _ leaf2, THEN fun_cong, of r] leaf_subtree [OF wf2, of ?t, THEN fun_cong, of r] l2 that
    by (simp_all add: subtree_def)
  have "lookup d3 q = ((lookup d)(?p \<mapsto> NFile b, ?t := None)) q" for q
  proof -
    note R = rename_moves [OF wf2 ap _ _ mv, of q]
    consider "q = ?p" | r where "q = ?p @ r" "r \<noteq> []" | "q = ?t" | r where "q = ?t @ r" "r \<noteq> []"
      | "q \<notin> below ?p" "q \<notin> below ?t" unfolding below_iff by (metis append_Nil2)
    then show ?thesis
    proof cases
      case (2 r)
      then have "lookup d q = None" using below_none(1) [of r] l2 by (auto split: if_splits)
      then show ?thesis using 2 R below_none(2) [of r] by (auto simp: below_iff)
    next
      case (4 r)
      then have "lookup d q = None" using below_none(2) [of r] l2 by (auto split: if_splits)
      then show ?thesis using 4 R below_none(2) [of r] apartD(3) [OF ap, of q] by (auto simp: below_iff)
    next
      case 3
      then show ?thesis using R apartD(1) [OF ap] by simp
    next
      case 5
      then show ?thesis using R l2 by auto
    qed (use R l2 in simp)
  qed
  then show "lookup d' = (lookup d)(?p \<mapsto> NFile b, ?t := None)"
    using fsync_dir_nodes [OF sy] by (simp add: fun_eq_iff)
  show "tree_wf d'" using rename_wf [OF wf2 ap _ _ mv] fsync_dir_nodes [OF sy] tree_wf_nodes by blast
qed

lemma rewrite_marker_exact:
  assumes wf: "tree_wf d" and dir: "lookup d base = Some (NDir l)" "base \<noteq> []"
    and tmp: "no_symlink d (base @ [Normal (n @ ''.tmp'')])"
    and run: "rewrite_internal_marker (base @ [Normal n]) b d = (Inr u, d')"
  shows "lookup d' = (lookup d)(base @ [Normal n] \<mapsto> NFile b, base @ [Normal (n @ ''.tmp'')] := None)"
    and "tree_wf d'"
proof -
  let ?p = "base @ [Normal n]" and ?t = "base @ [Normal (n @ ''.tmp'')]"
  from run [unfolded rewrite_internal_marker_def path_parent_leaf option.case dl_bind_assoc]
  obtain x d1 where meta: "symlink_metadata ?p d = (x, d1)"
    and rest: "dl_bind (case x of
        Inr (NSymlink _) \<Rightarrow> reject_symlink ?p
      | Inr (NDir _) \<Rightarrow> dl_fail (InvalidPlan (''internal marker is not a regular file: '' @ display_path (base @ [Normal n])))
      | Inr (NFile _) \<Rightarrow> dl_bind (dl_io ?p (remove_file ?p)) (\<lambda>_. fsync_dir base)
      | Inl e \<Rightarrow> if io_kind e = NotFound then dl_return () else dl_fail (Io ?p e))
      (\<lambda>_. write_file_durably ?p b) d1 = (Inr u, d')"
    by (cases "symlink_metadata ?p d")
      (auto simp: dl_bind_def [of "dl_try _"] dl_try_def)
  have n1: "dk_nodes d1 = dk_nodes d" using reads_keep_nodes(4) [OF meta] .
  have x: "x = Inr k \<Longrightarrow> lookup d ?p = Some k" "x = Inl e \<Longrightarrow> io_kind e = NotFound \<Longrightarrow> lookup d ?p = None" for k e
    using meta by (auto simp: symlink_metadata_def guarded_def split: option.splits)
  from rest obtain d2 where pre: "(case x of
        Inr (NSymlink _) \<Rightarrow> reject_symlink ?p
      | Inr (NDir _) \<Rightarrow> dl_fail (InvalidPlan (''internal marker is not a regular file: '' @ display_path (base @ [Normal n])))
      | Inr (NFile _) \<Rightarrow> dl_bind (dl_io ?p (remove_file ?p)) (\<lambda>_. fsync_dir base)
      | Inl e \<Rightarrow> if io_kind e = NotFound then dl_return () else dl_fail (Io ?p e)) d1 = (Inr (), d2)"
    and wr: "write_file_durably ?p b d2 = (Inr u, d')" by (auto simp: dl_bind_Inr)
  have l2: "lookup d2 = (lookup d)(?p := None)"
  proof (cases x)
    case (Inl e)
    then show ?thesis using pre x(2) [OF Inl] n1 by (auto simp: dl_return_def dl_fail_def split: if_splits)
  next
    case (Inr k)
    note at = x(1) [OF Inr]
    show ?thesis
    proof (cases k)
      case (NFile c)
      then obtain d3 where "remove_file ?p d1 = (Inr (), d3)" "fsync_dir base d3 = (Inr (), d2)"
        using pre Inr by (auto simp: dl_bind_Inr dl_io_Inr)
      then show ?thesis using fsync_dir_nodes n1
        by (auto simp: remove_file_def guarded_def split: option.splits node.splits)
    next
      case (NSymlink t)
      then show ?thesis using pre Inr at n1 reject_symlink_ok [of ?p d1] by (auto simp: no_symlink_def)
    qed (use pre Inr in \<open>simp add: dl_fail_def\<close>)
  qed
  have leaf: "\<nexists>l. lookup d ?p = Some (NDir l)"
    using x pre by (cases x) (auto simp: dl_fail_def split: node.splits if_splits)
  have "tree_wf (d\<lparr>dk_nodes := del_node ?p (dk_nodes d)\<rparr>)" by (rule tree_wf_del_leaf [OF wf _ leaf]) simp
  then have wf2: "tree_wf d2" using l2 tree_wf_lookup [of d2 "d\<lparr>dk_nodes := del_node ?p (dk_nodes d)\<rparr>"] by simp
  have "lookup d2 base = Some (NDir l)" "no_symlink d2 ?t" "\<nexists>l. lookup d2 ?p = Some (NDir l)"
    using l2 dir tmp by (simp_all add: no_symlink_def)
  note W = write_file_durably_exact [OF wf2 this(1) dir(2) this(2) wr this(3)]
  show "lookup d' = (lookup d)(?p \<mapsto> NFile b, ?t := None)" using W(1) l2 by (simp add: fun_upd_twist)
  show "tree_wf d'" by (rule W(2))
qed

lemma fsync_stack_nodes: "dk_nodes (snd (fsync_stack n stack d)) = dk_nodes d"
proof (induction n stack arbitrary: d rule: fsync_stack.induct)
  case (3 n current stack)
  obtain r d1 where r: "read_dir current d = (r, d1)" by (cases "read_dir current d")
  have n1: "dk_nodes d1 = dk_nodes d" using r read_dir_nodes [of current d] by simp
  obtain y d2 where y: "fsync_dir current d1 = (y, d2)" by (cases "fsync_dir current d1")
  have n2: "dk_nodes d2 = dk_nodes d1" using fsync_dir_nodes [OF y] .
  show ?case using r y n1 n2 3 by (cases r; cases y) (simp_all add: dl_bind_def dl_io_def Let_def)
qed (simp_all add: dl_return_def dl_fail_def)

lemma fsync_tree_nodes: "fsync_tree p d = (r, d') \<Longrightarrow> dk_nodes d' = dk_nodes d"
  using fsync_stack_nodes [of "Suc (length (dk_nodes d))" "[p]" d] by (simp add: fsync_tree_def)

section \<open>A sealed revision is exactly its manifest\<close>

definition no_marker_temp :: "SessionManifest \<Rightarrow> bool" where
  "no_marker_temp m \<longleftrightarrow> list_all (\<lambda>f. target_segments f \<noteq> [REVISION_MARKER_NAME @ ''.tmp'']) (mf_files m)"

lemma temp_name [simp]: "REVISION_MARKER_NAME @ ''.tmp'' \<noteq> REVISION_MARKER_NAME"
    "REVISION_MARKER_NAME @ ''.tmp'' \<noteq> SELECTED_MARKER_NAME"
  by (simp_all add: REVISION_MARKER_NAME_def SELECTED_MARKER_NAME_def)

lemma exact_after_marker:
  assumes "exact_tree h m t" "no_marker_temp m"
    and marker: "\<And>f. f \<in> set (mf_files m) \<Longrightarrow> target_segments f \<noteq> [REVISION_MARKER_NAME]"
  shows "exact_tree h m (t([Normal REVISION_MARKER_NAME] \<mapsto> NFile b, [Normal (REVISION_MARKER_NAME @ ''.tmp'')] := None))"
proof -
  have seg: "map Normal (target_segments f) \<noteq> [Normal REVISION_MARKER_NAME] \<and>
      map Normal (target_segments f) \<noteq> [Normal (REVISION_MARKER_NAME @ ''.tmp'')]" if "f \<in> set (mf_files m)" for f
    using that marker assms(2)
    by (auto simp: no_marker_temp_def list_all_iff map_eq_Cons_conv)
  show ?thesis
    using assms(1) seg unfolding exact_tree_def by (auto simp: map_eq_Cons_conv)
qed

lemma touches_cleanup_marker:
  assumes "staging_ok st"
  shows "touches {} {revision_dir st @ [Normal (REVISION_MARKER_NAME @ ''.tmp'')],
      revision_dir st @ [Normal (SELECTED_MARKER_NAME @ ''.tmp'')]} (cleanup_marker_temp_files st)"
  unfolding cleanup_marker_temp_files_def durable_temp_path_def marker_paths [OF assms] push_suffix_Normal
  by (intro touchesI) simp_all

lemma marker_temp_plain:
  assumes "exact_tree h m (subtree d p)" "no_marker_temp m"
  shows "no_symlink d (p @ [Normal (REVISION_MARKER_NAME @ ''.tmp'')])"
proof -
  let ?ns = "[REVISION_MARKER_NAME @ ''.tmp'']"
  have known: "\<forall>ns k. subtree d p (map Normal ns) = Some k \<longrightarrow> (\<exists>l. k = NDir l) \<or>
      ns = [REVISION_MARKER_NAME] \<or> ns = [SELECTED_MARKER_NAME] \<or> ns \<in> target_segments ` set (mf_files m)"
    using assms(1) unfolding exact_tree_def by (rule conjunct2)
  have "?ns \<notin> target_segments ` set (mf_files m)"
    using assms(2) unfolding no_marker_temp_def list_all_iff by fastforce
  then have "\<exists>l. k = NDir l" if "lookup d (p @ map Normal ?ns) = Some k" for k
    using known [rule_format, of ?ns k] that by (simp add: subtree_def)
  then show ?thesis by (auto simp: no_symlink_def split: option.splits node.splits)
qed

lemma seal_sound:
  assumes ok: "staging_ok st" and wf: "tree_wf d" and fresh: "\<not> fst (is_published mc st d)"
    and temp: "no_marker_temp m" and run: "seal h mc st m d = (Inr u, d')"
  shows "tree_wf d' \<and> exact_tree h m (subtree d' (revision_dir st)) \<and>
    subtree d' (revision_dir st) [Normal REVISION_MARKER_NAME] =
      Some (NFile (mc_revision_to_json mc (revision_marker st m)))"
proof -
  let ?R = "revision_dir st" and ?json = "mc_revision_to_json mc (revision_marker st m)"
  note ne = place_ne [OF ok]
  define d1 where "d1 = snd (is_published mc st d)"
  define d2 where "d2 = snd (path_is_dir ?R d1)"
  have n2: "dk_nodes d2 = dk_nodes d" by (simp add: d2_def d1_def is_published_def)
  have dir: "fst (path_is_dir ?R d1)"
    using run fresh by (auto simp: seal_def d1_def pb_fail_def split: if_splits)
  then have there: "lookup d2 ?R \<noteq> None"
    using resolve_link_plain [of "io_tick d1" ?R]
    by (cases "lookup d1 ?R") (auto simp: d2_def path_is_dir_def metadata_def guarded_def no_symlink_def
        split: option.splits)
  from run fresh dir have "pb_bind (cleanup_marker_temp_files st) (\<lambda>_.
      pb_bind (verify_manifest h st m) (\<lambda>_.
      pb_bind (pb_dl (rewrite_internal_marker (join_path ?R REVISION_MARKER_NAME) ?json)) (\<lambda>_.
      pb_dl (fsync_tree ?R)))) d2 = (Inr u, d')"
    by (simp add: seal_def d1_def d2_def)
  then obtain d3 where cl: "cleanup_marker_temp_files st d2 = (Inr (), d3)"
    and rest: "pb_bind (verify_manifest h st m) (\<lambda>_.
      pb_bind (pb_dl (rewrite_internal_marker (join_path ?R REVISION_MARKER_NAME) ?json)) (\<lambda>_.
      pb_dl (fsync_tree ?R))) d3 = (Inr u, d')"
    by (cases rule: pb_bind_cases) (auto simp: cleanup_marker_temp_files_def pb_bind_def pb_ignore_def)
  have keeps: "keeps_tree (cleanup_marker_temp_files st)"
    unfolding cleanup_marker_temp_files_def durable_temp_path_def marker_paths [OF ok] push_suffix_Normal
    by (intro keepsI) simp_all
  have "tree_wf d2" using wf n2 tree_wf_nodes by blast
  from keepsD [where m = "cleanup_marker_temp_files st", OF keeps cl this] have wf3: "tree_wf d3" .
  from touches_bareD [OF touches_cleanup_marker [OF ok] cl, of ?R] there have there3: "lookup d3 ?R \<noteq> None" by simp
  from rest obtain d4 where ver: "verify_manifest h st m d3 = (Inr (), d4)"
    and rest': "pb_bind (pb_dl (rewrite_internal_marker (join_path ?R REVISION_MARKER_NAME) ?json)) (\<lambda>_.
      pb_dl (fsync_tree ?R)) d4 = (Inr u, d')"
    by (cases rule: pb_bind_cases) auto
  note V = verify_manifest_sound [OF ok wf3 ver there3]
  have n4: "dk_nodes d4 = dk_nodes d3" using V(1) .
  from rest' obtain d5 where mk: "rewrite_internal_marker (?R @ [Normal REVISION_MARKER_NAME]) ?json d4 = (Inr (), d5)"
    and sy: "fsync_tree ?R d5 = (Inr u, d')"
    unfolding marker_paths [OF ok]
    by (cases rule: pb_bind_cases) (auto simp: pb_dl_def split: prod.splits sum.splits)
  obtain l where R4: "lookup d4 ?R = Some (NDir l)" using V(3) n4 by auto
  have "no_symlink d4 (?R @ [Normal (REVISION_MARKER_NAME @ ''.tmp'')])"
    using marker_temp_plain [OF V(2) [OF refl] temp] n4 by (simp add: no_symlink_def)
  note W = rewrite_marker_exact [OF _ R4 _ this mk]
  have wf4: "tree_wf d4" using wf3 n4 tree_wf_nodes by blast
  have l5: "lookup d5 = (lookup d3)(?R @ [Normal REVISION_MARKER_NAME] \<mapsto> NFile ?json,
      ?R @ [Normal (REVISION_MARKER_NAME @ ''.tmp'')] := None)" using W(1) wf4 ne n4 by simp
  have n5: "dk_nodes d' = dk_nodes d5" using fsync_tree_nodes [OF sy] .
  have sub: "subtree d' ?R = (subtree d3 ?R)([Normal REVISION_MARKER_NAME] \<mapsto> NFile ?json,
      [Normal (REVISION_MARKER_NAME @ ''.tmp'')] := None)"
    by (rule ext) (simp add: subtree_def n5 l5)
  have "exact_tree h m (subtree d' ?R)"
    unfolding sub by (rule exact_after_marker [OF _ temp]) (use V(2,4) in auto)
  moreover have "tree_wf d'" using W(2) wf4 ne n5 tree_wf_nodes by blast
  ultimately show ?thesis by (simp add: sub)
qed


end
