(* ===== verification/Staging_Recovery.thy ===== *)
theory Staging_Recovery
  imports Staging_Seal
begin

text \<open>
  Publication goes through when nothing fails, and from wherever an earlier attempt
  stopped: a second attempt with a working disk publishes the staged tree that the
  first one was given.
\<close>

section \<open>Operations that do not fail\<close>

definition is_dir_at :: "Disk \<Rightarrow> path \<Rightarrow> bool" where
  "is_dir_at d p \<longleftrightarrow> (\<exists>l. lookup d p = Some (NDir l))"

definition clear_way :: "Disk \<Rightarrow> path \<Rightarrow> bool" where
  "clear_way d p \<longleftrightarrow> (\<forall>k. 0 < k \<longrightarrow> k < length p \<longrightarrow> lookup d (take k p) = None \<or> is_dir_at d (take k p))"

lemma make_dirs_ok:
  "\<forall>q\<in>set ps. lookup d q = None \<or> is_dir_at d q \<Longrightarrow>
   \<exists>d'. make_dirs ps d = (Inr (), d') \<and> (\<forall>q\<in>set ps. is_dir_at d' q) \<and>
     (\<forall>q. q \<notin> set ps \<longrightarrow> lookup d' q = lookup d q) \<and> (\<forall>q n. lookup d q = Some n \<longrightarrow> lookup d' q = Some n) \<and>
     dk_faults d' = dk_faults d"
proof (induction ps arbitrary: d)
  case (Cons p ps)
  show ?case
  proof (cases "lookup d p")
    case None
    let ?d = "d\<lparr>dk_nodes := put_node p (NDir 4096) (dk_nodes d)\<rparr>"
    have "\<forall>q\<in>set ps. lookup ?d q = None \<or> is_dir_at ?d q" using Cons.prems by (auto simp: is_dir_at_def)
    from Cons.IH [OF this] obtain d' where d': "make_dirs ps ?d = (Inr (), d')" "\<forall>q\<in>set ps. is_dir_at d' q"
      "\<forall>q. q \<notin> set ps \<longrightarrow> lookup d' q = lookup ?d q" "\<forall>q n. lookup ?d q = Some n \<longrightarrow> lookup d' q = Some n"
      "dk_faults d' = dk_faults d" by auto
    have "is_dir_at d' p" using d'(4) by (auto simp: is_dir_at_def)
    moreover have "\<forall>q n. lookup d q = Some n \<longrightarrow> lookup d' q = Some n"
      using d'(4) None by (metis Disk.select_convs(1) Disk.surjective Disk.update_convs(1) fun_upd_other map_of_put_node option.distinct(1))
    ultimately show ?thesis using None d' by auto
  next
    case (Some n)
    with Cons.prems obtain l where n: "n = NDir l" by (auto simp: is_dir_at_def)
    from Cons.IH [of d] Cons.prems obtain d' where d': "make_dirs ps d = (Inr (), d')" "\<forall>q\<in>set ps. is_dir_at d' q"
      "\<forall>q. q \<notin> set ps \<longrightarrow> lookup d' q = lookup d q" "\<forall>q n. lookup d q = Some n \<longrightarrow> lookup d' q = Some n"
      "dk_faults d' = dk_faults d" by auto
    moreover have "is_dir_at d' p" using d'(4) Some n by (auto simp: is_dir_at_def)
    ultimately show ?thesis using Some n by auto
  qed
qed simp

lemma parents_ok:
  assumes "clear_way d p" "no_faults d"
  obtains d' where "create_dir_all (butlast p) d = (Inr (), d')" "no_faults d'"
    "\<And>k. 0 < k \<Longrightarrow> k < length p \<Longrightarrow> is_dir_at d' (take k p)"
    "\<And>q. (\<And>k. 0 < k \<Longrightarrow> k < length p \<Longrightarrow> q \<noteq> take k p) \<Longrightarrow> lookup d' q = lookup d q"
    "\<And>q n. lookup d q = Some n \<Longrightarrow> lookup d' q = Some n"
proof -
  let ?ps = "map (\<lambda>k. take k (butlast p)) [1..<Suc (length (butlast p))]"
  have set: "set ?ps = {take k p |k. 0 < k \<and> k < length p}"
  proof -
    have "take k (butlast p) = take k p" if "k < length p" for k using that by (rule take_butlast)
    moreover have "set [1..<Suc (length (butlast p))] = {k. 0 < k \<and> k < length p}" by auto
    ultimately show ?thesis by auto
  qed
  have "\<forall>q\<in>set ?ps. lookup (io_tick d) q = None \<or> is_dir_at (io_tick d) q"
    using assms(1) unfolding set by (auto simp: clear_way_def is_dir_at_def)
  from make_dirs_ok [OF this] obtain d' where d': "make_dirs ?ps (io_tick d) = (Inr (), d')"
    "\<forall>q\<in>set ?ps. is_dir_at d' q" "\<forall>q. q \<notin> set ?ps \<longrightarrow> lookup d' q = lookup d q"
    "\<forall>q n. lookup d q = Some n \<longrightarrow> lookup d' q = Some n" "dk_faults d' = dk_faults d" by auto
  show thesis
  proof (rule that)
    show "create_dir_all (butlast p) d = (Inr (), d')"
      using d'(1) assms(2) by (simp add: create_dir_all_def guarded_def)
    show "no_faults d'" using assms(2) d'(5) by (simp add: no_faults_def)
    show "is_dir_at d' (take k p)" if "0 < k" "k < length p" for k using d'(2) that unfolding set by blast
    show "lookup d' q = lookup d q" if "\<And>k. 0 < k \<Longrightarrow> k < length p \<Longrightarrow> q \<noteq> take k p" for q
      using d'(3) that unfolding set by blast
    show "lookup d' q = Some n" if "lookup d q = Some n" for q n using d'(4) that by blast
  qed
qed

lemma fsync_dir_ok:
  assumes "no_faults d" "is_dir_at d p"
  shows "\<exists>d'. fsync_dir p d = (Inr (), d') \<and> dk_nodes d' = dk_nodes d \<and> no_faults d'"
proof -
  have "no_symlink (io_tick d) p" using assms(2) by (auto simp: no_symlink_def is_dir_at_def)
  from resolve_link_plain [OF this] assms show ?thesis
    by (auto simp: fsync_dir_def dl_bind_def dl_io_def metadata_def guarded_def sync_all_def is_dir_at_def)
qed

lemma rename_ok:
  assumes "no_faults d" "lookup d a \<noteq> None" "lookup d b = None" "is_dir_at d (butlast b)"
  shows "\<exists>d'. rename a b d = (Inr (), d') \<and> no_faults d'"
proof -
  obtain n l where "lookup d a = Some n" "lookup d (butlast b) = Some (NDir l)"
    using assms(2,4) by (auto simp: is_dir_at_def)
  with assms(1,3) show ?thesis
    by (cases n) (simp_all add: rename_def guarded_def rename_now_def rename_onto_def no_faults_def)
qed

section \<open>Seals\<close>

definition tree_seal :: "MarkerCodec \<Rightarrow> (path \<Rightarrow> node option) \<Rightarrow> RevisionMarker option" where
  "tree_seal mc t =
    (case t [Normal REVISION_MARKER_NAME] of
       Some (NFile b) \<Rightarrow> if utf8_valid b then mc_revision_from_json mc b else None
     | _ \<Rightarrow> None)"

definition plain_seal :: "(path \<Rightarrow> node option) \<Rightarrow> bool" where
  "plain_seal t \<longleftrightarrow> (\<nexists>l. t [Normal REVISION_MARKER_NAME] = Some (NSymlink l))"

definition carries :: "MarkerCodec \<Rightarrow> SessionStaging \<Rightarrow> (path \<Rightarrow> node option) \<Rightarrow> bool" where
  "carries mc st t \<longleftrightarrow> (\<exists>m. tree_seal mc t = Some m \<and> rm_revision m = st_revision st)"

lemma marker_matches_tree:
  assumes "no_faults d" "dir \<noteq> []" "plain_seal (subtree d dir)"
  shows "marker_matches mc st dir d = (carries mc st (subtree d dir), io_tick d)"
proof -
  have join: "join_path dir REVISION_MARKER_NAME = dir @ [Normal REVISION_MARKER_NAME]"
    by (rule join_plain [OF assms(2)]) simp
  have "no_symlink (io_tick d) (dir @ [Normal REVISION_MARKER_NAME])"
    using assms(3) by (auto simp: plain_seal_def subtree_def no_symlink_def split: option.splits node.splits)
  from resolve_link_plain [OF this] assms(1) show ?thesis
    by (auto simp: marker_matches_def read_revision_marker_def read_text_def read_file_def guarded_def join
        carries_def tree_seal_def subtree_def split: option.splits node.splits)
qed

section \<open>Setting the old tree aside\<close>

lemma butlast_outside:
  "p \<noteq> [] \<Longrightarrow> butlast p \<notin> below p" "apart p q \<Longrightarrow> butlast p \<notin> below q"
proof -
  show "p \<noteq> [] \<Longrightarrow> butlast p \<notin> below p"
    using below_ancestor [of "length p - 1" p] by (simp add: butlast_conv_take)
  show "apart p q \<Longrightarrow> butlast p \<notin> below q"
    using ancestor_apart [of p q "length p - 1"] by (simp add: butlast_conv_take)
qed

lemma remove_superseded_ok:
  assumes "no_faults d" "tree_wf d" "p \<noteq> []" "\<nexists>b. lookup d p = Some (NFile b)"
  obtains x d' where "remove_dir_all p d = (x, d')" "x = Inr () \<or> (\<exists>e. x = Inl e \<and> io_kind e = NotFound)"
    "no_faults d'" "\<And>q. lookup d' q = (if q \<in> below p then None else lookup d q)"
proof -
  have leaf: "lookup d q = None" if q: "q \<in> below p" "q \<noteq> p" "\<nexists>l. lookup d p = Some (NDir l)" for q
  proof -
    obtain r where "q = p @ r" "r \<noteq> []" using q(1,2) by (auto simp: below_iff)
    then show ?thesis using fun_cong [OF leaf_subtree [OF assms(2,3) q(3)], of r] by (simp add: subtree_def)
  qed
  show thesis
  proof (cases "lookup d p")
    case None
    show ?thesis
      by (rule that [of "Inl ENOENT" "io_tick d"]) (use assms(1) None leaf in \<open>auto simp: remove_dir_all_def\<close>)
  next
    case (Some n)
    show ?thesis
    proof (cases n)
      case (NSymlink t)
      show ?thesis
        by (rule that [of "Inr ()" "(io_tick d)\<lparr>dk_nodes := del_node p (dk_nodes d)\<rparr>"])
          (use assms(1) Some NSymlink leaf in \<open>auto simp: remove_dir_all_def no_faults_def\<close>)
    next
      case (NDir l)
      show ?thesis
        by (rule that [of "Inr ()" "(io_tick d)\<lparr>dk_nodes := remove_tree p (dk_nodes d)\<rparr>"])
          (use assms(1) Some NDir in \<open>auto simp: remove_dir_all_def no_faults_def lookup_remove_tree\<close>)
    qed (use assms(4) Some in auto)
  qed
qed

lemma proper_prefix_outside: "apart p q \<Longrightarrow> k < length p \<Longrightarrow> take k p \<notin> below q"
  using ancestor_apart [of p q k] by simp

lemma make_room_ok:
  assumes ok: "staging_ok st" and d: "tree_wf d" "no_faults d" "clear_way d (superseded_dir st)"
    and room: "\<nexists>b. lookup d (superseded_dir st) = Some (NFile b)"
  obtains d' where "make_room st d = (Inr (), d')" "no_faults d'" "lookup d' (superseded_dir st) = None"
    "is_dir_at d' (butlast (superseded_dir st))"
    "\<And>q n. q \<notin> below (superseded_dir st) \<Longrightarrow> lookup d q = Some n \<Longrightarrow> lookup d' q = Some n"
proof -
  let ?S = "superseded_dir st"
  have ne: "?S \<noteq> []" "1 < length ?S" using ok by (simp_all add: staging_paths)
  obtain x d1 where rm: "remove_dir_all ?S d = (x, d1)" "x = Inr () \<or> (\<exists>e. x = Inl e \<and> io_kind e = NotFound)"
    and d1: "no_faults d1" "\<And>q. lookup d1 q = (if q \<in> below ?S then None else lookup d q)"
    using remove_superseded_ok [OF d(2,1) ne(1) room] by blast
  have "clear_way d1 ?S"
    using d(3) below_ancestor [of _ ?S] unfolding clear_way_def is_dir_at_def d1(2) by auto
  from parents_ok [OF this d1(1)] obtain d' where mk: "create_dir_all (butlast ?S) d1 = (Inr (), d')" "no_faults d'"
    and dirs: "\<And>k. 0 < k \<Longrightarrow> k < length ?S \<Longrightarrow> is_dir_at d' (take k ?S)"
    and other: "\<And>q. (\<And>k. 0 < k \<Longrightarrow> k < length ?S \<Longrightarrow> q \<noteq> take k ?S) \<Longrightarrow> lookup d' q = lookup d1 q"
    and kept: "\<And>q n. lookup d1 q = Some n \<Longrightarrow> lookup d' q = Some n" by blast
  show thesis
  proof (rule that)
    show "make_room st d = (Inr (), d')"
      using rm mk unfolding make_room_def place_parents [OF ok] option.case
      by (auto simp: dl_bind_def dl_try_def dl_io_def dl_return_def)
    have "lookup d' ?S = lookup d1 ?S" by (rule other) (metis below_ancestor below_self)
    then show "lookup d' ?S = None" using d1(2) by simp
    show "is_dir_at d' (butlast ?S)" using dirs [of "length ?S - 1"] ne by (simp add: butlast_conv_take)
    show "lookup d' q = Some n" if "q \<notin> below ?S" "lookup d q = Some n" for q n
      using kept that d1(2) by simp
  qed (rule mk(2))
qed

lemma set_aside_ok:
  assumes ok: "staging_ok st" and d: "tree_wf d" "no_faults d" "clear_way d (superseded_dir st)"
    and parent: "is_dir_at d (butlast (published_dir st))"
    and room: "lookup d (published_dir st) = None \<or> (\<nexists>b. lookup d (superseded_dir st) = Some (NFile b))"
  obtains d' where "set_aside st (butlast (published_dir st)) d = (Inr (), d')" "no_faults d'"
    "lookup d' (published_dir st) = None" "is_dir_at d' (butlast (published_dir st))"
proof (cases "lookup d (published_dir st)")
  let ?P = "published_dir st" and ?S = "superseded_dir st"
  case None
  show thesis
    by (rule that [of "io_tick d"])
      (use None d parent in \<open>simp_all add: set_aside_def dl_bind_def dl_try_def symlink_metadata_def guarded_def
        dl_return_def is_dir_at_def\<close>)
next
  let ?P = "published_dir st" and ?S = "superseded_dir st"
  case (Some n)
  note A = staging_apart [OF ok] and ne = place_ne [OF ok]
  have d0: "tree_wf (io_tick d)" "no_faults (io_tick d)" "clear_way (io_tick d) ?S"
    "\<nexists>b. lookup (io_tick d) ?S = Some (NFile b)"
    using d room Some by (simp_all add: clear_way_def is_dir_at_def)
  obtain d1 where mk: "make_room st (io_tick d) = (Inr (), d1)" "no_faults d1" "lookup d1 ?S = None"
    "is_dir_at d1 (butlast ?S)"
    and kept: "\<And>q n. q \<notin> below ?S \<Longrightarrow> lookup (io_tick d) q = Some n \<Longrightarrow> lookup d1 q = Some n"
    using make_room_ok [OF ok d0] by blast
  have P1: "lookup d1 ?P = Some n" using kept [of ?P n] Some apartD(2) [OF A(2)] by simp
  have par1: "is_dir_at d1 (butlast ?P)"
    using parent kept [of "butlast ?P"] butlast_outside(2) [OF apart_sym [OF A(2)]] by (auto simp: is_dir_at_def)
  obtain d2 where mv: "rename ?P ?S d1 = (Inr (), d2)" "no_faults d2"
    using rename_ok [OF mk(2) _ mk(3,4), of ?P] P1 by auto
  have wf1: "tree_wf d1" using make_room_result [OF ok d0(1) mk(1)] by blast
  note moved = rename_moves [OF wf1 apart_sym [OF A(2)] _ _ mv(1)]
  have par2: "is_dir_at d2 (butlast ?P)"
    using par1 moved ne butlast_outside(1) [of ?P] butlast_outside(2) [OF apart_sym [OF A(2)]]
    by (simp add: is_dir_at_def)
  have gone: "lookup d2 ?P = None" using moved [of ?P] ne apartD(2) [OF A(2)] by simp
  obtain d3 where sy: "fsync_dir (butlast ?P) d2 = (Inr (), d3)" "dk_nodes d3 = dk_nodes d2" "no_faults d3"
    using fsync_dir_ok [OF mv(2) par2] by blast
  show thesis
    by (rule that [of d3])
      (use sy gone par2 mk(1) mv(1) Some d(2) in \<open>simp_all add: set_aside_def dl_bind_def dl_try_def dl_io_def
        symlink_metadata_def guarded_def is_dir_at_def\<close>)
qed

section \<open>An attempt with a working disk\<close>

definition ready_to_publish :: "MarkerCodec \<Rightarrow> SessionStaging \<Rightarrow> Disk \<Rightarrow> bool" where
  "ready_to_publish mc st d \<longleftrightarrow>
    tree_wf d \<and> is_dir_at d (revision_dir st) \<and> carries mc st (subtree d (revision_dir st)) \<and>
    plain_seal (subtree d (published_dir st)) \<and> \<not> carries mc st (subtree d (published_dir st)) \<and>
    plain_seal (subtree d (superseded_dir st)) \<and> \<not> carries mc st (subtree d (superseded_dir st)) \<and>
    clear_way d (published_dir st) \<and> clear_way d (superseded_dir st) \<and>
    (lookup d (published_dir st) = None \<or> (\<nexists>b. lookup d (superseded_dir st) = Some (NFile b)))"

lemma carries_plain: "carries mc st t \<Longrightarrow> plain_seal t"
  by (auto simp: carries_def tree_seal_def plain_seal_def)

lemma path_is_dir_ok:
  assumes "no_faults d" "is_dir_at d p"
  shows "path_is_dir p d = (True, io_tick d)"
proof -
  have "no_symlink (io_tick d) p" using assms(2) by (auto simp: no_symlink_def is_dir_at_def)
  from resolve_link_plain [OF this] assms show ?thesis
    by (auto simp: path_is_dir_def metadata_def guarded_def is_dir_at_def)
qed

lemma publish_tail_ok:
  assumes "no_faults d" "is_dir_at d parent"
  shows "fst (publish_tail st parent d) = Inr (Published (st_revision st))"
  using fsync_dir_ok [OF assms]
  by (auto simp: publish_tail_def pb_bind_def pb_dl_def pb_ignore_def dl_cleanup_def pb_return_def)

lemma clear_way_kept:
  assumes "clear_way d p" "\<And>q. lookup d' q = lookup d q \<or> is_dir_at d' q"
  shows "clear_way d' p"
  using assms unfolding clear_way_def is_dir_at_def by metis

lemma publish_ready:
  assumes ok: "staging_ok st" and d: "no_faults d" "ready_to_publish mc st d"
  shows "fst (publish_sealed mc st d) = Inr (Published (st_revision st))"
proof -
  let ?P = "published_dir st" and ?R = "revision_dir st" and ?S = "superseded_dir st"
  note r = d(2) [unfolded ready_to_publish_def] and A = staging_apart [OF ok] and ne = place_ne [OF ok]
  define d3 where "d3 = io_tick (io_tick (io_tick d))"
  have n3: "dk_nodes d3 = dk_nodes d" "no_faults d3" using d(1) by (simp_all add: d3_def)
  have tick: "subtree (io_tick e) = subtree e" for e by (rule subtree_nodes) simp
  have "is_published mc st d = (False, io_tick d)"
    unfolding is_published_def using marker_matches_tree [of d ?P mc st] r d(1) ne by simp
  moreover have "path_is_dir ?R (io_tick d) = (True, io_tick (io_tick d))"
    by (rule path_is_dir_ok) (use r d(1) in \<open>simp_all add: is_dir_at_def\<close>)
  moreover have "marker_matches mc st ?R (io_tick (io_tick d)) = (True, d3)"
    using marker_matches_tree [of "io_tick (io_tick d)" ?R mc st, unfolded tick] r d(1) ne
      carries_plain [of mc st "subtree d ?R"]
    by (simp add: d3_def)
  ultimately have checks: "is_published mc st d = (False, io_tick d)"
    "path_is_dir ?R (io_tick d) = (True, io_tick (io_tick d))"
    "marker_matches mc st ?R (io_tick (io_tick d)) = (True, d3)" by blast+
  have wf3: "tree_wf d3" using r tree_wf_nodes n3(1) by blast
  have way: "clear_way d3 ?P" "clear_way d3 ?S" using r by (simp_all add: clear_way_def is_dir_at_def n3(1))
  obtain d4 where mk: "create_dir_all (butlast ?P) d3 = (Inr (), d4)" "no_faults d4"
    and dirs: "\<And>k. 0 < k \<Longrightarrow> k < length ?P \<Longrightarrow> is_dir_at d4 (take k ?P)"
    and other: "\<And>q. (\<And>k. 0 < k \<Longrightarrow> k < length ?P \<Longrightarrow> q \<noteq> take k ?P) \<Longrightarrow> lookup d4 q = lookup d3 q"
    and kept: "\<And>q n. lookup d3 q = Some n \<Longrightarrow> lookup d4 q = Some n"
    using parents_ok [OF way(1) n3(2)] by blast
  have wf4: "tree_wf d4" using keepsD [OF keeps_create_dir_all mk(1) wf3] .
  have sub4: "subtree d4 q = subtree d q" if "?P = q \<or> apart ?P q" for q
    using create_parent_subtree [OF mk(1) that] ne subtree_nodes [OF n3(1)] by simp
  have at4: "lookup d4 ?P = lookup d ?P" "lookup d4 ?S = lookup d ?S" "lookup d4 ?R = lookup d ?R"
    using fun_cong [OF sub4 [of ?P], of "[]"] fun_cong [OF sub4 [of ?S], of "[]"] fun_cong [OF sub4 [of ?R], of "[]"]
      A apart_sym by (auto simp: subtree_def)
  have "lookup d4 q = lookup d3 q \<or> is_dir_at d4 q" for q using dirs other by metis
  then have way4: "clear_way d4 ?S" using way(2) clear_way_kept by blast
  have par4: "is_dir_at d4 (butlast ?P)"
    using dirs [of "length ?P - 1"] ok by (simp add: butlast_conv_take staging_paths)
  obtain d5 where sa: "set_aside st (butlast ?P) d4 = (Inr (), d5)" "no_faults d5"
    "lookup d5 ?P = None" "is_dir_at d5 (butlast ?P)"
    using set_aside_ok [OF ok wf4 mk(2) way4 par4] r at4 by auto
  note res5 = set_aside_result [OF ok wf4 sa(1)]
  have R5: "lookup d5 ?R \<noteq> None"
    using res5 at4(3) r by (auto simp: same_at_def subtree_def is_dir_at_def dest: fun_cong [of _ _ "[]"])
  obtain d6 where mv: "rename ?R ?P d5 = (Inr (), d6)" "no_faults d6"
    using rename_ok [OF sa(2) R5 sa(3,4)] by blast
  have pr: "publish_rename st (butlast ?P) d5 = (Inr (), d6)"
    using mv(1) by (simp add: publish_rename_def dl_bind_def dl_try_def dl_return_def)
  have par6: "is_dir_at d6 (butlast ?P)"
    using sa(4) rename_moves [OF _ A(1) _ _ mv(1), of "butlast ?P"] res5 ne
      butlast_outside(1) [of ?P] butlast_outside(2) [OF apart_sym [OF A(1)]] by (simp add: is_dir_at_def)
  show ?thesis
    unfolding publish_sealed_steps [OF ok] pb_bind_ask checks fst_conv snd_conv Let_def
    using mk(1) sa(1) pr publish_tail_ok [OF mv(2) par6]
    by (simp add: checks pb_bind_def pb_dl_def dl_io_def)
qed

section \<open>After an attempt that failed\<close>

text \<open>Outside \<open>U\<close>, the disk only gains directories.\<close>

definition grows :: "path set \<Rightarrow> (Disk \<Rightarrow> 'r \<times> Disk) \<Rightarrow> bool" where
  "grows U m \<longleftrightarrow> (\<forall>d q. q \<notin> U \<longrightarrow>
    lookup (snd (m d)) q = lookup d q \<or> lookup d q = None \<and> is_dir_at (snd (m d)) q)"

named_theorems growsI \<open>operations that only add directories outside a set\<close>

lemma growsD: "grows U m \<Longrightarrow> m d = (r, d') \<Longrightarrow> q \<notin> U \<Longrightarrow>
    lookup d' q = lookup d q \<or> lookup d q = None \<and> is_dir_at d' q"
  unfolding grows_def by (metis snd_conv)

lemma grows_touches: "touches {} U m \<Longrightarrow> grows U m"
  by (simp add: grows_def touches_def)

lemma make_dirs_grows:
  "make_dirs ps d = (r, d') \<Longrightarrow> lookup d' q = lookup d q \<or> lookup d q = None \<and> is_dir_at d' q"
proof (induction ps arbitrary: d)
  case (Cons p ps)
  show ?case
  proof (cases "lookup d p")
    case None
    let ?d = "d\<lparr>dk_nodes := put_node p (NDir 4096) (dk_nodes d)\<rparr>"
    have "lookup d' q = lookup ?d q \<or> lookup ?d q = None \<and> is_dir_at d' q"
      using Cons.IH [of ?d] Cons.prems None by simp
    then show ?thesis using None by (cases "q = p") (auto simp: is_dir_at_def)
  next
    case (Some n)
    then show ?thesis using Cons by (cases n) auto
  qed
qed simp

lemma grows_create_dir_all [growsI]: "grows U (create_dir_all p)"
  unfolding grows_def
proof (intro allI impI)
  fix d q
  let ?ps = "map (\<lambda>k. take k p) [1..<Suc (length p)]"
  obtain r d' where "make_dirs ?ps (io_tick d) = (r, d')" by (cases "make_dirs ?ps (io_tick d)")
  then show "lookup (snd (create_dir_all p d)) q = lookup d q \<or>
      lookup d q = None \<and> is_dir_at (snd (create_dir_all p d)) q"
    using make_dirs_grows [of ?ps "io_tick d" r d' q]
    unfolding create_dir_all_def guarded_def by (simp del: upt_Suc split: option.splits)
qed

lemma grows_dl_bind [growsI]:
  assumes "grows U m" "\<And>x. grows U (f x)"
  shows "grows U (dl_bind m f)"
  unfolding grows_def
proof (intro allI impI)
  fix d q
  assume q: "q \<notin> U"
  obtain r d' where run: "dl_bind m f d = (r, d')" by (cases "dl_bind m f d")
  then have "lookup d' q = lookup d q \<or> lookup d q = None \<and> is_dir_at d' q"
  proof (cases rule: dl_bind_cases)
    case (step x d1)
    show ?thesis
      using growsD [OF assms(1) step(1) q] growsD [OF assms(2) step(2) q] by (auto simp: is_dir_at_def)
  qed (use growsD [OF assms(1) _ q] in blast)
  then show "lookup (snd (dl_bind m f d)) q = lookup d q \<or>
      lookup d q = None \<and> is_dir_at (snd (dl_bind m f d)) q" using run by simp
qed

lemma grows_dl_io [growsI]: "grows U m \<Longrightarrow> grows U (dl_io p m)"
proof -
  assume "grows U m"
  moreover have "snd (dl_io p m d) = snd (m d)" for d by (auto simp: dl_io_def split: prod.splits sum.splits)
  ultimately show ?thesis by (simp add: grows_def)
qed

lemma grows_place:
  assumes "staging_ok st" "below (published_dir st) \<union> below (superseded_dir st) \<union> below (revision_dir st) \<subseteq> U"
  shows "grows U (set_aside st p)" "grows U (publish_rename st p)"
proof -
  have sub: "below (published_dir st) \<subseteq> U" "below (superseded_dir st) \<subseteq> U" "below (revision_dir st) \<subseteq> U"
    using assms(2) by auto
  show "grows U (publish_rename st p)" by (rule grows_touches, rule touches_publish_rename) (use sub in auto)
  have clear: "grows U (dl_bind (dl_try (remove_dir_all (superseded_dir st))) (\<lambda>r.
      case r of
        Inr _ \<Rightarrow> dl_return ()
      | Inl e \<Rightarrow> if io_kind e = NotFound then dl_return () else dl_fail (Io (superseded_dir st) e)))"
    by (rule grows_touches, intro touchesI sub) (auto intro!: touchesI split: sum.splits)
  have room: "grows U (make_room st)"
    unfolding make_room_def place_parents [OF assms(1)] option.case by (intro growsI clear)
  have branch: "grows U (if isl there then dl_return () else m)" if "grows U m" for there :: "io_error + node" and m
    using that by (auto intro: grows_touches touchesI)
  have rest: "grows U (dl_try (symlink_metadata q))" "grows U (rename (published_dir st) (superseded_dir st))"
    "grows U (fsync_dir q)" for q
    by (rule grows_touches, intro touchesI sub)+
  show "grows U (set_aside st p)"
    unfolding set_aside_def by (intro growsI room branch rest)
qed

definition publish_places :: "SessionStaging \<Rightarrow> path set" where
  "publish_places st = below (published_dir st) \<union> below (superseded_dir st) \<union> below (revision_dir st)"

lemma failed_steps_grow:
  assumes ok: "staging_ok st"
    and run: "pb_bind (pb_dl (dl_io parent (create_dir_all parent))) (\<lambda>_.
       pb_bind (pb_dl (set_aside st parent)) (\<lambda>_.
       pb_bind (pb_dl (publish_rename st parent)) (\<lambda>_. publish_tail st parent))) d = (Inl e, d')"
    and q: "q \<notin> publish_places st"
  shows "lookup d' q = lookup d q \<or> lookup d q = None \<and> is_dir_at d' q"
proof -
  note g = grows_place [OF ok, of "publish_places st", unfolded publish_places_def, OF subset_refl,
      folded publish_places_def, of parent]
  have step: "lookup d2 q = lookup d1 q \<or> lookup d1 q = None \<and> is_dir_at d2 q"
    if "pb_dl m d1 = (x, d2)" "grows (publish_places st) m" for m :: "unit dl" and x d1 d2
    using that growsD [OF that(2) _ q] by (auto simp: pb_dl_result)
  have mk: "grows (publish_places st) (dl_io parent (create_dir_all parent))" by (intro growsI)
  from run show ?thesis
  proof (cases rule: pb_bind_cases)
    case (fail x)
    then show ?thesis using step mk by blast
  next
    case (run u d1)
    note s1 = step [OF run(1) mk]
    from run(2) show ?thesis
    proof (cases rule: pb_bind_cases)
      case (fail x)
      show ?thesis using step [OF fail(1) g(1)] s1 by (auto simp: is_dir_at_def)
    next
      case (run u' d2)
      note s2 = step [OF run(1) g(1)]
      from run(2) show ?thesis
      proof (cases rule: pb_bind_cases)
        case (fail x)
        show ?thesis using step [OF fail(1) g(2)] s1 s2 by (auto simp: is_dir_at_def)
      next
        case (run u'' d3)
        then have "dk_nodes d' = dk_nodes d3" using publish_tail_fails by blast
        then show ?thesis using step [OF run(1) g(2)] s1 s2 by (auto simp: is_dir_at_def)
      qed
    qed
  qed
qed

lemma failed_publish_grows:
  assumes ok: "staging_ok st" and run: "publish_sealed mc st d = (Inl e, d')" and q: "q \<notin> publish_places st"
  shows "lookup d' q = lookup d q \<or> lookup d q = None \<and> is_dir_at d' q"
proof -
  let ?pub = "is_published mc st d"
  let ?dir = "path_is_dir (revision_dir st) (snd ?pub)"
  let ?seal = "marker_matches mc st (revision_dir st) (snd ?dir)"
  have n1: "dk_nodes (snd ?pub) = dk_nodes d" by (simp add: is_published_def)
  have n: "dk_nodes (snd ?seal) = dk_nodes d" "dk_nodes (snd ?dir) = dk_nodes d" by (simp_all add: n1)
  note eval = run [unfolded publish_sealed_steps [OF ok] pb_bind_ask]
  have pub: "\<not> fst ?pub" using eval by (auto simp: pb_bind_def pb_dl_def dl_cleanup_def pb_return_def)
  show ?thesis
  proof (cases "fst ?dir \<and> fst ?seal")
    case True
    with eval pub failed_steps_grow [OF ok _ q, of "butlast (published_dir st)" "snd ?seal" e d'] n(1)
    show ?thesis by (simp add: Let_def)
  next
    case False
    with eval pub n have "dk_nodes d' = dk_nodes d" by (auto simp: pb_fail_def split: if_splits)
    then show ?thesis by simp
  qed
qed

lemma prefix_outside:
  assumes ok: "staging_ok st"
  shows "k < length (published_dir st) \<Longrightarrow> take k (published_dir st) \<notin> publish_places st"
    "k < length (superseded_dir st) \<Longrightarrow> take k (superseded_dir st) \<notin> publish_places st"
  using staging_apart [OF ok] apart_sym below_ancestor ancestor_apart [of _ _ k]
  by (auto simp: publish_places_def)

lemma thinned_seal:
  assumes "thinned p d d'"
  shows "plain_seal (subtree d p) \<Longrightarrow> plain_seal (subtree d' p)"
    "carries mc st (subtree d' p) \<Longrightarrow> carries mc st (subtree d p)"
proof -
  let ?m = "[Normal REVISION_MARKER_NAME]"
  have m: "subtree d' p ?m = subtree d p ?m \<or> subtree d' p ?m = None" using assms by (simp add: thinned_def)
  show "plain_seal (subtree d p) \<Longrightarrow> plain_seal (subtree d' p)" using m by (auto simp: plain_seal_def)
  show "carries mc st (subtree d' p) \<Longrightarrow> carries mc st (subtree d p)"
    using m by (auto simp: carries_def tree_seal_def)
qed

lemma empty_tree_seal [simp]: "plain_seal (\<lambda>_. None)" "\<not> carries mc st (\<lambda>_. None)"
  by (simp_all add: plain_seal_def carries_def tree_seal_def)

lemma root_of_subtree: "lookup d p = subtree d p []"
  by (simp add: subtree_def)

lemma failed_keeps_ready:
  assumes ok: "staging_ok st" and ready: "ready_to_publish mc st d"
    and run: "publish_sealed mc st d = (Inl e, d')"
  shows "installed st d d' \<or> ready_to_publish mc st d' \<and> same_at (revision_dir st) d d'"
proof (cases "installed st d d'")
  case False
  note r = ready [unfolded ready_to_publish_def]
  have u: "unpublished st d d'" using publish_sealed_outcome [OF ok _ run] r False by simp
  have way: "clear_way d' (published_dir st)" "clear_way d' (superseded_dir st)"
    using r failed_publish_grows [OF ok run] prefix_outside [OF ok]
    unfolding clear_way_def is_dir_at_def by metis+
  have R: "is_dir_at d' (revision_dir st) \<and> carries mc st (subtree d' (revision_dir st))" "tree_wf d'"
    "same_at (revision_dir st) d d'"
    using u r unfolding unpublished_def is_dir_at_def root_of_subtree same_at_def by auto
  have trees: "plain_seal (subtree d' (published_dir st)) \<and> \<not> carries mc st (subtree d' (published_dir st)) \<and>
      plain_seal (subtree d' (superseded_dir st)) \<and> \<not> carries mc st (subtree d' (superseded_dir st)) \<and>
      (lookup d' (published_dir st) = None \<or> (\<nexists>b. lookup d' (superseded_dir st) = Some (NFile b)))"
    using u [unfolded unpublished_def]
  proof (elim conjE disjE)
    assume s: "same_at (published_dir st) d d'" and t: "thinned (superseded_dir st) d d'"
    have "subtree d' (superseded_dir st) [] = subtree d (superseded_dir st) [] \<or>
        subtree d' (superseded_dir st) [] = None" using t by (simp add: thinned_def)
    then have "lookup d (published_dir st) = None \<or> (\<nexists>b. lookup d' (superseded_dir st) = Some (NFile b))"
      using r unfolding root_of_subtree by (metis option.distinct(1))
    then show ?thesis
      using r s thinned_seal [OF t] unfolding same_at_def root_of_subtree by auto
  next
    assume "aside st d d'"
    then show ?thesis using r by (simp add: aside_def root_of_subtree)
  next
    assume "subtree d' (published_dir st) = subtree d (superseded_dir st)"
      "subtree d' (superseded_dir st) = (\<lambda>_. None)"
    then show ?thesis using r by (simp add: root_of_subtree)
  qed
  show ?thesis using way R trees by (simp add: ready_to_publish_def)
qed simp

section \<open>Convergence\<close>

text \<open>
  Attempts that failed, each with its own pattern of failing operations: a crash is
  an attempt whose operations all fail from some point on.
\<close>

inductive failed_attempts :: "MarkerCodec \<Rightarrow> SessionStaging \<Rightarrow> Disk \<Rightarrow> Disk \<Rightarrow> bool"
  for mc :: MarkerCodec and st :: SessionStaging and d :: Disk where
  none: "failed_attempts mc st d d"
| again: "failed_attempts mc st d d1 \<Longrightarrow>
    publish_sealed mc st (d1\<lparr>dk_faults := faults\<rparr>) = (Inl e, d2) \<Longrightarrow> failed_attempts mc st d d2"

definition working :: "Disk \<Rightarrow> Disk" where
  "working d = d\<lparr>dk_faults := (\<lambda>_. None)\<rparr>"

lemma script_irrelevant:
  "dk_nodes (d\<lparr>dk_faults := f\<rparr>) = dk_nodes d" "subtree (d\<lparr>dk_faults := f\<rparr>) = subtree d"
  "ready_to_publish mc st (d\<lparr>dk_faults := f\<rparr>) = ready_to_publish mc st d"
proof -
  show n: "dk_nodes (d\<lparr>dk_faults := f\<rparr>) = dk_nodes d" by simp
  then show t: "subtree (d\<lparr>dk_faults := f\<rparr>) = subtree d" by (rule subtree_nodes)
  show "ready_to_publish mc st (d\<lparr>dk_faults := f\<rparr>) = ready_to_publish mc st d"
    by (simp add: t ready_to_publish_def tree_wf_def is_dir_at_def clear_way_def)
qed

definition published_tree :: "MarkerCodec \<Rightarrow> SessionStaging \<Rightarrow> (path \<Rightarrow> node option) \<Rightarrow> Disk \<Rightarrow> bool" where
  "published_tree mc st t d \<longleftrightarrow>
    subtree d (published_dir st) = t \<and> subtree d (revision_dir st) = (\<lambda>_. None)"

text \<open>Once the tree is in place, an attempt that fails changes nothing.\<close>

lemma published_stays:
  assumes ok: "staging_ok st" and t: "published_tree mc st t d" and run: "publish_sealed mc st d = (Inl e, d')"
  shows "published_tree mc st t d'"
proof -
  let ?R = "revision_dir st" and ?pub = "is_published mc st d"
  have n1: "dk_nodes (snd ?pub) = dk_nodes d" by (simp add: is_published_def)
  note eval = run [unfolded publish_sealed_steps [OF ok] pb_bind_ask]
  have pub: "\<not> fst ?pub" using eval by (auto simp: pb_bind_def pb_dl_def dl_cleanup_def pb_return_def)
  have "lookup (snd ?pub) ?R = None" using t by (simp add: n1 root_of_subtree published_tree_def)
  then have "no_symlink (io_tick (snd ?pub)) ?R" "lookup (io_tick (snd ?pub)) ?R = None"
    by (simp_all add: no_symlink_def)
  then have "\<not> fst (path_is_dir ?R (snd ?pub))"
    using resolve_link_plain by (auto simp: path_is_dir_def metadata_def guarded_def split: option.splits)
  with eval pub have "dk_nodes d' = dk_nodes d" using n1 by (auto simp: pb_fail_def)
  then have "subtree d' = subtree d" by (rule subtree_nodes)
  then show ?thesis using t by (simp add: published_tree_def)
qed

lemma attempts_ready:
  assumes ok: "staging_ok st" and ready: "ready_to_publish mc st d" and at: "failed_attempts mc st d d1"
  shows "published_tree mc st (subtree d (revision_dir st)) d1 \<or>
    ready_to_publish mc st d1 \<and> same_at (revision_dir st) d d1"
  using at
proof (induction rule: failed_attempts.induct)
  case none
  then show ?case using ready by (simp add: same_at_def)
next
  case (again d1 faults e d2)
  let ?d = "d1\<lparr>dk_faults := faults\<rparr>"
  from again.IH show ?case
  proof
    assume "published_tree mc st (subtree d (revision_dir st)) d1"
    then have "published_tree mc st (subtree d (revision_dir st)) ?d"
      by (simp add: published_tree_def script_irrelevant)
    then show ?thesis using published_stays [OF ok _ again.hyps(2)] by blast
  next
    assume r: "ready_to_publish mc st d1 \<and> same_at (revision_dir st) d d1"
    then have "ready_to_publish mc st ?d" by (simp add: script_irrelevant)
    from failed_keeps_ready [OF ok this again.hyps(2)] r show ?thesis
      by (auto simp: installed_def published_tree_def same_at_def script_irrelevant)
  qed
qed

text \<open>
  C7.  Publication converges.  From a sealed revision, after any number of attempts
  that failed or were cut off, in whatever way, one attempt with a working disk
  succeeds, and the visible session is then exactly the tree that was staged at the
  start: nothing is lost, and nothing of an older session is mixed in.
\<close>

theorem publish_converges:
  assumes "staging_ok st" "ready_to_publish mc st d" "failed_attempts mc st d d1"
  shows "\<exists>outcome d2. publish_sealed mc st (working d1) = (Inr outcome, d2) \<and>
    outcome_revision outcome = st_revision st \<and>
    subtree d2 (published_dir st) = subtree d (revision_dir st)"
proof -
  let ?t = "subtree d (revision_dir st)"
  have w: "no_faults (working d1)" "subtree (working d1) = subtree d1"
    "ready_to_publish mc st (working d1) = ready_to_publish mc st d1"
    by (simp_all add: working_def no_faults_def script_irrelevant)
  obtain r d2 where run: "publish_sealed mc st (working d1) = (r, d2)" by (cases "publish_sealed mc st (working d1)")
  have c: "carries mc st ?t" using assms(2) by (simp add: ready_to_publish_def)
  from attempts_ready [OF assms] show ?thesis
  proof
    assume p: "published_tree mc st ?t d1"
    then have t: "subtree (working d1) (published_dir st) = ?t" using w(2) by (simp add: published_tree_def)
    have "is_published mc st (working d1) = (True, io_tick (working d1))"
      unfolding is_published_def
      using marker_matches_tree [OF w(1), of "published_dir st" mc st, unfolded t] c carries_plain [OF c]
        place_ne [OF assms(1)] by simp
    then have "publish_sealed mc st (working d1) =
        (Inr (AlreadyPublished (st_revision st)), cleanup_staging_skeleton st (io_tick (working d1)))"
      by (simp add: publish_sealed_def pb_bind_ask) (simp add: pb_bind_def pb_dl_def dl_cleanup_def pb_return_def)
    moreover have "subtree (cleanup_staging_skeleton st (io_tick (working d1))) (published_dir st) = ?t"
    proof -
      have "subtree (cleanup_staging_skeleton st (io_tick (working d1))) (published_dir st) =
          subtree (working d1) (published_dir st)"
        unfolding subtree_eq_iff
        using cleanup_bound(1) [OF assms(1)] apartD(4) [OF staging_apart(4) [OF assms(1)]] by simp
      then show ?thesis using t by simp
    qed
    ultimately show ?thesis by simp
  next
    assume r: "ready_to_publish mc st d1 \<and> same_at (revision_dir st) d d1"
    then have "fst (publish_sealed mc st (working d1)) = Inr (Published (st_revision st))"
      using publish_ready [OF assms(1) w(1)] w(3) by blast
    moreover have "tree_wf (working d1)" using r w(3) by (simp add: ready_to_publish_def)
    ultimately show ?thesis
      using publish_sealed_outcome [OF assms(1) _ run] run r w(2) by (simp add: same_at_def)
  qed
qed

section \<open>A run\<close>

text \<open>A codec that keeps only the revision, enough to tell one revision from another.\<close>

definition ref_codec :: MarkerCodec where
  "ref_codec = \<lparr>mc_revision_to_json = (\<lambda>m. as_bytes (rm_revision m)),
     mc_revision_from_json = (\<lambda>b. Some \<lparr>rm_revision = map (\<lambda>w. char_of (unat w)) b, rm_file_count = 0, rm_total_bytes = 0\<rparr>),
     mc_selected_to_json = (\<lambda>m. as_bytes (sm_revision m)),
     mc_selected_from_json = (\<lambda>_. None)\<rparr>"

definition sample_staging :: SessionStaging where
  "sample_staging = \<lparr>st_library_root = [RootDir], st_device_id = ''d'', st_session_id = ''s'', st_revision = ''r''\<rparr>"

definition sample_staged :: "(nat \<Rightarrow> (nat \<times> nat) option) \<Rightarrow> Disk" where
  "sample_staged faults = \<lparr>dk_nodes =
     [([RootDir], NDir 0),
      ([RootDir, Normal ''d''], NDir 0),
      ([RootDir, Normal ''d'', Normal ''s''], NDir 0),
      ([RootDir, Normal ''d'', Normal ''s'', Normal ''old''], NFile [1]),
      ([RootDir, Normal STAGING_DIR_NAME], NDir 0),
      ([RootDir, Normal STAGING_DIR_NAME, Normal ''r''], NDir 0),
      ([RootDir, Normal STAGING_DIR_NAME, Normal ''r'', Normal ''d''], NDir 0),
      ([RootDir, Normal STAGING_DIR_NAME, Normal ''r'', Normal ''d'', Normal ''s''], NDir 0),
      ([RootDir, Normal STAGING_DIR_NAME, Normal ''r'', Normal ''d'', Normal ''s'', Normal ''new''], NFile [2]),
      ([RootDir, Normal STAGING_DIR_NAME, Normal ''r'', Normal ''d'', Normal ''s'', Normal REVISION_MARKER_NAME], NFile [114])],
     dk_clock = 0, dk_faults = faults\<rparr>"

lemma sample_staging_ok: "staging_ok sample_staging"
  by code_simp

text \<open>Shape of a disk, computed.\<close>

definition tree_wf_exec :: "Disk \<Rightarrow> bool" where
  "tree_wf_exec d \<longleftrightarrow> list_all (\<lambda>e. length (fst e) \<le> 1 \<or>
     (case lookup d (butlast (fst e)) of Some (NDir _) \<Rightarrow> True | _ \<Rightarrow> False)) (dk_nodes d)"

lemma tree_wf_exec: "tree_wf_exec d \<Longrightarrow> tree_wf d"
  unfolding tree_wf_def
proof (intro allI impI)
  fix p c
  assume x: "tree_wf_exec d" and p: "p \<noteq> []" "lookup d (p @ [c]) \<noteq> None"
  then obtain n where "(p @ [c], n) \<in> set (dk_nodes d)" by (auto dest: map_of_SomeD)
  with x have "length (p @ [c]) \<le> 1 \<or>
      (case lookup d (butlast (p @ [c])) of Some (NDir _) \<Rightarrow> True | _ \<Rightarrow> False)"
    unfolding tree_wf_exec_def list_all_iff by fastforce
  with p(1) show "\<exists>l. lookup d p = Some (NDir l)" by (auto split: option.splits node.splits)
qed

lemma sample_staged_wf: "tree_wf (sample_staged f)"
  by (rule tree_wf_exec) (simp add: tree_wf_exec_def sample_staged_def)

lemma clear_way_exec:
  "list_all (\<lambda>k. case lookup d (take k p) of None \<Rightarrow> True | Some (NDir _) \<Rightarrow> True | _ \<Rightarrow> False) [1..<length p] \<Longrightarrow>
   clear_way d p"
  unfolding clear_way_def
proof (intro allI impI)
  fix k
  assume "list_all (\<lambda>k. case lookup d (take k p) of None \<Rightarrow> True | Some (NDir _) \<Rightarrow> True | _ \<Rightarrow> False) [1..<length p]"
    and "0 < k" "k < length p"
  then have "case lookup d (take k p) of None \<Rightarrow> True | Some (NDir _) \<Rightarrow> True | _ \<Rightarrow> False"
    by (simp add: list_all_iff)
  then show "lookup d (take k p) = None \<or> is_dir_at d (take k p)"
    by (auto simp: is_dir_at_def split: option.splits node.splits)
qed

lemma sample_ready: "ready_to_publish ref_codec sample_staging (sample_staged f)"
proof -
  have "clear_way (sample_staged f) (published_dir sample_staging)"
    "clear_way (sample_staged f) (superseded_dir sample_staging)"
    by (rule clear_way_exec, code_simp)+
  moreover have "lookup (sample_staged f) (superseded_dir sample_staging) = None"
    "lookup (sample_staged f) (revision_dir sample_staging) = Some (NDir 0)" by code_simp+
  moreover have "subtree (sample_staged f) (published_dir sample_staging) [Normal REVISION_MARKER_NAME] = None"
    "subtree (sample_staged f) (superseded_dir sample_staging) [Normal REVISION_MARKER_NAME] = None"
    "subtree (sample_staged f) (revision_dir sample_staging) [Normal REVISION_MARKER_NAME] = Some (NFile [114])"
    by code_simp+
  moreover have "map_option rm_revision (mc_revision_from_json ref_codec [114]) = Some ''r''" "utf8_valid [114]"
    "st_revision sample_staging = ''r''" by code_simp+
  ultimately show ?thesis
    using sample_staged_wf [of f]
    by (auto simp: ready_to_publish_def is_dir_at_def plain_seal_def carries_def tree_seal_def)
qed

text \<open>From some operation on, everything fails: the process stops.\<close>

definition stops_at :: "nat \<Rightarrow> nat \<Rightarrow> (nat \<times> nat) option" where
  "stops_at n k = (if n \<le> k then Some (5, 0) else None)"

lemma pb_bind_steps:
  "fst (m d) = Inl e \<Longrightarrow> fst (pb_bind m f d) = Inl e"
  "fst (m d) = Inr x \<Longrightarrow> pb_bind m f d = f x (snd (m d))"
  by (cases "m d"; cases "fst (m d)"; simp add: pb_bind_def)+

lemma sample_stopped:
  "fst (publish_sealed ref_codec sample_staging (sample_staged (stops_at 8))) =
     Inl (PubDownload (Io [RootDir, Normal ''d''] (IoError OtherKind (Some 5))))"
proof -
  let ?d = "sample_staged (stops_at 8)" and ?st = sample_staging
  let ?P = "butlast (published_dir ?st)"
  let ?d1 = "snd (is_published ref_codec ?st ?d)"
  let ?d2 = "snd (path_is_dir (revision_dir ?st) ?d1)"
  let ?d3 = "snd (marker_matches ref_codec ?st (revision_dir ?st) ?d2)"
  let ?mk = "pb_dl (dl_io ?P (create_dir_all ?P))"
  have "fst (is_published ref_codec ?st ?d) = False" "fst (path_is_dir (revision_dir ?st) ?d1) = True"
    "fst (marker_matches ref_codec ?st (revision_dir ?st) ?d2) = True" "fst (?mk ?d3) = Inr ()"
    "fst (pb_dl (set_aside ?st ?P) (snd (?mk ?d3))) = Inl (PubDownload (Io [RootDir, Normal ''d''] (IoError OtherKind (Some 5))))"
    by code_simp+
  then show ?thesis
    by (simp add: publish_sealed_steps [OF sample_staging_ok] Let_def pb_bind_steps)
qed

theorem publish_all_or_nothing_witness:
  "fst (publish_sealed ref_codec sample_staging (sample_staged (\<lambda>_. None))) = Inr (Published ''r'') \<and>
   subtree (snd (publish_sealed ref_codec sample_staging (sample_staged (\<lambda>_. None)))) (published_dir sample_staging) =
     subtree (sample_staged (\<lambda>_. None)) (revision_dir sample_staging)"
proof -
  let ?r = "publish_sealed ref_codec sample_staging (sample_staged (\<lambda>_. None))"
  have "no_faults (sample_staged (\<lambda>_. None))" by (simp add: no_faults_def sample_staged_def)
  from publish_ready [OF sample_staging_ok this sample_ready]
  have f: "fst ?r = Inr (Published ''r'')" by (simp add: sample_staging_def)
  then have "?r = (Inr (Published ''r''), snd ?r)" by (simp add: prod_eq_iff)
  from publish_all_or_nothing [OF sample_staging_ok sample_staged_wf this] f show ?thesis by simp
qed

theorem publish_converges_witness:
  "\<exists>d1 outcome d2. failed_attempts ref_codec sample_staging (sample_staged (\<lambda>_. None)) d1 \<and>
     d1 \<noteq> sample_staged (\<lambda>_. None) \<and>
     publish_sealed ref_codec sample_staging (working d1) = (Inr outcome, d2) \<and>
     subtree d2 (published_dir sample_staging) = subtree (sample_staged (\<lambda>_. None)) (revision_dir sample_staging)"
proof -
  let ?d = "sample_staged (\<lambda>_. None)"
  have script: "?d\<lparr>dk_faults := stops_at 8\<rparr> = sample_staged (stops_at 8)" by (simp add: sample_staged_def)
  obtain e d1 where run: "publish_sealed ref_codec sample_staging (?d\<lparr>dk_faults := stops_at 8\<rparr>) = (Inl e, d1)"
    using sample_stopped unfolding script by (metis prod.collapse)
  have "failed_attempts ref_codec sample_staging ?d d1"
    by (rule failed_attempts.again [OF failed_attempts.none run])
  moreover have "dk_faults d1 = stops_at 8"
    using touches_faults [OF touches_mono [OF touches_publish_sealed [OF sample_staging_ok]] run] by simp
  then have "dk_faults d1 8 \<noteq> dk_faults ?d 8" by (simp add: sample_staged_def stops_at_def)
  then have "d1 \<noteq> ?d" by blast
  ultimately show ?thesis
    using publish_converges [OF sample_staging_ok sample_ready] by blast
qed

section \<open>A revision sealed and published\<close>

definition sample_manifest :: SessionManifest where
  "sample_manifest = \<lparr>mf_device_id = ''d'', mf_session_id = ''s'', mf_files =
     [\<lparr>ea_file_id = ''new'', ea_target_relative_path = None, ea_expected_size = 1,
       ea_expected_sha256_hex = Some ''02''\<rparr>]\<rparr>"

text \<open>The nodes the seal leaves: the marker was rewritten with the same content.\<close>

lemma pb_fsync_tree_nodes: "dk_nodes (snd (pb_dl (fsync_tree p) d)) = dk_nodes d"
proof -
  obtain r d' where run: "fsync_tree p d = (r, d')" by (cases "fsync_tree p d")
  then show ?thesis using fsync_tree_nodes [OF run] by (cases r) (simp_all add: pb_dl_def)
qed

lemma upd_same: "f m = Some x \<Longrightarrow> f t = None \<Longrightarrow> f(m \<mapsto> x, t := None) = f"
  by auto

lemma sample_seal:
  "fst (seal (ref_host id) ref_codec sample_staging sample_manifest (sample_staged (\<lambda>_. None))) = Inr ()"
  "lookup (snd (seal (ref_host id) ref_codec sample_staging sample_manifest (sample_staged (\<lambda>_. None)))) =
     lookup (sample_staged (\<lambda>_. None))"
  "no_faults (snd (seal (ref_host id) ref_codec sample_staging sample_manifest (sample_staged (\<lambda>_. None))))"
proof -
  let ?d = "sample_staged (\<lambda>_. None)" and ?st = sample_staging
  let ?d1 = "snd (is_published ref_codec ?st ?d)"
  let ?d2 = "snd (path_is_dir (revision_dir ?st) ?d1)"
  let ?d3 = "snd (cleanup_marker_temp_files ?st ?d2)"
  let ?d4 = "snd (verify_manifest (ref_host id) ?st sample_manifest ?d3)"
  let ?mk = "pb_dl (rewrite_internal_marker (join_path (revision_dir ?st) REVISION_MARKER_NAME)
               (mc_revision_to_json ref_codec (revision_marker ?st sample_manifest)))"
  let ?sy = "pb_dl (fsync_tree (revision_dir ?st))"
  let ?m = "[RootDir, Normal STAGING_DIR_NAME, Normal ''r'', Normal ''d'', Normal ''s'', Normal REVISION_MARKER_NAME]"
  have "fst (is_published ref_codec ?st ?d) = False" "fst (path_is_dir (revision_dir ?st) ?d1) = True" by code_simp+
  moreover have "fst (cleanup_marker_temp_files ?st ?d2) = Inr ()" by code_simp
  moreover have "fst (verify_manifest (ref_host id) ?st sample_manifest ?d3) = Inr ()" by code_simp
  moreover have mk_ok: "fst (?mk ?d4) = Inr ()" by code_simp
  moreover have "fst (?sy (snd (?mk ?d4))) = Inr ()" by code_simp
  ultimately have res: "fst (seal (ref_host id) ref_codec ?st sample_manifest ?d) = Inr ()"
    and all: "snd (seal (ref_host id) ref_codec ?st sample_manifest ?d) = snd (?sy (snd (?mk ?d4)))"
    by (simp_all add: seal_def pb_bind_steps)
  show "fst (seal (ref_host id) ref_codec ?st sample_manifest ?d) = Inr ()" by (rule res)
  let ?R = "revision_dir ?st"
  let ?t1 = "?R @ [Normal (REVISION_MARKER_NAME @ ''.tmp'')]" and ?t2 = "?R @ [Normal (SELECTED_MARKER_NAME @ ''.tmp'')]"
  have n2: "dk_nodes ?d2 = dk_nodes ?d" by (simp add: is_published_def)
  have l3: "lookup ?d3 = lookup ?d"
  proof
    fix q
    have "lookup ?d3 ?t1 = None" "lookup ?d ?t1 = None" "lookup ?d3 ?t2 = None" "lookup ?d ?t2 = None" by code_simp+
    moreover have "q \<notin> {?t1, ?t2} \<Longrightarrow> lookup ?d3 q = lookup ?d2 q"
      using snd_bare [OF touches_cleanup_marker [OF sample_staging_ok]] .
    ultimately show "lookup ?d3 q = lookup ?d q" using n2 by (cases "q \<in> {?t1, ?t2}") auto
  qed
  have R: "lookup ?d ?R = Some (NDir 0)" "?R @ [Normal REVISION_MARKER_NAME] = ?m" by code_simp+
  have wf3: "tree_wf ?d3" using sample_staged_wf tree_wf_lookup [OF l3] by blast
  obtain r4 where "verify_manifest (ref_host id) ?st sample_manifest ?d3 = (r4, ?d4)"
    by (cases "verify_manifest (ref_host id) ?st sample_manifest ?d3") simp
  then have n4: "dk_nodes ?d4 = dk_nodes ?d3"
    using verify_manifest_sound(1) [OF sample_staging_ok wf3] l3 R(1) by simp
  obtain u where mk: "rewrite_internal_marker (?R @ [Normal REVISION_MARKER_NAME])
      (mc_revision_to_json ref_codec (revision_marker ?st sample_manifest)) ?d4 = (Inr u, snd (?mk ?d4))"
    using mk_ok marker_paths(1) [OF sample_staging_ok]
    by (auto simp: pb_dl_def split: prod.splits sum.splits)
  have json: "mc_revision_to_json ref_codec (revision_marker ?st sample_manifest) = [114]" by code_simp
  have no_tmp: "lookup ?d ?t1 = None" "lookup ?d ?m = Some (NFile [114])" by code_simp+
  let ?json = "mc_revision_to_json ref_codec (revision_marker ?st sample_manifest)"
  have wf4: "tree_wf ?d4" using wf3 tree_wf_nodes [OF n4] by blast
  have R4: "lookup ?d4 ?R = Some (NDir 0)" "no_symlink ?d4 ?t1"
    using n4 l3 R(1) no_tmp(1) by (simp_all add: no_symlink_def)
  have ne: "?R \<noteq> []" using place_ne [OF sample_staging_ok] by blast
  have l5: "lookup (snd (?mk ?d4)) = (lookup ?d4)(?R @ [Normal REVISION_MARKER_NAME] \<mapsto> NFile ?json, ?t1 := None)"
    by (rule rewrite_marker_exact(1) [OF wf4 R4(1) ne R4(2) mk])
  have same: "(lookup ?d4)(?R @ [Normal REVISION_MARKER_NAME] \<mapsto> NFile ?json, ?t1 := None) = lookup ?d"
  proof -
    have l4: "lookup ?d4 = lookup ?d" by (simp only: n4 l3)
    have "lookup ?d (?R @ [Normal REVISION_MARKER_NAME]) = Some (NFile ?json)"
      unfolding json R(2) by (rule no_tmp(2))
    from upd_same [where f = "lookup ?d", OF this no_tmp(1)] show ?thesis unfolding l4 .
  qed
  have "dk_nodes (snd (?sy (snd (?mk ?d4)))) = dk_nodes (snd (?mk ?d4))"
    by (rule pb_fsync_tree_nodes)
  then show "lookup (snd (seal (ref_host id) ref_codec ?st sample_manifest ?d)) = lookup ?d"
    unfolding all by (simp only: l5 same)
  have "dk_faults (snd (?sy (snd (?mk ?d4)))) k = None" for k by code_simp
  then show "no_faults (snd (seal (ref_host id) ref_codec ?st sample_manifest ?d))" by (simp add: all no_faults_def)
qed

lemma ready_lookup:
  "lookup d' = lookup d \<Longrightarrow> ready_to_publish mc st d' = ready_to_publish mc st d"
  by (simp add: ready_to_publish_def tree_wf_def is_dir_at_def subtree_def clear_way_def)


section \<open>A failing sync leaves no visible session\<close>

lemma pb_bind_fails: "fst (m d) = Inl e \<Longrightarrow> pb_bind m f d = (Inl e, snd (m d))"
  by (cases "m d") (auto simp: pb_bind_def)


end
