(* ===== verification/Selected_Publication.thy ===== *)
theory Selected_Publication
  imports Staging_Frame
begin

text \<open>
  Publication of selected files (\<open>library/staging.rs\<close>): each file of the manifest is
  copied into the visible session beside its target, checked and renamed into place,
  with its old version kept in the trash until then; the selected marker comes last.
  And the commit boundary (\<open>library/download.rs\<close>) that verifies the signed
  publication and then publishes one way or the other.
\<close>

section \<open>The selected manifest\<close>

definition shown_target :: "path \<Rightarrow> path \<Rightarrow> string" where
  "shown_target root target =
    display_path (case path_strip_prefix root target of None \<Rightarrow> target | Some r \<Rightarrow> r)"

definition visible_inspector :: "SessionStaging \<Rightarrow> ArtifactInspector" where
  "visible_inspector st =
    \<lparr>ai_library_root = st_library_root st, ai_device_id = st_device_id st, ai_session_id = st_session_id st\<rparr>"

definition visible_manifest_is_complete :: "Host \<Rightarrow> SessionStaging \<Rightarrow> SessionManifest \<Rightarrow> Disk \<Rightarrow> bool \<times> Disk" where
  "visible_manifest_is_complete h st m d =
    (case plan_recovery h (visible_inspector st) (mf_files m) d of
       (plan, d') \<Rightarrow> (list_all is_verified (rp_evidence plan), d'))"

text \<open>The loop keeps the exact targets and the lower-cased ones it has seen.\<close>

fun selected_targets ::
    "Host \<Rightarrow> SessionStaging \<Rightarrow> path set \<Rightarrow> string set \<Rightarrow> ExpectedArtifact list \<Rightarrow>
     PathSafetyError + manifest_problem list" where
  "selected_targets h st exact folded [] = Inr []"
| "selected_targets h st exact folded (f # fs) =
     result_bind (inspector_target (visible_inspector st) f) (\<lambda>target.
       let portable = host_lower h (shown_target (st_library_root st) target) in
       result_bind (selected_targets h st (insert target exact) (insert portable folded) fs) (\<lambda>rest.
         Inr ((if target \<in> exact then [DuplicateTarget target] else []) @
              (if portable \<in> folded then [CaseDuplicateTarget target] else []) @ rest)))"

definition validate_selected_manifest :: "Host \<Rightarrow> SessionStaging \<Rightarrow> SessionManifest \<Rightarrow> unit pb" where
  "validate_selected_manifest h st m =
    (if mf_device_id m \<noteq> st_device_id st \<or> mf_session_id m \<noteq> st_session_id st
     then pb_fail (PubDownload (InvalidPlan ''selected manifest identity does not match its staging area''))
     else (case selected_targets h st {} {} (mf_files m) of
         Inl e \<Rightarrow> pb_fail (PubDownload (PathSafety e))
       | Inr problems \<Rightarrow>
           if problems = [] then pb_return ()
           else pb_fail (ManifestMismatch (st_revision st) problems)))"

definition selected_marker_matches_manifest_at ::
    "MarkerCodec \<Rightarrow> Host \<Rightarrow> SessionStaging \<Rightarrow> path \<Rightarrow> SessionManifest \<Rightarrow> Disk \<Rightarrow> bool \<times> Disk" where
  "selected_marker_matches_manifest_at mc h st dir m d =
    (case read_selected_marker mc dir d of
       (mk, d') \<Rightarrow>
         (case mk of
            None \<Rightarrow> False
          | Some x \<Rightarrow>
              sm_revision x = st_revision st \<and> sm_file_count x = of_nat (length (mf_files m)) \<and>
              sm_total_bytes x = manifest_total_bytes m \<and> sm_manifest_digest x = manifest_digest h m, d'))"

definition selected_marker_matches_manifest ::
    "MarkerCodec \<Rightarrow> Host \<Rightarrow> SessionStaging \<Rightarrow> SessionManifest \<Rightarrow> Disk \<Rightarrow> bool \<times> Disk" where
  "selected_marker_matches_manifest mc h st m =
    selected_marker_matches_manifest_at mc h st (published_dir st) m"

definition selected_marker :: "Host \<Rightarrow> SessionStaging \<Rightarrow> SessionManifest \<Rightarrow> SelectedMarker" where
  "selected_marker h st m =
    \<lparr>sm_scope = ''selected_files'', sm_revision = st_revision st,
     sm_file_count = of_nat (length (mf_files m)), sm_total_bytes = manifest_total_bytes m,
     sm_manifest_digest = manifest_digest h m\<rparr>"

text \<open>A matching marker and a complete projection: the second is asked only after the first.\<close>

definition already_selected ::
    "MarkerCodec \<Rightarrow> Host \<Rightarrow> SessionStaging \<Rightarrow> SessionManifest \<Rightarrow> bool pb" where
  "already_selected mc h st m =
    pb_bind (pb_ask (selected_marker_matches_manifest mc h st m)) (\<lambda>marked.
      if marked then pb_ask (visible_manifest_is_complete h st m) else pb_return False)"

definition seal_selected :: "Host \<Rightarrow> MarkerCodec \<Rightarrow> SessionStaging \<Rightarrow> SessionManifest \<Rightarrow> unit pb" where
  "seal_selected h mc st m =
    pb_bind (validate_selected_manifest h st m) (\<lambda>_.
    pb_bind (already_selected mc h st m) (\<lambda>already.
    if already then pb_return ()
    else pb_bind (pb_ask (path_is_dir (revision_dir st))) (\<lambda>dir.
    if \<not> dir then pb_fail (NothingStaged (st_revision st) (revision_dir st))
    else pb_bind (cleanup_marker_temp_files st) (\<lambda>_.
    pb_bind (verify_manifest h st m) (\<lambda>_.
    pb_bind (pb_dl (rewrite_internal_marker (join_path (revision_dir st) SELECTED_MARKER_NAME)
               (mc_selected_to_json mc (selected_marker h st m)))) (\<lambda>_.
    pb_dl (fsync_tree (revision_dir st))))))))"

section \<open>Copying one file\<close>

text \<open>\<open>file_name\<close> is the last component when it is a name.\<close>

definition file_name :: "path \<Rightarrow> string option" where
  "file_name p = (if p = [] then None else case last p of Normal s \<Rightarrow> Some s | _ \<Rightarrow> None)"

definition selected_temp_path :: "path \<Rightarrow> string \<Rightarrow> nat \<Rightarrow> path" where
  "selected_temp_path target revision i =
    (let filename = (case file_name target of None \<Rightarrow> ''target'' | Some s \<Rightarrow> s);
         base = (case file_name target of None \<Rightarrow> target | Some _ \<Rightarrow> butlast target) in
     base @ [Normal (''.'' @ filename @ ''.ylx-selected-'' @ revision @ ''-'' @ decimal i @ ''.tmp'')])"

text \<open>Opening for reading; the handle keeps naming the resolved path.\<close>

definition open_read :: "path \<Rightarrow> path io" where
  "open_read p = guarded (\<lambda>d.
    (case resolve_link (dk_nodes d) p of
       None \<Rightarrow> Inl ELOOP
     | Some q \<Rightarrow> (case lookup d q of None \<Rightarrow> Inl ENOENT | Some _ \<Rightarrow> Inr q), d))"

text \<open>\<open>io::copy\<close>: a fault of either side leaves a prefix of the bytes.\<close>

definition copy_bytes :: "path \<Rightarrow> path \<Rightarrow> unit io" where
  "copy_bytes input output d = write_all_at output 0 (file_bytes d input) d"

definition copy_file_durably :: "path \<Rightarrow> path \<Rightarrow> unit dl" where
  "copy_file_durably source temp =
    dl_bind (reject_symlink source) (\<lambda>_.
    dl_bind (dl_io source (metadata source)) (\<lambda>meta.
      case meta of
        NFile _ \<Rightarrow>
          (case path_parent temp of
             None \<Rightarrow> dl_fail (Serialization ''selected temporary path has no parent directory'')
           | Some parent \<Rightarrow>
               dl_bind (dl_io parent (create_dir_all parent)) (\<lambda>_.
               dl_bind (reject_symlink temp) (\<lambda>_.
               dl_bind (dl_io source (open_read source)) (\<lambda>input.
               dl_bind (dl_io temp (open_new temp)) (\<lambda>output.
               dl_bind (dl_io temp (copy_bytes input output)) (\<lambda>_.
                 dl_io temp (sync_all output)))))))
      | _ \<Rightarrow> dl_fail (InvalidPlan (display_path source @ '': staged source is not a regular file''))))"

definition is_regular :: "node \<Rightarrow> bool" where
  "is_regular n = (case n of NFile _ \<Rightarrow> True | _ \<Rightarrow> False)"

definition verify_selected_temp :: "Host \<Rightarrow> path \<Rightarrow> ExpectedArtifact \<Rightarrow> RevisionId \<Rightarrow> unit pb" where
  "verify_selected_temp h temp expected revision =
    pb_bind (pb_dl (dl_io temp (metadata temp))) (\<lambda>meta.
      if \<not> (is_regular meta \<and> node_len meta = ea_expected_size expected) then
        pb_fail (ManifestMismatch revision [CopyHasWrongSize (ea_file_id expected)])
      else (case ea_expected_sha256_hex expected of
          None \<Rightarrow> pb_return ()
        | Some expected_hash \<Rightarrow>
            pb_bind (pb_dl (sha256_of_file h temp)) (\<lambda>actual.
              if eq_ignore_ascii_case actual expected_hash then pb_return ()
              else pb_fail (ManifestMismatch revision
                     [CopyHasWrongHash (ea_file_id expected) actual expected_hash]))))"

text \<open>Whether something is at a path; an error other than its absence is passed on.\<close>

definition something_at :: "path \<Rightarrow> bool dl" where
  "something_at p =
    dl_bind (dl_try (symlink_metadata p)) (\<lambda>r.
      case r of
        Inr _ \<Rightarrow> dl_return True
      | Inl e \<Rightarrow> if io_kind e = NotFound then dl_return False else dl_fail (Io p e))"

definition is_there :: "path \<Rightarrow> bool dl" where
  "is_there p = dl_bind (dl_try (symlink_metadata p)) (\<lambda>r. dl_return (\<not> isl r))"

definition for_parent :: "path \<Rightarrow> (path \<Rightarrow> unit dl) \<Rightarrow> unit dl" where
  "for_parent p f = (case path_parent p of None \<Rightarrow> dl_return () | Some parent \<Rightarrow> f parent)"

definition make_parent :: "path \<Rightarrow> unit dl" where
  "make_parent p = for_parent p (\<lambda>parent. dl_io parent (create_dir_all parent))"

definition sync_parent :: "path \<Rightarrow> unit dl" where
  "sync_parent p = for_parent p fsync_dir"

text \<open>The target must be absent or a regular file.\<close>

definition check_selected_target :: "path \<Rightarrow> unit dl" where
  "check_selected_target target =
    dl_bind (dl_try (symlink_metadata target)) (\<lambda>r.
      case r of
        Inr (NSymlink _) \<Rightarrow> reject_symlink target
      | Inr (NDir _) \<Rightarrow> dl_fail (InvalidPlan (''selected target is not a regular file: '' @ display_path target))
      | Inr (NFile _) \<Rightarrow> dl_return ()
      | Inl e \<Rightarrow> if io_kind e = NotFound then dl_return () else dl_fail (Io target e))"

text \<open>An old target an earlier attempt had moved away is brought back.\<close>

definition restore_from_trash :: "path \<Rightarrow> path \<Rightarrow> path \<Rightarrow> unit dl" where
  "restore_from_trash trash target parent =
    dl_bind (something_at target) (\<lambda>there.
    if there then dl_return ()
    else dl_bind (is_there trash) (\<lambda>kept.
    if \<not> kept then dl_return ()
    else
      dl_bind (make_parent trash) (\<lambda>_.
      dl_bind (dl_io target (rename trash target)) (\<lambda>_.
      dl_bind (fsync_dir parent) (\<lambda>_. sync_parent trash)))))"

definition move_to_trash :: "path \<Rightarrow> path \<Rightarrow> path \<Rightarrow> unit dl" where
  "move_to_trash target trash parent =
    dl_bind (reject_symlink target) (\<lambda>_.
    dl_bind (remove_any trash) (\<lambda>_.
    dl_bind (make_parent trash) (\<lambda>_.
    dl_bind (dl_io target (rename target trash)) (\<lambda>_.
    dl_bind (fsync_dir parent) (\<lambda>_. sync_parent trash)))))"

text \<open>The rename into place; on a failure the old target comes back and the copy goes.\<close>

definition install_selected :: "bool \<Rightarrow> path \<Rightarrow> path \<Rightarrow> path \<Rightarrow> path \<Rightarrow> unit dl" where
  "install_selected had_target temp target trash parent =
    dl_bind (dl_try (rename temp target)) (\<lambda>r.
      case r of
        Inr _ \<Rightarrow> dl_return ()
      | Inl e \<Rightarrow>
          dl_bind (if had_target then is_there trash else dl_return False) (\<lambda>back.
          dl_bind (if back then
              dl_bind (dl_try (rename trash target)) (\<lambda>b.
                case b of
                  Inl rollback \<Rightarrow> dl_fail (Io target (IoError (io_kind rollback) None))
                | Inr _ \<Rightarrow> dl_bind (dl_ignore (fsync_dir parent)) (\<lambda>_. dl_ignore (sync_parent trash)))
            else dl_return ()) (\<lambda>_.
          dl_bind (dl_ignore (dl_io temp (remove_file temp))) (\<lambda>_.
            dl_fail (Io target e)))))"

definition cleanup_selected_file_artifacts :: "SessionStaging \<Rightarrow> nat \<Rightarrow> path \<Rightarrow> unit dl" where
  "cleanup_selected_file_artifacts st i target =
    dl_bind (dl_ignore (dl_io target (remove_file (selected_temp_path target (st_revision st) i)))) (\<lambda>_.
      dl_ignore (remove_any (selected_trash_path st i)))"

text \<open>The part of \<open>publish_selected_file\<close> that replaces the target.\<close>

definition replace_selected ::
    "Host \<Rightarrow> SessionStaging \<Rightarrow> nat \<Rightarrow> ExpectedArtifact \<Rightarrow> path \<Rightarrow> path \<Rightarrow> path \<Rightarrow> unit pb" where
  "replace_selected h st i expected source target parent =
    (let trash = selected_trash_path st i; temp = selected_temp_path target (st_revision st) i in
     pb_bind (pb_dl (check_selected_target target)) (\<lambda>_.
     pb_bind (pb_dl (remove_any temp)) (\<lambda>_.
     pb_bind (pb_dl (restore_from_trash trash target parent)) (\<lambda>_.
     pb_bind (pb_dl (copy_file_durably source temp)) (\<lambda>_.
     pb_bind (verify_selected_temp h temp expected (st_revision st)) (\<lambda>_.
     pb_bind (pb_dl (something_at target)) (\<lambda>had_target.
     pb_bind (if had_target then pb_dl (move_to_trash target trash parent) else pb_return ()) (\<lambda>_.
     pb_bind (pb_dl (install_selected had_target temp target trash parent)) (\<lambda>_.
     pb_bind (pb_dl (fsync_dir parent)) (\<lambda>_.
       pb_dl (remove_any trash)))))))))))"

definition publish_selected_file ::
    "Host \<Rightarrow> SessionStaging \<Rightarrow> nat \<Rightarrow> ExpectedArtifact \<Rightarrow> unit pb" where
  "publish_selected_file h st i expected =
    (case inspector_target (staging_inspector st) expected of
       Inl e \<Rightarrow> pb_fail (PubDownload (PathSafety e))
     | Inr source \<Rightarrow>
         (case inspector_target (visible_inspector st) expected of
            Inl e \<Rightarrow> pb_fail (PubDownload (PathSafety e))
          | Inr target \<Rightarrow>
              (case path_parent target of
                 None \<Rightarrow> pb_fail (PubDownload (PathSafety EscapesRoot))
               | Some parent \<Rightarrow>
                   pb_bind (pb_dl (prepare_target_parent (host_lower h) (st_library_root st) target)) (\<lambda>_.
                   pb_bind (pb_dl (reject_symlink source)) (\<lambda>_.
                   pb_bind (pb_ask (inspect h (visible_inspector st) expected)) (\<lambda>evidence.
                     if is_verified evidence
                     then pb_dl (cleanup_selected_file_artifacts st i target)
                     else replace_selected h st i expected source target parent))))))"

fun publish_selected_files ::
    "Host \<Rightarrow> SessionStaging \<Rightarrow> nat \<Rightarrow> ExpectedArtifact list \<Rightarrow> unit pb" where
  "publish_selected_files h st i [] = pb_return ()"
| "publish_selected_files h st i (f # fs) =
     pb_bind (publish_selected_file h st i f) (\<lambda>_. publish_selected_files h st (Suc i) fs)"

section \<open>The selected marker\<close>

definition install_marker :: "bool \<Rightarrow> path \<Rightarrow> path \<Rightarrow> path \<Rightarrow> path \<Rightarrow> unit dl" where
  "install_marker had_old temp p backup parent =
    dl_bind (dl_try (rename temp p)) (\<lambda>r.
      case r of
        Inr _ \<Rightarrow> dl_return ()
      | Inl e \<Rightarrow>
          dl_bind (if had_old then is_there backup else dl_return False) (\<lambda>back.
          dl_bind (if back then
              dl_bind (dl_try (rename backup p)) (\<lambda>b.
                case b of
                  Inl rollback \<Rightarrow> dl_fail (Io p (IoError (io_kind rollback) None))
                | Inr _ \<Rightarrow> dl_ignore (fsync_dir parent))
            else dl_return ()) (\<lambda>_.
          dl_bind (dl_ignore (dl_io temp (remove_file temp))) (\<lambda>_.
            dl_fail (Io p e)))))"

text \<open>Whether there is an old marker; anything but a regular file is refused.\<close>

definition old_marker :: "path \<Rightarrow> bool dl" where
  "old_marker p =
    dl_bind (dl_try (symlink_metadata p)) (\<lambda>r.
      case r of
        Inr (NFile _) \<Rightarrow> dl_return True
      | Inr _ \<Rightarrow> dl_fail (InvalidPlan (''selected marker path is not a regular file: '' @ display_path p))
      | Inl e \<Rightarrow> if io_kind e = NotFound then dl_return False else dl_fail (Io p e))"

definition back_up_marker :: "path \<Rightarrow> path \<Rightarrow> path \<Rightarrow> unit dl" where
  "back_up_marker p backup parent =
    dl_bind (remove_any backup) (\<lambda>_.
      case path_parent backup of
        None \<Rightarrow> dl_fail (Serialization ''marker backup path has no parent directory'')
      | Some backup_parent \<Rightarrow>
          dl_bind (dl_io backup_parent (create_dir_all backup_parent)) (\<lambda>_.
          dl_bind (dl_io p (rename p backup)) (\<lambda>_.
          dl_bind (fsync_dir parent) (\<lambda>_. fsync_dir backup_parent))))"

definition replace_file_durably :: "bytes \<Rightarrow> path \<Rightarrow> path \<Rightarrow> unit dl" where
  "replace_file_durably b p backup =
    (case path_parent p of
       None \<Rightarrow> dl_fail (Serialization ''durable replacement path has no parent directory'')
     | Some parent \<Rightarrow>
         (let temp = durable_temp_path p in
          dl_bind (dl_io parent (create_dir_all parent)) (\<lambda>_.
          dl_bind (reject_symlink p) (\<lambda>_.
          dl_bind (remove_any temp) (\<lambda>_.
          dl_bind (dl_io temp (open_new temp)) (\<lambda>output.
          dl_bind (dl_io temp (write_all_at output 0 b)) (\<lambda>_.
          dl_bind (dl_io temp (sync_all output)) (\<lambda>_.
          dl_bind (old_marker p) (\<lambda>had_old.
          dl_bind (if had_old then back_up_marker p backup parent else dl_return ()) (\<lambda>_.
          dl_bind (install_marker had_old temp p backup parent) (\<lambda>_.
          dl_bind (fsync_dir parent) (\<lambda>_.
            if had_old then dl_ignore (remove_any backup) else dl_return ()))))))))))))"

definition replace_selected_marker :: "Host \<Rightarrow> SessionStaging \<Rightarrow> bytes \<Rightarrow> unit dl" where
  "replace_selected_marker h st b =
    (let marker_path = join_path (published_dir st) SELECTED_MARKER_NAME in
     dl_bind (prepare_target_parent (host_lower h) (st_library_root st) marker_path) (\<lambda>_.
     dl_bind (reject_symlink (published_dir st)) (\<lambda>_.
       replace_file_durably b marker_path (selected_marker_trash_path st))))"

definition cleanup_selected_staging :: "SessionStaging \<Rightarrow> Disk \<Rightarrow> Disk" where
  "cleanup_selected_staging st = in_turn
    [drop_tree (revision_dir st),
     prune_empty_parents (revision_dir st) (staging_root st),
     drop_tree (selected_trash_dir st),
     prune_empty_parents (selected_trash_dir st) (join_path (staging_root st) SELECTED_TRASH_DIR_NAME),
     drop_dir (join_path (staging_root st) SELECTED_TRASH_DIR_NAME),
     drop_dir (staging_root st)]"

definition publish_selected_sealed ::
    "Host \<Rightarrow> MarkerCodec \<Rightarrow> SessionStaging \<Rightarrow> SessionManifest \<Rightarrow> PublishOutcome pb" where
  "publish_selected_sealed h mc st m =
    pb_bind (already_selected mc h st m) (\<lambda>already.
    if already then
      pb_bind (pb_dl (dl_cleanup (cleanup_selected_staging st))) (\<lambda>_.
        pb_return (AlreadyPublished (st_revision st)))
    else pb_bind (pb_ask (path_is_dir (revision_dir st))) (\<lambda>dir.
    if \<not> dir then pb_fail (NothingStaged (st_revision st) (revision_dir st))
    else pb_bind (pb_ask (selected_marker_matches_manifest_at mc h st (revision_dir st) m)) (\<lambda>sealed.
    if \<not> sealed then pb_fail (NotSealed (st_revision st))
    else pb_bind (verify_manifest h st m) (\<lambda>_.
    pb_bind (publish_selected_files h st 0 (mf_files m)) (\<lambda>_.
    pb_bind (pb_dl (replace_selected_marker h st (mc_selected_to_json mc (selected_marker h st m)))) (\<lambda>_.
    pb_bind (pb_dl (sync_parent (published_dir st))) (\<lambda>_.
    pb_bind (pb_dl (dl_cleanup (cleanup_selected_staging st))) (\<lambda>_.
      pb_return (Published (st_revision st))))))))))"

definition publish_selected ::
    "Host \<Rightarrow> MarkerCodec \<Rightarrow> SessionStaging \<Rightarrow> SessionManifest \<Rightarrow> PublishOutcome pb" where
  "publish_selected h mc st m =
    pb_bind (seal_selected h mc st m) (\<lambda>_. publish_selected_sealed h mc st m)"

end
