(* ===== verification/Session_Commit.thy ===== *)
theory Session_Commit
  imports Staging_Recovery Selected_Publication
begin

text \<open>
  The commit boundary of a session (\<open>library/download.rs\<close>): the publication material is
  verified, the staging area and the manifest are cross-checked, and only then is the
  staged revision published.  The verifier is an argument; what it rejects reaches the
  caller before the disk is touched.
\<close>

section \<open>Commit\<close>

type_synonym PublicationVerifier = "bytes \<Rightarrow> bytes \<Rightarrow> bytes \<Rightarrow> string + unit"

text \<open>The borrowed envelope of a commit.\<close>

record PublicationEnvelope =
  pe_payload :: bytes
  pe_signature :: bytes
  pe_public_key :: bytes

datatype LocalLibraryState = LibraryCommitted

record LocalLibraryEntry =
  ll_device_id :: string
  ll_session_id :: string
  ll_files :: "VerifiedFile list"
  ll_state :: LocalLibraryState

definition library_entry :: "string \<Rightarrow> string \<Rightarrow> VerifiedFile list \<Rightarrow> LocalLibraryEntry" where
  "library_entry dev ses files =
    \<lparr>ll_device_id = dev, ll_session_id = ses, ll_files = files, ll_state = LibraryCommitted\<rparr>"

definition verify_envelope :: "PublicationVerifier \<Rightarrow> PublicationEnvelope \<Rightarrow> unit dl" where
  "verify_envelope verifier e =
    dl_lift (map_sum Verification (\<lambda>u. u) (verifier (pe_payload e) (pe_signature e) (pe_public_key e)))"

text \<open>\<open>map_err(DownloadError::from)\<close>; \<open>shown\<close> is the text of a publishing error.\<close>

definition pb_to_dl :: "(PublishError \<Rightarrow> string) \<Rightarrow> 'a pb \<Rightarrow> 'a dl" where
  "pb_to_dl shown m d =
    (case m d of (Inl e, d') \<Rightarrow> (Inl (publish_to_download_error shown e), d') | (Inr x, d') \<Rightarrow> (Inr x, d'))"

definition publish_in_scope ::
    "Host \<Rightarrow> MarkerCodec \<Rightarrow> PublicationScope \<Rightarrow> SessionStaging \<Rightarrow> SessionManifest \<Rightarrow> PublishOutcome pb" where
  "publish_in_scope h mc scope st m =
    (case scope of FullSession \<Rightarrow> publish h mc st m | SelectedFiles \<Rightarrow> publish_selected h mc st m)"

definition commit_staged_session ::
    "Host \<Rightarrow> MarkerCodec \<Rightarrow> (PublishError \<Rightarrow> string) \<Rightarrow> PublicationVerifier \<Rightarrow> SessionStaging \<Rightarrow>
     string \<Rightarrow> string \<Rightarrow> VerifiedFile list \<Rightarrow> SessionManifest \<Rightarrow> PublicationEnvelope \<Rightarrow>
     PublicationScope \<Rightarrow> LocalLibraryEntry dl" where
  "commit_staged_session h mc shown verifier st dev ses files m e scope =
    dl_bind (verify_envelope verifier e) (\<lambda>_.
      let expected_revision = from_publication h (pe_payload e) in
      if st_revision st \<noteq> expected_revision then
        dl_fail (InvalidPlan (''staging revision '' @ st_revision st @
          '' does not match publication revision '' @ expected_revision))
      else if st_device_id st \<noteq> dev \<or> st_session_id st \<noteq> ses \<or>
          mf_device_id m \<noteq> dev \<or> mf_session_id m \<noteq> ses then
        dl_fail (InvalidPlan ''staged publication identity does not match its session manifest'')
      else
        dl_bind (prepare st) (\<lambda>_.
        dl_bind (pb_to_dl shown (publish_in_scope h mc scope st m)) (\<lambda>_.
          dl_return (library_entry dev ses files))))"

definition library_root_of :: "path \<Rightarrow> string \<Rightarrow> string \<Rightarrow> path option" where
  "library_root_of session_dir dev ses =
    Option.bind (path_parent session_dir) (\<lambda>device_dir.
    Option.bind (file_name session_dir) (\<lambda>session_name.
    if session_name \<noteq> ses then None
    else Option.bind (file_name device_dir) (\<lambda>device_name.
    if device_name \<noteq> dev then None else path_parent device_dir)))"

definition commit_session ::
    "Host \<Rightarrow> MarkerCodec \<Rightarrow> (PublishError \<Rightarrow> string) \<Rightarrow> PublicationVerifier \<Rightarrow> path \<Rightarrow>
     string \<Rightarrow> string \<Rightarrow> VerifiedFile list \<Rightarrow> PublicationEnvelope \<Rightarrow> LocalLibraryEntry dl" where
  "commit_session h mc shown verifier session_dir dev ses files e =
    (case library_root_of session_dir dev ses of
       None \<Rightarrow> dl_fail (InvalidPlan ''staged commit requires a <library>/<device>/<session> path'')
     | Some library_root \<Rightarrow>
         (case for_publication h library_root dev ses (pe_payload e) of
            Inl err \<Rightarrow> dl_fail (PathSafety err)
          | Inr st \<Rightarrow>
              commit_staged_session h mc shown verifier st dev ses files
                (from_verified dev ses (revision_dir st) files) e FullSession))"

definition commit_legacy_session ::
    "PublicationVerifier \<Rightarrow> path \<Rightarrow> string \<Rightarrow> string \<Rightarrow> VerifiedFile list \<Rightarrow> PublicationEnvelope \<Rightarrow>
     LocalLibraryEntry dl" where
  "commit_legacy_session verifier session_dir dev ses files e =
    dl_bind (verify_envelope verifier e) (\<lambda>_.
    dl_bind (fsync_dir session_dir) (\<lambda>_. dl_return (library_entry dev ses files)))"

text \<open>The shape of a session directory: the root is what the session was built from.\<close>

lemma library_root_of_iff:
  "library_root_of p dev ses = Some root \<longleftrightarrow>
    path_parent p = Some (butlast p) \<and> path_parent (butlast p) = Some root \<and>
    file_name p = Some ses \<and> file_name (butlast p) = Some dev"
  by (cases p rule: rev_cases)
    (auto simp: library_root_of_def path_parent_def file_name_def bind_eq_Some_conv
      split: if_splits path_component.splits)

section \<open>What a commit leaves behind\<close>

lemma rejected_commit:
  assumes "verifier (pe_payload e) (pe_signature e) (pe_public_key e) = Inl msg"
  shows "commit_staged_session h mc shown verifier st dev ses files m e scope d = (Inl (Verification msg), d)"
    "commit_legacy_session verifier p dev ses files e d = (Inl (Verification msg), d)"
  by (simp_all add: commit_staged_session_def commit_legacy_session_def verify_envelope_def assms
      dl_bind_def dl_lift_def)

lemma pb_to_dl_result: "pb_to_dl shown m d = (r, d') \<longleftrightarrow>
    (\<exists>x. m d = (x, d') \<and> r = map_sum (publish_to_download_error shown) (\<lambda>y. y) x)"
  by (auto simp: pb_to_dl_def split: prod.splits sum.splits)

lemma uncarried_not_published:
  assumes "staging_ok st" "plain_seal (subtree d (published_dir st))" "\<not> carries mc st (subtree d (published_dir st))"
  shows "\<not> fst (is_published mc st d)"
proof -
  let ?p = "published_dir st @ [Normal REVISION_MARKER_NAME]"
  have join: "join_path (published_dir st) REVISION_MARKER_NAME = ?p"
    using place_ne [OF assms(1)] by (simp add: join_plain)
  have "no_symlink (io_tick d) ?p"
    using assms(2) by (auto simp: plain_seal_def subtree_def no_symlink_def split: option.splits node.splits)
  from resolve_link_plain [OF this] assms(3) show ?thesis
    by (auto simp: is_published_def marker_matches_def read_revision_marker_def read_text_def read_file_def
        guarded_def join carries_def tree_seal_def subtree_def split: option.splits node.splits)
qed

text \<open>Everything before the publishing steps stays in the staging area of the revision.\<close>

definition seal_scope :: "SessionStaging \<Rightarrow> path set" where
  "seal_scope st = below (revision_dir st) \<union> {take k (revision_dir st) | k. k \<le> length (revision_dir st)}"

lemma seal_scope_apart:
  assumes "apart (revision_dir st) p"
  shows "below p \<inter> seal_scope st = {}"
  using assms ancestor_apart [OF assms] apartD(4) [OF assms] by (auto simp: seal_scope_def)

lemma touches_prepare: "touches {} (seal_scope st) (prepare st)"
  unfolding prepare_def by (intro touchesI) (auto simp: seal_scope_def)

lemma keeps_prepare: "keeps_tree (prepare st)"
  unfolding prepare_def by (intro keepsI)


lemma touches_dependent: "(\<And>x. touches N S (f x)) \<Longrightarrow> touches N S (\<lambda>d. f (g d) d)"
  by (simp add: touches_def)

lemma touches_fsync_stack: "touches N S (fsync_stack n stack)"
proof (induction n arbitrary: stack)
  case 0
  then show ?case by (cases stack) (auto intro: touchesI)
next
  case (Suc n)
  show ?case
  proof (cases stack)
    case (Cons current rest)
    have "touches N S (\<lambda>d. dl_bind (fsync_dir current) (\<lambda>_. fsync_stack n
        (rev (filter (\<lambda>p. case lookup d p of Some (NDir _) \<Rightarrow> True | _ \<Rightarrow> False) ps) @ rest)) d)" for ps
      by (rule touches_dependent [where g = "\<lambda>d. filter (\<lambda>p. case lookup d p of Some (NDir _) \<Rightarrow> True | _ \<Rightarrow> False) ps"
          and f = "\<lambda>dirs. dl_bind (fsync_dir current) (\<lambda>_. fsync_stack n (rev dirs @ rest))"])
        (intro touchesI Suc.IH)
    then show ?thesis unfolding Cons fsync_stack.simps Let_def by (intro touchesI)
  qed (simp add: touchesI)
qed

lemma touches_fsync_tree: "touches N S (fsync_tree p)"
  unfolding fsync_tree_def by (rule touches_dependent) (rule touches_fsync_stack)

lemma seal_frame:
  assumes ok: "staging_ok st" and wf: "tree_wf d" and temp: "no_marker_temp m"
    and run: "seal h mc st m d = (r, d')" and q: "q \<notin> seal_scope st"
  shows "lookup d' q = lookup d q"
proof -
  let ?R = "revision_dir st" and ?json = "mc_revision_to_json mc (revision_marker st m)"
  let ?mk = "?R @ [Normal REVISION_MARKER_NAME]" and ?tmp = "?R @ [Normal (REVISION_MARKER_NAME @ ''.tmp'')]"
  note ne = place_ne [OF ok]
  define d1 where "d1 = snd (is_published mc st d)"
  define d2 where "d2 = snd (path_is_dir ?R d1)"
  have n1: "dk_nodes d1 = dk_nodes d" by (simp add: d1_def is_published_def)
  then have n2: "dk_nodes d2 = dk_nodes d" by (simp add: d2_def)
  have down: "?R @ rest \<in> seal_scope st" for rest by (simp add: seal_scope_def below_iff)
  have cleanup: "touches {} (seal_scope st) (cleanup_marker_temp_files st)"
    by (rule touches_mono [OF touches_cleanup_marker [OF ok]]) (simp add: down)
  let ?rest = "pb_bind (pb_dl (rewrite_internal_marker ?mk ?json)) (\<lambda>_. pb_dl (fsync_tree ?R))"
  have still: "dk_nodes d' = dk_nodes d2" if "fst (is_published mc st d) \<or> \<not> fst (path_is_dir ?R d1)"
    using run that n1 n2 by (auto simp: seal_def d1_def [symmetric] d2_def [symmetric] pb_return_def pb_fail_def split: if_splits)
  show ?thesis
  proof (cases "fst (is_published mc st d) \<or> \<not> fst (path_is_dir ?R d1)")
    case True
    then show ?thesis using still n2 by simp
  next
    case False
    then have there: "lookup d2 ?R \<noteq> None"
      using resolve_link_plain [of "io_tick d1" ?R]
      by (cases "lookup d1 ?R") (auto simp: d2_def path_is_dir_def metadata_def guarded_def no_symlink_def
          split: option.splits)
    from run False have "pb_bind (cleanup_marker_temp_files st) (\<lambda>_.
        pb_bind (verify_manifest h st m) (\<lambda>_. ?rest)) d2 = (r, d')"
      by (simp add: seal_def d1_def d2_def marker_paths [OF ok])
    then obtain d3 where cl: "cleanup_marker_temp_files st d2 = (Inr (), d3)"
      and then_verify: "pb_bind (verify_manifest h st m) (\<lambda>_. ?rest) d3 = (r, d')"
      by (cases rule: pb_bind_cases) (auto simp: cleanup_marker_temp_files_def pb_bind_def pb_ignore_def)
    have q3: "lookup d3 q = lookup d q" using touches_bareD [OF cleanup cl q] n2 by simp
    have keeps: "keeps_tree (cleanup_marker_temp_files st)"
      unfolding cleanup_marker_temp_files_def durable_temp_path_def marker_paths [OF ok] push_suffix_Normal
      by (intro keepsI) simp_all
    have "tree_wf d2" using wf n2 tree_wf_nodes by blast
    from keepsD [where m = "cleanup_marker_temp_files st", OF keeps cl this] have wf3: "tree_wf d3" .
    from touches_bareD [OF touches_cleanup_marker [OF ok] cl, of ?R] there have there3: "lookup d3 ?R \<noteq> None" by simp
    from then_verify show ?thesis
    proof (cases rule: pb_bind_cases)
      case (fail e)
      then show ?thesis using verify_manifest_sound(1) [OF ok wf3 fail(1) there3] q3 by simp
    next
      case (run u d4)
      note V = verify_manifest_sound [OF ok wf3 run(1) there3]
      have plain: "no_symlink d4 ?tmp" using marker_temp_plain [OF V(2) temp] V(1) by (simp add: no_symlink_def)
      have paths: "tmp_path ?mk = ?tmp" "?tmp \<notin> below ?mk" "?mk \<notin> below ?tmp"
        by (simp_all add: tmp_path_def push_suffix_Normal below_iff)
      have reject: "touches {?tmp} (seal_scope st) (reject_symlink ?mk)" by (intro touchesI)
      have durable: "touches {?tmp} (seal_scope st) (write_file_durably ?mk ?json)"
        by (rule touches_write_file_durably) (use paths down in \<open>auto simp: below_iff seal_scope_def\<close>)
      have "touches {?tmp} (seal_scope st) (rewrite_internal_marker ?mk ?json)"
        unfolding rewrite_internal_marker_def
        by (intro touchesI durable) (auto intro!: touchesI down split: sum.splits node.splits option.splits)
      then have writes: "touches {?tmp} (seal_scope st) (pb_dl (rewrite_internal_marker ?mk ?json))"
        by (rule touches_pb_lift)
      have all: "touches {?tmp} (seal_scope st) ?rest"
        by (intro touchesI writes touches_fsync_tree)
      from touchesD(1) [OF all, of d4 q] plain q run(2) have "lookup d' q = lookup d4 q" by simp
      then show ?thesis using V(1) q3 by simp
    qed
  qed
qed


lemma map_sum_Inr: "map_sum f g x = Inr y \<longleftrightarrow> (\<exists>z. x = Inr z \<and> y = g z)" "Inr y = map_sum f g x \<longleftrightarrow> (\<exists>z. x = Inr z \<and> y = g z)"
  by (cases x; auto)+

lemma already_means_published:
  assumes "publish_sealed mc st d = (Inr (AlreadyPublished v), d')"
  shows "fst (is_published mc st d)"
proof (rule ccontr)
  assume "\<not> fst (is_published mc st d)"
  with assms show False
    unfolding publish_sealed_def
    by (auto simp: pb_fail_def pb_return_def split: if_splits option.splits elim!: pb_bind_cases)
qed

lemma Inr_commit:
  assumes "commit_staged_session h mc shown verifier st dev ses files m e scope d = (Inr entry, d')"
  shows "verifier (pe_payload e) (pe_signature e) (pe_public_key e) = Inr ()"
    "st_revision st = from_publication h (pe_payload e)"
    "mf_device_id m = st_device_id st" "mf_session_id m = st_session_id st"
    "entry = library_entry (st_device_id st) (st_session_id st) files"
    "\<exists>d1 outcome. prepare st d = (Inr (), d1) \<and> publish_in_scope h mc scope st m d1 = (Inr outcome, d')"
  using assms
  by (auto simp: commit_staged_session_def verify_envelope_def dl_bind_Inr dl_lift_def Let_def dl_fail_def
      dl_return_def pb_to_dl_result map_sum_Inr split: if_splits)

definition manifest_tree ::
    "Host \<Rightarrow> MarkerCodec \<Rightarrow> SessionStaging \<Rightarrow> SessionManifest \<Rightarrow> (path \<Rightarrow> node option) \<Rightarrow> bool" where
  "manifest_tree h mc st m t \<longleftrightarrow> exact_tree h m t \<and>
    t [Normal REVISION_MARKER_NAME] = Some (NFile (mc_revision_to_json mc (revision_marker st m)))"

lemma commit_result:
  assumes ok: "staging_ok st" and wf: "tree_wf d" and temp: "no_marker_temp m"
    and old: "plain_seal (subtree d (published_dir st))" "\<not> carries mc st (subtree d (published_dir st))"
    and run: "commit_staged_session h mc shown verifier st dev ses files m e FullSession d = (r, d')"
  shows "manifest_tree h mc st m (subtree d' (published_dir st)) \<or>
    isl r \<and> (subtree d' (published_dir st) = subtree d (published_dir st) \<or>
      subtree d' (published_dir st) = subtree d (superseded_dir st) \<or>
      subtree d' (published_dir st) = (\<lambda>_. None) \<and>
      subtree d' (superseded_dir st) = subtree d (published_dir st))"
proof -
  let ?P = "published_dir st" and ?S = "superseded_dir st"
  let ?complete = "manifest_tree h mc st m (subtree d' ?P)"
  have apart: "below ?P \<inter> seal_scope st = {}" "below ?S \<inter> seal_scope st = {}"
    using seal_scope_apart staging_apart [OF ok] by blast+
  have kept: "subtree d2 ?P = subtree d1 ?P" "subtree d2 ?S = subtree d1 ?S"
    if "\<And>q. q \<notin> seal_scope st \<Longrightarrow> lookup d2 q = lookup d1 q" for d1 d2
    using that apart by (auto simp: subtree_eq_iff)
  {
    fix x d1
    assume pre: "prepare st d = (x, d1)"
    have k1: "subtree d1 ?P = subtree d ?P" "subtree d1 ?S = subtree d ?S"
      using kept [of d1 d] touches_bareD [OF touches_prepare pre] by blast+
    have wf1: "tree_wf d1" using keepsD [OF keeps_prepare pre wf] .
    have fresh: "\<not> fst (is_published mc st d1)" using uncarried_not_published [OF ok] old k1 by simp
    have "?complete \<or> isl y \<and> (subtree d' ?P = subtree d ?P \<or> subtree d' ?P = subtree d ?S \<or>
        subtree d' ?P = (\<lambda>_. None) \<and> subtree d' ?S = subtree d ?P)"
      if pub: "publish h mc st m d1 = (y, d')" for y
    proof -
      from pub [unfolded publish_def] show ?thesis
      proof (cases rule: pb_bind_cases)
        case (fail err)
        then show ?thesis using kept [of d' d1] seal_frame [OF ok wf1 temp fail(1)] k1 by auto
      next
        case (run u d2)
        note S = seal_sound [OF ok wf1 fresh temp run(1)]
        have k2: "subtree d2 ?P = subtree d ?P" "subtree d2 ?S = subtree d ?S"
          using kept [of d2 d1] seal_frame [OF ok wf1 temp run(1)] k1 by auto
        have there: "fst (is_published mc st d2) = False"
          using uncarried_not_published [OF ok] old k2 by simp
        from publish_sealed_outcome [OF ok _ run(2)] S k2
        show ?thesis
          using already_means_published [where mc = mc and st = st and d = d2 and d' = d'] there run(2)
          by (auto simp: manifest_tree_def installed_def unpublished_def same_at_def aside_def
              split: sum.splits PublishOutcome.splits)
      qed
    qed
  }
  note through = this
  consider (early) "isl r" "d' = d" | (prepared) e where "prepare st d = (Inl e, d')" "isl r"
    | (gone) d1 y where "prepare st d = (Inr (), d1)" "publish h mc st m d1 = (y, d')" "isl y = isl r"
    using run
    by (auto simp: commit_staged_session_def verify_envelope_def dl_bind_def dl_lift_def Let_def dl_fail_def
        dl_return_def pb_to_dl_def publish_in_scope_def split: if_splits sum.splits prod.splits)
  then show "?complete \<or> isl r \<and> (subtree d' ?P = subtree d ?P \<or> subtree d' ?P = subtree d ?S \<or>
      subtree d' ?P = (\<lambda>_. None) \<and> subtree d' ?S = subtree d ?P)"
  proof cases
    case (prepared e)
    then show ?thesis using kept [of d' d] touches_bareD [OF touches_prepare prepared(1)] by blast
  next
    case (gone d1 y)
    then show ?thesis using through by blast
  qed simp
qed


end
