(* ===== verification/Data_Plane.thy ===== *)
theory Data_Plane
  imports Dispatcher Session_Commit
begin

text \<open>
  The data plane of a worker: the tracking source of \<open>transfer/queue.rs\<close> that watches
  the interrupt flag and checkpoints the file ledger while a body is read, and
  \<open>run_transfer\<close> and \<open>do_commit\<close> of \<open>transfer/coordinator.rs\<close>, which join the
  coordinator's state with the staging area on disk.

  A world is the coordinator's state and the disk.  The source of a file is a
  \<open>Feed\<close>: what the download engine gets to read, and what the tracking wrapper and
  other threads do to the coordinator's state meanwhile.
\<close>

section \<open>Interrupts seen by a source\<close>

definition INTERRUPT_MARKER :: string where
  "INTERRUPT_MARKER = ''__ylx_pc05_interrupt__''"

definition str_contains :: "string \<Rightarrow> string \<Rightarrow> bool" where
  "str_contains s pat \<longleftrightarrow> list_ex (\<lambda>k. take (length pat) (drop k s) = pat) [0..<Suc (length s)]"

definition is_interrupt_error :: "DownloadError \<Rightarrow> bool" where
  "is_interrupt_error e =
    (case e of
       SourceIo s \<Rightarrow> str_contains s INTERRUPT_MARKER
     | Source s \<Rightarrow> str_contains s INTERRUPT_MARKER
     | _ \<Rightarrow> False)"

definition control_of :: "job_id \<Rightarrow> Inner \<Rightarrow> JobControl" where
  "control_of j s = (case in_controls s j of None \<Rightarrow> JobControl_default | Some c \<Rightarrow> c)"

definition update_progress :: "job_id \<Rightarrow> (JobProgressTracker \<Rightarrow> JobProgressTracker) \<Rightarrow> Inner \<Rightarrow> Inner" where
  "update_progress j f s =
    (case in_progress s j of
       None \<Rightarrow> s
     | Some t \<Rightarrow> s\<lparr>in_progress := (in_progress s)(j \<mapsto> f t)\<rparr>)"

section \<open>The tracking source\<close>

record TrackingSource =
  trs_job_id :: job_id
  trs_file_id :: string
  trs_threshold :: u64

record TrackingBody =
  tb_job_id :: job_id
  tb_file_id :: string
  tb_offset :: u64
  tb_since_checkpoint :: u64
  tb_threshold :: u64

text \<open>Where the bytes of a response land in the file.\<close>

definition effective_start :: "u16 \<Rightarrow> u64 \<Rightarrow> u64 option" where
  "effective_start status start =
    (if status = 200 then Some 0 else if status = 206 then Some start else None)"

definition tracking_body :: "TrackingSource \<Rightarrow> u16 \<Rightarrow> u64 \<Rightarrow> TrackingBody" where
  "tracking_body src status start =
    \<lparr>tb_job_id = trs_job_id src, tb_file_id = trs_file_id src,
     tb_offset = (case effective_start status start of None \<Rightarrow> start | Some offset \<Rightarrow> offset),
     tb_since_checkpoint = 0, tb_threshold = max (trs_threshold src) 1\<rparr>"

definition tracked_fetch ::
    "TrackingSource \<Rightarrow> (RequestedRange \<Rightarrow> DownloadError + SourceResponse) \<Rightarrow> RequestedRange \<Rightarrow> Inner \<Rightarrow>
     (DownloadError + SourceResponse \<times> TrackingBody) \<times> Inner" where
  "tracked_fetch src fetch_range request s =
    (if jc_interrupt_flag (control_of (trs_job_id src) s) then (Inl (Source INTERRUPT_MARKER), s)
     else (case fetch_range request of
         Inl e \<Rightarrow> (Inl e, s)
       | Inr resp \<Rightarrow>
           (Inr (resp, tracking_body src (sr_status resp) (rq_start request)),
            case effective_start (sr_status resp) (rq_start request) of
              None \<Rightarrow> s
            | Some offset \<Rightarrow> update_progress (trs_job_id src) (set_current_file_offset offset) s)))"

text \<open>One checkpoint of the file ledger; its failure is kept for the coordinator.\<close>

definition checkpoint ::
    "(PersistenceError \<Rightarrow> string) \<Rightarrow> string \<Rightarrow> TrackingBody \<Rightarrow> Inner \<Rightarrow> Inner" where
  "checkpoint shown now b s =
    (case update_file_ledger (in_store s) (tb_job_id b) (tb_file_id b) LedgerPartial (tb_offset b) None now of
       Inl e \<Rightarrow> update_control (tb_job_id b) (\<lambda>c. record_checkpoint_fault c (shown e)) s
     | Inr st \<Rightarrow> s\<lparr>in_store := st\<rparr>)"

text \<open>One \<open>read\<close>: \<open>r\<close> is what the inner body returns.\<close>

definition tracked_read ::
    "(PersistenceError \<Rightarrow> string) \<Rightarrow> string \<Rightarrow> TrackingBody \<Rightarrow> body_read \<Rightarrow> Inner \<Rightarrow>
     body_read \<times> TrackingBody \<times> Inner" where
  "tracked_read shown now b r s =
    (if jc_interrupt_flag (control_of (tb_job_id b) s) then (ReadError INTERRUPT_MARKER, b, s)
     else (case r of
         ReadError e \<Rightarrow> (ReadError e, b, s)
       | Chunk bs \<Rightarrow>
           if bs = [] then (Chunk bs, b, s)
           else
             (let b' = b\<lparr>tb_offset := tb_offset b + of_nat (length bs),
                         tb_since_checkpoint := tb_since_checkpoint b + of_nat (length bs)\<rparr>;
                  s' = update_progress (tb_job_id b) (set_current_file_offset (tb_offset b')) s in
              if tb_threshold b \<le> tb_since_checkpoint b' then
                (Chunk bs, b'\<lparr>tb_since_checkpoint := 0\<rparr>, checkpoint shown now b' s')
              else (Chunk bs, b', s'))))"

text \<open>
  The reads of one body until it ends: before each one other threads have
  acted (\<open>between\<close>), and the reader stops at the first error or end of stream.
\<close>

fun tracked_reads ::
    "(PersistenceError \<Rightarrow> string) \<Rightarrow> (nat \<Rightarrow> string) \<Rightarrow> (nat \<Rightarrow> Inner \<Rightarrow> Inner) \<Rightarrow> nat \<Rightarrow> TrackingBody \<Rightarrow>
     body_read list \<Rightarrow> Inner \<Rightarrow> body_read list \<times> TrackingBody \<times> Inner" where
  "tracked_reads shown clock between i b [] s = ([], b, s)"
| "tracked_reads shown clock between i b (r # rs) s =
     (case tracked_read shown (clock i) b r (between i s) of
        (ReadError e, b', s') \<Rightarrow> ([ReadError e], b', s')
      | (Chunk bs, b', s') \<Rightarrow>
          if bs = [] then ([Chunk []], b', s')
          else (case tracked_reads shown clock between (Suc i) b' rs s' of
              (seen, b'', s'') \<Rightarrow> (Chunk bs # seen, b'', s'')))"

section \<open>Transferring a job\<close>

type_synonym World = "Inner \<times> Disk"

record Feed =
  fd_source :: DownloadSource
  fd_during :: "Inner \<Rightarrow> Inner"

definition file_plan :: "TransferRequest \<Rightarrow> JobFile \<Rightarrow> FilePlan" where
  "file_plan rq f =
    \<lparr>fp_device_id = tr_device_id rq, fp_session_id = tr_session_id rq, fp_file_id = file_id f,
     fp_target_relative_path = target_relative_path f, fp_expected_size = expected_size f,
     fp_expected_sha256_hex = expected_sha256_hex f\<rparr>"

definition request_staging :: "Host \<Rightarrow> path \<Rightarrow> TransferRequest \<Rightarrow> PathSafetyError + SessionStaging" where
  "request_staging h library_root rq =
    for_publication h library_root (tr_device_id rq) (tr_session_id rq) (tr_manifest_bytes rq)"

definition fail_transfer ::
    "(DownloadError \<Rightarrow> string) \<Rightarrow> job_id \<Rightarrow> DownloadError \<Rightarrow> Inner \<Rightarrow> TransferOutcome \<times> Inner" where
  "fail_transfer shown j e s =
    (case classify_download_error shown e of
       (code, retryable) \<Rightarrow>
         (OutFailed code retryable, job_fault j FaultTransition (classify_download_failure e) s))"

text \<open>One file: \<open>Inl\<close> the outcome with which the transfer ends.\<close>

definition transfer_file ::
    "Host \<Rightarrow> Ports \<Rightarrow> (DownloadError \<Rightarrow> string) \<Rightarrow> job_id \<Rightarrow> TransferRequest \<Rightarrow> SessionStaging \<Rightarrow>
     DownloadError + Feed \<Rightarrow> JobFile \<Rightarrow> World \<Rightarrow> (TransferOutcome + VerifiedFile) \<times> World" where
  "transfer_file h ports shown j rq st feed f w =
    (case w of (s, d) \<Rightarrow>
      (case pre_file_interrupt_check ports j (control_of j s) (tr_device_id rq) s of
         (Some out, s1) \<Rightarrow> (Inl out, (s1, d))
       | (None, s1) \<Rightarrow>
           (case feed of
              Inl e \<Rightarrow> (Inl (OutFailed Network True), (job_fault j FaultTransition Remote s1, d))
            | Inr source \<Rightarrow>
                (case download_into h (fd_source source) st (file_plan rq f) d of
                   (Inr vf, d') \<Rightarrow>
                     (Inr vf, (update_progress j (file_completed (expected_size f)) (fd_during source s1), d'))
                 | (Inl e, d') \<Rightarrow>
                     (let s2 = fd_during source s1 in
                      if is_interrupt_error e then (Inl (interrupt_outcome (control_of j s2)), (s2, d'))
                      else (case fail_transfer shown j e s2 of (out, s3) \<Rightarrow> (Inl out, (s3, d'))))))))"

fun transfer_files ::
    "Host \<Rightarrow> Ports \<Rightarrow> (DownloadError \<Rightarrow> string) \<Rightarrow> job_id \<Rightarrow> TransferRequest \<Rightarrow> SessionStaging \<Rightarrow>
     (nat \<Rightarrow> DownloadError + Feed) \<Rightarrow> nat \<Rightarrow> JobFile list \<Rightarrow> VerifiedFile list \<Rightarrow> World \<Rightarrow>
     TransferOutcome \<times> World" where
  "transfer_files h ports shown j rq st feeds i [] verified w = (AllDone verified, w)"
| "transfer_files h ports shown j rq st feeds i (f # fs) verified w =
     (case transfer_file h ports shown j rq st (feeds i) f w of
        (Inl out, w') \<Rightarrow> (out, w')
      | (Inr vf, w') \<Rightarrow> transfer_files h ports shown j rq st feeds (Suc i) fs (verified @ [vf]) w')"

text \<open>\<^const>\<open>None\<close> is the panic of a job that is not in memory.\<close>

definition run_transfer ::
    "Host \<Rightarrow> Ports \<Rightarrow> (DownloadError \<Rightarrow> string) \<Rightarrow> (nat \<Rightarrow> DownloadError + Feed) \<Rightarrow> job_id \<Rightarrow> World \<Rightarrow>
     (TransferOutcome \<times> World) option" where
  "run_transfer h ports shown feeds j w =
    (case w of (s, d) \<Rightarrow>
      map_option (\<lambda>m.
        (let rq = mj_request m in
         case request_staging h (in_library_root s) rq of
           Inl e \<Rightarrow> (case fail_transfer shown j (PathSafety e) s of (out, s') \<Rightarrow> (out, (s', d)))
         | Inr st \<Rightarrow>
             (case prepare st d of
                (Inl e, d') \<Rightarrow> (case fail_transfer shown j e s of (out, s') \<Rightarrow> (out, (s', d')))
              | (Inr _, d') \<Rightarrow>
                  transfer_files h ports shown j rq st feeds 0 (tr_files rq) [] (s, d'))))
      (in_jobs s j))"

section \<open>Committing a job\<close>

definition job_manifest :: "TransferRequest \<Rightarrow> SessionManifest" where
  "job_manifest rq =
    from_plans (tr_device_id rq) (tr_session_id rq) (map (file_plan rq) (tr_files rq))"

definition request_envelope :: "TransferRequest \<Rightarrow> PublicationEnvelope" where
  "request_envelope rq =
    \<lparr>pe_payload = tr_manifest_bytes rq, pe_signature = tr_signature rq,
     pe_public_key = tr_publication_public_key rq\<rparr>"

definition commit_failure :: "(DownloadError \<Rightarrow> string) \<Rightarrow> DownloadError \<Rightarrow> FailureCode \<times> bool" where
  "commit_failure shown e =
    (case e of
       Verification msg \<Rightarrow> (Other (''publication verification failed: '' @ msg), False)
     | _ \<Rightarrow> classify_download_error shown e)"

text \<open>\<^const>\<open>None\<close> is success; the coordinator's state is only read.\<close>

definition do_commit ::
    "Host \<Rightarrow> MarkerCodec \<Rightarrow> Ports \<Rightarrow> (DownloadError \<Rightarrow> string) \<Rightarrow> (PublishError \<Rightarrow> string) \<Rightarrow> path \<Rightarrow>
     ManagedJob \<Rightarrow> Disk \<Rightarrow> (FailureCode \<times> bool) option \<times> Disk" where
  "do_commit h mc ports shown shown_publish library_root m d =
    (let rq = mj_request m in
     case request_staging h library_root rq of
       Inl e \<Rightarrow> (Some (classify_download_error shown (PathSafety e)), d)
     | Inr st \<Rightarrow>
         (case commit_staged_session h mc shown_publish (po_verify ports) st
             (tr_device_id rq) (tr_session_id rq) (mj_verified m) (job_manifest rq)
             (request_envelope rq) (mj_scope m) d of
            (Inr _, d') \<Rightarrow> (None, d')
          | (Inl e, d') \<Rightarrow> (Some (commit_failure shown e), d')))"


section \<open>Workers on a world\<close>

text \<open>
  The arguments a worker's data plane is built from; \<open>wk_feeds\<close> gives the sources of
  the files in the order of the request.
\<close>

record Worker =
  wk_host :: Host
  wk_codec :: MarkerCodec
  wk_ports :: Ports
  wk_clock :: "nat \<Rightarrow> string"
  wk_shown :: "DownloadError \<Rightarrow> string"
  wk_shown_publish :: "PublishError \<Rightarrow> string"
  wk_shown_verify :: "string \<Rightarrow> string"
  wk_feeds :: "nat \<Rightarrow> DownloadError + Feed"

definition worker_transfer :: "Worker \<Rightarrow> job_id \<Rightarrow> World \<Rightarrow> TransferOutcome \<times> World" where
  "worker_transfer w j x =
    (case run_transfer (wk_host w) (wk_ports w) (wk_shown w) (wk_feeds w) j x of
       None \<Rightarrow> (OutCancelled, x)
     | Some r \<Rightarrow> r)"

definition worker_commit :: "Worker \<Rightarrow> job_id \<Rightarrow> World \<Rightarrow> (FailureCode \<times> bool) option \<times> World" where
  "worker_commit w j x =
    (case x of (s, d) \<Rightarrow>
       (case in_jobs s j of
          None \<Rightarrow> (None, x)
        | Some m \<Rightarrow>
            (case do_commit (wk_host w) (wk_codec w) (wk_ports w) (wk_shown w) (wk_shown_publish w)
                (in_library_root s) m d of
               (r, d') \<Rightarrow> (r, (s, d')))))"

text \<open>The data plane as a worker sees it while the disk is \<open>d\<close>.\<close>

definition plane_at :: "Worker \<Rightarrow> Disk \<Rightarrow> Plane" where
  "plane_at w d =
    \<lparr>pl_transfer = (\<lambda>j s. case worker_transfer w j (s, d) of (out, s', _) \<Rightarrow> (out, s')),
     pl_commit = (\<lambda>j s. case worker_commit w j (s, d) of (out, s', _) \<Rightarrow> (out, s'))\<rparr>"

text \<open>The disk after the pass of a job whose state was \<open>st\<close>.\<close>

definition disk_after :: "Worker \<Rightarrow> job_id \<Rightarrow> World \<Rightarrow> Disk" where
  "disk_after w j x =
    (case x of (s, d) \<Rightarrow>
       (case map_option mj_state (in_jobs s j) of
          Some Transferring \<Rightarrow> snd (snd (worker_transfer w j x))
        | Some Committing \<Rightarrow> snd (snd (worker_commit w j x))
        | _ \<Rightarrow> d))"

definition world_pass :: "Worker \<Rightarrow> job_id \<Rightarrow> World \<Rightarrow> World + World" where
  "world_pass w j x =
    (case x of (s, d) \<Rightarrow>
       map_sum (\<lambda>s'. (s', disk_after w j x)) (\<lambda>s'. (s', disk_after w j x))
         (process_pass (plane_at w d) (wk_ports w) (wk_clock w) (wk_shown_verify w) j s))"

fun world_loop :: "nat \<Rightarrow> (nat \<Rightarrow> World \<Rightarrow> World) \<Rightarrow> Worker \<Rightarrow> job_id \<Rightarrow> World \<Rightarrow> World option" where
  "world_loop 0 between w j x = None"
| "world_loop (Suc n) between w j x =
    (case world_pass w j (between n x) of
       Inl y \<Rightarrow> Some y
     | Inr y \<Rightarrow> world_loop n between w j y)"

end
