(* ===== verification/Staging_Progress.thy ===== *)
theory Staging_Progress
  imports Session_Commit
begin

text \<open>
  With a working disk a complete staging area is published: the manifest check accepts
  it, the seal is written and the tree synced within the fuel of both walks, and the
  publishing steps succeed.
\<close>

section \<open>The listing holds nothing else\<close>

lemma dir_names_only:
  assumes "n \<in> set (dir_names p ns)" shows "map_of ns (p @ [Normal n]) \<noteq> None"
proof -
  from assms obtain e where e: "e \<in> set ns" "path_strip_prefix p (fst e) = Some [Normal n]"
    by (auto simp: dir_names_def split: option.splits list.splits path_component.splits)
  then have "fst e = p @ [Normal n]" by (simp add: path_strip_prefix_Some)
  with e(1) show ?thesis by (auto simp: map_of_eq_None_iff image_iff intro: bexI [of _ e])
qed

lemma collect_entries_sound:
  assumes enter: "\<And>n d1 ps d2. n \<in> set names \<Longrightarrow> dk_nodes d1 = ns \<Longrightarrow> enter (dir @ [Normal n]) d1 = (Inr ps, d2) \<Longrightarrow>
      dk_nodes d2 = ns \<and> (\<forall>p\<in>set ps. Q p)"
    and leaf: "\<And>n. n \<in> set names \<Longrightarrow> \<nexists>l. map_of ns (dir @ [Normal n]) = Some (NDir l) \<Longrightarrow> Q (dir @ [Normal n])"
    and "collect_entries enter dir names d1 = (Inr ps, d2)" "dk_nodes d1 = ns"
  shows "\<forall>p\<in>set ps. Q p"
  using assms
proof (induction names arbitrary: d1 ps)
  case (Cons n names)
  from Cons.prems(3) obtain found d' rest where
    first: "(case lookup d1 (dir @ [Normal n]) of Some (NDir _) \<Rightarrow> enter (dir @ [Normal n]) d1
      | _ \<Rightarrow> (Inr [dir @ [Normal n]], d1)) = (Inr found, d')"
    and later: "collect_entries enter dir names d' = (Inr rest, d2)" and ps: "ps = found @ rest"
    by (auto split: prod.splits sum.splits)
  have here: "dk_nodes d' = ns \<and> (\<forall>p\<in>set found. Q p)"
  proof (cases "\<exists>l. map_of ns (dir @ [Normal n]) = Some (NDir l)")
    case True
    then have "enter (dir @ [Normal n]) d1 = (Inr found, d')" using first Cons.prems(4) by auto
    from Cons.prems(1) [OF _ Cons.prems(4) this] show ?thesis by simp
  next
    case False
    then have "found = [dir @ [Normal n]]" "d' = d1"
      using first Cons.prems(4) by (auto split: option.splits node.splits)
    moreover have "Q (dir @ [Normal n])" by (rule Cons.prems(2) [OF _ False]) simp
    ultimately show ?thesis using Cons.prems(4) by simp
  qed
  have "\<forall>p\<in>set rest. Q p"
  proof (rule Cons.IH [OF _ _ later])
    fix x e qs e'
    assume "x \<in> set names" "dk_nodes e = ns" "enter (dir @ [Normal x]) e = (Inr qs, e')"
    then show "dk_nodes e' = ns \<and> (\<forall>p\<in>set qs. Q p)" using Cons.prems(1) [of x e qs e'] by simp
  next
    fix x
    assume "x \<in> set names" "\<nexists>l. map_of ns (dir @ [Normal x]) = Some (NDir l)"
    then show "Q (dir @ [Normal x])" using Cons.prems(2) [of x] by simp
  qed (use here in blast)
  then show ?case using here ps by auto
qed simp

lemma collect_files_sound:
  assumes "collect_files k dir d = (Inr ps, d')" "p \<in> set ps"
  shows "\<exists>ns n. p = dir @ map Normal ns \<and> lookup d p = Some n \<and> (\<nexists>l. n = NDir l)"
  using assms
proof (induction k arbitrary: dir d ps d' p)
  case (Suc k)
  let ?Q = "\<lambda>p. \<exists>ns n. p = dir @ map Normal ns \<and> lookup d p = Some n \<and> (\<nexists>l. n = NDir l)"
  from Suc.prems(1) consider "ps = []" | d1 where
    "collect_entries (collect_files k) dir (dir_names dir (dk_nodes d)) d1 = (Inr ps, d')" "dk_nodes d1 = dk_nodes d"
    by (auto simp: read_dir_def guarded_def split: option.splits node.splits if_splits)
  then show ?case
  proof cases
    case (2 d1)
    have "\<forall>p\<in>set ps. ?Q p"
    proof (rule collect_entries_sound [OF _ _ 2])
      fix n e qs e'
      assume n: "n \<in> set (dir_names dir (dk_nodes d))" and e: "dk_nodes e = dk_nodes d"
        and run: "collect_files k (dir @ [Normal n]) e = (Inr qs, e')"
      have "?Q q" if "q \<in> set qs" for q
      proof -
        from Suc.IH [OF run that] obtain ns x where
          "q = dir @ map Normal (n # ns)" "lookup d q = Some x" "\<nexists>l. x = NDir l" using e by auto
        then show ?thesis by blast
      qed
      then show "dk_nodes e' = dk_nodes d \<and> (\<forall>q\<in>set qs. ?Q q)"
        using collect_files_nodes [of k "dir @ [Normal n]" e] run e by simp
    next
      fix n
      assume "n \<in> set (dir_names dir (dk_nodes d))" "\<nexists>l. lookup d (dir @ [Normal n]) = Some (NDir l)"
      then show "?Q (dir @ [Normal n])" using dir_names_only [of n dir "dk_nodes d"]
        by (intro exI [of _ "[n]"]) auto
    qed
    then show ?thesis using Suc.prems(2) by blast
  qed (use Suc.prems(2) in simp)
qed simp

section \<open>The manifest check accepts a complete tree\<close>

lemma judge_complete_run:
  assumes "no_faults d" "lookup d target = Some (NFile b)" "content_matches h expected b"
  shows "\<exists>d'. judge h target expected d = (Verified, d') \<and> dk_nodes d' = dk_nodes d \<and> no_faults d'"
proof -
  have "no_symlink d target" using assms(2) by (simp add: no_symlink_def)
  then have read: "read_file target (io_tick d) = (Inr b, io_tick (io_tick d))"
    using assms(1,2) resolve_link_plain [of "io_tick (io_tick d)" target]
    by (simp add: read_file_def guarded_def)
  have "symlink_metadata target d = (Inr (NFile b), io_tick d)"
    using assms(1,2) by (simp add: symlink_metadata_def guarded_def)
  then show ?thesis
    using assms(1,3) read
    by (auto simp: judge_def committed_verdict_def content_matches_def node_len_def
        sha256_of_file_def dl_bind_def dl_io_def dl_return_def split: option.splits)
qed

lemma inspect_all_complete:
  assumes "no_faults d"
    and "\<And>f. f \<in> set fs \<Longrightarrow> \<exists>t b. inspector_target i f = Inr t \<and> lookup d t = Some (NFile b) \<and> content_matches h f b"
  shows "\<exists>es d'. inspect_all h i fs d = (es, d') \<and> dk_nodes d' = dk_nodes d \<and> no_faults d' \<and>
    list_all (\<lambda>e. ae_status e = Verified) es \<and>
    (\<forall>f\<in>set fs. \<forall>t. inspector_target i f = Inr t \<longrightarrow> t \<in> set (List.map_filter ae_target es))"
  using assms
proof (induction fs arbitrary: d)
  case (Cons f fs)
  from Cons.prems(2) [of f] obtain t b where
    t: "inspector_target i f = Inr t" "lookup d t = Some (NFile b)" "content_matches h f b" by auto
  from judge_complete_run [OF Cons.prems(1) t(2,3)] obtain d1 where
    j: "judge h t f d = (Verified, d1)" "dk_nodes d1 = dk_nodes d" "no_faults d1" by blast
  from Cons.IH [OF j(3)] Cons.prems(2) j(2) obtain es d' where
    es: "inspect_all h i fs d1 = (es, d')" "dk_nodes d' = dk_nodes d1" "no_faults d'"
      "list_all (\<lambda>e. ae_status e = Verified) es"
      "\<forall>f\<in>set fs. \<forall>t. inspector_target i f = Inr t \<longrightarrow> t \<in> set (List.map_filter ae_target es)" by auto
  then show ?case using t(1) j by (auto simp: inspect_def map_filter_simps)
qed (simp add: map_filter_simps)

lemma no_problems: "list_all (\<lambda>e. ae_status e = Verified) es \<Longrightarrow> concat (map evidence_problem es) = []"
  by (simp add: evidence_problem_def list_all_iff)

definition targets_derivable :: "SessionStaging \<Rightarrow> SessionManifest \<Rightarrow> bool" where
  "targets_derivable st m \<longleftrightarrow> list_all (\<lambda>f. \<not> isl (inspector_target (staging_inspector st) f)) (mf_files m)"

lemma verify_manifest_complete:
  assumes ok: "staging_ok st" and wf: "tree_wf d" and nf: "no_faults d"
    and dir: "lookup d (revision_dir st) = Some (NDir l)" and tree: "exact_tree h m (subtree d (revision_dir st))"
    and targets: "targets_derivable st m"
  shows "\<exists>d'. verify_manifest h st m d = (Inr (), d') \<and> dk_nodes d' = dk_nodes d \<and> no_faults d'"
proof -
  let ?R = "revision_dir st" and ?i = "staging_inspector st"
  have target: "inspector_target ?i f = Inr (?R @ map Normal (target_segments f))" if "f \<in> set (mf_files m)" for f
    using targets that staging_target(1) [OF ok, of f]
    by (cases "inspector_target ?i f") (auto simp: targets_derivable_def list_all_iff)
  have "\<exists>t b. inspector_target ?i f = Inr t \<and> lookup d t = Some (NFile b) \<and> content_matches h f b"
    if "f \<in> set (mf_files m)" for f
    using target [OF that] tree that by (auto simp: exact_tree_def subtree_def)
  from inspect_all_complete [where fs = "mf_files m", OF nf this] obtain es d1 where
    es: "inspect_all h ?i (mf_files m) d = (es, d1)" "dk_nodes d1 = dk_nodes d" "no_faults d1"
      "list_all (\<lambda>e. ae_status e = Verified) es"
    and found: "\<forall>f\<in>set (mf_files m). \<forall>t. inspector_target ?i f = Inr t \<longrightarrow> t \<in> set (List.map_filter ae_target es)"
    by auto
  have wf1: "tree_wf d1" using wf es(2) tree_wf_nodes by blast
  have "\<exists>ps d2. collect_files (Suc (length (dk_nodes d1))) ?R d1 = (Inr ps, d2) \<and>
      dk_nodes d2 = dk_nodes d1 \<and> no_faults d2"
  proof (rule collect_files_succeeds [OF wf1 es(3)])
    show "length rest < Suc (length (dk_nodes d1))" if "lookup d1 (?R @ rest) \<noteq> None" for rest
      using deep_paths_need_nodes [OF wf1 _ that] place_ne [OF ok] by auto
  qed (use place_ne [OF ok] dir es(2) in auto)
  then obtain ps d2 where
    ps: "collect_files (Suc (length (dk_nodes d1))) ?R d1 = (Inr ps, d2)" "dk_nodes d2 = dk_nodes d1" "no_faults d2"
    by blast
  let ?known = "?R @ [Normal REVISION_MARKER_NAME]" and ?sel = "?R @ [Normal SELECTED_MARKER_NAME]"
  have "p = ?known \<or> p = ?sel \<or> p \<in> set (List.map_filter ae_target es)" if "p \<in> set ps" for p
  proof -
    from collect_files_sound [OF ps(1) that] obtain ns n where
      n: "p = ?R @ map Normal ns" "lookup d p = Some n" "\<nexists>l. n = NDir l" using es(2) by auto
    have "\<forall>ns n. subtree d ?R (map Normal ns) = Some n \<longrightarrow> (\<exists>l. n = NDir l) \<or> ns = [REVISION_MARKER_NAME] \<or>
        ns = [SELECTED_MARKER_NAME] \<or> ns \<in> target_segments ` set (mf_files m)"
      using tree unfolding exact_tree_def by (rule conjunct2)
    from this [rule_format, of ns n] n
    have "ns = [REVISION_MARKER_NAME] \<or> ns = [SELECTED_MARKER_NAME] \<or> ns \<in> target_segments ` set (mf_files m)"
      by (simp add: subtree_def)
    then show ?thesis using n(1) target found by auto
  qed
  then have "filter (\<lambda>p. p \<notin> set (join_path ?R REVISION_MARKER_NAME # join_path ?R SELECTED_MARKER_NAME #
      List.map_filter ae_target es)) ps = []"
    by (auto simp: filter_empty_conv marker_paths [OF ok])
  with no_problems [OF es(4)] have "verify_manifest h st m d = (Inr (), d2)"
    unfolding verify_manifest_def plan_recovery_def Let_def es(1) prod.case RecoveryPlan.select_convs ps(1) sum.case
    by simp
  then show ?thesis using es(2) ps(2,3) by simp
qed

section \<open>Writing the seal succeeds\<close>

lemma create_existing_ok:
  assumes "tree_wf d" "lookup d p = Some (NDir l)" "p \<noteq> []" "no_faults d"
  shows "create_dir_all p d = (Inr (), io_tick d)"
proof -
  have "\<exists>l. lookup d (take k p) = Some (NDir l)" if "0 < k" "k \<le> length p" for k
  proof (cases "k = length p")
    case False
    with that assms(3) have "take k p \<noteq> []" "drop k p \<noteq> []" by auto
    from tree_wf_ancestor [OF assms(1) this] assms(2) show ?thesis by simp
  qed (use assms(2) in simp)
  then have "make_dirs (map (\<lambda>k. take k p) [1..<Suc (length p)]) (io_tick d) = (Inr (), io_tick d)"
    by (intro make_dirs_nothing) (auto simp del: upt_Suc)
  then show ?thesis using assms(4) by (simp add: create_dir_all_def guarded_def del: upt_Suc)
qed

lemma write_synced_fresh_ok:
  assumes "no_faults d" "lookup d p = None" "is_dir_at d (butlast p)"
  shows "\<exists>d'. write_synced p b d = (Inr (), d') \<and> no_faults d'"
proof -
  have "no_symlink (io_tick d) p" using assms(2) by (simp add: no_symlink_def)
  from resolve_link_plain [OF this] assms show ?thesis
    by (auto simp: write_synced_def dl_bind_def dl_io_def open_write_def guarded_def write_all_at_def sync_all_def
        Let_def is_dir_at_def no_faults_def current_fault_def io_tick_def split: option.splits)
qed

lemma write_file_durably_ok:
  assumes wf: "tree_wf d" and nf: "no_faults d" and dir: "lookup d base = Some (NDir l)" "base \<noteq> []"
    and free: "lookup d (base @ [Normal n]) = None" "lookup d (base @ [Normal (n @ ''.tmp'')]) = None"
  shows "\<exists>d'. write_file_durably (base @ [Normal n]) b d = (Inr (), d') \<and> no_faults d'"
proof -
  let ?p = "base @ [Normal n]" and ?t = "base @ [Normal (n @ ''.tmp'')]"
  note mk = create_existing_ok [OF wf dir nf]
  obtain d2 where wr: "write_synced ?t b (io_tick d) = (Inr (), d2)" "no_faults d2"
    using write_synced_fresh_ok [of "io_tick d" ?t b] nf free(2) dir by (auto simp: is_dir_at_def)
  have plain: "no_symlink (io_tick d) ?t" using free(2) by (simp add: no_symlink_def)
  have w: "touches {?t} {?t} (write_synced ?t b)" by (rule touches_write_synced) auto
  have l2: "lookup d2 q = lookup d q" if "q \<noteq> ?t" for q
    using touchesD(1) [OF w, of "io_tick d" q] plain wr(1) that by simp
  have t2: "lookup d2 ?t \<noteq> None" using write_synced_ok [OF plain wr(1)] by simp
  obtain d3 where mv: "rename ?t ?p d2 = (Inr (), d3)" "no_faults d3"
    using rename_ok [OF wr(2) t2, of ?p] l2 [of ?p] l2 [of base] free(1) dir by (auto simp: is_dir_at_def)
  have wf2: "tree_wf d2"
  proof -
    have "tree_wf (d\<lparr>dk_nodes := put_node ?t (NFile b) (dk_nodes d)\<rparr>)"
      by (rule tree_wf_put [OF wf]) (use dir free(2) in auto)
    moreover have "lookup d2 = lookup (d\<lparr>dk_nodes := put_node ?t (NFile b) (dk_nodes d)\<rparr>)"
      using l2 write_synced_ok [OF plain wr(1)] by (auto simp: fun_eq_iff)
    ultimately show ?thesis using tree_wf_lookup by blast
  qed
  have ap: "apart ?t ?p" by (simp add: apart_prefix)
  have "base \<notin> below ?t" "base \<notin> below ?p" by (auto simp: below_iff dest!: arg_cong [of _ _ length])
  then have "lookup d3 base = Some (NDir l)"
    using rename_moves [OF wf2 ap _ _ mv(1), of base] l2 [of base] dir by simp
  from fsync_dir_ok [OF mv(2)] this obtain d4 where "fsync_dir base d3 = (Inr (), d4)" "no_faults d4"
    by (auto simp: is_dir_at_def)
  then show ?thesis
    using mk wr(1) mv(1) by (simp add: write_file_durably_def path_parent_leaf tmp_path_def push_suffix_Normal dl_bind_def dl_io_def)
qed

lemma rewrite_marker_ok:
  assumes wf: "tree_wf d" and nf: "no_faults d" and dir: "lookup d base = Some (NDir l)" "base \<noteq> []"
    and marker: "lookup d (base @ [Normal n]) = None \<or> (\<exists>c. lookup d (base @ [Normal n]) = Some (NFile c))"
    and free: "lookup d (base @ [Normal (n @ ''.tmp'')]) = None"
  shows "\<exists>d'. rewrite_internal_marker (base @ [Normal n]) b d = (Inr (), d') \<and> no_faults d'"
proof -
  let ?p = "base @ [Normal n]"
  obtain x where meta: "symlink_metadata ?p d = (x, io_tick d)"
    using nf by (simp add: symlink_metadata_def guarded_def)
  then have x: "x = (case lookup d ?p of None \<Rightarrow> Inl ENOENT | Some k \<Rightarrow> Inr k)"
    using nf by (simp add: symlink_metadata_def guarded_def)
  have "\<exists>d2. (case x of
        Inr (NSymlink _) \<Rightarrow> reject_symlink ?p
      | Inr (NDir _) \<Rightarrow> dl_fail (InvalidPlan (''internal marker is not a regular file: '' @ display_path ?p))
      | Inr (NFile _) \<Rightarrow> dl_bind (dl_io ?p (remove_file ?p)) (\<lambda>_. fsync_dir base)
      | Inl e \<Rightarrow> if io_kind e = NotFound then dl_return () else dl_fail (Io ?p e)) (io_tick d) = (Inr (), d2) \<and>
      lookup d2 = (lookup d)(?p := None) \<and> no_faults d2"
  proof (cases "lookup d ?p")
    case None
    then show ?thesis using nf
      by (auto simp: x ENOENT_def dl_return_def fun_eq_iff)
  next
    case (Some k)
    then obtain c where c: "lookup d ?p = Some (NFile c)" using marker by auto
    let ?d = "io_tick (io_tick d)\<lparr>dk_nodes := del_node ?p (dk_nodes d)\<rparr>"
    have "no_faults ?d" using nf by (simp add: no_faults_def io_tick_def)
    moreover have "is_dir_at ?d base" using dir by (simp add: is_dir_at_def)
    ultimately obtain d2 where "fsync_dir base ?d = (Inr (), d2)" "dk_nodes d2 = dk_nodes ?d" "no_faults d2"
      using fsync_dir_ok by blast
    then show ?thesis using nf c
      by (auto simp: x guarded_def remove_file_def dl_bind_def dl_io_def)
  qed
  then obtain d2 where first: "(case x of
        Inr (NSymlink _) \<Rightarrow> reject_symlink ?p
      | Inr (NDir _) \<Rightarrow> dl_fail (InvalidPlan (''internal marker is not a regular file: '' @ display_path ?p))
      | Inr (NFile _) \<Rightarrow> dl_bind (dl_io ?p (remove_file ?p)) (\<lambda>_. fsync_dir base)
      | Inl e \<Rightarrow> if io_kind e = NotFound then dl_return () else dl_fail (Io ?p e)) (io_tick d) = (Inr (), d2)"
    and l2: "lookup d2 = (lookup d)(?p := None)" and nf2: "no_faults d2" by blast
  have leaf: "\<nexists>l. lookup d ?p = Some (NDir l)" using marker by auto
  have "tree_wf (d\<lparr>dk_nodes := del_node ?p (dk_nodes d)\<rparr>)" by (rule tree_wf_del_leaf [OF wf _ leaf]) simp
  then have wf2: "tree_wf d2" using l2 tree_wf_lookup [of d2 "d\<lparr>dk_nodes := del_node ?p (dk_nodes d)\<rparr>"] by simp
  obtain d3 where "write_file_durably ?p b d2 = (Inr (), d3)" "no_faults d3"
    using write_file_durably_ok [OF wf2 nf2, of base l n b] l2 dir free by auto
  with first show ?thesis
    unfolding rewrite_internal_marker_def path_parent_leaf option.case dl_bind_assoc
    by (simp add: dl_bind_def [of "dl_try _"] dl_try_def meta) (simp add: dl_bind_def)
qed


section \<open>Syncing the tree\<close>

text \<open>
  Every directory is visited once: the directories on the stack are apart from each
  other, and a visit trades one for its children.
\<close>

definition covered :: "nodes \<Rightarrow> path list \<Rightarrow> path set" where
  "covered ns stack = {q \<in> fst ` set ns. \<exists>p\<in>set stack. q \<in> below p}"

lemma children_apart: "distinct names \<Longrightarrow> sorted_wrt apart (map (\<lambda>n. c @ [Normal n]) names)"
  by (induction names) (auto simp: apart_prefix)

lemma apart_below: "apart c y \<Longrightarrow> apart (c @ rest) y"
  unfolding apart_iff by (metis append_assoc)

lemma fsync_stack_ok:
  assumes "dk_nodes d = ns" "no_faults d" "\<forall>p\<in>set stack. is_dir_at d p" "sorted_wrt apart stack"
    and "card (covered ns stack) \<le> n"
  shows "\<exists>d'. fsync_stack n stack d = (Inr (), d') \<and> dk_nodes d' = ns \<and> no_faults d'"
  using assms
proof (induction n arbitrary: stack d)
  case 0
  have fin: "finite (covered ns stack)" by (simp add: covered_def)
  show ?case
  proof (cases stack)
    case (Cons c rest)
    then have "c \<in> covered ns stack"
      using 0 by (auto simp: covered_def is_dir_at_def map_of_eq_None_iff dest: map_of_SomeD)
        (metis fst_conv image_eqI map_of_SomeD)
    then show ?thesis using "0.prems"(5) fin by (simp add: card_eq_0_iff)
  qed (use 0 in \<open>simp add: dl_return_def\<close>)
next
  case (Suc n)
  show ?case
  proof (cases stack)
    case (Cons c rest)
    let ?names = "dir_names c ns"
    let ?dirs = "filter (\<lambda>p. case lookup d p of Some (NDir _) \<Rightarrow> True | _ \<Rightarrow> False) (map (\<lambda>n. c @ [Normal n]) ?names)"
    obtain l where c: "lookup d c = Some (NDir l)" using Suc.prems(3) Cons by (auto simp: is_dir_at_def)
    have rd: "read_dir c d = (Inr ?names, io_tick d)"
      using c Suc.prems(1,2) by (simp add: read_dir_def guarded_def)
    have "no_faults (io_tick d)" "is_dir_at (io_tick d) c" using Suc.prems(2) c by (simp_all add: is_dir_at_def)
    from fsync_dir_ok [OF this] obtain d1 where
      sy: "fsync_dir c (io_tick d) = (Inr (), d1)" "dk_nodes d1 = ns" "no_faults d1" using Suc.prems(1) by auto
    have is_dir: "is_dir_at d1 p" if "p \<in> set ?dirs" for p
      using that sy(2) Suc.prems(1) by (auto simp: is_dir_at_def split: option.splits node.splits)
    have child: "\<exists>n. p = c @ [Normal n]" if "p \<in> set ?dirs" for p using that by auto
    have apart_rest: "\<forall>y\<in>set rest. apart c y" using Suc.prems(4) Cons by simp
    have "sorted_wrt apart ?dirs"
      by (intro sorted_wrt_filter children_apart) (simp add: dir_names_def)
    then have "sorted_wrt apart (rev ?dirs)" using apart_sym by (auto simp: sorted_wrt_rev elim: sorted_wrt_mono_rel [rotated])
    then have sorted: "sorted_wrt apart (rev ?dirs @ rest)"
      using Suc.prems(4) Cons apart_rest child apart_below by (fastforce simp: sorted_wrt_append)
    have sub: "covered ns (rev ?dirs @ rest) \<subseteq> covered ns stack - {c}"
    proof
      fix q
      assume "q \<in> covered ns (rev ?dirs @ rest)"
      then obtain p where p: "q \<in> fst ` set ns" "p \<in> set ?dirs \<union> set rest" "q \<in> below p"
        by (auto simp: covered_def)
      from p(2) show "q \<in> covered ns stack - {c}"
      proof
        assume "p \<in> set ?dirs"
        with child obtain n where "p = c @ [Normal n]" by blast
        then show ?thesis using p Cons by (auto simp: covered_def below_iff)
      next
        assume r: "p \<in> set rest"
        then have "q \<noteq> c" using apart_rest p(3) apartD(3) [of c p] by (auto simp: below_iff) (metis below_iff apartD(1))
        then show ?thesis using p r Cons by (auto simp: covered_def)
      qed
    qed
    have "c \<in> covered ns stack"
      using c Suc.prems(1) Cons by (auto simp: covered_def) (metis fst_conv image_eqI map_of_SomeD)
    moreover have "finite (covered ns stack)" by (simp add: covered_def)
    ultimately have "card (covered ns (rev ?dirs @ rest)) \<le> n"
      using card_mono [OF _ sub] Suc.prems(5) by simp
    moreover have "\<forall>p\<in>set (rev ?dirs @ rest). is_dir_at d1 p"
    proof
      fix p
      assume "p \<in> set (rev ?dirs @ rest)"
      then consider "p \<in> set ?dirs" | "p \<in> set rest" by auto
      then show "is_dir_at d1 p"
        by cases (use is_dir Suc.prems(1,3) Cons sy(2) in \<open>auto simp: is_dir_at_def\<close>)
    qed
    ultimately obtain d2 where
      "fsync_stack n (rev ?dirs @ rest) d1 = (Inr (), d2)" "dk_nodes d2 = ns" "no_faults d2"
      using Suc.IH [OF sy(2,3) _ sorted] by blast
    then show ?thesis
      using rd sy(1) Cons by (simp add: dl_bind_def dl_io_def Let_def)
  qed (use Suc.prems in \<open>simp add: dl_return_def\<close>)
qed

lemma fsync_tree_ok:
  assumes "no_faults d" "is_dir_at d p"
  shows "\<exists>d'. fsync_tree p d = (Inr (), d') \<and> dk_nodes d' = dk_nodes d \<and> no_faults d'"
proof -
  have "card (covered (dk_nodes d) [p]) \<le> card (fst ` set (dk_nodes d))"
    by (rule card_mono) (auto simp: covered_def)
  also have "\<dots> \<le> length (dk_nodes d)" by (meson card_image_le card_length finite_set le_trans)
  finally have "card (covered (dk_nodes d) [p]) \<le> Suc (length (dk_nodes d))" by simp
  from fsync_stack_ok [OF refl assms(1) _ _ this] assms(2) show ?thesis by (simp add: fsync_tree_def)
qed


section \<open>A complete staging area is published\<close>

definition staged_session :: "Host \<Rightarrow> SessionStaging \<Rightarrow> SessionManifest \<Rightarrow> Disk \<Rightarrow> bool" where
  "staged_session h st m d \<longleftrightarrow>
    is_dir_at d (revision_dir st) \<and> exact_tree h m (subtree d (revision_dir st)) \<and> targets_derivable st m \<and>
    (case lookup d (revision_dir st @ [Normal REVISION_MARKER_NAME]) of None \<Rightarrow> True | Some n \<Rightarrow> is_regular n) \<and>
    lookup d (revision_dir st @ [Normal (REVISION_MARKER_NAME @ ''.tmp'')]) = None \<and>
    lookup d (revision_dir st @ [Normal (SELECTED_MARKER_NAME @ ''.tmp'')]) = None"

text \<open>What is asked of the JSON codec: a marker it wrote is read back.\<close>

definition reads_back :: "MarkerCodec \<Rightarrow> RevisionMarker \<Rightarrow> bool" where
  "reads_back mc k \<longleftrightarrow> utf8_valid (mc_revision_to_json mc k) \<and>
    mc_revision_from_json mc (mc_revision_to_json mc k) = Some k"

lemma staged_no_marker_temp:
  assumes "staged_session h st m d" shows "no_marker_temp m"
proof -
  have "target_segments f \<noteq> [REVISION_MARKER_NAME @ ''.tmp'']" if "f \<in> set (mf_files m)" for f
    using assms that by (fastforce simp: staged_session_def exact_tree_def subtree_def)
  then show ?thesis by (simp add: no_marker_temp_def list_all_iff)
qed

lemma seal_ok:
  assumes ok: "staging_ok st" and wf: "tree_wf d" and nf: "no_faults d" and staged: "staged_session h st m d"
    and old: "plain_seal (subtree d (published_dir st))" "\<not> carries mc st (subtree d (published_dir st))"
  shows "\<exists>d'. seal h mc st m d = (Inr (), d') \<and> no_faults d' \<and> tree_wf d' \<and>
    lookup d' = (lookup d)(revision_dir st @ [Normal REVISION_MARKER_NAME] \<mapsto>
      NFile (mc_revision_to_json mc (revision_marker st m)))"
proof -
  let ?R = "revision_dir st" and ?json = "mc_revision_to_json mc (revision_marker st m)"
  let ?mk = "?R @ [Normal REVISION_MARKER_NAME]" and ?tmp = "?R @ [Normal (REVISION_MARKER_NAME @ ''.tmp'')]"
  let ?stmp = "?R @ [Normal (SELECTED_MARKER_NAME @ ''.tmp'')]"
  note S = staged [unfolded staged_session_def] and ne = place_ne [OF ok]
  obtain l where R: "lookup d ?R = Some (NDir l)" using S by (auto simp: is_dir_at_def)
  have fresh: "\<not> fst (is_published mc st d)" using uncarried_not_published [OF ok old] .
  define d1 where "d1 = snd (is_published mc st d)"
  have d1: "dk_nodes d1 = dk_nodes d" "no_faults d1"
    using asks_keep_faults nf by (simp_all add: d1_def is_published_def no_faults_def)
  have dir: "path_is_dir ?R d1 = (True, io_tick d1)"
    by (rule path_is_dir_ok) (use d1 R in \<open>simp_all add: is_dir_at_def\<close>)
  have absent: "remove_file p e = (Inl ENOENT, io_tick e)" if "lookup e p = None" "no_faults e" for p e
    using that by (simp add: remove_file_def guarded_def)
  let ?d2 = "io_tick (io_tick (io_tick d1))"
  have cl: "cleanup_marker_temp_files st (io_tick d1) = (Inr (), ?d2)"
    unfolding cleanup_marker_temp_files_def durable_temp_path_def marker_paths [OF ok] push_suffix_Normal
    using absent [of "io_tick d1" ?tmp] absent [of "io_tick (io_tick d1)" ?stmp] S d1
    by (simp add: pb_bind_def pb_ignore_def)
  have d2: "dk_nodes ?d2 = dk_nodes d" "no_faults ?d2" using d1 by simp_all
  have wf2: "tree_wf ?d2" using wf d2(1) tree_wf_nodes by blast
  have tree2: "exact_tree h m (subtree ?d2 ?R)" using S subtree_nodes [OF d2(1)] by simp
  obtain d3 where ver: "verify_manifest h st m ?d2 = (Inr (), d3)" "dk_nodes d3 = dk_nodes ?d2" "no_faults d3"
    using verify_manifest_complete [OF ok wf2 d2(2) _ tree2, of l] R d2(1) S by auto
  have wf3: "tree_wf d3" using wf ver(2) d2(1) tree_wf_nodes by metis
  have at3: "lookup d3 = lookup d" using ver(2) d2(1) by simp
  have "lookup d ?mk = None \<or> (\<exists>c. lookup d ?mk = Some (NFile c))"
    using S by (auto simp: is_regular_def split: option.splits node.splits)
  with rewrite_marker_ok [OF wf3 ver(3), of ?R l REVISION_MARKER_NAME ?json] at3 R ne S
  obtain d4 where mk: "rewrite_internal_marker ?mk ?json d3 = (Inr (), d4)" "no_faults d4" by auto
  have "no_symlink d3 ?tmp" using S at3 by (simp add: no_symlink_def)
  note W = rewrite_marker_exact [OF wf3 _ _ this mk(1)]
  have l4: "lookup d4 = (lookup d)(?mk \<mapsto> NFile ?json)" "tree_wf d4"
    using W R ne at3 S by (auto simp: fun_eq_iff)
  have "is_dir_at d4 ?R" using l4(1) R by (simp add: is_dir_at_def)
  from fsync_tree_ok [OF mk(2) this] obtain d5 where
    sy: "fsync_tree ?R d4 = (Inr (), d5)" "dk_nodes d5 = dk_nodes d4" "no_faults d5" by blast
  have "seal h mc st m d = (Inr (), d5)"
    unfolding seal_def pb_bind_ask marker_paths [OF ok] d1_def [symmetric]
    using fresh dir cl ver(1) mk(1) sy(1) by (simp add: pb_bind_def pb_dl_def)
  moreover have "tree_wf d5" using l4(2) sy(2) tree_wf_nodes by blast
  ultimately show ?thesis using sy l4 by auto
qed

text \<open>
  A complete staging area is published.  With a working disk, a verifier that
  accepts the material of this revision, and nothing but the manifest's files staged, each
  with its expected content, committing the session succeeds, and the visible session
  is then exactly the manifest under the seal of this revision.
\<close>

lemma session_commits:
  assumes ok: "staging_ok st" and wf: "tree_wf d" and nf: "no_faults d" and staged: "staged_session h st m d"
    and codec: "reads_back mc (revision_marker st m)"
    and old: "plain_seal (subtree d (published_dir st))" "\<not> carries mc st (subtree d (published_dir st))"
      "plain_seal (subtree d (superseded_dir st))" "\<not> carries mc st (subtree d (superseded_dir st))"
    and way: "clear_way d (published_dir st)" "clear_way d (superseded_dir st)"
      "lookup d (published_dir st) = None \<or> (\<nexists>b. lookup d (superseded_dir st) = Some (NFile b))"
    and accepts: "verifier (pe_payload e) (pe_signature e) (pe_public_key e) = Inr ()"
    and revision: "st_revision st = from_publication h (pe_payload e)"
    and identity: "mf_device_id m = st_device_id st" "mf_session_id m = st_session_id st"
  shows "\<exists>d'. commit_staged_session h mc shown verifier st (st_device_id st) (st_session_id st) files m e
      FullSession d = (Inr (library_entry (st_device_id st) (st_session_id st) files), d') \<and>
    manifest_tree h mc st m (subtree d' (published_dir st))"
proof -
  let ?R = "revision_dir st" and ?P = "published_dir st" and ?S = "superseded_dir st"
  let ?mk = "?R @ [Normal REVISION_MARKER_NAME]"
  note ne = place_ne [OF ok] and A = staging_apart [OF ok]
  obtain l where R: "lookup d ?R = Some (NDir l)" using staged by (auto simp: staged_session_def is_dir_at_def)
  have "is_dir_at (io_tick d) ?R" using R by (simp add: is_dir_at_def)
  with fsync_dir_ok [of "io_tick d"] nf obtain d1 where
    sy: "fsync_dir ?R (io_tick d) = (Inr (), d1)" "dk_nodes d1 = dk_nodes d" "no_faults d1" by auto
  have pre: "prepare st d = (Inr (), d1)"
    using create_existing_ok [OF wf R _ nf] ne sy(1) by (simp add: prepare_def dl_bind_def dl_io_def)
  have sub1: "subtree d1 = subtree d" using subtree_nodes [OF sy(2)] .
  have wf1: "tree_wf d1" using wf sy(2) tree_wf_nodes by blast
  have "staged_session h st m d1" using staged sy(2) by (simp add: staged_session_def is_dir_at_def sub1)
  from seal_ok [OF ok wf1 sy(3) this, of mc] old sub1 sy(2) obtain d2 where
    seal: "seal h mc st m d1 = (Inr (), d2)" "no_faults d2" "tree_wf d2"
    and l2: "lookup d2 = (lookup d)(?mk \<mapsto> NFile (mc_revision_to_json mc (revision_marker st m)))" by auto
  have "?mk \<notin> below ?P" "?mk \<notin> below ?S"
    using apartD(3) [OF A(1), of ?mk] apartD(3) [OF A(3), of ?mk] by (auto simp: below_iff)
  then have kept: "subtree d2 ?P = subtree d ?P" "subtree d2 ?S = subtree d ?S"
    by (auto simp: subtree_eq_iff l2)
  have "subtree d2 ?R [Normal REVISION_MARKER_NAME] = Some (NFile (mc_revision_to_json mc (revision_marker st m)))"
    by (simp add: subtree_def l2)
  then have carry: "carries mc st (subtree d2 ?R)"
    using codec by (simp add: carries_def tree_seal_def reads_back_def revision_marker_def)
  have grown: "lookup d2 q = lookup d q \<or> q = ?mk" for q using l2 by simp
  have "clear_way d2 p" if "clear_way d p" "apart ?R p" for p
  proof -
    have "take k p \<noteq> ?mk" if "k < length p" for k
    proof
      assume "take k p = ?mk"
      then have "p \<in> below ?R" by (metis append_assoc append_take_drop_id below_iff)
      then show False using apartD(2) [OF \<open>apart ?R p\<close>] by simp
    qed
    then show ?thesis using that(1) grown unfolding clear_way_def is_dir_at_def by metis
  qed
  then have "clear_way d2 ?P" "clear_way d2 ?S" using way(1,2) A(1,3) by blast+
  moreover have "lookup d2 ?P = lookup d ?P" "lookup d2 ?S = lookup d ?S"
    using fun_cong [OF kept(1), of "[]"] fun_cong [OF kept(2), of "[]"] by (simp_all add: subtree_def)
  moreover have "?mk \<noteq> ?R" by simp
  ultimately have "ready_to_publish mc st d2"
    using seal(3) carry old kept way(3) R l2 by (simp add: ready_to_publish_def is_dir_at_def)
  from publish_ready [OF ok seal(2) this] obtain d3 where
    pub: "publish_sealed mc st d2 = (Inr (Published (st_revision st)), d3)" by (metis prod.collapse)
  have run: "commit_staged_session h mc shown verifier st (st_device_id st) (st_session_id st) files m e
      FullSession d = (Inr (library_entry (st_device_id st) (st_session_id st) files), d3)"
    using accepts revision identity pre seal(1) pub
    by (simp add: commit_staged_session_def verify_envelope_def publish_in_scope_def publish_def dl_bind_def
        dl_lift_def pb_to_dl_def pb_bind_def dl_return_def)
  with commit_result [OF ok wf staged_no_marker_temp [OF staged] old(1,2) run] show ?thesis by auto
qed

end
