(* ===== verification/Worker_World.thy ===== *)
theory Worker_World
  imports Data_Plane Coordinator_Properties Staging_Progress
begin

text \<open>
  A worker with its data plane: whatever the sources deliver and whichever disk
  operation fails, memory and database stay coherent, what the engine reads through the
  tracking source is what the source sent, and a job is recorded as succeeded only
  when its session is visible and exactly the manifest of the request.
\<close>

section \<open>Tracking\<close>

fun chunk_bytes :: "body_read \<Rightarrow> bytes" where
  "chunk_bytes (Chunk b) = b"
| "chunk_bytes (ReadError e) = []"

definition delivered :: "body_read list \<Rightarrow> bytes" where
  "delivered rs = concat (map chunk_bytes rs)"

lemma tracked_read_result:
  assumes "tracked_read shown now b r s = (seen, b', s')"
  shows "seen = r \<or> seen = ReadError INTERRUPT_MARKER"
    "tb_offset b' = tb_offset b + of_nat (length (chunk_bytes seen))"
    "jc_interrupt_flag (control_of (tb_job_id b) s) \<Longrightarrow> seen = ReadError INTERRUPT_MARKER"
    "tb_job_id b' = tb_job_id b"
  using assms
  by (auto simp: tracked_read_def Let_def split: if_splits body_read.splits)


section \<open>The data plane keeps memory and database coherent\<close>

lemma update_progress_quiet: "quiet_step s (update_progress k f s)"
  by (auto simp: quiet_step_def update_progress_def split: option.splits)

lemma update_progress_coherent: "coherent s \<Longrightarrow> coherent (update_progress k f s)"
  using coherent_quiet [OF update_progress_quiet] by blast

lemma job_fault_coherent: "coherent s \<Longrightarrow> coherent (job_fault k f c s)"
  using coherent_quiet [OF quiet_job_fault] by blast

lemma checkpoint_coherent:
  assumes "coherent s" shows "coherent (checkpoint shown now b s)"
proof (cases "update_file_ledger (in_store s) (tb_job_id b) (tb_file_id b) LedgerPartial (tb_offset b) None now")
  case (Inl e)
  then show ?thesis using control_coherent [OF assms] by (simp add: checkpoint_def)
next
  case (Inr st)
  have "store_inv (in_store s)" using assms by (simp add: coherent_def)
  from ledger_view [OF this, of "tb_job_id b" "tb_file_id b" LedgerPartial "tb_offset b" None now] Inr
  have "store_inv st" "job_view st = job_view (in_store s)" by (simp_all add: settle_def)
  with Inr assms show ?thesis by (simp add: checkpoint_def coherent_def)
qed

lemma tracked_read_coherent:
  assumes "coherent s" "tracked_read shown now b r s = (seen, b', s')"
  shows "coherent s'"
  using assms
  by (auto simp: tracked_read_def Let_def checkpoint_coherent update_progress_coherent
      split: if_splits body_read.splits)

lemma tracked_reads_coherent:
  assumes "\<And>k. keeps coherent (between k)" "coherent s"
    and "tracked_reads shown clock between i b rs s = (seen, b', s')"
  shows "coherent s'"
  using assms(2,3)
proof (induction rs arbitrary: i b s seen)
  case (Cons r rs)
  obtain x b1 s1 where x: "tracked_read shown (clock i) b r (between i s) = (x, b1, s1)"
    by (metis prod_cases3)
  have "coherent (between i s)" using assms(1) Cons.prems(1) by (simp add: keeps_def)
  from tracked_read_coherent [OF this x] have c: "coherent s1" .
  show ?case using Cons.prems(2) Cons.IH [OF c] c x
    by (auto split: body_read.splits if_splits prod.splits)
qed simp

lemma device_readiness_quiet: "quiet_step s (snd (device_readiness ports dev s))"
  using device_snapshot_quiet by (simp add: device_readiness_def split: prod.splits) (metis snd_conv)

lemma pre_file_quiet: "quiet_step s (snd (pre_file_interrupt_check ports k c dev s))"
  using device_readiness_quiet [of s ports dev]
  by (auto simp: pre_file_interrupt_check_def split: prod.splits DeviceReadiness.splits)

definition feeds_keep :: "(nat \<Rightarrow> DownloadError + Feed) \<Rightarrow> bool" where
  "feeds_keep feeds \<longleftrightarrow> (\<forall>i f. feeds i = Inr f \<longrightarrow> keeps coherent (fd_during f))"

lemma transfer_file_coherent:
  assumes "coherent s" "\<And>f. feed = Inr f \<Longrightarrow> keeps coherent (fd_during f)"
    and run: "transfer_file h ports shown k rq st feed f (s, d) = (r, (s', d'))"
  shows "coherent s'"
proof -
  obtain o1 s1 where pre: "pre_file_interrupt_check ports k (control_of k s) (tr_device_id rq) s = (o1, s1)" by fastforce
  have "coherent s1" using coherent_quiet [OF pre_file_quiet] assms(1) pre by (metis snd_conv)
  moreover have "coherent (fd_during x s1)" if "feed = Inr x" for x
    using assms(2) [OF that] calculation by (simp add: keeps_def)
  ultimately show ?thesis using run pre
    by (auto simp: transfer_file_def fail_transfer_def Let_def job_fault_coherent update_progress_coherent
        split: option.splits sum.splits prod.splits if_splits)
qed


lemma transfer_files_coherent:
  assumes "feeds_keep feeds" "coherent s"
    and "transfer_files h ports shown k rq st feeds i fs vs (s, d) = (out, (s', d'))"
  shows "coherent s'"
  using assms(2,3)
proof (induction fs arbitrary: i vs s d)
  case (Cons f fs)
  obtain x s1 d1 where x: "transfer_file h ports shown k rq st (feeds i) f (s, d) = (x, (s1, d1))"
    by (metis prod_cases3)
  have c: "coherent s1"
    using transfer_file_coherent [OF Cons.prems(1) _ x] assms(1) by (simp add: feeds_keep_def)
  show ?case using Cons.prems(2) Cons.IH [OF c] c x by (auto split: sum.splits)
qed simp

lemma transfer_files_coherent':
  assumes "feeds_keep feeds" "coherent s"
  shows "coherent (fst (snd (transfer_files h ports shown k rq st feeds i fs vs (s, d))))"
  using transfer_files_coherent [OF assms] by (metis prod.collapse)

lemma worker_transfer_coherent:
  assumes "feeds_keep (wk_feeds w)" "coherent s"
  shows "coherent (fst (snd (worker_transfer w k (s, d))))"
  using assms transfer_files_coherent' [OF assms]
  by (auto simp: worker_transfer_def run_transfer_def fail_transfer_def Let_def job_fault_coherent
      split: option.splits sum.splits prod.splits)

lemma plane_at_keeps:
  assumes "feeds_keep (wk_feeds w)"
  shows "plane_keeps (plane_at w d) k"
proof -
  have "coherent s \<Longrightarrow> coherent (snd (pl_transfer (plane_at w d) k s))" for s
    using worker_transfer_coherent [OF assms, of s k d] by (auto simp: plane_at_def split: prod.splits)
  moreover have "coherent s \<Longrightarrow> coherent (snd (pl_commit (plane_at w d) k s))" for s
    by (simp add: plane_at_def worker_commit_def split: prod.splits option.splits)
  ultimately show ?thesis by (simp add: plane_keeps_def keeps_def)
qed

lemma world_pass_coherent:
  assumes "feeds_keep (wk_feeds w)" "coherent (fst x)"
  shows "coherent (fst (either (world_pass w k x)))"
proof (cases x)
  case (Pair s d)
  with process_pass_coherent [where plane = "plane_at w d" and k = k and ports = "wk_ports w" and
      clock = "wk_clock w" and shown = "wk_shown_verify w", OF assms(2) plane_at_keeps [OF assms(1)]]
  show ?thesis
    by (cases "process_pass (plane_at w d) (wk_ports w) (wk_clock w) (wk_shown_verify w) k s")
      (auto simp: world_pass_def)
qed

lemma world_loop_coherent:
  assumes "feeds_keep (wk_feeds w)" "\<And>n x. coherent (fst x) \<Longrightarrow> coherent (fst (between n x))"
    and "coherent (fst x)" "world_loop fuel between w k x = Some y"
  shows "coherent (fst y)"
  using assms(3,4)
proof (induction fuel arbitrary: x)
  case (Suc n)
  have "coherent (fst (between n x))" using Suc.prems(1) assms(2) by simp
  then have "coherent (fst (either (world_pass w k (between n x))))"
    by (rule world_pass_coherent [OF assms(1)])
  then show ?case using Suc.IH Suc.prems(2)
    by (cases "world_pass w k (between n x)") simp_all
qed simp

section \<open>Succeeded means published\<close>

lemma failed_commit_state:
  assumes "in_jobs s k = Some m" "mj_state m = Committing"
  shows "\<exists>m'. in_jobs (snd (worker_report clock k (CommitFailed code r) s)) k = Some m' \<and> mj_state m' \<noteq> Succeeded"
  using assms
  by (auto simp: worker_report_def apply_command_def apply_checked_def apply_decision_def load_aggregate_def
      decide_worker_def accepted_def commit_def co_bind_def co_return_def commit_transition_def update_job_def
      update_cell_def job_fault_def record_fault_def rejected_def co_fail_def no_op_def
      split: option.splits sum.splits prod.splits)

lemma coherent_state:
  assumes "coherent s" "in_jobs s k = Some m" "job_view (in_store s) k = Some (st, v, d)"
  shows "mj_state m = st"
proof -
  have "in_cells s k \<noteq> None" using assms(1,2) by (auto simp: coherent_def)
  then obtain c where "in_cells s k = Some c" by blast
  then have "mem_view s k = Some (mj_state m, cl_version c, mj_desired m)" using assms(2) by (simp add: mem_view_def)
  with assms(1,3) show ?thesis by (auto simp: coherent_def map_le_def dom_def)
qed



lemma complete_job_commits:
  assumes st: "request_staging h root (mj_request m) = Inr st" and root: "root \<noteq> []"
    and scope: "mj_scope m = FullSession" and accepts: "verify_request_publication ports (mj_request m) = Inr ()"
    and disk: "tree_wf d" "no_faults d" "staged_session h st (job_manifest (mj_request m)) d"
    and codec: "reads_back mc (revision_marker st (job_manifest (mj_request m)))"
    and old: "plain_seal (subtree d (published_dir st))" "\<not> carries mc st (subtree d (published_dir st))"
      "plain_seal (subtree d (superseded_dir st))" "\<not> carries mc st (subtree d (superseded_dir st))"
    and way: "clear_way d (published_dir st)" "clear_way d (superseded_dir st)"
      "lookup d (published_dir st) = None \<or> (\<nexists>b. lookup d (superseded_dir st) = Some (NFile b))"
  shows "\<exists>d'. do_commit h mc ports shown shown_publish root m d = (None, d') \<and>
    manifest_tree h mc st (job_manifest (mj_request m)) (subtree d' (published_dir st))"
proof -
  let ?rq = "mj_request m"
  note P = for_publication_ok [OF st [unfolded request_staging_def] root]
  have mf: "mf_device_id (job_manifest ?rq) = st_device_id st" "mf_session_id (job_manifest ?rq) = st_session_id st"
    using P by (simp_all add: job_manifest_def from_plans_def)
  have "po_verify ports (pe_payload (request_envelope ?rq)) (pe_signature (request_envelope ?rq))
      (pe_public_key (request_envelope ?rq)) = Inr ()" "st_revision st = from_publication h (pe_payload (request_envelope ?rq))"
    using accepts P by (simp_all add: verify_request_publication_def request_envelope_def)
  from session_commits [where shown = shown_publish and files = "mj_verified m" and verifier = "po_verify ports"
      and e = "request_envelope ?rq" and st = st and m = "job_manifest ?rq" and mc = mc and h = h and d = d,
      OF _ disk codec old way this mf] P
  show ?thesis using st scope by (auto simp: do_commit_def Let_def)
qed

text \<open>What \<open>do_commit\<close> needs of the disk: the session staged, its places free to publish.\<close>

definition ready_to_commit :: "Host \<Rightarrow> MarkerCodec \<Rightarrow> SessionStaging \<Rightarrow> SessionManifest \<Rightarrow> Disk \<Rightarrow> bool" where
  "ready_to_commit h mc st mf d \<longleftrightarrow> tree_wf d \<and> no_faults d \<and> staged_session h st mf d \<and>
    reads_back mc (revision_marker st mf) \<and>
    plain_seal (subtree d (published_dir st)) \<and> \<not> carries mc st (subtree d (published_dir st)) \<and>
    plain_seal (subtree d (superseded_dir st)) \<and> \<not> carries mc st (subtree d (superseded_dir st)) \<and>
    clear_way d (published_dir st) \<and> clear_way d (superseded_dir st) \<and>
    (lookup d (published_dir st) = None \<or> (\<nexists>b. lookup d (superseded_dir st) = Some (NFile b)))"

lemma committed_pass:
  assumes po: "poised k Committing v desired rq s" and room: "unat v < i64_max" and m: "in_jobs s k = Some m"
    and commit: "do_commit (wk_host w) (wk_codec w) (wk_ports w) (wk_shown w) (wk_shown_publish w)
      (in_library_root s) m d = (None, d')"
  shows "\<exists>s' de. world_pass w k (s, d) = Inl (s', d') \<and> job_view (in_store s') k = Some (Succeeded, v + 1, de)"
proof -
  have st: "mj_state m = Committing" using poised_job [OF po] m by auto
  from report_succeeds [OF po, of CommitComplete Succeeded "wk_clock w"] room obtain s' de where
    "worker_report (wk_clock w) k CommitComplete s = (Inr Accepted, s')" "coherent s'"
    "mem_view s' k = Some (Succeeded, v + 1, de)" by (auto simp: parked_def)
  moreover from this have "job_view (in_store s') k = Some (Succeeded, v + 1, de)"
    by (auto simp: coherent_def map_le_def dom_def)
  ultimately show ?thesis using m st commit
    by (auto simp: world_pass_def process_pass_def plane_at_def worker_commit_def disk_after_def Let_def parked_def)
qed


section \<open>A complete disk\<close>

text \<open>
  The job of the sample coordinator with its one file staged, beside an older session;
  the host's digest is constant so that the digest of the file is the one the request asks for.
\<close>

definition zero_host :: Host where
  "zero_host = ref_host (\<lambda>b. replicate 32 0)"

definition whole_request :: TransferRequest where
  "whole_request = request_from_spec sample_spec"

definition whole_staging :: SessionStaging where
  "whole_staging = \<lparr>st_library_root = [RootDir], st_device_id = ''dev'', st_session_id = ''s1'',
     st_revision = ''rev-'' @ replicate 32 CHR ''0''\<rparr>"

definition whole_disk :: Disk where
  "whole_disk = \<lparr>dk_nodes =
     [([RootDir], NDir 0),
      ([RootDir, Normal ''dev''], NDir 0),
      ([RootDir, Normal ''dev'', Normal ''s1''], NDir 0),
      ([RootDir, Normal ''dev'', Normal ''s1'', Normal ''old''], NFile [1]),
      ([RootDir, Normal STAGING_DIR_NAME], NDir 0),
      (file_root whole_staging, NDir 0),
      (file_root whole_staging @ [Normal ''dev''], NDir 0),
      (revision_dir whole_staging, NDir 0),
      (revision_dir whole_staging @ [Normal ''a.wav''], NFile [1, 2, 3, 4, 5])],
     dk_clock = 0, dk_faults = (\<lambda>_. None)\<rparr>"

lemma whole_request: "request_staging zero_host [RootDir] whole_request = Inr whole_staging"
  by code_simp

lemma whole_ok: "staging_ok whole_staging"
  using for_publication_ok [OF whole_request [unfolded request_staging_def]] by simp

lemma whole_wf: "tree_wf whole_disk"
  by (rule tree_wf_exec) code_simp

lemma whole_no_faults: "no_faults whole_disk"
  by (simp add: no_faults_def whole_disk_def)

lemma whole_paths:
  "file_root whole_staging = [RootDir, Normal STAGING_DIR_NAME, Normal (''rev-'' @ replicate 32 CHR ''0'')]"
  "revision_dir whole_staging = file_root whole_staging @ [Normal ''dev'', Normal ''s1'']"
  "published_dir whole_staging = [RootDir, Normal ''dev'', Normal ''s1'']"
  using staging_paths [OF whole_ok] by (simp_all add: whole_staging_def)

lemma whole_manifest: "job_manifest whole_request = \<lparr>mf_device_id = ''dev'', mf_session_id = ''s1'', mf_files =
     [\<lparr>ea_file_id = ''a'', ea_target_relative_path = Some ''a.wav'', ea_expected_size = 5,
       ea_expected_sha256_hex = Some (replicate 64 CHR ''0'')\<rparr>]\<rparr>"
  by code_simp

lemma whole_staged: "staged_session zero_host whole_staging (job_manifest whole_request) whole_disk"
proof -
  let ?R = "revision_dir whole_staging"
  have here: "lookup whole_disk (?R @ [Normal ''a.wav'']) = Some (NFile [1, 2, 3, 4, 5])"
    "lookup whole_disk ?R = Some (NDir 0)"
    "lookup whole_disk (?R @ [Normal REVISION_MARKER_NAME]) = None"
    "lookup whole_disk (?R @ [Normal (REVISION_MARKER_NAME @ ''.tmp'')]) = None"
    "lookup whole_disk (?R @ [Normal (SELECTED_MARKER_NAME @ ''.tmp'')]) = None" by code_simp+
  have seg: "target_segments (hd (mf_files (job_manifest whole_request))) = [''a.wav'']"
    "content_matches zero_host (hd (mf_files (job_manifest whole_request))) [1, 2, 3, 4, 5]"
    "targets_derivable whole_staging (job_manifest whole_request)" by code_simp+
  have only: "ns = [] \<or> ns = [''a.wav'']" if "lookup whole_disk (?R @ map Normal ns) = Some n" for ns n
  proof -
    from that have "?R @ map Normal ns \<in> fst ` set (dk_nodes whole_disk)" by (metis map_of_SomeD fst_conv image_eqI)
    then show ?thesis
      by (auto simp: whole_disk_def whole_paths STAGING_DIR_NAME_def map_eq_Cons_conv)
  qed
  have "exact_tree zero_host (job_manifest whole_request) (subtree whole_disk ?R)"
    unfolding exact_tree_def subtree_def
    using here(1,2) seg(1,2) only by (auto simp: whole_manifest) (metis append_Nil2 list.map(1) option.inject)
  then show ?thesis using here seg(3) by (simp add: staged_session_def is_dir_at_def)
qed

definition sample_interrupt :: "nat \<Rightarrow> Inner \<Rightarrow> Inner" where
  "sample_interrupt k t =
    (if 1 \<le> k then update_control ''job-1'' (\<lambda>c. request_interrupt c IrCancel) sample_coordinator else t)"

definition sample_body :: TrackingBody where
  "sample_body = \<lparr>tb_job_id = ''job-1'', tb_file_id = ''a'', tb_offset = 7, tb_since_checkpoint = 0, tb_threshold = 100\<rparr>"


text \<open>A codec that keeps the counts of this session.\<close>

definition whole_codec :: MarkerCodec where
  "whole_codec = ref_codec\<lparr>mc_revision_from_json :=
     (\<lambda>b. Some \<lparr>rm_revision = map (\<lambda>w. char_of (unat w)) b, rm_file_count = 1, rm_total_bytes = 5\<rparr>)\<rparr>"

lemma whole_ready: "ready_to_commit zero_host whole_codec whole_staging (job_manifest whole_request) whole_disk"
proof -
  have "clear_way whole_disk (published_dir whole_staging)" "clear_way whole_disk (superseded_dir whole_staging)"
    by (rule clear_way_exec, code_simp)+
  moreover have "lookup whole_disk (superseded_dir whole_staging) = None" by code_simp
  moreover have "subtree whole_disk (published_dir whole_staging) [Normal REVISION_MARKER_NAME] = None"
    "subtree whole_disk (superseded_dir whole_staging) [Normal REVISION_MARKER_NAME] = None" by code_simp+
  moreover have "reads_back whole_codec (revision_marker whole_staging (job_manifest whole_request))"
    unfolding reads_back_def by code_simp
  ultimately show ?thesis
    using whole_wf whole_no_faults whole_staged
    by (simp add: ready_to_commit_def plain_seal_def carries_def tree_seal_def)
qed

definition whole_worker :: Worker where
  "whole_worker = \<lparr>wk_host = zero_host, wk_codec = whole_codec, wk_ports = sample_ports, wk_clock = sample_clock,
     wk_shown = (\<lambda>_. []), wk_shown_publish = (\<lambda>_. []), wk_shown_verify = id, wk_feeds = (\<lambda>_. Inl (Source []))\<rparr>"

lemma whole_worker_parts:
  "wk_host whole_worker = zero_host" "wk_codec whole_worker = whole_codec" "wk_ports whole_worker = sample_ports"
  "wk_shown whole_worker = (\<lambda>_. [])" "wk_shown_publish whole_worker = (\<lambda>_. [])"
  by (simp_all add: whole_worker_def)

lemma whole_accepts: "verify_request_publication sample_ports whole_request = Inr ()"
  by (simp add: sample_ports_def verify_request_publication_def)

text \<open>The sample job brought to the state in which it publishes.\<close>

lemma whole_poised:
  "\<exists>s v de m. poised ''job-1'' Committing v de whole_request s \<and> unat v < i64_max \<and>
    in_jobs s ''job-1'' = Some m \<and> mj_scope m = FullSession \<and> in_library_root s = [RootDir]"
proof -
  have plane: "plane_succeeds sample_plane ''job-1''"
    by (simp add: plane_succeeds_def sample_plane_def spares_def)
  have ready: "readiness (po_device sample_ports n (tr_device_id whole_request)) = Ready"
    "verify_request_publication sample_ports whole_request = Inr ()" for n
    by (simp_all add: sample_ports_def readiness_def verify_request_publication_def)
  have q0: "poised ''job-1'' Queued 1 Run whole_request sample_coordinator"
    using sample_poised by (simp add: whole_request_def)
  from pass_parked [OF q0 _ _ ready(1), of sample_plane sample_clock id] obtain s1 v1 d1 where
    s1: "poised ''job-1'' Preparing v1 d1 whole_request s1" "unat v1 \<le> 3" by (auto simp: parked_def i64_max_def)
  from pass_preparing [OF s1(1) _ ready(2), of sample_plane sample_clock id] s1(2) obtain s2 v2 d2 where
    s2: "poised ''job-1'' Transferring v2 d2 whole_request s2" "unat v2 \<le> 4" by (auto simp: i64_max_def)
  from pass_transferring [OF s2(1) _ plane, of sample_ports sample_clock id] s2(2) obtain s3 v3 d3 where
    s3: "poised ''job-1'' Verifying v3 d3 whole_request s3" "unat v3 \<le> 5" by (auto simp: i64_max_def)
  from pass_verifying [OF s3(1), of sample_plane sample_ports sample_clock id] s3(2) obtain s4 v4 d4 where
    s4: "poised ''job-1'' Committing v4 d4 whole_request s4" "unat v4 \<le> 6" by (auto simp: i64_max_def)
  let ?s = "update_job ''job-1'' (\<lambda>m. m\<lparr>mj_scope := FullSession\<rparr>) (s4\<lparr>in_library_root := [RootDir]\<rparr>)"
  have "quiet_step s4 (s4\<lparr>in_library_root := [RootDir]\<rparr>)" "Coordinator_Liveness.same_request s4 (s4\<lparr>in_library_root := [RootDir]\<rparr>)"
    by (simp_all add: quiet_step_def mem_view_def Coordinator_Liveness.same_request_def)
  from poised_quiet [OF s4(1) this] have "poised ''job-1'' Committing v4 d4 whole_request (s4\<lparr>in_library_root := [RootDir]\<rparr>)"
    by (simp add: parked_def)
  from poised_quiet [OF this quiet_update_job, of "\<lambda>m. m\<lparr>mj_scope := FullSession\<rparr>" "''job-1''"]
  have po: "poised ''job-1'' Committing v4 d4 whole_request ?s"
    by (auto simp: parked_def Coordinator_Liveness.same_request_def update_job_def split: option.splits)
  obtain m where "in_jobs s4 ''job-1'' = Some m" using poised_job [OF s4(1)] by blast
  then have "in_jobs ?s ''job-1'' = Some (m\<lparr>mj_scope := FullSession\<rparr>)" "in_library_root ?s = [RootDir]"
    by (simp_all add: update_job_def)
  then show ?thesis using po s4(2) by (intro exI conjI) (auto simp: i64_max_def)
qed




end
