(* ===== verification/Staged_Transfer.thy ===== *)
theory Staged_Transfer
  imports Worker_World
begin

text \<open>
  A finished transfer: when \<open>run_transfer\<close> reports that every file is done, every file of
  the request lies in the staging area of the revision with its expected size and
  digest, also the ones downloaded first, because a download touches nothing but its own
  target, its partial state and the directories above it.
\<close>

section \<open>What one download touches\<close>

definition transfer_scope :: "path \<Rightarrow> path set" where
  "transfer_scope t = below t \<union> engine_scope t"

lemma touches_commit_part:
  assumes t: "t = base @ [Normal n]"
  shows "touches (side_files t) (transfer_scope t) (commit_part (part_path t) (journal_path t) t parent)"
proof -
  have side: "part_path t \<in> side_files t" "part_path t \<in> transfer_scope t" "journal_path t \<in> transfer_scope t"
    by (simp_all add: transfer_scope_def side_files_def engine_scope_def)
  have moved: "touches (side_files t) (transfer_scope t) (rename (part_path t) t)"
    by (rule touches_rename) (use t in \<open>auto simp: transfer_scope_def engine_scope_def side_files_def side_paths below_iff\<close>)
  show ?thesis
    unfolding commit_part_def
    by (rule touches_opened [OF side(1,2)], rule touches_dl_bind, (intro touchesI)[1], rule touches_dl_bind,
        rule touches_dl_io, rule moved, intro touchesI side)
qed

lemma touches_fetch_and_commit:
  assumes t: "t = base @ [Normal n]"
  shows "touches (side_files t) (transfer_scope t) (fetch_and_commit h source plan t parent)"
proof -
  have sub: "engine_scope t \<subseteq> transfer_scope t" by (simp add: transfer_scope_def)
  have "touches (side_files t) (transfer_scope t) (recover_partial h (part_path t) (journal_path t))"
    "touches (side_files t) (transfer_scope t) (verify_part h plan (part_path t) (journal_path t))"
    "touches (side_files t) (transfer_scope t) (attempt_loop h plan (part_path t) (journal_path t) source k jo off)"
    for k jo off
    by (rule touches_mono [OF _ sub], rule touches_recover_partial [OF t] touches_verify_part touches_attempt_loop [OF t])+
  note parts = this touches_commit_part [OF t]
  show ?thesis
    unfolding fetch_and_commit_def by (intro touchesI touches_dl_bind) (auto intro!: touchesI touches_dl_bind parts)
qed

lemma touches_settle:
  "touches (side_files t) (transfer_scope t) (settle_target plan t status)"
proof -
  have "touches (side_files t) (transfer_scope t) (discard_partial (part_path t) (journal_path t))"
    by (rule touches_mono [OF touches_discard_partial]) (simp add: transfer_scope_def)
  then show ?thesis
    unfolding settle_target_def by (cases status) (auto intro!: touchesI simp: transfer_scope_def)
qed

lemma download_at_frame:
  assumes t: "t = base @ [Normal n]" and N: "\<forall>p\<in>side_files t. no_symlink d p"
    and der: "derive_target_path_for_file root (fp_device_id plan) (fp_session_id plan)
      (fp_file_id plan) (fp_target_relative_path plan) = Inr t"
    and run: "download_at h source plan root t parent d = (r, d')" and q: "q \<notin> transfer_scope t"
  shows "lookup d' q = lookup d q"
proof -
  obtain status d1 where jd: "dl_judge h root plan d = (Inr status, d1)"
    by (cases "dl_judge h root plan d") (auto simp: dl_judge_def split: prod.splits)
  note j = dl_judge_result [OF der jd]
  have N1: "\<forall>p\<in>side_files t. no_symlink d1 p" using N j(1) by (simp add: no_symlink_def)
  have rest: "touches (side_files t) (transfer_scope t) (dl_bind (settle_target plan t status) (\<lambda>settled. case settled of
        Some verified \<Rightarrow> dl_return verified
      | None \<Rightarrow> fetch_and_commit h source plan t parent))"
    by (intro touches_dl_bind touches_settle) (auto intro!: touchesI touches_fetch_and_commit [OF t] split: option.splits)
  have "dl_bind (settle_target plan t status) (\<lambda>settled. case settled of
        Some verified \<Rightarrow> dl_return verified
      | None \<Rightarrow> fetch_and_commit h source plan t parent) d1 = (r, d')"
    using run jd by (simp add: download_at_def dl_bind_fst)
  from touches_run(1) [OF rest this N1 q] j(1) show ?thesis by simp
qed

lemma download_file_step:
  assumes root: "root \<noteq> []"
    and der: "derive_target_path_for_file root (fp_device_id plan) (fp_session_id plan)
      (fp_file_id plan) (fp_target_relative_path plan) = Inr t"
    and tmp: "no_symlink d (journal_tmp t)" and run: "download_file h source plan root d = (r, d')"
  shows "q \<notin> transfer_scope t \<Longrightarrow> lookup d' q = lookup d q"
    and "r = Inr vf \<Longrightarrow> committed h plan d' t \<and> vf_path vf = t"
proof -
  obtain base n mid where t: "t = base @ [Normal n]" and mid: "base = root @ mid" and parent: "path_parent t = Some base"
    using derived_target_leaf [OF root der] .
  let ?part = "part_path t"
  define prep where "prep = dl_bind (prepare_target_parent (host_lower h) root t) (\<lambda>_.
      case part_name ?part of None \<Rightarrow> dl_return ()
      | Some name \<Rightarrow> check_case_insensitive_collision (host_lower h) base name)"
  have "touches {journal_tmp t} {take k t | k. k < length t} prep"
    unfolding prep_def using t mid
    by (intro touchesI touches_prepare_target_parent [where rel = "mid @ [Normal n]"])
      (auto intro: touchesI split: option.splits)
  then have prep: "touches {journal_tmp t} (transfer_scope t) prep"
    by (rule touches_mono) (auto simp: transfer_scope_def engine_scope_def)
  have body: "(\<exists>e. r = Inl e \<and> d' = d) \<or>
      dl_bind prep (\<lambda>_. dl_bind (reject_symlink ?part) (\<lambda>_. download_at h source plan root t base)) d = (r, d')"
    using der run parent
    by (cases "validate_plan plan")
      (auto simp: download_file_def dl_bind_fst [of "dl_lift _"] dl_lift_def prep_def dl_bind_assoc)
  have "(q \<notin> transfer_scope t \<longrightarrow> lookup d' q = lookup d q) \<and> (r = Inr vf \<longrightarrow> committed h plan d' t \<and> vf_path vf = t)"
    if "dl_bind prep (\<lambda>_. dl_bind (reject_symlink ?part) (\<lambda>_. download_at h source plan root t base)) d = (r, d')"
    using that
  proof (cases rule: dl_bind_cases)
    case (fail e)
    with touches_run(1) [OF prep fail(1)] tmp show ?thesis by auto
  next
    case (step x d1)
    have k: "q \<notin> transfer_scope t \<Longrightarrow> lookup d1 q = lookup d q" "no_symlink d1 (journal_tmp t)"
      using touches_run [OF prep step(1)] tmp by auto
    from step(2) show ?thesis
    proof (cases rule: dl_bind_cases)
      case (fail e)
      with touches_run(1) [OF touches_reject_symlink [of "{}" "{}"] fail(1)] k(1) show ?thesis by auto
    next
      case (step y d2)
      note rj = reject_symlink_ok [OF step(1)]
      have N: "\<forall>p\<in>side_files t. no_symlink d2 p" using rj k(2) by (simp add: side_files_def)
      from download_at_frame [OF t N der step(2)] download_at_safe(2) [OF t N der step(2)] rj k(1)
      show ?thesis by auto
    qed
  qed
  then show "q \<notin> transfer_scope t \<Longrightarrow> lookup d' q = lookup d q"
    and "r = Inr vf \<Longrightarrow> committed h plan d' t \<and> vf_path vf = t"
    using body by auto
qed

section \<open>A whole transfer\<close>

text \<open>Where a file of a request is staged.\<close>

definition staged_target :: "SessionStaging \<Rightarrow> JobFile \<Rightarrow> path" where
  "staged_target st f = revision_dir st @ map Normal (local_segments (file_id f) (target_relative_path f))"

text \<open>A later download does not reach an earlier target, nor an earlier one a later journal.\<close>

definition independent_targets :: "path list \<Rightarrow> bool" where
  "independent_targets ts \<longleftrightarrow>
    sorted_wrt (\<lambda>t u. t \<notin> transfer_scope u \<and> journal_tmp u \<notin> transfer_scope t) ts"

lemma download_into_step:
  assumes ok: "staging_ok st" and tmp: "no_symlink d (journal_tmp (staged_target st f))"
    and run: "download_into h source st (file_plan rq f) d = (Inr vf, d')"
  shows "q \<notin> transfer_scope (staged_target st f) \<Longrightarrow> lookup d' q = lookup d q"
    and "committed h (file_plan rq f) d' (staged_target st f)" and "vf_path vf = staged_target st f"
proof -
  have dl: "download_file h source (file_plan rq f) (file_root st) d = (Inr vf, d')"
    and id: "fp_device_id (file_plan rq f) = st_device_id st" "fp_session_id (file_plan rq f) = st_session_id st"
    using run by (auto simp: download_into_def dl_fail_def split: if_splits)
  have root: "file_root st \<noteq> []" using ok by (simp add: staging_paths)
  obtain t where t: "derive_target_path_for_file (file_root st) (fp_device_id (file_plan rq f)) (fp_session_id (file_plan rq f))
      (fp_file_id (file_plan rq f)) (fp_target_relative_path (file_plan rq f)) = Inr t"
    using dl by (auto simp: download_file_def dl_bind_Inr dl_lift_def map_sum_Inr)
  have "t = staged_target st f"
    using derive_shape [OF root, THEN iffD1, OF t] id ok
    by (simp add: staged_target_def file_plan_def staging_paths)
  note D = download_file_step [OF root t [unfolded this] tmp dl]
  show "q \<notin> transfer_scope (staged_target st f) \<Longrightarrow> lookup d' q = lookup d q" by (rule D(1))
  show "committed h (file_plan rq f) d' (staged_target st f)" "vf_path vf = staged_target st f"
    using D(2) by simp_all
qed

lemma transfer_file_step:
  assumes "transfer_file h ports shown j rq st feed f (s, d) = (Inr vf, (s', d'))"
  shows "\<exists>source. download_into h source st (file_plan rq f) d = (Inr vf, d')"
  using assms by (auto simp: transfer_file_def Let_def split: option.splits sum.splits prod.splits if_splits)

lemma transfer_file_stops:
  "fst (transfer_file h ports shown j rq st feed f w) \<noteq> Inl (AllDone vs)"
  by (auto simp: transfer_file_def fail_transfer_def interrupt_outcome_def pre_file_interrupt_check_def Let_def
      split: prod.splits option.splits sum.splits if_splits InterruptReason.splits DeviceReadiness.splits)

lemma transfer_files_staged:
  assumes ok: "staging_ok st"
  shows "independent_targets (map (staged_target st) fs) \<Longrightarrow>
    \<forall>f\<in>set fs. no_symlink d (journal_tmp (staged_target st f)) \<Longrightarrow>
    transfer_files h ports shown j rq st feeds i fs verified (s, d) = (AllDone vs, (s', d')) \<Longrightarrow>
    (\<exists>ws. vs = verified @ ws \<and> map vf_path ws = map (staged_target st) fs) \<and>
    (\<forall>f\<in>set fs. committed h (file_plan rq f) d' (staged_target st f)) \<and>
    (\<forall>q. (\<forall>f\<in>set fs. q \<notin> transfer_scope (staged_target st f)) \<longrightarrow> lookup d' q = lookup d q)"
proof (induction fs arbitrary: i verified s d)
  case (Cons f fs)
  obtain vf s1 d1 where
    one: "transfer_file h ports shown j rq st (feeds i) f (s, d) = (Inr vf, (s1, d1))"
    and rest: "transfer_files h ports shown j rq st feeds (Suc i) fs (verified @ [vf]) (s1, d1) = (AllDone vs, (s', d'))"
    using Cons.prems(3)
    using transfer_file_stops [of h ports shown j rq st "feeds i" f "(s, d)" vs]
    by (cases "transfer_file h ports shown j rq st (feeds i) f (s, d)" rule: prod_cases3)
      (auto split: sum.splits)
  obtain source where dl: "download_into h source st (file_plan rq f) d = (Inr vf, d1)"
    using transfer_file_step [OF one] by blast
  note D = download_into_step [OF ok _ dl]
  have tmp: "no_symlink d (journal_tmp (staged_target st f))" using Cons.prems(2) by simp
  have ind: "\<forall>g\<in>set fs. staged_target st f \<notin> transfer_scope (staged_target st g) \<and>
      journal_tmp (staged_target st g) \<notin> transfer_scope (staged_target st f)"
    "independent_targets (map (staged_target st) fs)"
    using Cons.prems(1) by (auto simp: independent_targets_def)
  have "\<forall>g\<in>set fs. no_symlink d1 (journal_tmp (staged_target st g))"
    using D(1) [OF tmp] ind(1) Cons.prems(2) by (simp add: no_symlink_def)
  note I = Cons.IH [OF ind(2) this rest]
  have "lookup d' (staged_target st f) = lookup d1 (staged_target st f)" using I ind(1) by blast
  then have "committed h (file_plan rq f) d' (staged_target st f)" using D(2) [OF tmp] by (simp add: committed_def)
  then show ?case using I D(1,3) [OF tmp] by auto
qed simp

lemma staged_target_leaf:
  assumes "staging_ok st"
  obtains base n where "staged_target st f = base @ [Normal n]" "length (revision_dir st) \<le> length base"
proof -
  obtain segs n where "local_segments (file_id f) (target_relative_path f) = segs @ [n]"
    by (cases "local_segments (file_id f) (target_relative_path f)" rule: rev_cases)
      (auto simp: local_segments_def split: option.splits)
  then show thesis by (intro that [of "revision_dir st @ map Normal segs" n]) (simp_all add: staged_target_def)
qed

lemma prepare_keeps_journal:
  assumes ok: "staging_ok st" and run: "prepare st d = (r, d')"
  shows "lookup d' (journal_tmp (staged_target st f)) = lookup d (journal_tmp (staged_target st f))"
proof -
  let ?S = "{take k (revision_dir st) | k. k \<le> length (revision_dir st)}"
  have "touches {} ?S (prepare st)"
    unfolding prepare_def by (intro touchesI) (auto intro!: touchesI)
  note T = touches_run(1) [OF this run]
  obtain base n where "staged_target st f = base @ [Normal n]" "length (revision_dir st) \<le> length base"
    using staged_target_leaf [OF ok] .
  then have "length (revision_dir st) < length (journal_tmp (staged_target st f))"
    by (simp add: journal_tmp_def journal_path_def part_path_def tmp_path_def push_suffix_def)
  then have "journal_tmp (staged_target st f) \<notin> ?S" by (auto dest!: arg_cong [where f = length])
  then show ?thesis using T by simp
qed


definition pair_request :: TransferRequest where
  "pair_request = whole_request\<lparr>tr_files := [
     \<lparr>file_id = ''a'', target_relative_path = Some ''a.wav'', expected_size = 5,
      expected_sha256_hex = replicate 64 CHR ''0''\<rparr>,
     \<lparr>file_id = ''b'', target_relative_path = None, expected_size = 5,
      expected_sha256_hex = replicate 64 CHR ''0''\<rparr>]\<rparr>"

definition pair_job :: ManagedJob where
  "pair_job = sample_job\<lparr>mj_request := pair_request, mj_state := Transferring\<rparr>"

definition pair_start :: Inner where
  "pair_start = sample_start\<lparr>in_jobs := [''job-1'' \<mapsto> pair_job], in_library_root := [RootDir]\<rparr>"

definition pair_disk :: Disk where
  "pair_disk = whole_disk\<lparr>dk_nodes := dk_nodes whole_disk @
     [(revision_dir whole_staging @ [Normal ''b''], NFile [5, 4, 3, 2, 1])]\<rparr>"

definition pair_disk1 :: Disk where
  "pair_disk1 = snd (prepare whole_staging pair_disk)"

definition pair_plan :: "nat \<Rightarrow> FilePlan" where
  "pair_plan i = file_plan pair_request (tr_files pair_request ! i)"

definition pair_disk2 :: Disk where
  "pair_disk2 = snd (download_into zero_host sample_source whole_staging (pair_plan 0) pair_disk1)"

lemma pair_prepared: "fst (prepare whole_staging pair_disk) = Inr ()"
  by code_simp

lemma pair_first: "\<not> isl (fst (download_into zero_host sample_source whole_staging (pair_plan 0) pair_disk1))"
  by code_simp

lemma pair_second: "\<not> isl (fst (download_into zero_host sample_source whole_staging (pair_plan 1) pair_disk2))"
  by code_simp

lemma pair_plain:
  "no_symlink pair_disk (journal_tmp (revision_dir whole_staging @ [Normal ''a.wav'']))"
  "no_symlink pair_disk (journal_tmp (revision_dir whole_staging @ [Normal ''b'']))"
  by code_simp+

definition calm :: "Inner \<Rightarrow> bool" where
  "calm s \<longleftrightarrow> in_controls s ''job-1'' = None \<and> map_option mj_desired (in_jobs s ''job-1'') = Some Run"

lemma calm_file:
  assumes "calm s" and ok: "\<not> isl (fst (download_into zero_host sample_source st (file_plan rq f) d))"
  shows "\<exists>vf s'. transfer_file zero_host sample_ports shown ''job-1'' rq st (Inr \<lparr>fd_source = sample_source, fd_during = id\<rparr>) f
    (s, d) = (Inr vf, (s', snd (download_into zero_host sample_source st (file_plan rq f) d))) \<and> calm s'"
proof -
  obtain r s1 where dr: "device_readiness sample_ports (tr_device_id rq) s = (r, s1)" by fastforce
  have s1: "r = Ready" "calm s1"
    using dr assms(1) by (auto simp: device_readiness_def device_snapshot_def sample_ports_def readiness_def calm_def Let_def
        split: prod.splits)
  obtain vf d' where "download_into zero_host sample_source st (file_plan rq f) d = (Inr vf, d')"
    using ok by (cases "download_into zero_host sample_source st (file_plan rq f) d")
      (metis fst_conv isl_def sum.exhaust)
  then show ?thesis using dr s1 assms(1)
    by (auto simp: transfer_file_def pre_file_interrupt_check_def control_of_def JobControl_default_def calm_def
        update_progress_def split: option.splits)
qed


end
