(* ===== verification/Device_Actor.thy ===== *)
theory Device_Actor
  imports Device_State Job_Spec
begin

text \<open>
  One device's connection life cycle (\<open>device/actor.rs\<close>) and the wrapper of secrets
  (\<open>secret.rs\<close>): pairing with its short authentication string, the authenticated session
  with its epoch and publication key, heartbeats and the authenticated device refresh.
  The network client is an argument of the operations that call it.
\<close>

section \<open>Secrets\<close>

datatype Secret = Secret (expose_secret: string)

definition REDACTED :: string where "REDACTED = ''Secret([redacted])''"

definition secret_fmt :: "Secret \<Rightarrow> string" where
  "secret_fmt s = REDACTED"

definition secret_is_empty :: "Secret \<Rightarrow> bool" where
  "secret_is_empty s \<longleftrightarrow> expose_secret s = []"

text \<open>Equality folds over all bytes of two equally long texts.\<close>

unbundle bit_operations_syntax

definition secret_eq :: "Secret \<Rightarrow> Secret \<Rightarrow> bool" where
  "secret_eq a b \<longleftrightarrow>
    (let x = as_bytes (expose_secret a); y = as_bytes (expose_secret b) in
     if length x \<noteq> length y then False
     else fold (\<lambda>(p, q) diff. diff OR (p XOR q)) (zip x y) (0 :: u8) = 0)"

lemma xor_zero: "p XOR q = 0 \<longleftrightarrow> p = (q :: u8)"
proof
  assume "p XOR q = 0"
  then have "(p XOR q) XOR q = q" by simp
  then show "p = q" by (simp add: xor.assoc)
qed simp

lemma fold_xor_zero:
  "length x = length y \<Longrightarrow>
    fold (\<lambda>(p, q) diff. diff OR (p XOR q)) (zip x y) (d :: u8) = 0 \<longleftrightarrow> d = 0 \<and> x = y"
proof (induction x y arbitrary: d rule: list_induct2)
  case (Cons p x q y)
  have "d OR (p XOR q) = 0 \<longleftrightarrow> d = 0 \<and> p = q" by (simp add: or_eq_0_iff xor_zero)
  with Cons show ?case by auto
qed simp

section \<open>What a device answers\<close>

datatype PiClientErrorKind = PiUnauthorized | PiTimeout | PiOther

record PiClientError =
  pe_kind :: PiClientErrorKind
  pe_message :: string

record PairingCreatedView =
  pc_attempt_id :: string
  pc_phase :: PairingPhase
  pc_poll_secret :: string
  pc_sas :: string
  pc_expires_at :: string
  pc_sas_key :: "string option"

record PairingStatusView =
  ps_attempt_id :: string
  ps_phase :: PairingPhase
  ps_connection_token :: "string option"
  ps_sas :: string
  ps_expires_at :: string
  ps_sas_key :: "string option"

record HeartbeatOutcomeView =
  hb_idle_timeout_ms :: u64
  hb_absolute_expires_at :: string

record DeviceInfoView =
  dv_capture_activity :: CaptureActivityState
  dv_media_admission :: string
  dv_publication_key :: string

section \<open>The authenticated session\<close>

record AuthenticatedPiSession =
  as_token :: Secret
  as_tls_pin :: string
  as_publication_key :: "string option"
  as_epoch :: u64

datatype PiSessionError =
    EmptyToken
  | EmptyTlsPin
  | InvalidPublicationKey string
  | InvalidEpoch
  | PublicationKeyChanged
  | MissingPublicationKey

definition session_error_text :: "PiSessionError \<Rightarrow> string" where
  "session_error_text e =
    (case e of
       EmptyToken \<Rightarrow> ''authenticated Pi session token must not be empty''
     | EmptyTlsPin \<Rightarrow> ''authenticated Pi session TLS pin must not be empty''
     | InvalidPublicationKey s \<Rightarrow> ''authenticated Pi session publication key fingerprint is invalid: '' @ s
     | InvalidEpoch \<Rightarrow> ''authenticated Pi session epoch must be greater than zero''
     | PublicationKeyChanged \<Rightarrow> ''device publication key identity changed since the SAS-confirmed pairing; re-pair to confirm the new key''
     | MissingPublicationKey \<Rightarrow> ''authenticated Pi session has no SAS-confirmed publication key'')"

definition session_to_client_error :: "PiSessionError \<Rightarrow> PiClientError" where
  "session_to_client_error e = \<lparr>pe_kind = PiOther, pe_message = session_error_text e\<rparr>"

definition validate_publication_key :: "string \<Rightarrow> PiSessionError + unit" where
  "validate_publication_key value =
    (case strip_prefix ''sha256:'' value of
       None \<Rightarrow> Inl (InvalidPublicationKey ''expected sha256:<64 lowercase hex>'')
     | Some hex \<Rightarrow>
         if length hex \<noteq> 64 \<or> \<not> list_all is_lower_hex hex
         then Inl (InvalidPublicationKey ''expected sha256:<64 lowercase hex>'')
         else Inr ())"

definition PiSession_new ::
    "Secret \<Rightarrow> string \<Rightarrow> string option \<Rightarrow> u64 \<Rightarrow> PiSessionError + AuthenticatedPiSession" where
  "PiSession_new token tls_pin key epoch =
    (if secret_is_empty token then Inl EmptyToken
     else if is_blank tls_pin then Inl EmptyTlsPin
     else if epoch = 0 then Inl InvalidEpoch
     else result_bind (case key of None \<Rightarrow> Inr () | Some k \<Rightarrow> validate_publication_key k) (\<lambda>_.
       Inr \<lparr>as_token = token, as_tls_pin = tls_pin, as_publication_key = key, as_epoch = epoch\<rparr>))"

definition ensure_publication_key :: "AuthenticatedPiSession \<Rightarrow> string \<Rightarrow> PiSessionError + unit" where
  "ensure_publication_key s observed =
    result_bind (validate_publication_key observed) (\<lambda>_.
      case as_publication_key s of
        Some expected \<Rightarrow> if expected \<noteq> observed then Inl PublicationKeyChanged else Inr ()
      | None \<Rightarrow> Inr ())"

definition bind_publication_key ::
    "AuthenticatedPiSession \<Rightarrow> string \<Rightarrow> PiSessionError + AuthenticatedPiSession" where
  "bind_publication_key s observed =
    result_bind (ensure_publication_key s observed) (\<lambda>_. Inr (s\<lparr>as_publication_key := Some observed\<rparr>))"

section \<open>The actor\<close>

datatype PollPairingOutcome =
    NotPairing
  | PollStale
  | StillPending
  | PollConnected u64
  | PollRejected
  | PollExpired
  | PollError PiClientErrorKind

datatype HeartbeatApplyOutcome =
    HbNotConnected
  | HbStale
  | HbRenewed
  | HbExpired
  | HbError PiClientErrorKind

record PairingAttemptInfo =
  pi_attempt_id :: string
  pi_sas :: string
  pi_expires_at :: string

record DeviceActor =
  da_device :: Device
  da_poll_secret :: "string option"
  da_session :: "AuthenticatedPiSession option"
  da_next_epoch :: u64
  da_media_admission :: "string option"
  da_publication_key :: "string option"
  da_pending_sas_key :: "string option"
  da_sas_key :: "string option"

definition DeviceActor_new :: "Device \<Rightarrow> DeviceActor" where
  "DeviceActor_new d =
    \<lparr>da_device = d, da_poll_secret = None, da_session = None, da_next_epoch = 0,
     da_media_admission = None, da_publication_key = None, da_pending_sas_key = None, da_sas_key = None\<rparr>"

abbreviation da_connection :: "DeviceActor \<Rightarrow> ConnectionState" where
  "da_connection a \<equiv> dev_connection (da_device a)"

definition set_connection :: "ConnectionState \<Rightarrow> DeviceActor \<Rightarrow> DeviceActor" where
  "set_connection c a = a\<lparr>da_device := (da_device a)\<lparr>dev_connection := c\<rparr>\<rparr>"

definition current_epoch :: "DeviceActor \<Rightarrow> u64 option" where
  "current_epoch a = (case da_connection a of Connected _ e \<Rightarrow> Some e | _ \<Rightarrow> None)"

definition option_or :: "'a option \<Rightarrow> 'a option \<Rightarrow> 'a option" where
  "option_or x y = (case x of None \<Rightarrow> y | Some v \<Rightarrow> Some v)"

definition sas_publication_key :: "DeviceActor \<Rightarrow> string option" where
  "sas_publication_key a = option_or (Option.bind (da_session a) as_publication_key) (da_sas_key a)"

definition expected_publication_key :: "DeviceActor \<Rightarrow> string option" where
  "expected_publication_key a =
    option_or (option_or (Option.bind (da_session a) as_publication_key) (da_sas_key a)) (da_publication_key a)"

definition ensure_sas_confirmed_key :: "DeviceActor \<Rightarrow> string \<Rightarrow> PiClientError + unit" where
  "ensure_sas_confirmed_key a observed =
    (case da_session a of
       Some s \<Rightarrow> map_sum session_to_client_error (\<lambda>u. u) (ensure_publication_key s observed)
     | None \<Rightarrow>
         (case da_sas_key a of
            Some confirmed \<Rightarrow>
              if confirmed \<noteq> observed then
                Inl \<lparr>pe_kind = PiOther, pe_message =
                  ''device publication key identity changed since the SAS-confirmed pairing (confirmed '' @
                  confirmed @ '', device now presents '' @ observed @ ''); re-pair to confirm the new key''\<rparr>
              else Inr ()
          | None \<Rightarrow> Inr ()))"

definition actor_apply_pairing_created ::
    "PairingCreatedView \<Rightarrow> DeviceActor \<Rightarrow> PairingAttemptInfo \<times> DeviceActor" where
  "actor_apply_pairing_created c a =
    (\<lparr>pi_attempt_id = pc_attempt_id c, pi_sas = pc_sas c, pi_expires_at = pc_expires_at c\<rparr>,
     set_connection (Pairing (pc_attempt_id c) (pc_phase c))
       (a\<lparr>da_poll_secret := Some (pc_poll_secret c), da_session := None, da_publication_key := None,
          da_sas_key := None, da_pending_sas_key := pc_sas_key c\<rparr>))"

definition checkout_pairing_poll :: "DeviceActor \<Rightarrow> (string \<times> string) option" where
  "checkout_pairing_poll a =
    (case (da_connection a, da_poll_secret a) of
       (Pairing attempt_id _, Some secret) \<Rightarrow> Some (attempt_id, secret)
     | _ \<Rightarrow> None)"

text \<open>The end of a pairing attempt without a session.\<close>

definition pairing_failed :: "ConnectionState \<Rightarrow> DeviceActor \<Rightarrow> DeviceActor" where
  "pairing_failed c a =
    set_connection c (a\<lparr>da_poll_secret := None, da_session := None, da_publication_key := None,
      da_pending_sas_key := None, da_sas_key := None\<rparr>)"

definition pairing_allowed ::
    "string \<Rightarrow> string option \<Rightarrow> string option \<Rightarrow> DeviceActor \<Rightarrow> PollPairingOutcome \<times> DeviceActor" where
  "pairing_allowed attempt_id connection_token polled a =
    (case connection_token of
       None \<Rightarrow>
         (PollError PiOther,
          set_connection Disconnected (a\<lparr>da_poll_secret := None, da_pending_sas_key := None\<rparr>))
     | Some token \<Rightarrow>
         (let created = da_pending_sas_key a; a1 = a\<lparr>da_pending_sas_key := None\<rparr> in
          if created \<noteq> None \<and> polled \<noteq> None \<and> created \<noteq> polled then
            (PollError PiOther, set_connection Disconnected (a1\<lparr>da_poll_secret := None\<rparr>))
          else
            (let confirmed = option_or polled created;
                 epoch = da_next_epoch a1 + 1;
                 a2 = a1\<lparr>da_next_epoch := epoch\<rparr> in
             case PiSession_new (Secret token) (dev_tls_fingerprint (da_device a2)) confirmed epoch of
               Inl _ \<Rightarrow>
                 (PollError PiOther,
                  set_connection Disconnected (a2\<lparr>da_poll_secret := None, da_session := None, da_sas_key := None\<rparr>))
             | Inr s \<Rightarrow>
                 (PollConnected epoch,
                  set_connection (Connected attempt_id epoch)
                    (a2\<lparr>da_session := Some s, da_publication_key := None, da_sas_key := confirmed,
                        da_poll_secret := None\<rparr>)))))"

definition apply_pairing_status ::
    "string \<Rightarrow> PiClientError + PairingStatusView \<Rightarrow> DeviceActor \<Rightarrow> PollPairingOutcome \<times> DeviceActor" where
  "apply_pairing_status response_attempt_id result a =
    (if (case da_connection a of Pairing attempt_id _ \<Rightarrow> attempt_id = response_attempt_id | _ \<Rightarrow> False) then
       (case result of
          Inl e \<Rightarrow> (PollError (pe_kind e), a)
        | Inr status \<Rightarrow>
            (case ps_phase status of
               Pending \<Rightarrow> (StillPending, set_connection (Pairing response_attempt_id Pending) a)
             | Allowed \<Rightarrow> pairing_allowed response_attempt_id (ps_connection_token status) (ps_sas_key status) a
             | PairingRejected \<Rightarrow> (PollRejected, pairing_failed Disconnected a)
             | PairingCancelled \<Rightarrow> (PollRejected, pairing_failed Disconnected a)
             | PairingExpired \<Rightarrow> (PollExpired, pairing_failed (Expired ''pairing attempt expired'') a)))
     else (PollStale, a))"

definition apply_heartbeat_result ::
    "u64 \<Rightarrow> PiClientError + HeartbeatOutcomeView \<Rightarrow> DeviceActor \<Rightarrow> HeartbeatApplyOutcome \<times> DeviceActor" where
  "apply_heartbeat_result request_epoch result a =
    (if current_epoch a = Some request_epoch then
       (case result of
          Inr _ \<Rightarrow> (HbRenewed, a)
        | Inl e \<Rightarrow>
            if pe_kind e = PiUnauthorized then
              (HbExpired,
               set_connection (Expired (''heartbeat failed: '' @ pe_message e))
                 (a\<lparr>da_session := None, da_publication_key := None, da_sas_key := None\<rparr>))
            else (HbError (pe_kind e), a))
     else (HbStale, a))"

definition clear_connection_state :: "DeviceActor \<Rightarrow> DeviceActor" where
  "clear_connection_state a =
    set_connection Disconnected
      (a\<lparr>da_session := None, da_poll_secret := None, da_publication_key := None,
         da_pending_sas_key := None, da_sas_key := None\<rparr>)"

definition actor_apply_device_info :: "DeviceInfoView \<Rightarrow> DeviceActor \<Rightarrow> (PiClientError + unit) \<times> DeviceActor" where
  "actor_apply_device_info info a =
    (case ensure_sas_confirmed_key a (dv_publication_key info) of
       Inl e \<Rightarrow> (Inl e, a)
     | Inr _ \<Rightarrow>
         (case (case da_session a of
                  None \<Rightarrow> Inr a
                | Some s \<Rightarrow>
                    (case bind_publication_key s (dv_publication_key info) of
                       Inl e \<Rightarrow> Inl (session_to_client_error e)
                     | Inr bound \<Rightarrow> Inr (a\<lparr>da_session := Some bound\<rparr>))) of
            Inl e \<Rightarrow> (Inl e, a)
          | Inr a1 \<Rightarrow>
              (Inr (),
               a1\<lparr>da_device := (da_device a1)\<lparr>dev_capture_activity := dv_capture_activity info\<rparr>,
                  da_media_admission := Some (dv_media_admission info),
                  da_publication_key := Some (dv_publication_key info)\<rparr>)))"

section \<open>Operations that call the client\<close>

definition actor_start_pairing ::
    "(string \<Rightarrow> string \<Rightarrow> PiClientError + PairingCreatedView) \<Rightarrow> string \<Rightarrow> string \<Rightarrow> DeviceActor \<Rightarrow>
     (PiClientError + PairingAttemptInfo) \<times> DeviceActor" where
  "actor_start_pairing create name nonce a =
    (case create name nonce of
       Inl e \<Rightarrow> (Inl e, a)
     | Inr c \<Rightarrow> (case actor_apply_pairing_created c a of (info, a') \<Rightarrow> (Inr info, a')))"

definition actor_poll_pairing ::
    "(string \<Rightarrow> string \<Rightarrow> PiClientError + PairingStatusView) \<Rightarrow> DeviceActor \<Rightarrow> PollPairingOutcome \<times> DeviceActor" where
  "actor_poll_pairing get_status a =
    (case checkout_pairing_poll a of
       None \<Rightarrow> (NotPairing, a)
     | Some (attempt_id, secret) \<Rightarrow> apply_pairing_status attempt_id (get_status attempt_id secret) a)"

definition actor_heartbeat ::
    "(AuthenticatedPiSession \<Rightarrow> PiClientError + HeartbeatOutcomeView) \<Rightarrow> DeviceActor \<Rightarrow>
     HeartbeatApplyOutcome \<times> DeviceActor" where
  "actor_heartbeat beat a =
    (case da_session a of
       None \<Rightarrow> (HbNotConnected, a)
     | Some s \<Rightarrow> apply_heartbeat_result (as_epoch s) (beat s) a)"

definition actor_disconnect ::
    "(AuthenticatedPiSession \<Rightarrow> PiClientError + unit) \<Rightarrow> DeviceActor \<Rightarrow> (PiClientError + unit) \<times> DeviceActor" where
  "actor_disconnect revoke a =
    ((case da_session a of Some s \<Rightarrow> revoke s | None \<Rightarrow> Inr ()), clear_connection_state a)"

definition actor_refresh ::
    "(AuthenticatedPiSession \<Rightarrow> PiClientError + DeviceInfoView) \<Rightarrow> DeviceActor \<Rightarrow>
     (PiClientError + unit) \<times> DeviceActor" where
  "actor_refresh get_device a =
    (case da_session a of
       None \<Rightarrow> (Inl \<lparr>pe_kind = PiOther,
                 pe_message = ''refresh_capture_activity called without an authenticated session''\<rparr>, a)
     | Some s \<Rightarrow> (case get_device s of Inl e \<Rightarrow> (Inl e, a) | Inr info \<Rightarrow> actor_apply_device_info info a))"

text \<open>Catalog and download calls need a session and pass it on unchanged.\<close>

definition with_session ::
    "string \<Rightarrow> (AuthenticatedPiSession \<Rightarrow> PiClientError + 'a) \<Rightarrow> DeviceActor \<Rightarrow> PiClientError + 'a" where
  "with_session what call a =
    (case da_session a of
       None \<Rightarrow> Inl \<lparr>pe_kind = PiOther, pe_message = what @ '' called without an authenticated session''\<rparr>
     | Some s \<Rightarrow> call s)"

definition actor_list_sessions ::
    "(AuthenticatedPiSession \<Rightarrow> string option \<Rightarrow> u32 option \<Rightarrow> PiClientError + 'page) \<Rightarrow>
     string option \<Rightarrow> u32 option \<Rightarrow> DeviceActor \<Rightarrow> PiClientError + 'page" where
  "actor_list_sessions client cursor limit = with_session ''list_sessions'' (\<lambda>s. client s cursor limit)"

definition actor_get_session ::
    "(AuthenticatedPiSession \<Rightarrow> string \<Rightarrow> PiClientError + 'detail) \<Rightarrow> string \<Rightarrow> DeviceActor \<Rightarrow>
     PiClientError + 'detail" where
  "actor_get_session client session_id = with_session ''get_session'' (\<lambda>s. client s session_id)"

definition actor_delete_session ::
    "(AuthenticatedPiSession \<Rightarrow> string \<Rightarrow> string \<Rightarrow> string \<Rightarrow> PiClientError + 'receipt) \<Rightarrow>
     string \<Rightarrow> string \<Rightarrow> string \<Rightarrow> DeviceActor \<Rightarrow> PiClientError + 'receipt" where
  "actor_delete_session client session_id if_match key =
    with_session ''delete_session'' (\<lambda>s. client s session_id if_match key)"

definition actor_download_file ::
    "(AuthenticatedPiSession \<Rightarrow> string \<Rightarrow> string \<Rightarrow> string option \<Rightarrow> 'range option \<Rightarrow> PiClientError + 'download) \<Rightarrow>
     string \<Rightarrow> string \<Rightarrow> string option \<Rightarrow> 'range option \<Rightarrow> DeviceActor \<Rightarrow> PiClientError + 'download" where
  "actor_download_file client session_id fid if_match range_request =
    with_session ''download_file'' (\<lambda>s. client s session_id fid if_match range_request)"

definition actor_head_file ::
    "(AuthenticatedPiSession \<Rightarrow> string \<Rightarrow> string \<Rightarrow> string option \<Rightarrow> PiClientError + 'head) \<Rightarrow>
     string \<Rightarrow> string \<Rightarrow> string option \<Rightarrow> DeviceActor \<Rightarrow> PiClientError + 'head" where
  "actor_head_file client session_id fid if_match =
    with_session ''head_file'' (\<lambda>s. client s session_id fid if_match)"

section \<open>The invariant of an actor\<close>

text \<open>
  A session is held exactly while connected, under the epoch of the connection and the
  pin of the device, with a usable token; every other trust fact belongs to it.  Only a
  pairing device has a poll secret.
\<close>

definition session_inv :: "DeviceActor \<Rightarrow> AuthenticatedPiSession \<Rightarrow> bool" where
  "session_inv a s \<longleftrightarrow>
    current_epoch a = Some (as_epoch s) \<and> as_epoch s = da_next_epoch a \<and> as_epoch s \<noteq> 0 \<and>
    \<not> secret_is_empty (as_token s) \<and> as_tls_pin s = dev_tls_fingerprint (da_device a) \<and>
    (da_sas_key a = None \<or> da_sas_key a = as_publication_key s) \<and>
    (da_publication_key a = None \<or> da_publication_key a = as_publication_key s)"

definition is_pairing :: "DeviceActor \<Rightarrow> bool" where
  "is_pairing a \<longleftrightarrow> (case da_connection a of Pairing _ _ \<Rightarrow> True | _ \<Rightarrow> False)"

definition actor_inv :: "DeviceActor \<Rightarrow> bool" where
  "actor_inv a \<longleftrightarrow>
    (case da_session a of
       Some s \<Rightarrow> session_inv a s
     | None \<Rightarrow> current_epoch a = None \<and> da_sas_key a = None \<and> da_publication_key a = None) \<and>
    (da_poll_secret a \<noteq> None \<longleftrightarrow> is_pairing a) \<and> (da_pending_sas_key a \<noteq> None \<longrightarrow> is_pairing a)"

lemma connection_simps [simp]:
  "da_connection (set_connection c a) = c" "dev_tls_fingerprint (da_device (set_connection c a)) = dev_tls_fingerprint (da_device a)"
  "da_session (set_connection c a) = da_session a" "da_next_epoch (set_connection c a) = da_next_epoch a"
  "da_poll_secret (set_connection c a) = da_poll_secret a" "da_sas_key (set_connection c a) = da_sas_key a"
  "da_publication_key (set_connection c a) = da_publication_key a"
  "da_pending_sas_key (set_connection c a) = da_pending_sas_key a"
  by (simp_all add: set_connection_def)

lemmas actor_defs = actor_inv_def session_inv_def is_pairing_def current_epoch_def

lemma new_inv: "dev_connection d = Disconnected \<Longrightarrow> actor_inv (DeviceActor_new d)"
  by (simp add: actor_defs DeviceActor_new_def)

lemma created_inv: "actor_inv (snd (actor_apply_pairing_created c a))"
  by (simp add: actor_defs actor_apply_pairing_created_def)

lemma clear_inv: "actor_inv (clear_connection_state a)"
  by (simp add: actor_defs clear_connection_state_def)

lemma heartbeat_inv:
  assumes "actor_inv a" shows "actor_inv (snd (apply_heartbeat_result e r a))"
proof -
  have "current_epoch a \<noteq> None \<Longrightarrow> da_poll_secret a = None \<and> da_pending_sas_key a = None"
    using assms by (auto simp: actor_defs split: ConnectionState.splits)
  then show ?thesis using assms
    by (auto simp: apply_heartbeat_result_def split: sum.splits)
      (auto simp: actor_defs)
qed

lemma PiSession_new_Inr:
  "PiSession_new t p k e = Inr s \<Longrightarrow>
    s = \<lparr>as_token = t, as_tls_pin = p, as_publication_key = k, as_epoch = e\<rparr> \<and> \<not> secret_is_empty t \<and> e \<noteq> 0"
  by (auto simp: PiSession_new_def result_bind_Inr_iff split: if_splits)

lemma poll_inv:
  assumes "actor_inv a" shows "actor_inv (snd (apply_pairing_status i r a))"
proof (cases "is_pairing a \<and> conn_attempt_id (da_connection a) = i")
  case True
  then have idle: "da_session a = None" "da_sas_key a = None" "da_publication_key a = None" "da_poll_secret a \<noteq> None"
    using assms by (auto simp: actor_defs split: ConnectionState.splits option.splits)
  have "actor_inv (snd (pairing_allowed i token key a))" for token key
    using idle
    by (auto simp: pairing_allowed_def Let_def split: option.splits sum.splits dest!: PiSession_new_Inr)
      (auto simp: actor_defs)
  moreover have "actor_inv (pairing_failed c a)" if "c = Disconnected \<or> c = Expired m" for c m
    using that by (auto simp: actor_defs pairing_failed_def)
  moreover have "actor_inv (set_connection (Pairing i p) a)" for p
    using idle by (simp add: actor_defs)
  ultimately show ?thesis using assms
    by (auto simp: apply_pairing_status_def split: sum.splits PairingPhase.splits)
next
  case False
  then show ?thesis using assms
    by (auto simp: apply_pairing_status_def is_pairing_def split: ConnectionState.splits)
qed

lemma info_inv:
  assumes "actor_inv a" "current_epoch a \<noteq> None" shows "actor_inv (snd (actor_apply_device_info info a))"
proof -
  obtain s where s: "da_session a = Some s" using assms by (auto simp: actor_inv_def split: option.splits)
  show ?thesis using assms s
    by (auto simp: actor_apply_device_info_def bind_publication_key_def ensure_publication_key_def
        result_bind_Inr_iff split: sum.splits option.splits)
      (auto simp: actor_defs)
qed

end
