(* ===== verification/Device_Identity.thy ===== *)
theory Device_Identity
  imports Text "HOL-Library.Char_ord" "HOL-Library.List_Lexorder"
begin

text \<open>
  Who a device is (\<open>device/identity.rs\<close>): the full TLS fingerprint as the only
  identity, the identifiers derived from it, and the registry that resolves an identifier
  or an unambiguous legacy alias to a registered device.
\<close>

section \<open>Fingerprints\<close>

definition FINGERPRINT_HEX_LEN :: nat where "FINGERPRINT_HEX_LEN = 64"

definition DISPLAY_HEX_LEN :: nat where "DISPLAY_HEX_LEN = 8"

definition TLS_PREFIX :: string where "TLS_PREFIX = ''sha256:''"

definition DEVICE_ID_PREFIX :: string where "DEVICE_ID_PREFIX = ''ylx-''"

definition DISPLAY_PREFIX :: string where "DISPLAY_PREFIX = ''YLX-''"

datatype FingerprintParseError = FpInvalidLength nat | FpInvalidHex nat

datatype DeviceFingerprint = DeviceFingerprint (fp_hex: string)

text \<open>The derived order of the newtype: strings compare byte by byte.\<close>

instantiation DeviceFingerprint :: linorder
begin

definition less_eq_DeviceFingerprint :: "DeviceFingerprint \<Rightarrow> DeviceFingerprint \<Rightarrow> bool" where
  "less_eq_DeviceFingerprint a b \<longleftrightarrow> fp_hex a \<le> fp_hex b"

definition less_DeviceFingerprint :: "DeviceFingerprint \<Rightarrow> DeviceFingerprint \<Rightarrow> bool" where
  "less_DeviceFingerprint a b \<longleftrightarrow> fp_hex a < fp_hex b"

instance
  by standard
    (auto simp: less_eq_DeviceFingerprint_def less_DeviceFingerprint_def intro: DeviceFingerprint.expand)

end

text \<open>\<open>str::get(..n)\<close> on byte strings.\<close>

definition str_get :: "nat \<Rightarrow> string \<Rightarrow> string option" where
  "str_get n s = (if n \<le> length s then Some (take n s) else None)"

definition fingerprint_hex :: "string \<Rightarrow> string" where
  "fingerprint_hex raw =
    (case str_get (length TLS_PREFIX) raw of
       Some prefix \<Rightarrow> if eq_ignore_ascii_case prefix TLS_PREFIX then drop (length TLS_PREFIX) raw else raw
     | None \<Rightarrow> raw)"

definition fingerprint_parse :: "string \<Rightarrow> FingerprintParseError + DeviceFingerprint" where
  "fingerprint_parse raw =
    (let hex = fingerprint_hex raw in
     if length hex \<noteq> FINGERPRINT_HEX_LEN then Inl (FpInvalidLength (length hex))
     else (case find (\<lambda>(i, c). \<not> is_ascii_hexdigit c) (enumerate 0 hex) of
         Some (i, _) \<Rightarrow> Inl (FpInvalidHex i)
       | None \<Rightarrow> Inr (DeviceFingerprint (ascii_lowercase hex))))"

definition fp_device_id :: "DeviceFingerprint \<Rightarrow> string" where
  "fp_device_id f = DEVICE_ID_PREFIX @ fp_hex f"

definition fp_tls_pin :: "DeviceFingerprint \<Rightarrow> string" where
  "fp_tls_pin f = TLS_PREFIX @ fp_hex f"

definition fp_display_id :: "DeviceFingerprint \<Rightarrow> string" where
  "fp_display_id f = DISPLAY_PREFIX @ ascii_uppercase (take DISPLAY_HEX_LEN (fp_hex f))"

section \<open>Identities\<close>

record DeviceIdentity =
  di_fingerprint :: DeviceFingerprint
  di_device_id :: string
  di_display_id :: string

definition from_fingerprint :: "DeviceFingerprint \<Rightarrow> DeviceIdentity" where
  "from_fingerprint f =
    \<lparr>di_fingerprint = f, di_device_id = fp_device_id f, di_display_id = fp_display_id f\<rparr>"

definition identity_parse :: "string \<Rightarrow> FingerprintParseError + DeviceIdentity" where
  "identity_parse raw = map_sum (\<lambda>e. e) from_fingerprint (fingerprint_parse raw)"

definition parse_canonical_device_id :: "string \<Rightarrow> DeviceFingerprint option" where
  "parse_canonical_device_id raw =
    Option.bind (strip_prefix DEVICE_ID_PREFIX raw) (\<lambda>hex.
      if length hex \<noteq> FINGERPRINT_HEX_LEN \<or> list_ex (\<lambda>c. \<not> is_lower_hex c) hex then None
      else (case fingerprint_parse hex of Inl _ \<Rightarrow> None | Inr f \<Rightarrow> Some f))"

definition parse_legacy_alias :: "string \<Rightarrow> string option" where
  "parse_legacy_alias raw =
    Option.bind (str_get (length DEVICE_ID_PREFIX) raw) (\<lambda>prefix.
      if \<not> eq_ignore_ascii_case prefix DISPLAY_PREFIX then None
      else (let hex = drop (length DISPLAY_PREFIX) raw in
        if length hex \<noteq> DISPLAY_HEX_LEN \<or> \<not> list_all is_ascii_hexdigit hex then None
        else Some (DISPLAY_PREFIX @ ascii_uppercase hex)))"

record StoredDeviceIdentity =
  sd_device_id :: string
  sd_display_id :: string

definition stored_of_identity :: "DeviceIdentity \<Rightarrow> StoredDeviceIdentity" where
  "stored_of_identity i = \<lparr>sd_device_id = di_device_id i, sd_display_id = di_display_id i\<rparr>"

datatype IdentityResolutionError =
    InvalidDeviceId string
  | UnknownDevice string
  | AmbiguousLegacyAlias string "string list"

definition stored_identity_parse :: "string \<Rightarrow> IdentityResolutionError + StoredDeviceIdentity" where
  "stored_identity_parse raw =
    (case parse_canonical_device_id raw of
       Some f \<Rightarrow> Inr (stored_of_identity (from_fingerprint f))
     | None \<Rightarrow>
         (case parse_legacy_alias raw of
            Some display_id \<Rightarrow> Inr \<lparr>sd_device_id = display_id, sd_display_id = display_id\<rparr>
          | None \<Rightarrow> Inl (InvalidDeviceId raw)))"

section \<open>The registry\<close>

text \<open>The ordered map as the list of its entries in the order of their keys.\<close>

type_synonym DeviceIdentityResolver = "(DeviceFingerprint \<times> DeviceIdentity) list"

definition resolver_insert :: "DeviceIdentityResolver \<Rightarrow> DeviceIdentity \<Rightarrow> bool \<times> DeviceIdentityResolver" where
  "resolver_insert r i =
    (map_of r (di_fingerprint i) = None,
     insort_key fst (di_fingerprint i, i) (filter (\<lambda>(k, _). k \<noteq> di_fingerprint i) r))"

definition resolver_identities :: "DeviceIdentityResolver \<Rightarrow> DeviceIdentity list" where
  "resolver_identities r = map snd r"

definition resolve :: "DeviceIdentityResolver \<Rightarrow> string \<Rightarrow> IdentityResolutionError + DeviceIdentity" where
  "resolve r raw =
    (case parse_canonical_device_id raw of
       Some f \<Rightarrow> (case map_of r f of Some i \<Rightarrow> Inr i | None \<Rightarrow> Inl (UnknownDevice raw))
     | None \<Rightarrow>
         (case parse_legacy_alias raw of
            None \<Rightarrow> Inl (InvalidDeviceId raw)
          | Some alias \<Rightarrow>
              (case filter (\<lambda>i. di_display_id i = alias) (resolver_identities r) of
                 [] \<Rightarrow> Inl (UnknownDevice raw)
               | [i] \<Rightarrow> Inr i
               | matches \<Rightarrow> Inl (AmbiguousLegacyAlias alias (map di_device_id matches)))))"

section \<open>Parsing accepts exactly the spellings of a fingerprint\<close>

definition valid_fp :: "DeviceFingerprint \<Rightarrow> bool" where
  "valid_fp f \<longleftrightarrow> length (fp_hex f) = FINGERPRINT_HEX_LEN \<and> list_all is_lower_hex (fp_hex f)"

lemma hex_case:
  "is_lower_hex (to_ascii_lower c) = is_ascii_hexdigit c"
  "is_lower_hex c \<Longrightarrow> to_ascii_lower c = c"
  "is_lower_hex c \<Longrightarrow> is_ascii_hexdigit c"
  using of_char_less [of c]
  by (auto simp: is_lower_hex_def is_ascii_hexdigit_def to_ascii_lower_def Let_def split: if_splits)

lemma lower_hex_lowercase: "list_all is_lower_hex s \<Longrightarrow> ascii_lowercase s = s"
  by (induction s) (simp_all add: ascii_lowercase_def hex_case(2))

lemma find_enumerate_None: "find (\<lambda>(i, c). \<not> P c) (enumerate n s) = None \<longleftrightarrow> list_all P s"
  by (induction s arbitrary: n) simp_all

lemma hex_lowercase: "list_all is_ascii_hexdigit s \<longleftrightarrow> list_all is_lower_hex (ascii_lowercase s)"
  by (induction s) (simp_all add: ascii_lowercase_def hex_case(1))

lemma fingerprint_hex_parse:
  "fingerprint_parse raw = Inr f \<longleftrightarrow> valid_fp f \<and> ascii_lowercase (fingerprint_hex raw) = fp_hex f"
proof -
  have "find (\<lambda>(i, c). \<not> is_ascii_hexdigit c) (enumerate 0 (fingerprint_hex raw)) = None \<longleftrightarrow>
      list_all is_lower_hex (ascii_lowercase (fingerprint_hex raw))"
    by (simp only: find_enumerate_None hex_lowercase)
  then show ?thesis
    by (cases f) (auto simp: fingerprint_parse_def valid_fp_def Let_def split: option.splits)
qed

lemma TLS_PREFIX_facts: "length TLS_PREFIX = 7" "ascii_lowercase TLS_PREFIX = TLS_PREFIX"
  by (simp_all add: TLS_PREFIX_def) code_simp

lemma hex_no_prefix: "list_all is_lower_hex s \<Longrightarrow> take 7 s \<noteq> TLS_PREFIX"
  by (cases s) (auto simp: TLS_PREFIX_def is_lower_hex_def)

lemma ascii_lowercase_append: "ascii_lowercase (a @ b) = ascii_lowercase a @ ascii_lowercase b"
  by (simp add: ascii_lowercase_def)

lemma fingerprint_hex_cases:
  "ascii_lowercase (fingerprint_hex raw) =
    (if take 7 (ascii_lowercase raw) = TLS_PREFIX then drop 7 (ascii_lowercase raw) else ascii_lowercase raw)"
proof (cases "7 \<le> length raw")
  case True
  have "ascii_lowercase (take 7 raw) = take 7 (ascii_lowercase raw)"
    "ascii_lowercase (drop 7 raw) = drop 7 (ascii_lowercase raw)"
    by (simp_all add: ascii_lowercase_def take_map drop_map)
  with True show ?thesis
    by (simp add: fingerprint_hex_def str_get_def TLS_PREFIX_facts eq_ignore_ascii_case_def)
next
  case False
  then have "take 7 (ascii_lowercase raw) \<noteq> TLS_PREFIX"
    using TLS_PREFIX_facts(1) by (metis length_ascii_case(1) length_take min.cobounded1)
  with False show ?thesis by (simp add: fingerprint_hex_def str_get_def TLS_PREFIX_facts)
qed

text \<open>
  A fingerprint is accepted in exactly two spellings, in either case: the 64
  hexadecimal digits, alone or after the prefix \<open>sha256:\<close>; the value is the lower-case
  digits, so every spelling of one fingerprint is one identity.
\<close>

lemma fingerprint_parse_sound:
  "fingerprint_parse raw = Inr f \<longleftrightarrow>
    valid_fp f \<and> (ascii_lowercase raw = fp_hex f \<or> ascii_lowercase raw = fp_tls_pin f)"
proof -
  have other: "take 7 (fp_hex f) \<noteq> TLS_PREFIX" if "valid_fp f"
    using that hex_no_prefix by (simp add: valid_fp_def)
  show ?thesis
  proof (cases "take 7 (ascii_lowercase raw) = TLS_PREFIX")
    case True
    then have "ascii_lowercase raw = TLS_PREFIX @ drop 7 (ascii_lowercase raw)"
      by (metis append_take_drop_id)
    with True other show ?thesis
      by (auto simp: fingerprint_hex_parse fingerprint_hex_cases fp_tls_pin_def)
  next
    case False
    with other show ?thesis
      by (auto simp: fingerprint_hex_parse fingerprint_hex_cases fp_tls_pin_def TLS_PREFIX_facts)
  qed
qed

lemma parse_lower_hex:
  "length hex = FINGERPRINT_HEX_LEN \<Longrightarrow> list_all is_lower_hex hex \<Longrightarrow>
    fingerprint_parse hex = Inr (DeviceFingerprint hex)"
  using fingerprint_parse_sound [of hex "DeviceFingerprint hex"]
  by (simp add: valid_fp_def lower_hex_lowercase)

lemma canonical_iff: "parse_canonical_device_id raw = Some f \<longleftrightarrow> valid_fp f \<and> raw = fp_device_id f"
proof -
  have lower: "list_ex (\<lambda>c. \<not> is_lower_hex c) s \<longleftrightarrow> \<not> list_all is_lower_hex s" for s
    by (induction s) auto
  have "parse_canonical_device_id raw = Some f \<longleftrightarrow>
      (\<exists>hex. raw = DEVICE_ID_PREFIX @ hex \<and> length hex = FINGERPRINT_HEX_LEN \<and>
        list_all is_lower_hex hex \<and> f = DeviceFingerprint hex)"
    unfolding parse_canonical_device_id_def lower
    by (auto simp: bind_eq_Some_conv strip_prefix_Some_iff parse_lower_hex)
  then show ?thesis by (cases f) (auto simp: valid_fp_def fp_device_id_def)
qed

section \<open>Resolution\<close>

lemma alias_iff:
  "parse_legacy_alias raw = Some a \<longleftrightarrow>
    (\<exists>prefix hex. raw = prefix @ hex \<and> eq_ignore_ascii_case prefix DISPLAY_PREFIX \<and>
      length hex = DISPLAY_HEX_LEN \<and> list_all is_ascii_hexdigit hex \<and> a = DISPLAY_PREFIX @ ascii_uppercase hex)"
  (is "?l \<longleftrightarrow> ?r")
proof
  assume ?l
  then show ?r
    unfolding parse_legacy_alias_def str_get_def
    by (rule_tac x = "take 4 raw" in exI, rule_tac x = "drop 4 raw" in exI)
      (auto simp: bind_eq_Some_conv Let_def DEVICE_ID_PREFIX_def DISPLAY_PREFIX_def numeral_eq_Suc split: if_splits)
next
  assume ?r
  then obtain prefix hex where r: "raw = prefix @ hex" "eq_ignore_ascii_case prefix DISPLAY_PREFIX"
    "length hex = DISPLAY_HEX_LEN" "list_all is_ascii_hexdigit hex" "a = DISPLAY_PREFIX @ ascii_uppercase hex" by blast
  have "length prefix = length DISPLAY_PREFIX"
    using r(2) unfolding eq_ignore_ascii_case_def by (metis length_ascii_case(1))
  then have "length prefix = 4" by (simp add: DISPLAY_PREFIX_def)
  then show ?l using r
    by (simp add: parse_legacy_alias_def str_get_def DEVICE_ID_PREFIX_def DISPLAY_PREFIX_def Let_def)
qed

lemma canonical_no_alias: "valid_fp f \<Longrightarrow> parse_legacy_alias (fp_device_id f) = None"
  by (simp add: parse_legacy_alias_def fp_device_id_def valid_fp_def str_get_def DEVICE_ID_PREFIX_def
      DISPLAY_PREFIX_def DISPLAY_HEX_LEN_def FINGERPRINT_HEX_LEN_def Let_def)

definition resolver_inv :: "DeviceIdentityResolver \<Rightarrow> bool" where
  "resolver_inv r \<longleftrightarrow> sorted (map fst r) \<and> distinct (map fst r) \<and>
    (\<forall>(k, i)\<in>set r. i = from_fingerprint k \<and> valid_fp k)"

definition registered :: "DeviceFingerprint list \<Rightarrow> DeviceIdentityResolver" where
  "registered fs = fold (\<lambda>f r. snd (resolver_insert r (from_fingerprint f))) fs []"

lemmas insort_facts = set_insort_key distinct_insort_key sorted_insort_key

lemma insert_inv:
  assumes "resolver_inv r" "valid_fp f"
  shows "resolver_inv (snd (resolver_insert r (from_fingerprint f)))"
    "fst ` set (snd (resolver_insert r (from_fingerprint f))) = insert f (fst ` set r)"
proof -
  let ?rest = "filter (\<lambda>(k, _). k \<noteq> f) r"
  have fst: "(\<lambda>(k, _). k \<noteq> f) = (\<lambda>x. fst x \<noteq> f)" by auto
  have "map fst ?rest = filter (\<lambda>k. k \<noteq> f) (map fst r)" unfolding fst by (simp add: filter_map comp_def)
  then have rest: "sorted (map fst ?rest)" "distinct (map fst ?rest)" "f \<notin> fst ` set ?rest"
    using assms(1) by (auto simp: resolver_inv_def sorted_wrt_filter)
  then show "resolver_inv (snd (resolver_insert r (from_fingerprint f)))"
    using assms by (auto simp: resolver_inv_def resolver_insert_def from_fingerprint_def insort_facts)
  show "fst ` set (snd (resolver_insert r (from_fingerprint f))) = insert f (fst ` set r)"
    by (auto simp: resolver_insert_def from_fingerprint_def insort_facts image_iff)
qed

lemma registered_inv:
  assumes "list_all valid_fp fs"
  shows "resolver_inv (registered fs)" "fst ` set (registered fs) = set fs"
proof -
  have "resolver_inv r \<Longrightarrow> list_all valid_fp fs \<Longrightarrow>
      resolver_inv (fold (\<lambda>f r. snd (resolver_insert r (from_fingerprint f))) fs r) \<and>
      fst ` set (fold (\<lambda>f r. snd (resolver_insert r (from_fingerprint f))) fs r) = set fs \<union> fst ` set r" for r
    by (induction fs arbitrary: r) (simp_all add: insert_inv)
  from this [of "[]"] assms show "resolver_inv (registered fs)" "fst ` set (registered fs) = set fs"
    by (simp_all add: registered_def resolver_inv_def)
qed

lemma distinct_singleton: "distinct xs \<Longrightarrow> xs = [x] \<longleftrightarrow> set xs = {x}"
proof
  assume d: "distinct xs" "set xs = {x}"
  have "length xs = card (set xs)" by (rule distinct_card [OF d(1), symmetric])
  then have "length xs = 1" unfolding d(2) by simp
  then obtain y where "xs = [y]" by (auto simp: length_Suc_conv)
  then show "xs = [x]" using d(2) by simp
qed simp

lemma only_one: "{x \<in> A. P x} = {f} \<longleftrightarrow> f \<in> A \<and> P f \<and> (\<forall>g\<in>A. P g \<longrightarrow> g = f)"
  by blast

lemma resolve_inv:
  assumes "resolver_inv r"
  shows "resolve r raw = Inr i \<longleftrightarrow>
    (\<exists>f\<in>fst ` set r. i = from_fingerprint f \<and>
      (raw = fp_device_id f \<or>
       parse_legacy_alias raw = Some (fp_display_id f) \<and>
       (\<forall>g\<in>fst ` set r. fp_display_id g = fp_display_id f \<longrightarrow> g = f)))"
proof -
  have entries: "(k, j) \<in> set r \<longleftrightarrow> k \<in> fst ` set r \<and> j = from_fingerprint k" for k j
    using assms by (force simp: resolver_inv_def)
  have look: "map_of r k = (if k \<in> fst ` set r then Some (from_fingerprint k) else None)" for k
    using assms entries by (auto simp: resolver_inv_def map_of_eq_None_iff)
  have valid: "f \<in> fst ` set r \<Longrightarrow> valid_fp f" for f using assms by (auto simp: resolver_inv_def)
  show ?thesis
  proof (cases "parse_canonical_device_id raw")
    case (Some f)
    then have f: "valid_fp f" "raw = fp_device_id f" by (simp_all add: canonical_iff)
    have "raw = fp_device_id g \<longleftrightarrow> g = f" for g
      using f(2) by (auto simp: fp_device_id_def intro: DeviceFingerprint.expand)
    moreover have "parse_legacy_alias raw = None" using canonical_no_alias f by simp
    ultimately show ?thesis using Some by (simp add: resolve_def look) blast
  next
    case None
    then have no: "f \<in> fst ` set r \<Longrightarrow> raw \<noteq> fp_device_id f" for f
      using valid canonical_iff by (metis option.distinct(1))
    show ?thesis
    proof (cases "parse_legacy_alias raw")
      case (Some a)
      let ?fs = "filter (\<lambda>f. fp_display_id f = a) (map fst r)"
      have "map snd r = map from_fingerprint (map fst r)" using entries by auto
      then have "resolver_identities r = map from_fingerprint (map fst r)" by (simp add: resolver_identities_def)
      moreover have "di_display_id (from_fingerprint f) = fp_display_id f" for f by (simp add: from_fingerprint_def)
      ultimately have "filter (\<lambda>i. di_display_id i = a) (resolver_identities r) = map from_fingerprint ?fs"
        by (simp add: filter_map comp_def)
      then have "resolve r raw = Inr i \<longleftrightarrow> (\<exists>f. ?fs = [f] \<and> i = from_fingerprint f)"
        using None Some by (auto simp: resolve_def split: list.splits)
      moreover have "distinct ?fs" using assms by (simp add: resolver_inv_def)
      then have "?fs = [f] \<longleftrightarrow> set ?fs = {f}" for f by (rule distinct_singleton)
      moreover have "set ?fs = {f} \<longleftrightarrow> f \<in> fst ` set r \<and> a = fp_display_id f \<and>
          (\<forall>g\<in>fst ` set r. fp_display_id g = fp_display_id f \<longrightarrow> g = f)" for f
        using only_one [of "fst ` set r" "\<lambda>g. fp_display_id g = a" f] by auto
      ultimately have "resolve r raw = Inr i \<longleftrightarrow> (\<exists>f\<in>fst ` set r. i = from_fingerprint f \<and> a = fp_display_id f \<and>
          (\<forall>g\<in>fst ` set r. fp_display_id g = fp_display_id f \<longrightarrow> g = f))"
        by (simp only: Bex_def conj_ac)
      also have "\<dots> \<longleftrightarrow> (\<exists>f\<in>fst ` set r. i = from_fingerprint f \<and> (raw = fp_device_id f \<or>
          Some a = Some (fp_display_id f) \<and> (\<forall>g\<in>fst ` set r. fp_display_id g = fp_display_id f \<longrightarrow> g = f)))"
        by (rule bex_cong [OF refl]) (simp add: no)
      finally show ?thesis unfolding Some .
    qed (use None no in \<open>auto simp: resolve_def\<close>)
  qed
qed

text \<open>
  C27.  Resolution never merges two devices.  An identifier resolves to a device exactly when
  it is the full identifier of that registered device, or a legacy alias, in either
  case, that no other registered device shares; in particular every registered device is
  reached by its full identifier and an alias two devices share is refused.
\<close>

theorem resolve_never_merges:
  assumes "list_all valid_fp fs"
  shows "resolve (registered fs) raw = Inr i \<longleftrightarrow>
    (\<exists>f\<in>set fs. i = from_fingerprint f \<and>
      (raw = fp_device_id f \<or>
       parse_legacy_alias raw = Some (fp_display_id f) \<and>
       (\<forall>g\<in>set fs. fp_display_id g = fp_display_id f \<longrightarrow> g = f)))"
  using resolve_inv [OF registered_inv(1) [OF assms]] registered_inv(2) [OF assms] by simp

definition twin_a :: DeviceFingerprint where
  "twin_a = DeviceFingerprint (replicate 64 (CHR ''0''))"

definition twin_b :: DeviceFingerprint where
  "twin_b = DeviceFingerprint (replicate 8 (CHR ''0'') @ replicate 56 (CHR ''1''))"

definition loner :: DeviceFingerprint where
  "loner = DeviceFingerprint (replicate 64 (CHR ''a''))"

theorem resolve_never_merges_witness:
  "resolve (registered [twin_a, twin_b, loner]) ''ylx-aAAAaaaa'' = Inr (from_fingerprint loner) \<and>
   (\<forall>i. resolve (registered [twin_a, twin_b, loner]) ''YLX-00000000'' \<noteq> Inr i)"
proof -
  have ok: "list_all valid_fp [twin_a, twin_b, loner]" by code_simp
  have "parse_legacy_alias ''ylx-aAAAaaaa'' = Some (fp_display_id loner)"
    "fp_display_id twin_a \<noteq> fp_display_id loner" "fp_display_id twin_b \<noteq> fp_display_id loner"
    "parse_legacy_alias ''YLX-00000000'' = Some (fp_display_id twin_a)"
    "fp_display_id twin_b = fp_display_id twin_a" "twin_a \<noteq> twin_b"
    "''YLX-00000000'' \<notin> {fp_device_id twin_a, fp_device_id twin_b, fp_device_id loner}" by code_simp+
  with resolve_never_merges [OF ok] show ?thesis by auto
qed

end
