(* ===== verification/Device_Fleet.thy ===== *)
theory Device_Fleet
  imports Device_Actor Device_Identity
begin

text \<open>
  Device handles and the fleet (\<open>device/fleet.rs\<close>).  A handle's operations copy what
  they need under the lock of the actor, call the network with no lock held and apply the
  reply under a fence.  Wherever the code holds no lock, other threads may act: they are
  the argument \<open>others\<close>, indexed by the point in the operation.
\<close>

section \<open>Handles and tickets\<close>

record DeviceHandle =
  dh_fingerprint :: DeviceFingerprint
  dh_actor :: DeviceActor
  dh_heartbeat_attempts :: u64
  dh_pairing_attempts :: u64

record HeartbeatTicket =
  ht_epoch :: u64
  ht_attempt :: u64

record EpochTicket =
  et_epoch :: u64

record PairingTicket =
  pt_generation :: u64

datatype RefreshApplyOutcome = RefreshNotConnected | RefreshStale | Refreshed | RefreshFailed PiClientError

datatype 'detail SessionDetailOutcome =
    DetailNotConnected
  | DetailStale
  | DetailFetched 'detail
  | DetailFailed PiClientError

datatype 'receipt DeleteApplyOutcome =
    DeleteNotConnected
  | DeleteStale
  | SessionDeleted 'receipt
  | DeleteFailed PiClientError

type_synonym others = "nat \<Rightarrow> DeviceHandle \<Rightarrow> DeviceHandle"

definition DeviceHandle_new :: "DeviceFingerprint \<Rightarrow> Device \<Rightarrow> DeviceHandle" where
  "DeviceHandle_new f d =
    \<lparr>dh_fingerprint = f, dh_actor = DeviceActor_new d, dh_heartbeat_attempts = 0, dh_pairing_attempts = 0\<rparr>"

definition on_actor :: "(DeviceActor \<Rightarrow> 'r \<times> DeviceActor) \<Rightarrow> DeviceHandle \<Rightarrow> 'r \<times> DeviceHandle" where
  "on_actor f h = (case f (dh_actor h) of (r, a) \<Rightarrow> (r, h\<lparr>dh_actor := a\<rparr>))"

definition handle_epoch :: "DeviceHandle \<Rightarrow> u64 option" where
  "handle_epoch h = current_epoch (dh_actor h)"

definition checkout_session :: "DeviceHandle \<Rightarrow> AuthenticatedPiSession option" where
  "checkout_session h = da_session (dh_actor h)"

section \<open>Heartbeats\<close>

definition bump_heartbeat :: "AuthenticatedPiSession \<Rightarrow> DeviceHandle \<Rightarrow> HeartbeatTicket \<times> DeviceHandle" where
  "bump_heartbeat s h =
    (let attempt = dh_heartbeat_attempts h + 1 in
     (\<lparr>ht_epoch = as_epoch s, ht_attempt = attempt\<rparr>, h\<lparr>dh_heartbeat_attempts := attempt\<rparr>))"

definition issue_heartbeat_ticket :: "others \<Rightarrow> DeviceHandle \<Rightarrow> HeartbeatTicket option \<times> DeviceHandle" where
  "issue_heartbeat_ticket others h =
    (case checkout_session h of
       None \<Rightarrow> (None, h)
     | Some s \<Rightarrow> (case bump_heartbeat s (others 0 h) of (t, h') \<Rightarrow> (Some t, h')))"

definition apply_heartbeat ::
    "HeartbeatTicket \<Rightarrow> PiClientError + HeartbeatOutcomeView \<Rightarrow> DeviceHandle \<Rightarrow>
     HeartbeatApplyOutcome \<times> DeviceHandle" where
  "apply_heartbeat t result h =
    (if dh_heartbeat_attempts h \<noteq> ht_attempt t then (HbStale, h)
     else on_actor (apply_heartbeat_result (ht_epoch t) result) h)"

definition heartbeat_with ::
    "others \<Rightarrow> (AuthenticatedPiSession \<Rightarrow> PiClientError + HeartbeatOutcomeView) \<Rightarrow> DeviceHandle \<Rightarrow>
     HeartbeatApplyOutcome \<times> DeviceHandle" where
  "heartbeat_with others beat h =
    (case checkout_session h of
       None \<Rightarrow> (HbNotConnected, h)
     | Some s \<Rightarrow>
         (case bump_heartbeat s (others 0 h) of
            (t, h1) \<Rightarrow> apply_heartbeat t (beat s) (others 1 h1)))"

section \<open>Device refresh and the session catalogue\<close>

definition handle_apply_device_info ::
    "EpochTicket \<Rightarrow> PiClientError + DeviceInfoView \<Rightarrow> DeviceHandle \<Rightarrow> RefreshApplyOutcome \<times> DeviceHandle" where
  "handle_apply_device_info t result h =
    (if handle_epoch h \<noteq> Some (et_epoch t) then (RefreshStale, h)
     else (case result of
         Inl e \<Rightarrow> (RefreshFailed e, h)
       | Inr info \<Rightarrow>
           (case on_actor (actor_apply_device_info info) h of
              (Inr _, h') \<Rightarrow> (Refreshed, h')
            | (Inl e, h') \<Rightarrow> (RefreshFailed e, h'))))"

definition refresh_capture_activity_with ::
    "others \<Rightarrow> (AuthenticatedPiSession \<Rightarrow> PiClientError + DeviceInfoView) \<Rightarrow> DeviceHandle \<Rightarrow>
     RefreshApplyOutcome \<times> DeviceHandle" where
  "refresh_capture_activity_with others get_device h =
    (case checkout_session h of
       None \<Rightarrow> (RefreshNotConnected, h)
     | Some s \<Rightarrow> handle_apply_device_info \<lparr>et_epoch = as_epoch s\<rparr> (get_device s) (others 0 h))"

definition list_sessions_with ::
    "others \<Rightarrow> (AuthenticatedPiSession \<Rightarrow> PiClientError + 'page) \<Rightarrow> DeviceHandle \<Rightarrow>
     (PiClientError + 'page) \<times> DeviceHandle" where
  "list_sessions_with others list_sessions h =
    (case checkout_session h of
       None \<Rightarrow> (Inl \<lparr>pe_kind = PiOther, pe_message = ''list_sessions called without an authenticated session''\<rparr>, h)
     | Some s \<Rightarrow>
         (let result = list_sessions s; h1 = others 0 h in
          if handle_epoch h1 \<noteq> Some (as_epoch s) then
            (Inl \<lparr>pe_kind = PiOther,
               pe_message = ''authenticated session epoch changed during catalog request''\<rparr>, h1)
          else (result, h1)))"

definition issue_epoch_ticket :: "DeviceHandle \<Rightarrow> EpochTicket option" where
  "issue_epoch_ticket h = map_option (\<lambda>s. \<lparr>et_epoch = as_epoch s\<rparr>) (checkout_session h)"

text \<open>The catalogue read once a session with a bound key is at hand.\<close>

definition fetch_detail ::
    "others \<Rightarrow> EpochTicket \<Rightarrow> (AuthenticatedPiSession \<Rightarrow> PiClientError + 'detail) \<Rightarrow> AuthenticatedPiSession \<Rightarrow>
     DeviceHandle \<Rightarrow> 'detail SessionDetailOutcome \<times> DeviceHandle" where
  "fetch_detail others t get_session s h =
    (let h1 = others 3 h in
     if handle_epoch h1 \<noteq> Some (et_epoch t) then (DetailStale, h1)
     else (let h2 = others 4 h1 in
       case get_session s of
         Inr detail \<Rightarrow>
           if handle_epoch h2 = Some (et_epoch t) then (DetailFetched detail, h2) else (DetailStale, h2)
       | Inl e \<Rightarrow> (DetailFailed e, h2)))"

definition get_session_with ::
    "others \<Rightarrow> (AuthenticatedPiSession \<Rightarrow> PiClientError + DeviceInfoView) \<Rightarrow>
     (AuthenticatedPiSession \<Rightarrow> PiClientError + 'detail) \<Rightarrow> DeviceHandle \<Rightarrow>
     'detail SessionDetailOutcome \<times> DeviceHandle" where
  "get_session_with others get_device get_session h =
    (case issue_epoch_ticket h of
       None \<Rightarrow> (DetailNotConnected, h)
     | Some t \<Rightarrow>
         (let h1 = others 0 h in
          case checkout_session h1 of
            None \<Rightarrow> (DetailNotConnected, h1)
          | Some s \<Rightarrow>
              if as_publication_key s \<noteq> None then fetch_detail others t get_session s h1
              else (case get_device s of
                  Inl e \<Rightarrow> (DetailFailed e, others 1 h1)
                | Inr info \<Rightarrow>
                    (case handle_apply_device_info t (Inr info) (others 1 h1) of
                       (RefreshStale, h2) \<Rightarrow> (DetailStale, h2)
                     | (RefreshNotConnected, h2) \<Rightarrow> (DetailNotConnected, h2)
                     | (RefreshFailed e, h2) \<Rightarrow> (DetailFailed e, h2)
                     | (Refreshed, h2) \<Rightarrow>
                         (let h3 = others 2 h2 in
                          case checkout_session h3 of
                            None \<Rightarrow> (DetailNotConnected, h3)
                          | Some s' \<Rightarrow> fetch_detail others t get_session s' h3)))))"

definition apply_delete_receipt ::
    "EpochTicket \<Rightarrow> PiClientError + 'receipt \<Rightarrow> DeviceHandle \<Rightarrow> 'receipt DeleteApplyOutcome" where
  "apply_delete_receipt t result h =
    (if handle_epoch h \<noteq> Some (et_epoch t) then DeleteStale
     else (case result of Inr receipt \<Rightarrow> SessionDeleted receipt | Inl e \<Rightarrow> DeleteFailed e))"

definition delete_session_with ::
    "others \<Rightarrow> (AuthenticatedPiSession \<Rightarrow> PiClientError + 'receipt) \<Rightarrow> DeviceHandle \<Rightarrow>
     'receipt DeleteApplyOutcome \<times> DeviceHandle" where
  "delete_session_with others delete_session h =
    (case checkout_session h of
       None \<Rightarrow> (DeleteNotConnected, h)
     | Some s \<Rightarrow>
         (let h1 = others 0 h in
          (apply_delete_receipt \<lparr>et_epoch = as_epoch s\<rparr> (delete_session s) h1, h1)))"

section \<open>Pairing and disconnecting\<close>

definition bump_pairing :: "DeviceHandle \<Rightarrow> DeviceHandle" where
  "bump_pairing h = h\<lparr>dh_pairing_attempts := dh_pairing_attempts h + 1\<rparr>"

definition clear_handle :: "DeviceHandle \<Rightarrow> DeviceHandle" where
  "clear_handle h = h\<lparr>dh_actor := clear_connection_state (dh_actor h)\<rparr>"

definition disconnect_with ::
    "others \<Rightarrow> (AuthenticatedPiSession \<Rightarrow> PiClientError + unit) \<Rightarrow> DeviceHandle \<Rightarrow>
     (PiClientError + unit) \<times> DeviceHandle" where
  "disconnect_with others revoke h =
    (let h1 = others 0 (bump_pairing h);
         session = checkout_session h1;
         h2 = clear_handle (others 1 h1) in
     case session of
       Some s \<Rightarrow> (revoke s, others 2 h2)
     | None \<Rightarrow> (Inr (), h2))"

definition disconnect_local :: "others \<Rightarrow> DeviceHandle \<Rightarrow> DeviceHandle" where
  "disconnect_local others h = clear_handle (others 0 (bump_pairing h))"

definition issue_pairing_ticket :: "DeviceHandle \<Rightarrow> PairingTicket \<times> DeviceHandle" where
  "issue_pairing_ticket h = (\<lparr>pt_generation = dh_pairing_attempts h + 1\<rparr>, bump_pairing h)"

definition pairing_ticket_is_current :: "PairingTicket \<Rightarrow> DeviceHandle \<Rightarrow> bool" where
  "pairing_ticket_is_current t h \<longleftrightarrow> dh_pairing_attempts h = pt_generation t"

definition handle_apply_pairing_created :: "PairingCreatedView \<Rightarrow> DeviceHandle \<Rightarrow> PairingAttemptInfo \<times> DeviceHandle" where
  "handle_apply_pairing_created c = on_actor (actor_apply_pairing_created c)"

definition start_pairing_with ::
    "others \<Rightarrow> (string \<Rightarrow> string \<Rightarrow> PiClientError + PairingCreatedView) \<Rightarrow> string \<Rightarrow> string \<Rightarrow> DeviceHandle \<Rightarrow>
     (PiClientError + PairingAttemptInfo) \<times> DeviceHandle" where
  "start_pairing_with others create name nonce h =
    (case issue_pairing_ticket h of
       (t, h1) \<Rightarrow>
         (let h2 = others 0 h1 in
          case create name nonce of
            Inl e \<Rightarrow> (Inl e, h2)
          | Inr c \<Rightarrow>
              if \<not> pairing_ticket_is_current t h2 then
                (Inl \<lparr>pe_kind = PiOther, pe_message = ''pairing response belongs to a superseded attempt''\<rparr>, h2)
              else (case handle_apply_pairing_created c (others 1 h2) of (info, h3) \<Rightarrow> (Inr info, h3))))"

definition poll_pairing_with ::
    "others \<Rightarrow> (string \<Rightarrow> string \<Rightarrow> PiClientError + PairingStatusView) \<Rightarrow> DeviceHandle \<Rightarrow>
     PollPairingOutcome \<times> DeviceHandle" where
  "poll_pairing_with others get_status h =
    (case checkout_pairing_poll (dh_actor h) of
       None \<Rightarrow> (NotPairing, h)
     | Some (attempt_id, secret) \<Rightarrow>
         on_actor (apply_pairing_status attempt_id (get_status attempt_id secret)) (others 0 h))"

section \<open>The fleet\<close>

text \<open>The map of handles as the list of its entries, in the order the hash map iterates.\<close>

type_synonym DeviceFleet = "(DeviceFingerprint \<times> DeviceHandle) list"

record FleetSnapshot =
  fs_fingerprint :: DeviceFingerprint
  fs_short_id :: string
  fs_device :: Device

definition get_or_create :: "DeviceFingerprint \<Rightarrow> Device \<Rightarrow> DeviceFleet \<Rightarrow> DeviceHandle \<times> DeviceFleet" where
  "get_or_create f d fleet =
    (case map_of fleet f of
       Some h \<Rightarrow> (h, fleet)
     | None \<Rightarrow> (let h = DeviceHandle_new f d in (h, (f, h) # fleet)))"

definition fleet_handle :: "DeviceFleet \<Rightarrow> DeviceFingerprint \<Rightarrow> DeviceHandle option" where
  "fleet_handle = map_of"

definition fleet_handles :: "DeviceFleet \<Rightarrow> DeviceHandle list" where
  "fleet_handles fleet = map snd fleet"

definition handle_snapshot :: "DeviceHandle \<Rightarrow> FleetSnapshot" where
  "handle_snapshot h =
    \<lparr>fs_fingerprint = dh_fingerprint h, fs_short_id = fp_display_id (dh_fingerprint h),
     fs_device = da_device (dh_actor h)\<rparr>"

definition fleet_snapshots :: "DeviceFleet \<Rightarrow> FleetSnapshot list" where
  "fleet_snapshots fleet = sort_key fs_fingerprint (map handle_snapshot (fleet_handles fleet))"

section \<open>Sweeps\<close>

text \<open>
  The scoped workers of a sweep share a counter of the next device and a list of
  results.  A step is one worker's atomic action.
\<close>

datatype WorkerPhase = Claiming | Visiting nat | Left

record 'a Pool =
  pool_next :: nat
  pool_workers :: "WorkerPhase list"
  pool_results :: "(DeviceFingerprint \<times> 'a) list"

definition report :: "(DeviceHandle \<Rightarrow> 'a option) \<Rightarrow> DeviceHandle \<Rightarrow> (DeviceFingerprint \<times> 'a) list" where
  "report visit h = (case visit h of None \<Rightarrow> [] | Some v \<Rightarrow> [(dh_fingerprint h, v)])"

inductive pool_step :: "(DeviceHandle \<Rightarrow> 'a option) \<Rightarrow> DeviceHandle list \<Rightarrow> 'a Pool \<Rightarrow> 'a Pool \<Rightarrow> bool"
  for visit hs where
  claim: "\<lbrakk> i < length (pool_workers p); pool_workers p ! i = Claiming; pool_next p < length hs \<rbrakk> \<Longrightarrow>
    pool_step visit hs p (p\<lparr>pool_next := Suc (pool_next p),
      pool_workers := (pool_workers p)[i := Visiting (pool_next p)]\<rparr>)"
| leave: "\<lbrakk> i < length (pool_workers p); pool_workers p ! i = Claiming; length hs \<le> pool_next p \<rbrakk> \<Longrightarrow>
    pool_step visit hs p (p\<lparr>pool_next := Suc (pool_next p), pool_workers := (pool_workers p)[i := Left]\<rparr>)"
| visited: "\<lbrakk> i < length (pool_workers p); pool_workers p ! i = Visiting k \<rbrakk> \<Longrightarrow>
    pool_step visit hs p (p\<lparr>pool_workers := (pool_workers p)[i := Claiming],
      pool_results := pool_results p @ report visit (hs ! k)\<rparr>)"

definition sweep_workers :: "nat \<Rightarrow> DeviceHandle list \<Rightarrow> nat" where
  "sweep_workers max_concurrency hs = max 1 (min max_concurrency (length hs))"

definition sweep_start :: "nat \<Rightarrow> DeviceHandle list \<Rightarrow> 'a Pool" where
  "sweep_start max_concurrency hs =
    \<lparr>pool_next = 0, pool_workers = replicate (sweep_workers max_concurrency hs) Claiming, pool_results = []\<rparr>"

definition sweep_over :: "'a Pool \<Rightarrow> bool" where
  "sweep_over p \<longleftrightarrow> list_all (\<lambda>w. w = Left) (pool_workers p)"

text \<open>What the sweep hands back once every worker has left; with no device it starts none.\<close>

definition for_each_device :: "DeviceHandle list \<Rightarrow> 'a Pool \<Rightarrow> (DeviceFingerprint \<times> 'a) list" where
  "for_each_device hs p = (if hs = [] then [] else sort_key fst (pool_results p))"

end
