(* ===== verification/Fleet_Properties.thy ===== *)
theory Fleet_Properties
  imports Device_Fleet "HOL-Library.Multiset"
begin

text \<open>
  What the fences of a device handle buy: a reply is applied only to the session it was
  asked under, the publication key of a session never changes, a catalogue detail is
  never accepted without a bound key; and a sweep visits every device exactly once
  whatever the order its workers run in.
\<close>

section \<open>Sweeps visit every device once\<close>

inductive_simps pool_step_iff: "pool_step visit hs p q"

fun phase_report :: "(DeviceHandle \<Rightarrow> 'a option) \<Rightarrow> DeviceHandle list \<Rightarrow> WorkerPhase \<Rightarrow> (DeviceFingerprint \<times> 'a) multiset" where
  "phase_report visit hs (Visiting k) = mset (report visit (hs ! k))"
| "phase_report visit hs w = {#}"

definition reports :: "(DeviceHandle \<Rightarrow> 'a option) \<Rightarrow> DeviceHandle list \<Rightarrow> (DeviceFingerprint \<times> 'a) list" where
  "reports visit hs = concat (map (report visit) hs)"

text \<open>Nothing is lost: results, running visits and devices not yet claimed make up the whole.\<close>

definition sweep_inv :: "(DeviceHandle \<Rightarrow> 'a option) \<Rightarrow> DeviceHandle list \<Rightarrow> 'a Pool \<Rightarrow> bool" where
  "sweep_inv visit hs p \<longleftrightarrow>
    mset (pool_results p) + (\<Sum>w\<in>#mset (pool_workers p). phase_report visit hs w) +
      mset (reports visit (drop (pool_next p) hs)) = mset (reports visit hs) \<and>
    pool_workers p \<noteq> [] \<and> (Left \<in> set (pool_workers p) \<longrightarrow> length hs \<le> pool_next p)"

lemma sum_update:
  fixes f :: "'b \<Rightarrow> 'c::cancel_comm_monoid_add"
  assumes "i < length ws"
  shows "(\<Sum>w\<in>#mset (ws[i := v]). f w) + f (ws ! i) = (\<Sum>w\<in>#mset ws. f w) + f v"
proof -
  have "mset (ws[i := v]) + {#ws ! i#} = mset ws + {#v#}"
    using assms by (simp add: mset_update)
  then have "(\<Sum>w\<in>#mset (ws[i := v]) + {#ws ! i#}. f w) = (\<Sum>w\<in>#mset ws + {#v#}. f w)" by simp
  then show ?thesis by (simp add: ac_simps)
qed

lemma sweep_inv_step: "pool_step visit hs p q \<Longrightarrow> sweep_inv visit hs p \<Longrightarrow> sweep_inv visit hs q"
proof (induction rule: pool_step.cases)
  case (claim i p)
  then show ?case
    using sum_update [of i "pool_workers p" "phase_report visit hs" "Visiting (pool_next p)"]
      Cons_nth_drop_Suc [of "pool_next p" hs, symmetric]
    by (auto simp: sweep_inv_def reports_def ac_simps dest: set_update_subset_insert [THEN subsetD])
next
  case (leave i p)
  then show ?case
    using sum_update [of i "pool_workers p" "phase_report visit hs" Left]
    by (auto simp: sweep_inv_def reports_def)
next
  case (visited i p k)
  then show ?case
    using sum_update [of i "pool_workers p" "phase_report visit hs" Claiming]
    by (auto simp: sweep_inv_def reports_def ac_simps dest: set_update_subset_insert [THEN subsetD])
qed

lemma sweep_inv_start: "sweep_inv visit hs (sweep_start n hs)"
proof -
  have "(\<Sum>w\<in>#mset (replicate m Claiming). phase_report visit hs w) = {#}" for m by (induction m) simp_all
  then show ?thesis by (simp add: sweep_inv_def sweep_start_def sweep_workers_def)
qed

lemma sweep_inv_reached:
  assumes "(pool_step visit hs)\<^sup>*\<^sup>* (sweep_start n hs) p" shows "sweep_inv visit hs p"
  using assms by (induction rule: rtranclp_induct) (auto intro: sweep_inv_start sweep_inv_step)

lemma all_left_reports: "list_all (\<lambda>w. w = Left) ws \<Longrightarrow> (\<Sum>w\<in>#mset ws. phase_report visit hs w) = {#}"
  by (induction ws) auto

text \<open>Sorting by distinct keys does not depend on the order found.\<close>

lemma sort_key_unique:
  assumes "mset xs = mset ys" "distinct (map f xs)"
  shows "sort_key f xs = sort_key f ys"
proof (rule map_sorted_distinct_set_unique [of f])
  have "distinct (map f ys)" using assms mset_eq_imp_distinct_iff [of "map f xs" "map f ys"] by (metis mset_map)
  moreover have "mset (map f (sort_key f xs)) = mset (map f xs)" "mset (map f (sort_key f ys)) = mset (map f ys)" by simp_all
  ultimately show "distinct (map f (sort_key f xs))" "distinct (map f (sort_key f ys))"
    using assms(2) mset_eq_imp_distinct_iff by metis+
  show "set (sort_key f xs) = set (sort_key f ys)" using mset_eq_setD [OF assms(1)] by simp
  show "inj_on f (set (sort_key f xs) \<union> set (sort_key f ys))"
    using assms mset_eq_setD [OF assms(1)] by (simp add: distinct_map)
qed simp_all

lemma reports_keys: "distinct (map dh_fingerprint hs) \<Longrightarrow> distinct (map fst (reports visit hs))"
proof (induction hs)
  case (Cons h hs)
  have "fst ` set (reports visit hs) \<subseteq> dh_fingerprint ` set hs"
    by (auto simp: reports_def report_def split: option.splits)
  with Cons show ?case by (auto simp: reports_def report_def split: option.splits)
qed (simp add: reports_def)

lemma sorted_reports:
  assumes "distinct (map dh_fingerprint hs)"
  shows "sort_key fst (reports visit hs) = reports visit (sort_key dh_fingerprint hs)"
proof -
  have "sorted (map fst (reports visit hs'))" if "sorted (map dh_fingerprint hs')" for hs'
    using that
  proof (induction hs')
    case (Cons h hs')
    have "fst ` set (reports visit hs') \<subseteq> dh_fingerprint ` set hs'"
      by (auto simp: reports_def report_def split: option.splits)
    with Cons show ?case by (fastforce simp: reports_def report_def split: option.splits)
  qed (simp add: reports_def)
  then have sorted: "sorted (map fst (reports visit (sort_key dh_fingerprint hs)))" by simp
  have "mset (reports visit (sort_key dh_fingerprint hs)) = mset (reports visit hs)"
    unfolding reports_def mset_concat by (simp add: sum_mset_sum_list [symmetric])
  then have "sort_key fst (reports visit hs) = sort_key fst (reports visit (sort_key dh_fingerprint hs))"
    using reports_keys [OF assms] by (intro sort_key_unique) simp_all
  then show ?thesis using sorted by (simp add: sort_key_id_if_sorted)
qed

text \<open>
  C26.  Whatever the order in which the workers of a sweep run, the sweep ends with the
  result of visiting the devices one after the other in the order of their fingerprints:
  every device is visited exactly once, none is skipped, and the order of the results does
  not depend on the threads.
\<close>

theorem sweep_is_sequential:
  assumes "distinct (map dh_fingerprint hs)"
    and "(pool_step visit hs)\<^sup>*\<^sup>* (sweep_start n hs) p" "sweep_over p"
  shows "for_each_device hs p = reports visit (sort_key dh_fingerprint hs)"
proof -
  note I = sweep_inv_reached [OF assms(2), unfolded sweep_inv_def]
  have "Left \<in> set (pool_workers p)"
    using I assms(3) by (cases "pool_workers p") (auto simp: sweep_over_def)
  then have D: "drop (pool_next p) hs = []" using I by simp
  have S: "(\<Sum>w\<in>#mset (pool_workers p). phase_report visit hs w) = {#}"
    by (rule all_left_reports) (use assms(3) in \<open>simp add: sweep_over_def\<close>)
  have "mset (pool_results p) = mset (reports visit hs)"
    using conjunct1 [OF I] unfolding S D by (simp add: reports_def)
  then have "sort_key fst (pool_results p) = sort_key fst (reports visit hs)"
    using reports_keys [OF assms(1), of visit] by (intro sort_key_unique [symmetric]) simp_all
  then show ?thesis using sorted_reports [OF assms(1), of visit] by (simp add: for_each_device_def reports_def)
qed

fun phase_weight :: "WorkerPhase \<Rightarrow> nat" where
  "phase_weight Claiming = 1"
| "phase_weight (Visiting k) = 2"
| "phase_weight Left = 0"

definition sweep_weight :: "DeviceHandle list \<Rightarrow> 'a Pool \<Rightarrow> nat" where
  "sweep_weight hs p = 2 * (length hs - pool_next p) + (\<Sum>w\<in>#mset (pool_workers p). phase_weight w)"

lemma sweep_weight_step: "pool_step visit hs p q \<Longrightarrow> sweep_weight hs p = Suc (sweep_weight hs q)"
proof (induction rule: pool_step.cases)
  case (claim i p)
  then show ?case using sum_update [of i "pool_workers p" phase_weight "Visiting (pool_next p)"]
    by (simp add: sweep_weight_def)
next
  case (leave i p)
  then show ?case using sum_update [of i "pool_workers p" phase_weight Left] by (simp add: sweep_weight_def)
next
  case (visited i p k)
  then show ?case using sum_update [of i "pool_workers p" phase_weight Claiming] by (simp add: sweep_weight_def)
qed

lemma weight_zero: "(\<Sum>w\<in>#mset ws. phase_weight w) = 0 \<longleftrightarrow> list_all (\<lambda>w. w = Left) ws"
proof -
  have "phase_weight w = 0 \<longleftrightarrow> w = Left" for w by (cases w) simp_all
  then show ?thesis by (induction ws) simp_all
qed

lemma sweep_progress: "\<not> sweep_over p \<Longrightarrow> \<exists>q. pool_step visit hs p q"
proof -
  assume "\<not> sweep_over p"
  then obtain i where i: "i < length (pool_workers p)" "pool_workers p ! i \<noteq> Left"
    by (auto simp: sweep_over_def list_all_length)
  show ?thesis
  proof (cases "pool_workers p ! i")
    case Claiming
    then show ?thesis using i pool_step.claim [of i p hs visit] pool_step.leave [of i p hs visit]
      by (cases "pool_next p < length hs") auto
  qed (use i in \<open>auto intro: pool_step.visited\<close>)
qed

text \<open>
  A sweep ends.  Whatever its workers' order, it is over after exactly two steps
  per device and one per worker, and before that some worker can always act.
\<close>

theorem sweep_ends:
  fixes visit :: "DeviceHandle \<Rightarrow> 'a option"
  assumes "(pool_step visit hs ^^ k) (sweep_start n hs) p"
  shows "k \<le> 2 * length hs + sweep_workers n hs \<and>
    (sweep_over p \<longleftrightarrow> k = 2 * length hs + sweep_workers n hs) \<and>
    (sweep_over p \<or> (\<exists>q. pool_step visit hs p q))"
proof -
  have "(pool_step visit hs ^^ k) p0 p \<Longrightarrow> sweep_weight hs p0 = k + sweep_weight hs p" for p0
  proof (induction k arbitrary: p)
    case (Suc k)
    then obtain q where "(pool_step visit hs ^^ k) p0 q" "pool_step visit hs q p" by auto
    then show ?case using Suc.IH sweep_weight_step by fastforce
  qed simp
  moreover have "(\<Sum>w\<in>#mset (replicate m Claiming). phase_weight w) = m" for m by (induction m) simp_all
  then have "sweep_weight hs (sweep_start n hs :: 'a Pool) = 2 * length hs + sweep_workers n hs"
    by (simp add: sweep_weight_def sweep_start_def)
  ultimately have k: "k + sweep_weight hs p = 2 * length hs + sweep_workers n hs" using assms by simp
  have "sweep_inv visit hs p" using assms sweep_inv_reached relpowp_imp_rtranclp by metis
  then have "sweep_over p \<longleftrightarrow> sweep_weight hs p = 0"
    using weight_zero [of "pool_workers p"]
    by (cases "pool_workers p") (auto simp: sweep_weight_def sweep_over_def sweep_inv_def)
  with k show ?thesis using sweep_progress [of p visit hs] by auto
qed

section \<open>Runs of a handle\<close>

text \<open>
  One atomic action on a handle, with any reply.  The epoch counter is assumed not to be
  exhausted, which takes \<open>2 ^ 64\<close> connections of one device.
\<close>

inductive handle_step :: "DeviceHandle \<Rightarrow> DeviceHandle \<Rightarrow> bool" where
  heartbeat_issued: "handle_step h (snd (bump_heartbeat s h))"
| heartbeat_replied: "handle_step h (snd (apply_heartbeat t r h))"
| device_replied: "handle_step h (snd (handle_apply_device_info et info h))"
| pairing_bumped: "handle_step h (bump_pairing h)"
| pairing_created: "handle_step h (snd (handle_apply_pairing_created c h))"
| pairing_polled: "unat (da_next_epoch (dh_actor h)) < u64_max \<Longrightarrow>
    handle_step h (snd (on_actor (apply_pairing_status i ps) h))"
| cleared: "handle_step h (clear_handle h)"

abbreviation handle_run :: "DeviceHandle \<Rightarrow> DeviceHandle \<Rightarrow> bool" where
  "handle_run \<equiv> handle_step\<^sup>*\<^sup>*"

text \<open>A handle as registration makes it and everything that can become of it.\<close>

definition live_handle :: "DeviceHandle \<Rightarrow> bool" where
  "live_handle h \<longleftrightarrow> (\<exists>f d. dev_connection d = Disconnected \<and> handle_run (DeviceHandle_new f d) h)"

definition fair_others :: "others \<Rightarrow> bool" where
  "fair_others others \<longleftrightarrow> (\<forall>k h. handle_run h (others k h))"

lemma on_actor_simps [simp]:
  "fst (on_actor f h) = fst (f (dh_actor h))" "dh_actor (snd (on_actor f h)) = snd (f (dh_actor h))"
  by (simp_all add: on_actor_def split: prod.splits)

lemma device_info_actor:
  "dh_actor (snd (handle_apply_device_info t r h)) =
    (if handle_epoch h = Some (et_epoch t) then
       (case r of Inl e \<Rightarrow> dh_actor h | Inr info \<Rightarrow> snd (actor_apply_device_info info (dh_actor h)))
     else dh_actor h)"
proof -
  have "dh_actor h' = snd (actor_apply_device_info info (dh_actor h))"
    if "on_actor (actor_apply_device_info info) h = (x, h')" for info x h'
    using that on_actor_simps(2) [of "actor_apply_device_info info" h] by simp
  then show ?thesis by (auto simp: handle_apply_device_info_def split: sum.splits prod.splits)
qed

lemma step_inv: "handle_step h h' \<Longrightarrow> actor_inv (dh_actor h) \<Longrightarrow> actor_inv (dh_actor h')"
proof (induction rule: handle_step.cases)
  case (device_replied h t r)
  then show ?case by (auto simp: device_info_actor handle_epoch_def info_inv split: sum.splits)
qed (auto simp: bump_heartbeat_def Let_def apply_heartbeat_def heartbeat_inv bump_pairing_def
    handle_apply_pairing_created_def created_inv poll_inv clear_handle_def clear_inv)

lemma handle_run_inv: "handle_run h h' \<Longrightarrow> actor_inv (dh_actor h) \<Longrightarrow> actor_inv (dh_actor h')"
  by (induction rule: rtranclp_induct) (auto intro: step_inv)

lemma live_inv: "live_handle h \<Longrightarrow> actor_inv (dh_actor h)"
  unfolding live_handle_def using handle_run_inv new_inv by (fastforce simp: DeviceHandle_new_def)

lemma live_run: "live_handle h \<Longrightarrow> handle_run h h' \<Longrightarrow> live_handle h'"
  unfolding live_handle_def by (meson rtranclp_trans)

section \<open>Sessions only grow\<close>

text \<open>The same session, with at most its missing publication key filled in.\<close>

definition extends :: "AuthenticatedPiSession \<Rightarrow> AuthenticatedPiSession \<Rightarrow> bool" where
  "extends s s' \<longleftrightarrow> as_token s' = as_token s \<and> as_tls_pin s' = as_tls_pin s \<and> as_epoch s' = as_epoch s \<and>
    (as_publication_key s = None \<or> as_publication_key s' = as_publication_key s)"

lemma extends_refl [simp]: "extends s s" by (simp add: extends_def)

lemma extends_trans: "extends s t \<Longrightarrow> extends t u \<Longrightarrow> extends s u"
  by (auto simp: extends_def)

definition later :: "DeviceActor \<Rightarrow> DeviceActor \<Rightarrow> bool" where
  "later a b \<longleftrightarrow> dev_tls_fingerprint (da_device b) = dev_tls_fingerprint (da_device a) \<and>
    (da_next_epoch a < da_next_epoch b \<or>
     da_next_epoch a = da_next_epoch b \<and>
       (case da_session b of None \<Rightarrow> True | Some s' \<Rightarrow> \<exists>s. da_session a = Some s \<and> extends s s'))"

lemma later_refl [simp]: "later a a"
  by (simp add: later_def split: option.splits)

lemma later_trans: "later a b \<Longrightarrow> later b c \<Longrightarrow> later a c"
  by (fastforce simp: later_def intro: extends_trans split: option.splits)

lemma later_heartbeat: "later a (snd (apply_heartbeat_result e r a))"
  by (auto simp: apply_heartbeat_result_def later_def set_connection_def split: sum.splits option.splits)

lemma later_info: "later a (snd (actor_apply_device_info info a))"
  by (auto simp: actor_apply_device_info_def bind_publication_key_def ensure_publication_key_def
      result_bind_Inr_iff later_def extends_def split: sum.splits option.splits if_splits)

lemma later_poll:
  assumes "unat (da_next_epoch a) < u64_max" "da_session a = None \<or> \<not> is_pairing a"
  shows "later a (snd (apply_pairing_status i r a))"
proof (cases "is_pairing a")
  case True
  have "da_next_epoch a < da_next_epoch a + 1" using u64_succ_greater [OF assms(1)] .
  then have "later a (snd (pairing_allowed i token key a))" for token key
    by (auto simp: pairing_allowed_def Let_def later_def set_connection_def split: option.splits sum.splits)
  moreover have "later a (pairing_failed c a)" "later a (set_connection c a)" for c
    by (auto simp: pairing_failed_def later_def set_connection_def split: option.splits)
  ultimately show ?thesis
    by (auto simp: apply_pairing_status_def split: sum.splits PairingPhase.splits)
qed (auto simp: apply_pairing_status_def is_pairing_def split: ConnectionState.splits)

lemma step_later:
  assumes "handle_step h h'" "actor_inv (dh_actor h)" shows "later (dh_actor h) (dh_actor h')"
  using assms
proof (induction rule: handle_step.cases)
  case (pairing_polled h i r)
  have "da_session (dh_actor h) = None \<or> \<not> is_pairing (dh_actor h)"
    using pairing_polled by (auto simp: actor_defs split: option.splits ConnectionState.splits)
  with pairing_polled later_poll show ?case by simp
next
  case (device_replied h t r)
  then show ?case by (auto simp: device_info_actor later_info split: sum.splits)
next
  case (pairing_created h c)
  then show ?case by (simp add: handle_apply_pairing_created_def actor_apply_pairing_created_def later_def set_connection_def)
next
  case (cleared h)
  then show ?case by (simp add: clear_handle_def clear_connection_state_def later_def set_connection_def)
qed (auto simp: bump_heartbeat_def Let_def apply_heartbeat_def later_heartbeat bump_pairing_def)

lemma run_later:
  assumes "handle_run h h'" "actor_inv (dh_actor h)" shows "later (dh_actor h) (dh_actor h')"
  using assms
proof (induction rule: rtranclp_induct)
  case (step x y)
  then show ?case using later_trans step_later handle_run_inv by blast
qed simp

section \<open>Fences\<close>

lemma session_epoch:
  assumes "actor_inv (dh_actor h)"
  shows "checkout_session h = Some s \<Longrightarrow>
      handle_epoch h = Some (as_epoch s) \<and> as_epoch s = da_next_epoch (dh_actor h) \<and>
      as_tls_pin s = dev_tls_fingerprint (da_device (dh_actor h))"
    "handle_epoch h = Some e \<Longrightarrow> \<exists>s. checkout_session h = Some s \<and> as_epoch s = e"
  using assms by (auto simp: actor_inv_def session_inv_def checkout_session_def handle_epoch_def split: option.splits)

lemma same_epoch_same_session:
  assumes "live_handle h" "handle_run h h'"
    and "checkout_session h = Some s" "checkout_session h' = Some s'" "as_epoch s' = as_epoch s"
  shows "extends s s'"
proof -
  note i = live_inv [OF assms(1)]
  have "later (dh_actor h) (dh_actor h')" by (rule run_later [OF assms(2) i])
  moreover have "da_next_epoch (dh_actor h') = da_next_epoch (dh_actor h)"
    using session_epoch(1) [OF i assms(3)] session_epoch(1) [OF handle_run_inv [OF assms(2) i] assms(4)] assms(5) by simp
  ultimately show ?thesis using assms(3,4) by (auto simp: later_def checkout_session_def)
qed

text \<open>A fence that still holds has held all along.\<close>

lemma fence_held:
  assumes "live_handle h" "handle_run h x" "handle_run x y"
    and "checkout_session h = Some s" "checkout_session x = Some sx" "handle_epoch y = Some (as_epoch s)"
  shows "extends s sx" "\<exists>sy. checkout_session y = Some sy \<and> extends sx sy"
proof -
  note i = live_inv [OF assms(1)]
  note ix = handle_run_inv [OF assms(2) i]
  obtain sy where sy: "checkout_session y = Some sy" "as_epoch sy = as_epoch s"
    using session_epoch(2) [OF handle_run_inv [OF assms(3) ix] assms(6)] by blast
  have "da_next_epoch (dh_actor h) \<le> da_next_epoch (dh_actor x)" "da_next_epoch (dh_actor x) \<le> da_next_epoch (dh_actor y)"
    using run_later [OF assms(2) i] run_later [OF assms(3) ix] by (auto simp: later_def)
  then have e: "as_epoch sx = as_epoch s"
    using session_epoch(1) [OF i assms(4)] session_epoch(1) [OF ix assms(5)]
      session_epoch(1) [OF handle_run_inv [OF assms(3) ix] sy(1)] sy(2) by simp
  then show "extends s sx" by (rule same_epoch_same_session [OF assms(1,2,4,5)])
  show "\<exists>sy. checkout_session y = Some sy \<and> extends sx sy"
    using same_epoch_same_session [OF live_run [OF assms(1,2)] assms(3,5) sy(1)] sy e by simp
qed

text \<open>
  C15.  In every reachable state a device holds a session exactly while it is connected, under
  the epoch of that connection, with a non-empty token and the pin of the device itself; a
  device that is not connected holds no token and no trusted key, and only a device that
  is pairing holds a poll secret.
\<close>

theorem handle_secrets:
  assumes "live_handle h"
  shows "case checkout_session h of
      Some s \<Rightarrow> handle_epoch h = Some (as_epoch s) \<and> as_epoch s \<noteq> 0 \<and> expose_secret (as_token s) \<noteq> [] \<and>
        as_tls_pin s = dev_tls_fingerprint (da_device (dh_actor h)) \<and> da_poll_secret (dh_actor h) = None
    | None \<Rightarrow> handle_epoch h = None \<and> expected_publication_key (dh_actor h) = None \<and>
        (da_poll_secret (dh_actor h) \<noteq> None \<longleftrightarrow> is_pairing (dh_actor h))"
proof -
  note i = live_inv [OF assms, unfolded actor_inv_def]
  show ?thesis
  proof (cases "da_session (dh_actor h)")
    case None
    then show ?thesis using i
      by (simp add: checkout_session_def handle_epoch_def expected_publication_key_def option_or_def)
  next
    case (Some s)
    then have "session_inv (dh_actor h) s" using i by simp
    moreover from this have "\<not> is_pairing (dh_actor h)"
      by (auto simp: session_inv_def current_epoch_def is_pairing_def split: ConnectionState.splits)
    then have "da_poll_secret (dh_actor h) = None" using i by blast
    ultimately show ?thesis using Some
      by (auto simp: checkout_session_def handle_epoch_def session_inv_def secret_is_empty_def)
  qed
qed

text \<open>
  C13.  The trust anchor of a session does not move.  Whatever the device answers and
  however operations interleave, as long as the connection epoch is the same the session
  is the same: the same token and pin, and a publication key, once there, stays.
\<close>

theorem publication_key_is_fixed:
  assumes "live_handle h" "handle_run h h'"
    and "checkout_session h = Some s" "checkout_session h' = Some s'" "handle_epoch h' = handle_epoch h"
    and "as_publication_key s = Some key"
  shows "as_publication_key s' = Some key \<and> as_token s' = as_token s \<and> as_tls_pin s' = as_tls_pin s"
proof -
  have "as_epoch s' = as_epoch s"
    using session_epoch(1) [OF live_inv [OF assms(1)] assms(3)] assms(5)
      session_epoch(1) [OF live_inv [OF live_run [OF assms(1,2)]] assms(4)] by simp
  from same_epoch_same_session [OF assms(1-4) this] assms(6) show ?thesis by (simp add: extends_def)
qed

text \<open>
  C16.  A late heartbeat reply cannot end a newer session.  A reply is either stale, and
  then changes nothing, or the session it was asked under is still the current one.
\<close>

theorem heartbeat_hits_its_session:
  assumes "live_handle h" "fair_others others" "issue_heartbeat_ticket others h = (Some t, h1)"
    and "handle_run h1 h2" "apply_heartbeat t r h2 = (out, h3)"
  shows "out = HbStale \<and> h3 = h2 \<or>
    (\<exists>s s'. checkout_session h = Some s \<and> checkout_session h2 = Some s' \<and> as_token s' = as_token s)"
proof -
  obtain s where s: "checkout_session h = Some s" "(t, h1) = bump_heartbeat s (others 0 h)"
    using assms(3) by (auto simp: issue_heartbeat_ticket_def split: option.splits prod.splits)
  have "handle_run h (others 0 h)" using assms(2) by (simp add: fair_others_def)
  moreover have "handle_step (others 0 h) h1"
    using handle_step.heartbeat_issued [of "others 0 h" s] s(2) by (metis snd_conv)
  ultimately have run: "handle_run h h2" using assms(4) by (meson rtranclp.rtrancl_into_rtrancl rtranclp_trans)
  have t: "ht_epoch t = as_epoch s" using s(2) by (simp add: bump_heartbeat_def Let_def)
  show ?thesis
  proof (cases "handle_epoch h2 = Some (as_epoch s)")
    case True
    obtain s2 where s2: "checkout_session h2 = Some s2" "as_epoch s2 = as_epoch s"
      using session_epoch(2) [OF live_inv [OF live_run [OF assms(1) run]] True] by blast
    have "extends s s2" by (rule same_epoch_same_session [OF assms(1) run s(1) s2])
    then have "as_token s2 = as_token s" by (simp add: extends_def)
    then show ?thesis using s(1) s2(1) by blast
  next
    case False
    then have "apply_heartbeat_result (ht_epoch t) r (dh_actor h2) = (HbStale, dh_actor h2)"
      by (simp add: apply_heartbeat_result_def t handle_epoch_def)
    then show ?thesis using assms(5) by (auto simp: apply_heartbeat_def on_actor_def split: if_splits)
  qed
qed

lemma refreshed_binds:
  assumes "actor_inv (dh_actor h)" "handle_apply_device_info t (Inr info) h = (Refreshed, h')"
  shows "\<exists>s. checkout_session h' = Some s \<and> as_epoch s = et_epoch t \<and> as_publication_key s \<noteq> None"
proof -
  have fence: "handle_epoch h = Some (et_epoch t)"
    and eff: "fst (actor_apply_device_info info (dh_actor h)) = Inr ()"
      "dh_actor h' = snd (actor_apply_device_info info (dh_actor h))"
    using assms(2) by (auto simp: handle_apply_device_info_def on_actor_def split: if_splits prod.splits sum.splits)
  obtain s where s: "da_session (dh_actor h) = Some s" "as_epoch s = et_epoch t"
    using session_epoch(2) [OF assms(1) fence] by (auto simp: checkout_session_def)
  then show ?thesis using eff
    by (auto simp: actor_apply_device_info_def bind_publication_key_def result_bind_Inr_iff checkout_session_def
        split: sum.splits)
qed

lemma detail_fenced:
  assumes "live_handle h" "fair_others others" "handle_run h x" "checkout_session h = Some s0"
    and "checkout_session x = Some s" "fetch_detail others \<lparr>et_epoch = as_epoch s0\<rparr> get_session s x = (DetailFetched detail, h')"
  shows "get_session s = Inr detail \<and> extends s0 s \<and> (\<exists>s'. checkout_session h' = Some s' \<and> extends s s')"
proof -
  have h': "handle_epoch h' = Some (as_epoch s0)" "get_session s = Inr detail" "h' = others 4 (others 3 x)"
    using assms(6) by (auto simp: fetch_detail_def Let_def split: if_splits sum.splits)
  have "handle_run x h'" using assms(2) h'(3) unfolding fair_others_def by (metis rtranclp_trans)
  from fence_held [OF assms(1,3) this assms(4,5) h'(1)] h'(2) show ?thesis by blast
qed

text \<open>
  C14.  A session detail is never accepted unverified or across a reconnect.  When
  \<open>get_session\<close> reports a detail, it was read under a session with a bound
  publication key, which is the session the request began with and still the
  current one, whatever the device answered and whatever happened meanwhile.
\<close>

theorem fetched_detail_is_bound:
  assumes "live_handle h" "fair_others others"
    and "get_session_with others get_device get_session h = (DetailFetched detail, h')"
  shows "\<exists>s0 s s'. checkout_session h = Some s0 \<and> extends s0 s \<and> get_session s = Inr detail \<and>
    as_publication_key s \<noteq> None \<and> checkout_session h' = Some s' \<and> extends s s'"
proof -
  have go: "handle_run y (others k y)" for k y using assms(2) by (simp add: fair_others_def)
  obtain s0 where s0: "checkout_session h = Some s0" "issue_epoch_ticket h = Some \<lparr>et_epoch = as_epoch s0\<rparr>"
    using assms(3) by (auto simp: get_session_with_def issue_epoch_ticket_def split: option.splits)
  let ?t = "\<lparr>et_epoch = as_epoch s0\<rparr>"
  note D = detail_fenced [OF assms(1,2) _ s0(1)]
  obtain s where s: "checkout_session (others 0 h) = Some s"
    using assms(3) s0(2) by (auto simp: get_session_with_def Let_def split: option.splits)
  show ?thesis
  proof (cases "as_publication_key s")
    case (Some key)
    then have "fetch_detail others ?t get_session s (others 0 h) = (DetailFetched detail, h')"
      using assms(3) s0(2) s by (simp add: get_session_with_def Let_def)
    from D [OF go s this] s0(1) Some show ?thesis by blast
  next
    case None
    let ?h1 = "others 1 (others 0 h)"
    obtain info h2 s' where r: "handle_apply_device_info ?t (Inr info) ?h1 = (Refreshed, h2)"
      "checkout_session (others 2 h2) = Some s'"
      "fetch_detail others ?t get_session s' (others 2 h2) = (DetailFetched detail, h')"
      using assms(3) s0(2) s None
      by (auto simp: get_session_with_def Let_def split: sum.splits prod.splits RefreshApplyOutcome.splits option.splits)
    have r1: "handle_run h ?h1" using go rtranclp_trans by metis
    have "handle_step ?h1 h2" using handle_step.device_replied [of ?h1 ?t "Inr info"] r(1) by simp
    then have r2: "handle_run h h2" using r1 by (rule rtranclp.rtrancl_into_rtrancl [rotated])
    then have r3: "handle_run h (others 2 h2)" using go rtranclp_trans by metis
    obtain sb where sb: "checkout_session h2 = Some sb" "as_epoch sb = as_epoch s0" "as_publication_key sb \<noteq> None"
      using refreshed_binds [OF live_inv [OF live_run [OF assms(1) r1]] r(1)] by auto
    note F = D [OF r3 r(2,3)]
    then have "as_epoch s' = as_epoch sb" using sb(2) by (auto simp: extends_def)
    from same_epoch_same_session [OF live_run [OF assms(1) r2] go sb(1) r(2) this] sb(3)
    have "as_publication_key s' \<noteq> None" by (auto simp: extends_def)
    then show ?thesis using F s0(1) by blast
  qed
qed

text \<open>
  C38.  A superseded pairing can still be installed.  \<open>start_pairing\<close> checks its ticket
  and takes the lock of the actor in two steps; a disconnect that runs between them
  is undone: the device ends pairing, with its poll secret, under a ticket that is no
  longer current.
\<close>

theorem superseded_pairing_is_installed:
  "\<exists>info h'. start_pairing_with (\<lambda>k x. if k = 1 then disconnect_local (\<lambda>_ y. y) x else x)
      (\<lambda>_ _. Inr c) name nonce h = (Inr info, h') \<and>
    checkout_pairing_poll (dh_actor h') = Some (pc_attempt_id c, pc_poll_secret c) \<and>
    \<not> pairing_ticket_is_current (fst (issue_pairing_ticket h)) h'"
  by (auto simp: start_pairing_with_def issue_pairing_ticket_def pairing_ticket_is_current_def bump_pairing_def
      handle_apply_pairing_created_def on_actor_def actor_apply_pairing_created_def disconnect_local_def
      clear_handle_def checkout_pairing_poll_def set_connection_def Let_def)

text \<open>The byte-wise comparison of secrets, which looks at every byte, is equality.\<close>

theorem secret_eq_is_equality: "secret_eq a b \<longleftrightarrow> a = b"
proof -
  have "secret_eq a b \<longleftrightarrow> as_bytes (expose_secret a) = as_bytes (expose_secret b)"
    by (auto simp: secret_eq_def Let_def fold_xor_zero dest: as_bytes_inj)
  then show ?thesis using as_bytes_inj by (auto intro: Secret.expand)
qed

section \<open>A paired device\<close>

definition demo_device :: Device where
  "demo_device = \<lparr>dev_device_id = fp_device_id loner, dev_name = ''pi'', dev_tls_fingerprint = fp_tls_pin loner,
     dev_discovery = Online, dev_connection = Disconnected, dev_capture_activity = CaptureUnknown\<rparr>"

definition demo_key :: string where
  "demo_key = ''sha256:'' @ replicate 64 (CHR ''0'')"

definition demo_created :: PairingCreatedView where
  "demo_created = \<lparr>pc_attempt_id = ''a1'', pc_phase = Pending, pc_poll_secret = ''poll'', pc_sas = ''123456'',
     pc_expires_at = ''later'', pc_sas_key = None\<rparr>"

definition demo_allowed :: PairingStatusView where
  "demo_allowed = \<lparr>ps_attempt_id = ''a1'', ps_phase = Allowed, ps_connection_token = Some ''tok'', ps_sas = ''123456'',
     ps_expires_at = ''later'', ps_sas_key = None\<rparr>"

definition demo_info :: DeviceInfoView where
  "demo_info = \<lparr>dv_capture_activity = CaptureIdle, dv_media_admission = ''open'', dv_publication_key = demo_key\<rparr>"

definition demo_paired :: DeviceHandle where
  "demo_paired = snd (on_actor (apply_pairing_status ''a1'' (Inr demo_allowed))
     (snd (handle_apply_pairing_created demo_created (DeviceHandle_new loner demo_device))))"

definition demo_bound :: DeviceHandle where
  "demo_bound = snd (handle_apply_device_info \<lparr>et_epoch = 1\<rparr> (Inr demo_info) demo_paired)"

lemma demo_sessions:
  "checkout_session demo_paired = Some \<lparr>as_token = Secret ''tok'', as_tls_pin = fp_tls_pin loner,
     as_publication_key = None, as_epoch = 1\<rparr>"
  "checkout_session demo_bound = Some \<lparr>as_token = Secret ''tok'', as_tls_pin = fp_tls_pin loner,
     as_publication_key = Some demo_key, as_epoch = 1\<rparr>"
  by code_simp+

lemma demo_live: "live_handle demo_paired" "live_handle demo_bound" "handle_run demo_paired demo_bound"
proof -
  let ?new = "DeviceHandle_new loner demo_device"
  let ?created = "snd (handle_apply_pairing_created demo_created ?new)"
  have "handle_step ?new ?created" by (rule handle_step.pairing_created)
  moreover have "da_next_epoch (dh_actor ?created) = 0" by code_simp
  then have "unat (da_next_epoch (dh_actor ?created)) < u64_max" by (simp add: u64_max_def)
  then have "handle_step ?created demo_paired" unfolding demo_paired_def by (rule handle_step.pairing_polled)
  ultimately have "handle_run ?new demo_paired" by (meson r_into_rtranclp rtranclp.rtrancl_into_rtrancl)
  moreover have "dev_connection demo_device = Disconnected" by (simp add: demo_device_def)
  ultimately show l: "live_handle demo_paired" unfolding live_handle_def by blast
  show r: "handle_run demo_paired demo_bound"
    unfolding demo_bound_def by (rule r_into_rtranclp) (rule handle_step.device_replied)
  show "live_handle demo_bound" by (rule live_run [OF l r])
qed

theorem handle_secrets_witness:
  "\<exists>s. checkout_session demo_bound = Some s \<and> handle_epoch demo_bound = Some (as_epoch s) \<and>
    expose_secret (as_token s) = ''tok'' \<and> da_poll_secret (dh_actor demo_bound) = None"
  using handle_secrets [OF demo_live(2)] by (simp add: demo_sessions)

text \<open>A device that starts to present another key changes nothing.\<close>

definition demo_rotated :: DeviceHandle where
  "demo_rotated = snd (handle_apply_device_info \<lparr>et_epoch = 1\<rparr>
     (Inr (demo_info\<lparr>dv_publication_key := ''sha256:'' @ replicate 64 (CHR ''1'')\<rparr>)) demo_bound)"

theorem publication_key_is_fixed_witness:
  "\<exists>s'. checkout_session demo_rotated = Some s' \<and> as_publication_key s' = Some demo_key \<and> as_token s' = Secret ''tok''"
proof -
  have "handle_run demo_bound demo_rotated"
    unfolding demo_rotated_def by (rule r_into_rtranclp) (rule handle_step.device_replied)
  moreover have "checkout_session demo_rotated \<noteq> None" "handle_epoch demo_rotated = handle_epoch demo_bound" by code_simp+
  ultimately show ?thesis
    using publication_key_is_fixed [OF demo_live(2) _ demo_sessions(2), of demo_rotated] by auto
qed

lemma fair_id: "fair_others (\<lambda>k h. h)"
  by (simp add: fair_others_def)

text \<open>The device is paired again while a heartbeat of the old session is under way.\<close>

definition demo_repaired :: "DeviceHandle \<Rightarrow> DeviceHandle" where
  "demo_repaired h = snd (on_actor (apply_pairing_status ''a1'' (Inr (demo_allowed\<lparr>ps_connection_token := Some ''new''\<rparr>)))
     (snd (handle_apply_pairing_created demo_created h)))"

theorem heartbeat_hits_its_session_witness:
  "\<exists>t h1. issue_heartbeat_ticket (\<lambda>k h. h) demo_bound = (Some t, h1) \<and>
    (let h2 = demo_repaired h1; r = Inl \<lparr>pe_kind = PiUnauthorized, pe_message = ''401''\<rparr> in
     apply_heartbeat t r h2 = (HbStale, h2) \<and> handle_epoch h2 = Some 2)"
proof -
  let ?t = "\<lparr>ht_epoch = 1, ht_attempt = 1\<rparr>" and ?h1 = "demo_bound\<lparr>dh_heartbeat_attempts := 1\<rparr>"
  let ?h2 = "demo_repaired ?h1" and ?r = "Inl \<lparr>pe_kind = PiUnauthorized, pe_message = ''401''\<rparr>"
  let ?created = "snd (handle_apply_pairing_created demo_created ?h1)"
  have i: "issue_heartbeat_ticket (\<lambda>k h. h) demo_bound = (Some ?t, ?h1)" by code_simp
  have "handle_step ?h1 ?created" by (rule handle_step.pairing_created)
  moreover have "da_next_epoch (dh_actor ?created) = 1" by code_simp
  then have "unat (da_next_epoch (dh_actor ?created)) < u64_max" by (simp add: u64_max_def)
  then have "handle_step ?created ?h2" unfolding demo_repaired_def by (rule handle_step.pairing_polled)
  ultimately have run: "handle_run ?h1 ?h2" by (meson r_into_rtranclp rtranclp.rtrancl_into_rtrancl)
  have out: "fst (apply_heartbeat ?t ?r ?h2) = HbStale" "handle_epoch ?h2 = Some 2"
    "map_option as_token (checkout_session ?h2) = Some (Secret ''new'')" by code_simp+
  from heartbeat_hits_its_session [OF demo_live(2) fair_id i run, of ?r "fst (apply_heartbeat ?t ?r ?h2)"
      "snd (apply_heartbeat ?t ?r ?h2)"]
  have "snd (apply_heartbeat ?t ?r ?h2) = ?h2" using out(3) demo_sessions(2) by auto
  then have "apply_heartbeat ?t ?r ?h2 = (HbStale, ?h2)" using out(1) by (metis prod.collapse)
  then show ?thesis using i out(2) unfolding Let_def by blast
qed

theorem fetched_detail_is_bound_witness:
  "\<exists>h' s. get_session_with (\<lambda>k h. h) (\<lambda>_. Inr demo_info) (\<lambda>s. Inr (as_publication_key s)) demo_paired =
      (DetailFetched (Some demo_key), h') \<and> checkout_session h' = Some s \<and>
    as_publication_key s = Some demo_key \<and> as_token s = Secret ''tok''"
proof -
  let ?r = "get_session_with (\<lambda>k h. h) (\<lambda>_. Inr demo_info) (\<lambda>s. Inr (as_publication_key s)) demo_paired"
  have "fst ?r = DetailFetched (Some demo_key)" by code_simp
  then obtain h' where r: "?r = (DetailFetched (Some demo_key), h')" by (metis prod.collapse)
  from fetched_detail_is_bound [OF demo_live(1) fair_id r] obtain s where
    "checkout_session h' = Some s" "as_publication_key s = Some demo_key" "as_token s = Secret ''tok''"
    by (auto simp: demo_sessions extends_def)
  with r show ?thesis by blast
qed

section \<open>A sweep of two devices by two workers\<close>

definition demo_twins :: "DeviceHandle list" where
  "demo_twins = [DeviceHandle_new twin_b demo_device, DeviceHandle_new twin_a demo_device]"

definition demo_visit :: "DeviceHandle \<Rightarrow> string option" where
  "demo_visit h = Some (fp_display_id (dh_fingerprint h))"

abbreviation demo_report :: "DeviceFingerprint \<Rightarrow> DeviceFingerprint \<times> string" where
  "demo_report f \<equiv> (f, fp_display_id f)"

definition demo_pool :: "nat \<Rightarrow> WorkerPhase list \<Rightarrow> (DeviceFingerprint \<times> string) list \<Rightarrow> string Pool" where
  "demo_pool n ws rs = \<lparr>pool_next = n, pool_workers = ws, pool_results = rs\<rparr>"

lemma demo_sweep:
  "(pool_step demo_visit demo_twins ^^ 6) (sweep_start 2 demo_twins)
    (demo_pool 4 [Left, Left] [demo_report twin_a, demo_report twin_b])"
proof -
  let ?step = "pool_step demo_visit demo_twins"
  have start: "sweep_start 2 demo_twins = demo_pool 0 [Claiming, Claiming] []"
    by (simp add: sweep_start_def demo_pool_def sweep_workers_def demo_twins_def numeral_2_eq_2)
  have len: "length demo_twins = 2" by (simp add: demo_twins_def)
  have r: "report demo_visit (demo_twins ! 0) = [demo_report twin_b]" "report demo_visit (demo_twins ! 1) = [demo_report twin_a]"
    by (simp_all add: report_def demo_visit_def demo_twins_def DeviceHandle_new_def)
  have "?step (demo_pool 0 [Claiming, Claiming] []) (demo_pool 1 [Visiting 0, Claiming] [])"
    using pool_step.claim [of 0 "demo_pool 0 [Claiming, Claiming] []" demo_twins demo_visit] by (simp add: demo_pool_def len)
  moreover have "?step (demo_pool 1 [Visiting 0, Claiming] []) (demo_pool 2 [Visiting 0, Visiting 1] [])"
    using pool_step.claim [of 1 "demo_pool 1 [Visiting 0, Claiming] []" demo_twins demo_visit]
    by (simp add: demo_pool_def len numeral_2_eq_2)
  moreover have "?step (demo_pool 2 [Visiting 0, Visiting 1] []) (demo_pool 2 [Visiting 0, Claiming] [demo_report twin_a])"
    using pool_step.visited [of 1 "demo_pool 2 [Visiting 0, Visiting 1] []" 1 demo_visit demo_twins] by (simp add: demo_pool_def r [simplified])
  moreover have "?step (demo_pool 2 [Visiting 0, Claiming] [demo_report twin_a])
      (demo_pool 2 [Claiming, Claiming] [demo_report twin_a, demo_report twin_b])"
    using pool_step.visited [of 0 "demo_pool 2 [Visiting 0, Claiming] [demo_report twin_a]" 0 demo_visit demo_twins]
    by (simp add: demo_pool_def r [simplified])
  moreover have "?step (demo_pool 2 [Claiming, Claiming] rs) (demo_pool 3 [Left, Claiming] rs)" for rs
    using pool_step.leave [of 0 "demo_pool 2 [Claiming, Claiming] rs" demo_twins demo_visit] by (simp add: demo_pool_def len eval_nat_numeral)
  moreover have "?step (demo_pool 3 [Left, Claiming] rs) (demo_pool 4 [Left, Left] rs)" for rs
    using pool_step.leave [of 1 "demo_pool 3 [Left, Claiming] rs" demo_twins demo_visit] by (simp add: demo_pool_def len eval_nat_numeral)
  ultimately show ?thesis unfolding start by (auto simp: eval_nat_numeral intro!: relcomppI)
qed

theorem sweep_is_sequential_witness:
  "\<exists>p. (pool_step demo_visit demo_twins)\<^sup>*\<^sup>* (sweep_start 2 demo_twins) p \<and>
    for_each_device demo_twins p = reports demo_visit (sort_key dh_fingerprint demo_twins) \<and> pool_results p \<noteq> []"
proof -
  let ?p = "demo_pool 4 [Left, Left] [demo_report twin_a, demo_report twin_b]"
  have run: "(pool_step demo_visit demo_twins)\<^sup>*\<^sup>* (sweep_start 2 demo_twins) ?p"
    using demo_sweep by (rule relpowp_imp_rtranclp)
  have "distinct (map dh_fingerprint demo_twins)" by code_simp
  moreover have "sweep_over ?p" by (simp add: sweep_over_def demo_pool_def)
  ultimately show ?thesis using sweep_is_sequential [OF _ run] run by (force simp: demo_pool_def)
qed

theorem sweep_ends_witness:
  "sweep_over (demo_pool 4 [Left, Left] [demo_report twin_a, demo_report twin_b]) \<and>
    6 = 2 * length demo_twins + sweep_workers 2 demo_twins"
  using sweep_ends [OF demo_sweep] by (simp add: demo_twins_def sweep_workers_def sweep_over_def demo_pool_def)

end
