(* ===== verification/Spec2Isabelle.thy ===== *)
theory Spec2Isabelle
  imports Coordinator_Properties Staged_Transfer Fleet_Properties
begin

text \<open>
  YLX Transfer: the transfer core.

  YLX Transfer moves recorded sessions from capture devices into a local library.
  The crate \<open>src-tauri/crates/ylx-transfer-core\<close> holds the logic; this development
  models its transfer path, from the durable job to the verified file on disk.  All
  paths below are relative to that crate's \<open>src\<close> directory.

  \<^bold>\<open>Parts and their theories.\<close>

  \<^item> Shared machinery (\<open>Prelude\<close>): results as sums with \<open>result_bind\<close>, \<open>u64\<close>
    arithmetic (checked, saturating, wrapping), lookups in lists of rows, the
    collections of simplification rules the other theories fill.  \<open>Text\<close>: characters,
    trimming, decimal and hexadecimal numbers as the Rust standard library treats them.

  \<^item> Job states (\<open>Job_State\<close>; \<open>transfer/mod.rs\<close>, \<open>persistence/schema.rs\<close>,
    \<open>transfer/queue.rs\<close>): the states, the legal graph, the persisted tags, the second
    copy of the graph in the schema and the codec between them.  \<open>Device_State\<close>
    (\<open>device/mod.rs\<close>): what the coordinator sees of a device and its readiness.

  \<^item> Devices: \<open>Device_Identity\<close> (\<open>device/identity.rs\<close>) has fingerprints, the identifiers
    derived from them and their resolution; \<open>Device_Actor\<close> (\<open>device/actor.rs\<close>,
    \<open>secret.rs\<close>) the life cycle of one connection, from pairing to the authenticated
    session and its publication key; \<open>Device_Fleet\<close> (\<open>device/fleet.rs\<close>) the handles whose
    network calls run without a lock and whose replies are fenced, and the concurrent
    sweep over all devices.

  \<^item> The reducer (\<open>Job_Aggregate\<close>; \<open>transfer/aggregate.rs\<close>): a pure function from an
    aggregate and a command to an outcome and a list of effects.  Its lemmas say that
    the commits of any decision walk the legal graph with consecutive versions.

  \<^item> The ready queue (\<open>Work_Queue\<close>; \<open>transfer/scheduler.rs\<close>), the target leases and job
    controls (\<open>Leases\<close>; \<open>transfer/aggregate.rs\<close>, \<open>transfer/queue.rs\<close>), progress
    (\<open>Progress\<close>; \<open>transfer/progress.rs\<close>) as sequences of atomic steps.

  \<^item> The job specification (\<open>Job_Spec\<close>; \<open>domain/mod.rs\<close>, \<open>transfer/queue.rs\<close>): validated
    construction, natural key, request digest, conversion to and from execution
    requests.

  \<^item> Files (\<open>File_System\<close>): the part of the standard library's file system the program
    uses, as a disk with nodes, links, a fault schedule and a clock of operations.  On
    it \<open>Download_Path\<close>, \<open>Download_Journal\<close>, \<open>Download_Range\<close>, \<open>Download_Engine\<close>
    (\<open>library/download.rs\<close>) and \<open>Artifact\<close> (\<open>library/artifact.rs\<close>).

  \<^item> Staging and publication (\<open>library/staging.rs\<close>): \<open>Disk_Tree\<close> has directory
    trees on the disk and what a rename does to them, \<open>Session_Staging\<close> the staging area
    of a revision, the manifest, the seal, the publishing rename with its rollback and
    the clean-up, \<open>Selected_Publication\<close> the file-by-file publication of a selection with
    its trash and its own marker.

  \<^item> The durable store (\<open>persistence/transfer_store.rs\<close>, \<open>persistence/schema.rs\<close>):
    \<open>Store_Rows\<close> has the tables with their constraints and the row readers,
    \<open>Transfer_Store\<close> the state, intent and ledger updates and the listings, \<open>Store_Jobs\<close>
    creation and completion, \<open>Store_Retry\<close> retries, dismissal, deletion, retargeting.
    A transaction is a function from the tables to an error or the new tables.

  \<^item> The coordinator (\<open>transfer/coordinator.rs\<close>, \<open>transfer/recovery.rs\<close>,
    \<open>transfer/fault.rs\<close>): \<open>Fault\<close> has the faults and the classification of failures,
    \<open>Coordinator\<close> the shared state and every command, \<open>Dispatcher\<close> the periodic pass,
    the worker loop, panics, shutdown and the snapshots.

  \<^item> The commit boundary (\<open>Session_Commit\<close>; \<open>library/download.rs\<close>):
    \<open>commit_staged_session\<close> with its verification, its cross-checks and the publication in
    the scope of the job.

  \<^item> The data plane of a worker (\<open>Data_Plane\<close>; \<open>transfer/queue.rs\<close>,
    \<open>transfer/coordinator.rs\<close>): the tracking source that watches the interrupt flag and
    checkpoints the ledger, \<open>run_transfer\<close> and \<open>do_commit\<close> over a world, which is the
    coordinator's state and the disk.

  \<^bold>\<open>How the parts meet.\<close>  A command enters \<open>apply_checked\<close>, which loads the aggregate
  from memory, lets the reducer decide and performs the effects; a commit goes to the
  store first and is published in memory only when the store accepted it.  The
  dispatcher observes devices and offers jobs to the ready queue; a worker claims a
  job, takes the lease of its target and walks it through \<open>process_job\<close>, which calls
  the data plane: \<open>run_transfer\<close> downloads every file of the job into the staging area,
  \<open>do_commit\<close> publishes the session.  \<open>plane_at\<close> plugs the modelled data plane into the
  worker's \<open>Plane\<close>; \<open>world_pass\<close> is one pass of a worker over state and disk.  The interfaces
  are locales: \<open>job_graph\<close> (domain and schema graph), \<open>ready_queue\<close>,
  \<open>exclusive_table\<close>, \<open>lifecycle_store\<close> (the store as a life cycle of jobs) and
  \<open>versioned_rows\<close> (what the coordinator needs of the store), each interpreted on the
  model's definitions.

  \<^bold>\<open>What the lemmas show.\<close>

  \<^item> \<open>Store_Invariant\<close>, \<open>Store_Lifecycle\<close>, \<open>Store_References\<close>, \<open>Store_Creation\<close>,
    \<open>Store_Properties\<close>, \<open>Store_Ledger\<close>: every sequence of store operations keeps the
    tables consistent (unique keys, references, readable rows) and refines an abstract
    life cycle; an outcome is recorded exactly once and is not lost before it has been
    acknowledged; specifications survive the round trip through the tables; ledger rows
    never move backwards.

  \<^item> \<open>Coherence\<close>, \<open>Coordinator_Runs\<close>, \<open>Coordinator_Properties\<close>: under any interleaving
    of commands, workers, dispatcher passes and other clients of the store, and
    whatever writes fail, memory agrees with the database; commands commit what the
    reducer decided; stale commands change nothing; recovery loses nothing.

  \<^item> \<open>Coordinator_Liveness\<close>: commands on live jobs succeed as long as counters fit their
    columns, hence a worker with a succeeding data plane completes its job and a job
    that is not publishing can be cancelled.

  \<^item> The download theories: a file is committed only after its size and hash were
    checked on disk, whatever the server sends and whichever operation fails; recovery
    never trusts more bytes than the journal and the partial file support; targets stay
    below the library root.

  \<^item> The staging theories: \<open>Staging_Frame\<close> bounds what each step of sealing and
    publishing touches; \<open>Staging_Publish\<close> shows that publishing is all or nothing for
    every pattern of failing operations; \<open>Staging_Seal\<close> that a published session is
    exactly its manifest; \<open>Staging_Recovery\<close> that failed attempts followed by a working
    one converge to the staged tree, and the one gap the rollback leaves;
    \<open>Staging_Progress\<close> that a complete staging area is sealed and published when the
    disk works, the fuel of \<open>fsync_tree\<close> being enough (\<open>fsync_tree_ok\<close>).

  \<^item> \<open>Fleet_Properties\<close>: under any interleaving of a handle's atomic actions and any
    replies, a session is held exactly while connected, its publication key never
    changes, a reply of an older session changes nothing, a catalogue detail was read
    under a bound key of the current session, and a sweep gives the result of visiting
    the devices one by one; and one window in which a superseded pairing is installed.

  \<^item> \<open>Session_Commit\<close> shows that a commit is all or nothing and \<open>Worker_World\<close> joins the
    two halves of the program: memory and database stay coherent whatever the sources
    and the disk do, a job the database records as succeeded has its session published
    exactly as the request asks, a complete staging area is published and recorded,
    and an interrupt cuts a download promptly; \<open>Staged_Transfer\<close> that a transfer
    which reports all files done has staged every one of them, because a download stays
    within its own target, its side files and the directories above (\<open>transfer_scope\<close>).

  \<^bold>\<open>Bounds and fuel.\<close>  Versions, sizes and counters are 64-bit words; where the code
  stores them in SQLite's signed column the bound \<open>i64_max\<close> appears.  The fuel of
  \<open>process_loop\<close> is its number of passes: a pass that continues moves the job one state
  further, and five passes cover the path from any parked state to success
  (\<open>worker_loop_succeeds\<close>).  \<open>collect_files\<close> and \<open>fsync_tree\<close> get one more unit than the
  disk has nodes; on a disk whose nodes lie in directories a walk is never deeper than
  that (\<open>listing_succeeds\<close>).  A sweep of the fleet takes two steps per device and one per worker
  (\<open>sweep_ends\<close>); the epoch counter of a device is assumed not to wrap, which takes
  \<open>2 ^ 64\<close> connections.  Loops over attempts and bodies are structurally recursive.

  \<^bold>\<open>Arguments of the model.\<close>  SHA-256, the JSON codec of the journal, the clock, random
  job identifiers, the server's responses, device status and the publication verifier
  are arguments of the definitions that use them, and so is the JSON codec of the two
  session markers.  Other threads are the arguments
  \<open>others\<close> and \<open>between\<close> at the points where the code holds no lock.  A \<open>Feed\<close> is what
  the engine reads from the source of a file together with what the tracking wrapper and
  other threads do to the coordinator's state meanwhile; the texts of errors are arguments
  too.

  \<^bold>\<open>Not modelled.\<close>  Poisoned locks.  Symbolic links in the middle of a path: an operation resolves a
  link only at the end of its path, so the link checks of the program are modelled and
  a link planted above a checked path is not followed.  The upload, application and derived-media stores; ingest from removable
  media; the legacy import; the adapters for HTTP, media tools and devices; the Tauri
  application and the frontend.  SQLite itself is modelled only as far as its
  constraints reach the program: atomic transactions on the tables above.
\<close>

end
